(* ===== verification/Prelude.thy ===== *)
theory Prelude
  imports Main "HOL-Library.AList" "HOL-Library.Char_ord" "HOL-Library.List_Lexorder" "HOL-Library.Word"
begin

text \<open>
  What the component theories share: the model's basic types (identifiers, instants,
  durations, Go maps), the parts of Go's standard library the sources use
  (\<open>strings.TrimSpace\<close>, \<open>strings.HasPrefix\<close>, \<open>time.Time.Sub\<close>, \<open>slices.Sort\<close>, map indexing),
  and the lemma collections that carry the component proofs.
\<close>

named_theorems go_simps \<open>equations about Go's maps, strings and times\<close>
named_theorems inv_intros \<open>preservation rules for the components' invariants\<close>

section \<open>Basic types\<close>

text \<open>
  A \<open>uuid.UUID\<close> is sixteen bytes. \<open>UUID.String\<close> prints fixed-length lowercase hex, so comparing
  the printed forms is comparing the numbers.
\<close>

type_synonym uuid = "128 word"

abbreviation uuid_Nil :: uuid where
  "uuid_Nil \<equiv> 0"

text \<open>
  An instant is the number of nanoseconds since Go's zero time (1 January of year 1), which is
  the value \<open>IsZero\<close> recognises. A duration is a signed 64-bit count of nanoseconds;
  \<open>Time.Sub\<close> saturates at the ends of that range, and multiplying durations wraps.
\<close>

type_synonym gtime = int

type_synonym duration = int

definition max_duration :: duration where
  "max_duration = 2 ^ 63 - 1"

definition min_duration :: duration where
  "min_duration = - (2 ^ 63)"

definition IsZero :: "gtime \<Rightarrow> bool" where
  "IsZero t \<longleftrightarrow> t = 0"

definition time_Sub :: "gtime \<Rightarrow> gtime \<Rightarrow> duration" where
  "time_Sub t u = max min_duration (min max_duration (t - u))"

definition wrap64 :: "int \<Rightarrow> int" where
  "wrap64 x = (x + 2 ^ 63) mod 2 ^ 64 - 2 ^ 63"

definition Seconds :: "int \<Rightarrow> duration" where
  "Seconds n = wrap64 (n * 1000000000)"

definition Minutes :: "int \<Rightarrow> duration" where
  "Minutes n = wrap64 (n * 60000000000)"

lemma wrap64_id [go_simps]: "- (2 ^ 63) \<le> x \<Longrightarrow> x < 2 ^ 63 \<Longrightarrow> wrap64 x = x"
  by (simp add: wrap64_def)

lemma Seconds_small [go_simps]: "0 \<le> n \<Longrightarrow> n \<le> 9000000000 \<Longrightarrow> Seconds n = n * 1000000000"
  unfolding Seconds_def by (rule wrap64_id) auto

lemma Minutes_small [go_simps]: "0 \<le> n \<Longrightarrow> n \<le> 150000000 \<Longrightarrow> Minutes n = n * 60000000000"
  unfolding Minutes_def by (rule wrap64_id) auto

lemma time_Sub_le [go_simps]:
  "min_duration \<le> d \<Longrightarrow> d < max_duration \<Longrightarrow> time_Sub t u \<le> d \<longleftrightarrow> t - u \<le> d"
  by (auto simp: time_Sub_def)

lemma time_Sub_gt [go_simps]:
  "min_duration \<le> d \<Longrightarrow> d < max_duration \<Longrightarrow> d < time_Sub t u \<longleftrightarrow> d < t - u"
  by (auto simp: time_Sub_def)

section \<open>Go maps\<close>

text \<open>
  A Go map is an association list with distinct keys. Go leaves the iteration order of a map
  unspecified; here it is the order of the list, so a statement about every list covers every
  iteration order. Indexing a missing key yields the value type's zero value.
\<close>

type_synonym ('k, 'v) gomap = "('k \<times> 'v) list"

definition gomap_ok :: "('k, 'v) gomap \<Rightarrow> bool" where
  "gomap_ok m \<longleftrightarrow> distinct (map fst m)"

definition go_get :: "'v \<Rightarrow> ('k, 'v) gomap \<Rightarrow> 'k \<Rightarrow> 'v" where
  "go_get zero m k = (case map_of m k of None \<Rightarrow> zero | Some v \<Rightarrow> v)"

definition has_key :: "('k, 'v) gomap \<Rightarrow> 'k \<Rightarrow> bool" where
  "has_key m k \<longleftrightarrow> map_of m k \<noteq> None"

definition go_keys :: "('k, 'v) gomap \<Rightarrow> 'k list" where
  "go_keys m = map fst m"

lemma has_key_iff [go_simps]: "has_key m k \<longleftrightarrow> k \<in> set (go_keys m)"
  unfolding has_key_def go_keys_def by (simp add: map_of_eq_None_iff)

lemma go_get_Some [go_simps]: "map_of m k = Some v \<Longrightarrow> go_get z m k = v"
  by (simp add: go_get_def)

lemma gomap_ok_Nil [simp]: "gomap_ok []"
  by (simp add: gomap_ok_def)

lemma gomap_ok_update [simp, inv_intros]: "gomap_ok m \<Longrightarrow> gomap_ok (AList.update k v m)"
  unfolding gomap_ok_def by (rule distinct_update)

lemma gomap_ok_in [go_simps]: "gomap_ok m \<Longrightarrow> (k, v) \<in> set m \<longleftrightarrow> map_of m k = Some v"
  by (simp add: gomap_ok_def)

text \<open>Two orders of one map have the same lookups.\<close>

lemma gomap_ok_perm:
  assumes "gomap_ok m" and "set m = set n" and "gomap_ok n"
  shows "map_of m = map_of n"
  using assms by (auto simp: gomap_ok_def intro: map_of_inject_set [THEN iffD2])

lemma ex_gomap_in: "gomap_ok m \<Longrightarrow> (\<exists>(k, v) \<in> set m. P k v) \<longleftrightarrow> (\<exists>k v. map_of m k = Some v \<and> P k v)"
  by (force simp: gomap_ok_in)

lemma all_gomap_in: "gomap_ok m \<Longrightarrow> (\<forall>(k, v) \<in> set m. P k v) \<longleftrightarrow> (\<forall>k v. map_of m k = Some v \<longrightarrow> P k v)"
  by (auto simp: gomap_ok_in)

lemma find_SomeD: "find P xs = Some x \<Longrightarrow> x \<in> set xs \<and> P x"
  by (induction xs) (auto split: if_splits)

section \<open>SQL's three-valued logic\<close>

text \<open>NULL is \<^const>\<open>None\<close>; a WHERE clause keeps a row only when its condition is \<open>Some True\<close>.\<close>

type_synonym sql_bool = "bool option"

definition sql_or :: "sql_bool \<Rightarrow> sql_bool \<Rightarrow> sql_bool" where
  "sql_or a b = (if a = Some True \<or> b = Some True then Some True
                 else if a = None \<or> b = None then None else Some False)"

definition sql_and :: "sql_bool \<Rightarrow> sql_bool \<Rightarrow> sql_bool" where
  "sql_and a b = (if a = Some False \<or> b = Some False then Some False
                  else if a = None \<or> b = None then None else Some True)"

definition sql_eq :: "'a option \<Rightarrow> 'a \<Rightarrow> sql_bool" where
  "sql_eq a b = map_option (\<lambda>x. x = b) a"

definition coalesce :: "'a \<Rightarrow> 'a option \<Rightarrow> 'a" where
  "coalesce z v = (case v of None \<Rightarrow> z | Some x \<Rightarrow> x)"

definition sql_not :: "sql_bool \<Rightarrow> sql_bool" where
  "sql_not a = map_option Not a"

text \<open>\<open>a = b\<close> and \<open>a < b\<close> between two nullable values.\<close>

definition sql_equal :: "'a option \<Rightarrow> 'a option \<Rightarrow> sql_bool" where
  "sql_equal a b = (case (a, b) of (Some x, Some y) \<Rightarrow> Some (x = y) | _ \<Rightarrow> None)"

definition sql_less :: "'a::ord option \<Rightarrow> 'a option \<Rightarrow> sql_bool" where
  "sql_less a b = (case (a, b) of (Some x, Some y) \<Rightarrow> Some (x < y) | _ \<Rightarrow> None)"

definition sql_true :: "sql_bool \<Rightarrow> bool" where
  "sql_true a \<longleftrightarrow> a = Some True"

lemma sql_true_simps [simp]:
  "sql_true (Some c) \<longleftrightarrow> c" "\<not> sql_true None"
  "sql_true (sql_or a b) \<longleftrightarrow> sql_true a \<or> sql_true b"
  "sql_true (sql_and a b) \<longleftrightarrow> sql_true a \<and> sql_true b"
  "sql_true (sql_eq v x) \<longleftrightarrow> v = Some x"
  "sql_true (sql_equal v w) \<longleftrightarrow> (\<exists>x. v = Some x \<and> w = Some x)"
  by (auto simp: sql_true_def sql_or_def sql_and_def sql_eq_def sql_equal_def split: option.split)

lemma sql_true_less [simp]: "sql_true (sql_less v w) \<longleftrightarrow> (\<exists>x y. v = Some x \<and> w = Some y \<and> x < y)"
  by (simp add: sql_less_def sql_true_def split: option.split)

lemma sql_true_map [simp]: "sql_true (map_option P v) \<longleftrightarrow> (\<exists>x. v = Some x \<and> P x)"
  by (cases v) (simp_all add: sql_true_def)

lemma coalesce_False [simp]: "coalesce False b = sql_true b"
  by (cases b) (simp_all add: coalesce_def)

section \<open>Strings\<close>

text \<open>A Go string is a sequence of bytes, here a \<^typ>\<open>string\<close>; \<open>len\<close> counts bytes.\<close>

definition byte :: "nat \<Rightarrow> char" where
  "byte n = char_of n"

text \<open>The UTF-8 encodings of the code points for which \<open>unicode.IsSpace\<close> holds.\<close>

definition space_encodings :: "string list" where
  "space_encodings = map (\<lambda>n. [byte n]) [9, 10, 11, 12, 13, 32]
     @ [[byte 0xC2, byte 0x85], [byte 0xC2, byte 0xA0], [byte 0xE1, byte 0x9A, byte 0x80]]
     @ map (\<lambda>n. [byte 0xE2, byte 0x80, byte n]) ([0x80..<0x8B] @ [0xA8, 0xA9, 0xAF])
     @ [[byte 0xE2, byte 0x81, byte 0x9F], [byte 0xE3, byte 0x80, byte 0x80]]"

definition strip_one :: "string list \<Rightarrow> string \<Rightarrow> string option" where
  "strip_one encs s =
     (case filter (\<lambda>e. take (length e) s = e) encs of
        [] \<Rightarrow> None
      | e # _ \<Rightarrow> if e = [] then None else Some (drop (length e) s))"

lemma strip_one_shorter: "strip_one encs s = Some t \<Longrightarrow> length t < length s"
proof -
  assume h: "strip_one encs s = Some t"
  then obtain e es where f: "filter (\<lambda>e. take (length e) s = e) encs = e # es" and "e \<noteq> []"
      and t: "t = drop (length e) s"
    by (auto simp: strip_one_def split: list.splits if_splits)
  from f have "e \<in> set (filter (\<lambda>e. take (length e) s = e) encs)" by simp
  then have "take (length e) s = e" by simp
  with \<open>e \<noteq> []\<close> have "s \<noteq> []" by (cases s) auto
  with \<open>e \<noteq> []\<close> t show ?thesis by (cases e; cases s) auto
qed

function strip_all :: "string list \<Rightarrow> string \<Rightarrow> string" where
  "strip_all encs s = (case strip_one encs s of None \<Rightarrow> s | Some t \<Rightarrow> strip_all encs t)"
  by pat_completeness auto
termination
  by (relation "measure (\<lambda>(encs, s). length s)") (auto dest: strip_one_shorter)

declare strip_all.simps [simp del]

definition TrimSpace :: "string \<Rightarrow> string" where
  "TrimSpace s = rev (strip_all (map rev space_encodings) (rev (strip_all space_encodings s)))"

definition HasPrefix :: "string \<Rightarrow> string \<Rightarrow> bool" where
  "HasPrefix s p \<longleftrightarrow> take (length p) s = p"

lemma append_cons_unique:
  "a \<notin> set xs \<Longrightarrow> a \<notin> set ys \<Longrightarrow> xs @ a # us = ys @ a # vs \<Longrightarrow> xs = ys \<and> us = vs"
  by (induction xs arbitrary: ys) (auto simp: Cons_eq_append_conv append_eq_Cons_conv)

text \<open>\<open>strings.Join\<close>\<close>

fun Join :: "string list \<Rightarrow> string \<Rightarrow> string" where
  "Join [] sep = []"
| "Join [x] sep = x"
| "Join (x # y # xs) sep = x @ sep @ Join (y # xs) sep"

text \<open>Character classes of the sources' regular expressions.\<close>

definition is_digit :: "char \<Rightarrow> bool" where
  "is_digit c \<longleftrightarrow> CHR ''0'' \<le> c \<and> c \<le> CHR ''9''"

definition is_lower :: "char \<Rightarrow> bool" where
  "is_lower c \<longleftrightarrow> CHR ''a'' \<le> c \<and> c \<le> CHR ''z''"

definition is_upper :: "char \<Rightarrow> bool" where
  "is_upper c \<longleftrightarrow> CHR ''A'' \<le> c \<and> c \<le> CHR ''Z''"

definition is_alnum :: "char \<Rightarrow> bool" where
  "is_alnum c \<longleftrightarrow> is_digit c \<or> is_lower c \<or> is_upper c"

text \<open>
  The token patterns all have the shape \<open>^[first][rest]{0,n}$\<close>: one character of a first class and
  at most \<open>n\<close> of a second.
\<close>

definition token_match :: "(char \<Rightarrow> bool) \<Rightarrow> (char \<Rightarrow> bool) \<Rightarrow> nat \<Rightarrow> string \<Rightarrow> bool" where
  "token_match first rest n s =
     (case s of [] \<Rightarrow> False | c # cs \<Rightarrow> first c \<and> length cs \<le> n \<and> list_all rest cs)"

lemma token_match_length: "token_match f r n s \<Longrightarrow> 0 < length s \<and> length s \<le> Suc n"
  by (auto simp: token_match_def split: list.splits)

lemma token_match_nonempty: "token_match f r n s \<Longrightarrow> s \<noteq> []"
  by (auto simp: token_match_def)

text \<open>Lowercase hexadecimal, and the printed form of an identifier.\<close>

definition hex_digits :: string where
  "hex_digits = ''0123456789abcdef''"

definition uuid_nibbles :: "uuid \<Rightarrow> nat list" where
  "uuid_nibbles u = map (\<lambda>i. unat (take_bit 4 (drop_bit (4 * (31 - i)) u))) [0..<32]"

definition uuid_String :: "uuid \<Rightarrow> string" where
  "uuid_String u =
     (let h = map (\<lambda>n. hex_digits ! n) (uuid_nibbles u)
      in take 8 h @ ''-'' @ take 4 (drop 8 h) @ ''-'' @ take 4 (drop 12 h) @ ''-''
         @ take 4 (drop 16 h) @ ''-'' @ drop 20 h)"

lemma length_uuid_String [simp]: "length (uuid_String u) = 36"
  by (simp add: uuid_String_def uuid_nibbles_def Let_def)

text \<open>The printed form identifies the identifier.\<close>

lemma hex_digits_inj: "m < 16 \<Longrightarrow> n < 16 \<Longrightarrow> hex_digits ! m = hex_digits ! n \<Longrightarrow> m = n"
proof -
  have "distinct hex_digits" "length hex_digits = 16" by (simp_all add: hex_digits_def)
  then show "m < 16 \<Longrightarrow> n < 16 \<Longrightarrow> hex_digits ! m = hex_digits ! n \<Longrightarrow> m = n"
    by (simp add: nth_eq_iff_index_eq)
qed

lemma uuid_nibble_less: "unat (take_bit 4 (w :: uuid)) < 16"
  using take_bit_nat_less_exp [of 4 "unat w"] by (simp add: unsigned_take_bit_eq)

lemma uuid_nibbles_inj:
  assumes "uuid_nibbles u = uuid_nibbles v"
  shows "u = v"
proof (rule bit_word_eqI)
  fix n assume n: "n < LENGTH(128)"
  define i where "i = 31 - n div 4"
  have i: "i < 32" "31 - i = n div 4" using n by (auto simp: i_def)
  from assms i(1) have "uuid_nibbles u ! i = uuid_nibbles v ! i" by simp
  with i have "take_bit 4 (drop_bit (4 * (n div 4)) u) = take_bit 4 (drop_bit (4 * (n div 4)) v)"
    by (simp add: uuid_nibbles_def) (simp add: word_unat_eq_iff)
  then have "bit (take_bit 4 (drop_bit (4 * (n div 4)) u)) (n mod 4) = bit (take_bit 4 (drop_bit (4 * (n div 4)) v)) (n mod 4)"
    by simp
  then show "bit u n \<longleftrightarrow> bit v n" by (simp add: bit_take_bit_iff bit_drop_bit_eq)
qed

lemma uuid_String_inj [simp]: "uuid_String u = uuid_String v \<longleftrightarrow> u = v"
proof
  assume eq: "uuid_String u = uuid_String v"
  define hu hv where "hu = map (\<lambda>n. hex_digits ! n) (uuid_nibbles u)" and "hv = map (\<lambda>n. hex_digits ! n) (uuid_nibbles v)"
  have len: "length hu = 32" "length hv = 32" by (simp_all add: hu_def hv_def uuid_nibbles_def)
  from eq have parts: "take 8 hu = take 8 hv" "take 4 (drop 8 hu) = take 4 (drop 8 hv)" "take 4 (drop 12 hu) = take 4 (drop 12 hv)"
      "take 4 (drop 16 hu) = take 4 (drop 16 hv)" "drop 20 hu = drop 20 hv"
    by (simp_all add: uuid_String_def Let_def hu_def [symmetric] hv_def [symmetric] len)
  have cut: "h = take 8 h @ take 4 (drop 8 h) @ take 4 (drop 12 h) @ take 4 (drop 16 h) @ drop 20 h" for h :: string
  proof -
    have step: "take n (drop m h) @ drop (m + n) h = drop m h" for m n
      by (metis append_take_drop_id drop_drop add.commute)
    show ?thesis using step [of 4 8] step [of 4 12] step [of 4 16] by simp
  qed
  have h: "hu = hv" using cut [of hu] cut [of hv] parts by simp
  have range: "n < 16" if "n \<in> set (uuid_nibbles w)" for n w
    using that uuid_nibble_less by (auto simp: uuid_nibbles_def)
  have "uuid_nibbles u = uuid_nibbles v"
  proof (rule map_inj_on [OF h [unfolded hu_def hv_def]])
    show "inj_on (\<lambda>n. hex_digits ! n) (set (uuid_nibbles u) \<union> set (uuid_nibbles v))"
      using hex_digits_inj range by (intro inj_onI) blast
  qed
  then show "u = v" by (rule uuid_nibbles_inj)
qed simp

text \<open>\<open>strconv.FormatInt(n, 10)\<close>.\<close>

fun nat_digits :: "nat \<Rightarrow> string" where
  "nat_digits n = (if n < 10 then [char_of (48 + n)] else nat_digits (n div 10) @ [char_of (48 + n mod 10)])"

declare nat_digits.simps [simp del]

definition FormatInt :: "int \<Rightarrow> string" where
  "FormatInt n = (if n < 0 then CHR ''-'' # nat_digits (nat (- n)) else nat_digits (nat n))"

definition digits_value :: "string \<Rightarrow> nat" where
  "digits_value s = foldl (\<lambda>a c. 10 * a + (of_char c - 48)) 0 s"

lemma digits_value_nat_digits: "digits_value (nat_digits n) = n"
proof (induction n rule: nat_digits.induct)
  case (1 n)
  have small: "of_char (char_of (48 + a) :: char) = 48 + a" if "a < 10" for a :: nat
    using that by (simp add: of_char_of)
  show ?case
  proof (cases "n < 10")
    case True
    then show ?thesis by (subst nat_digits.simps) (simp add: digits_value_def small)
  next
    case False
    with 1 have "foldl (\<lambda>a c. 10 * a + (of_char c - 48)) 0 (nat_digits (n div 10)) = n div 10"
      by (simp add: digits_value_def)
    with False show ?thesis
      by (subst nat_digits.simps) (simp add: digits_value_def small)
  qed
qed

lemma nat_digits_inj: "nat_digits m = nat_digits n \<Longrightarrow> m = n"
  by (metis digits_value_nat_digits)

section \<open>Loops that stop at the first error\<close>

text \<open>\<open>for _, x := range xs { if err := f(x); err != nil { return err } }\<close>\<close>

fun first_error :: "('a \<Rightarrow> 'e option) \<Rightarrow> 'a list \<Rightarrow> 'e option" where
  "first_error f [] = None"
| "first_error f (x # xs) = (case f x of None \<Rightarrow> first_error f xs | Some e \<Rightarrow> Some e)"

lemma first_error_None [simp]: "first_error f xs = None \<longleftrightarrow> (\<forall>x \<in> set xs. f x = None)"
  by (induction xs) (auto split: option.splits)

lemma first_error_Some: "first_error f xs = Some e \<Longrightarrow> \<exists>x \<in> set xs. f x = Some e"
  by (induction xs) (auto split: option.splits)

text \<open>A guard: the error when the condition holds.\<close>

definition refuse_if :: "bool \<Rightarrow> 'e \<Rightarrow> 'e option" where
  "refuse_if b e = (if b then Some e else None)"

lemma refuse_if_None [simp]: "refuse_if b e = None \<longleftrightarrow> \<not> b"
  by (simp add: refuse_if_def)

lemma refuse_if_simps [simp]: "refuse_if True e = Some e" "refuse_if False e = None"
  by (simp_all add: refuse_if_def)

text \<open>Straight-line code with early error returns: the first refusal of a list of checks.\<close>

fun first_refusal :: "'e option list \<Rightarrow> 'e option" where
  "first_refusal [] = None"
| "first_refusal (r # rs) = (case r of None \<Rightarrow> first_refusal rs | Some e \<Rightarrow> Some e)"

lemma first_refusal_None [simp]: "first_refusal rs = None \<longleftrightarrow> (\<forall>r \<in> set rs. r = None)"
  by (induction rs) (auto split: option.splits)

text \<open>Sequencing of fallible steps, with the error on the left.\<close>

definition bind_res :: "'e + 'a \<Rightarrow> ('a \<Rightarrow> 'e + 'b) \<Rightarrow> 'e + 'b" where
  "bind_res r f = (case r of Inl e \<Rightarrow> Inl e | Inr a \<Rightarrow> f a)"

lemma bind_res_simps [simp]: "bind_res (Inl e) f = Inl e" "bind_res (Inr a) f = f a"
  by (simp_all add: bind_res_def)

lemma bind_res_Inr [simp]: "bind_res r f = Inr b \<longleftrightarrow> (\<exists>a. r = Inr a \<and> f a = Inr b)"
  by (cases r) auto

definition guard_res :: "'e option \<Rightarrow> 'e + 'a \<Rightarrow> 'e + 'a" where
  "guard_res g r = (case g of Some e \<Rightarrow> Inl e | None \<Rightarrow> r)"

lemma guard_res_simps [simp]: "guard_res (Some e) r = Inl e" "guard_res None r = r"
  by (simp_all add: guard_res_def)

lemma guard_res_Inr [simp]: "guard_res g r = Inr a \<longleftrightarrow> g = None \<and> r = Inr a"
  by (cases g) auto

section \<open>Transition systems\<close>

text \<open>
  The contract between a stateful component and the clients that run it: an initial state, a step
  for each request, and an invariant that both keep. Every run then keeps it.
\<close>

locale state_machine =
  fixes init :: "'s \<Rightarrow> bool"
    and step :: "'s \<Rightarrow> 'r \<Rightarrow> 's \<Rightarrow> bool"
    and invariant :: "'s \<Rightarrow> bool"
  assumes init_invariant: "init s \<Longrightarrow> invariant s"
    and step_invariant: "step s r t \<Longrightarrow> invariant s \<Longrightarrow> invariant t"
begin

inductive reachable :: "'s \<Rightarrow> bool" where
  start: "init s \<Longrightarrow> reachable s"
| move: "reachable s \<Longrightarrow> step s r t \<Longrightarrow> reachable t"

lemma reachable_invariant: "reachable s \<Longrightarrow> invariant s"
  by (induction rule: reachable.induct) (auto intro: init_invariant step_invariant)

inductive run :: "'s \<Rightarrow> 'r list \<Rightarrow> 's \<Rightarrow> bool" where
  run_Nil: "run s [] s"
| run_Cons: "step s r t \<Longrightarrow> run t rs u \<Longrightarrow> run s (r # rs) u"

lemma run_invariant: "run s rs t \<Longrightarrow> invariant s \<Longrightarrow> invariant t"
  by (induction rule: run.induct) (auto intro: step_invariant)

lemma run_monotone:
  assumes "run s rs t"
    and le_refl: "\<And>s. le s s" and le_trans: "\<And>a b c. le a b \<Longrightarrow> le b c \<Longrightarrow> le a c"
    and step_le: "\<And>s r t. invariant s \<Longrightarrow> step s r t \<Longrightarrow> le s t"
    and "invariant s"
  shows "le s t"
  using assms(1,5)
  by (induction rule: run.induct) (blast intro: le_refl le_trans step_le step_invariant)+

end

end
