(* ===== verification/Api_Error.thy ===== *)
theory Api_Error
  imports Prelude
begin

text \<open>
  \<open>pkg/apierror/apierror.go\<close>: the structured error every handler and repository returns, its
  factories, and the rule that a response always carries a stable \<open>error_code\<close>. The code texts of
  \<open>catalog.go\<close> are translation data and are not modelled.
\<close>

text \<open>\<open>Context\<close> is a \<open>map[string]any\<close>; these are the values the modelled code stores in it.\<close>

datatype context_value =
    CtxText string
  | CtxUUID uuid
  | CtxTime gtime
  | CtxObject "(string \<times> context_value) list"

record Error =
  Code :: nat
  ErrorCode :: string
  Message :: string
  Details :: string
  Validation :: "(string, string) gomap"
  Context :: "(string, context_value) gomap"

definition plain_error :: "nat \<Rightarrow> string \<Rightarrow> string \<Rightarrow> Error" where
  "plain_error code ec msg =
     \<lparr>Code = code, ErrorCode = ec, Message = msg, Details = '''', Validation = [], Context = []\<rparr>"

definition StatusBadRequest :: nat where "StatusBadRequest = 400"
definition StatusUnauthorized :: nat where "StatusUnauthorized = 401"
definition StatusForbidden :: nat where "StatusForbidden = 403"
definition StatusNotFound :: nat where "StatusNotFound = 404"
definition StatusConflict :: nat where "StatusConflict = 409"
definition StatusGone :: nat where "StatusGone = 410"
definition StatusUnprocessableEntity :: nat where "StatusUnprocessableEntity = 422"
definition StatusLocked :: nat where "StatusLocked = 423"
definition StatusTooManyRequests :: nat where "StatusTooManyRequests = 429"
definition StatusInternalServerError :: nat where "StatusInternalServerError = 500"
definition StatusServiceUnavailable :: nat where "StatusServiceUnavailable = 503"

lemmas status_defs =
  StatusBadRequest_def StatusUnauthorized_def StatusForbidden_def StatusNotFound_def
  StatusConflict_def StatusGone_def StatusUnprocessableEntity_def StatusLocked_def
  StatusTooManyRequests_def StatusInternalServerError_def StatusServiceUnavailable_def

definition codeForStatus :: "nat \<Rightarrow> string" where
  "codeForStatus status =
     (if status = StatusBadRequest \<or> status = StatusUnprocessableEntity then ''bad_request''
      else if status = StatusUnauthorized then ''unauthorized''
      else if status = StatusForbidden then ''forbidden''
      else if status = StatusNotFound then ''not_found''
      else if status = StatusConflict then ''conflict''
      else if status = StatusTooManyRequests then ''rate_limited''
      else if status = StatusServiceUnavailable then ''service_unavailable''
      else ''internal_error'')"

text \<open>The value \<open>MarshalJSON\<close> encodes: an error built without a factory gets its status's code.\<close>

definition MarshalJSON :: "Error \<Rightarrow> Error" where
  "MarshalJSON e = (if ErrorCode e = '''' then e\<lparr>ErrorCode := codeForStatus (Code e)\<rparr> else e)"

text \<open>\<open>Error.Error()\<close>: \<open>[code] message\<close>, with \<open>: details\<close> when there are any.\<close>

definition Error_text :: "Error \<Rightarrow> string" where
  "Error_text e =
     (if Details e \<noteq> '''' then ''['' @ nat_digits (Code e) @ ''] '' @ Message e @ '': '' @ Details e
      else ''['' @ nat_digits (Code e) @ ''] '' @ Message e)"

definition BadRequest :: "string \<Rightarrow> Error" where
  "BadRequest msg = plain_error StatusBadRequest ''bad_request'' msg"

definition BadRequestWithDetails :: "string \<Rightarrow> string \<Rightarrow> Error" where
  "BadRequestWithDetails msg details = (plain_error StatusBadRequest ''bad_request'' msg)\<lparr>Details := details\<rparr>"

definition ValidationError :: "(string, string) gomap \<Rightarrow> Error" where
  "ValidationError fs =
     (plain_error StatusBadRequest ''validation_failed'' ''Validation failed'')\<lparr>Validation := fs\<rparr>"

definition or_default :: "string \<Rightarrow> string \<Rightarrow> string" where
  "or_default msg d = (if msg = '''' then d else msg)"

definition Unauthorized :: "string \<Rightarrow> Error" where
  "Unauthorized msg = plain_error StatusUnauthorized ''unauthorized'' (or_default msg ''Unauthorized'')"

definition Forbidden :: "string \<Rightarrow> Error" where
  "Forbidden msg = plain_error StatusForbidden ''forbidden'' (or_default msg ''Forbidden'')"

definition ForbiddenWithDetails :: "string \<Rightarrow> string \<Rightarrow> Error" where
  "ForbiddenWithDetails msg details = (plain_error StatusForbidden ''forbidden'' msg)\<lparr>Details := details\<rparr>"

definition NotFound :: "string \<Rightarrow> Error" where
  "NotFound resource = plain_error StatusNotFound ''not_found'' (resource @ '' not found'')"

definition NotFoundWithDetails :: "string \<Rightarrow> string \<Rightarrow> Error" where
  "NotFoundWithDetails resource details = (NotFound resource)\<lparr>Details := details\<rparr>"

definition Unprocessable :: "string \<Rightarrow> string \<Rightarrow> Error" where
  "Unprocessable msg details =
     (plain_error StatusUnprocessableEntity ''bad_request'' msg)\<lparr>Details := details\<rparr>"

definition Conflict :: "string \<Rightarrow> Error" where
  "Conflict msg = plain_error StatusConflict ''conflict'' msg"

definition TooManyRequests :: "string \<Rightarrow> Error" where
  "TooManyRequests msg = plain_error StatusTooManyRequests ''rate_limited'' (or_default msg ''Rate limit exceeded'')"

definition ServiceUnavailable :: "string \<Rightarrow> Error" where
  "ServiceUnavailable msg =
     plain_error StatusServiceUnavailable ''service_unavailable'' (or_default msg ''Service unavailable'')"

definition InternalError :: "string \<Rightarrow> Error" where
  "InternalError msg =
     plain_error StatusInternalServerError ''internal_error'' (or_default msg ''Internal server error'')"

lemmas apierror_defs =
  BadRequest_def BadRequestWithDetails_def ValidationError_def Unauthorized_def Forbidden_def
  ForbiddenWithDetails_def NotFound_def NotFoundWithDetails_def Unprocessable_def Conflict_def
  TooManyRequests_def ServiceUnavailable_def InternalError_def plain_error_def

lemma codeForStatus_nonempty: "codeForStatus n \<noteq> ''''"
  by (simp add: codeForStatus_def)

lemma MarshalJSON_carries_code: "ErrorCode (MarshalJSON e) \<noteq> ''''"
  by (simp add: MarshalJSON_def codeForStatus_nonempty)

lemma apierror_Code [simp]:
  "Code (BadRequest m) = 400" "Code (Forbidden m) = 403" "Code (NotFound m) = 404" "Code (Conflict m) = 409"
  by (simp_all add: apierror_defs status_defs)

text \<open>A factory whose code is not a special one agrees with the generic code of its status.\<close>

lemma factory_codes:
  "ErrorCode (Unauthorized m) = codeForStatus (Code (Unauthorized m))"
  "ErrorCode (Forbidden m) = codeForStatus (Code (Forbidden m))"
  "ErrorCode (NotFound m) = codeForStatus (Code (NotFound m))"
  "ErrorCode (Conflict m) = codeForStatus (Code (Conflict m))"
  "ErrorCode (TooManyRequests m) = codeForStatus (Code (TooManyRequests m))"
  "ErrorCode (ServiceUnavailable m) = codeForStatus (Code (ServiceUnavailable m))"
  "ErrorCode (InternalError m) = codeForStatus (Code (InternalError m))"
  "ErrorCode (Unprocessable m d) = codeForStatus (Code (Unprocessable m d))"
  by (simp_all add: apierror_defs codeForStatus_def status_defs)

end
