(* ===== verification/Runtime_Catalog.thy ===== *)
theory Runtime_Catalog
  imports Api_Error
begin

text \<open>
  \<open>internal/domain/runtime.go\<close>: the runtime catalog (controllers, accounts, pools, profiles,
  bindings), its reference validation, pool resolution, and the projection of the catalog onto one
  controller. The decoding of the stored JSON and the JSON-schema check are library code and are a
  parameter of the theories that load a catalog.
\<close>

section \<open>Data\<close>

definition IsRuntimeProvider :: "string \<Rightarrow> bool" where
  "IsRuntimeProvider p \<longleftrightarrow> p = ''runner'' \<or> p = ''agent_runtime''"

record RuntimeIdentity =
  ri_AgentID :: uuid
  ri_WorkspaceID :: uuid
  ri_GrantID :: uuid

record RuntimeController =
  rc_Host :: string
  rc_Version :: string
  rc_ReporterGrantID :: uuid
  rc_Capabilities :: "string list"
  rc_Enabled :: bool
  rc_HeartbeatMaxAgeSeconds :: int

record RuntimePool =
  rp_Provider :: string
  rp_ResourceRef :: string
  rp_Aliases :: "string list"
  rp_MaxConcurrency :: int
  rp_ThresholdRef :: string

record RuntimeAccount =
  ra_Provider :: string
  ra_CredentialRef :: string
  ra_QuotaPoolsByMode :: "(string, string list) gomap"

record RuntimeProfile =
  pf_ControllerRef :: string
  pf_AccountRef :: string
  pf_Harness :: string
  pf_Model :: string
  pf_ModelDeveloper :: string
  pf_ModelFamily :: string
  pf_ExecutionMode :: string
  pf_Capabilities :: "string list"
  pf_Enabled :: bool

record RuntimeQA =
  qa_Mode :: string
  qa_QuotaFallback :: bool

record RuntimePolicy =
  po_PrimaryProfiles :: "string list"
  po_QuotaEdges :: "(string, string list) gomap"
  po_PreferredAccounts :: "(string, string) gomap"
  po_APIReserveProviders :: "string list"
  po_MaxAttempts :: int
  po_EvidenceMaxAgeSeconds :: int
  po_QA :: RuntimeQA

record RuntimeBinding =
  rb_Binding :: RuntimeIdentity
  rb_PermittedProfiles :: "string list"
  rb_Policy :: RuntimePolicy
  rb_Enabled :: bool

record RuntimeCatalog =
  ca_SchemaVersion :: int
  ca_Controllers :: "(string, RuntimeController) gomap"
  ca_Accounts :: "(string, RuntimeAccount) gomap"
  ca_Pools :: "(string, RuntimePool) gomap"
  ca_Profiles :: "(string, RuntimeProfile) gomap"
  ca_Bindings :: "(string, RuntimeBinding) gomap"

text \<open>The zero values Go yields for a missing map key.\<close>

definition zero_controller :: RuntimeController where
  "zero_controller = \<lparr>rc_Host = '''', rc_Version = '''', rc_ReporterGrantID = uuid_Nil,
     rc_Capabilities = [], rc_Enabled = False, rc_HeartbeatMaxAgeSeconds = 0\<rparr>"

definition zero_pool :: RuntimePool where
  "zero_pool = \<lparr>rp_Provider = '''', rp_ResourceRef = '''', rp_Aliases = [], rp_MaxConcurrency = 0, rp_ThresholdRef = ''''\<rparr>"

definition zero_account :: RuntimeAccount where
  "zero_account = \<lparr>ra_Provider = '''', ra_CredentialRef = '''', ra_QuotaPoolsByMode = []\<rparr>"

definition zero_profile :: RuntimeProfile where
  "zero_profile = \<lparr>pf_ControllerRef = '''', pf_AccountRef = '''', pf_Harness = '''', pf_Model = '''',
     pf_ModelDeveloper = '''', pf_ModelFamily = '''', pf_ExecutionMode = '''', pf_Capabilities = [], pf_Enabled = False\<rparr>"

abbreviation Controllers_at :: "RuntimeCatalog \<Rightarrow> string \<Rightarrow> RuntimeController" where
  "Controllers_at c \<equiv> go_get zero_controller (ca_Controllers c)"

abbreviation Accounts_at :: "RuntimeCatalog \<Rightarrow> string \<Rightarrow> RuntimeAccount" where
  "Accounts_at c \<equiv> go_get zero_account (ca_Accounts c)"

abbreviation Pools_at :: "RuntimeCatalog \<Rightarrow> string \<Rightarrow> RuntimePool" where
  "Pools_at c \<equiv> go_get zero_pool (ca_Pools c)"

abbreviation Profiles_at :: "RuntimeCatalog \<Rightarrow> string \<Rightarrow> RuntimeProfile" where
  "Profiles_at c \<equiv> go_get zero_profile (ca_Profiles c)"

text \<open>A catalog decoded from JSON has maps with distinct keys.\<close>

definition catalog_ok :: "RuntimeCatalog \<Rightarrow> bool" where
  "catalog_ok c \<longleftrightarrow> gomap_ok (ca_Controllers c) \<and> gomap_ok (ca_Accounts c) \<and> gomap_ok (ca_Pools c)
     \<and> gomap_ok (ca_Profiles c) \<and> gomap_ok (ca_Bindings c)
     \<and> (\<forall>(n, a) \<in> set (ca_Accounts c). gomap_ok (ra_QuotaPoolsByMode a))
     \<and> (\<forall>(n, b) \<in> set (ca_Bindings c). gomap_ok (po_QuotaEdges (rb_Policy b)) \<and> gomap_ok (po_PreferredAccounts (rb_Policy b)))"

section \<open>Simple operations\<close>

text \<open>\<open>WithControllerVersion\<close>: one version for every controller; an empty one keeps the entries.\<close>

definition WithControllerVersion :: "string \<Rightarrow> RuntimeCatalog \<Rightarrow> RuntimeCatalog" where
  "WithControllerVersion v c =
     (if v = '''' then c
      else c\<lparr>ca_Controllers := map (\<lambda>(ref, ctrl). (ref, ctrl\<lparr>rc_Version := v\<rparr>)) (ca_Controllers c)\<rparr>)"

definition Redacted :: "RuntimeCatalog \<Rightarrow> RuntimeCatalog" where
  "Redacted c = c\<lparr>ca_Accounts := map (\<lambda>(ref, a). (ref, a\<lparr>ra_CredentialRef := ''''\<rparr>)) (ca_Accounts c)\<rparr>"

text \<open>\<open>NormalizeRuntimeConfig\<close>: a never-saved configuration reads as the empty catalog.\<close>

definition EmptyRuntimeCatalog :: string where
  "EmptyRuntimeCatalog =
     ''{\"schema_version\":2,\"controllers\":{},\"accounts\":{},\"pools\":{},\"profiles\":{},\"bindings\":{}}''"

definition NormalizeRuntimeConfig :: "string \<Rightarrow> string" where
  "NormalizeRuntimeConfig config =
     (let t = TrimSpace config in if length t = 0 \<or> t = ''{}'' then EmptyRuntimeCatalog else config)"

text \<open>\<open>^[a-zA-Z0-9][a-zA-Z0-9._:/-]{0,199}$\<close> and \<open>^[0-9A-Za-z][0-9A-Za-z.+_-]{0,63}$\<close>\<close>

definition ValidRuntimeRef :: "string \<Rightarrow> bool" where
  "ValidRuntimeRef s = token_match is_alnum (\<lambda>c. is_alnum c \<or> c \<in> set ''._:/-'') 199 s"

definition ValidRuntimeVersion :: "string \<Rightarrow> bool" where
  "ValidRuntimeVersion s = token_match is_alnum (\<lambda>c. is_alnum c \<or> c \<in> set ''.+_-'') 63 s"

text \<open>\<open>ResolvePool\<close>: a pool by its name, else the pool one of whose aliases it is.\<close>

definition ResolvePool :: "RuntimeCatalog \<Rightarrow> string \<Rightarrow> string option" where
  "ResolvePool c ref =
     (if has_key (ca_Pools c) ref then Some ref
      else map_option fst (find (\<lambda>(name, p). ref \<in> set (rp_Aliases p)) (ca_Pools c)))"

section \<open>Field errors\<close>

text \<open>
  \<open>RuntimeFieldErrors\<close> maps a dotted path to a reason code; \<open>add\<close> keeps the first code of a path.
\<close>

type_synonym RuntimeFieldErrors = "(string, string) gomap"

definition add :: "string \<Rightarrow> string list \<Rightarrow> RuntimeFieldErrors \<Rightarrow> RuntimeFieldErrors" where
  "add code path e =
     (let key = Join path ''.'' in if has_key e key then e else e @ [(key, code)])"

definition add_if :: "bool \<Rightarrow> string \<Rightarrow> string list \<Rightarrow> RuntimeFieldErrors \<Rightarrow> RuntimeFieldErrors" where
  "add_if b code path e = (if b then add code path e else e)"

definition orNil :: "RuntimeFieldErrors \<Rightarrow> RuntimeFieldErrors option" where
  "orNil e = (if e = [] then None else Some e)"

definition sortedKeys :: "(string, 'v) gomap \<Rightarrow> string list" where
  "sortedKeys m = sort (go_keys m)"

section \<open>Reference validation\<close>

text \<open>
  \<open>ValidateReferences\<close>, one definition per loop. The pool loop also carries the alias and the
  physical-resource sets it has seen; the binding loop the identities.
\<close>

definition pool_key :: "RuntimePool \<Rightarrow> string" where
  "pool_key p = rp_Provider p @ [byte 0] @ rp_ResourceRef p"

definition validate_alias ::
  "RuntimeCatalog \<Rightarrow> string \<Rightarrow> string \<Rightarrow> RuntimeFieldErrors \<times> string list \<Rightarrow> RuntimeFieldErrors \<times> string list" where
  "validate_alias c ref a = (\<lambda>(errs, aliases).
     (add_if (a = ref \<or> has_key (ca_Pools c) a \<or> a \<in> set aliases) ''duplicate'' [''pools'', ref, ''aliases''] errs,
      a # aliases))"

definition validate_pool ::
  "RuntimeCatalog \<Rightarrow> string \<Rightarrow> RuntimeFieldErrors \<times> string list \<times> string list
     \<Rightarrow> RuntimeFieldErrors \<times> string list \<times> string list" where
  "validate_pool c ref = (\<lambda>(errs, aliases, physical).
     (let p = Pools_at c ref;
          key = pool_key p;
          errs1 = add_if (key \<in> set physical) ''duplicate'' [''pools'', ref, ''resource_ref''] errs;
          (errs2, aliases2) = fold (validate_alias c ref) (rp_Aliases p) (errs1, aliases)
      in (errs2, aliases2, key # physical)))"

definition validate_pool_ref ::
  "RuntimeCatalog \<Rightarrow> string \<Rightarrow> RuntimeAccount \<Rightarrow> string \<Rightarrow> string \<Rightarrow> RuntimeFieldErrors \<Rightarrow> RuntimeFieldErrors" where
  "validate_pool_ref c name a mode ref errs =
     (case ResolvePool c ref of
        None \<Rightarrow> add ''missing_reference'' [''accounts'', name, ''quota_pools_by_mode'', mode] errs
      | Some pool \<Rightarrow>
          add_if (rp_Provider (Pools_at c pool) \<noteq> ra_Provider a)
            ''provider_mismatch'' [''accounts'', name, ''quota_pools_by_mode'', mode] errs)"

definition validate_account ::
  "RuntimeCatalog \<Rightarrow> string \<times> RuntimeAccount \<Rightarrow> RuntimeFieldErrors \<Rightarrow> RuntimeFieldErrors" where
  "validate_account c = (\<lambda>(name, a) errs.
     fold (\<lambda>(mode, refs). fold (validate_pool_ref c name a mode) refs) (ra_QuotaPoolsByMode a) errs)"

definition validate_profile ::
  "RuntimeCatalog \<Rightarrow> string \<times> RuntimeProfile \<Rightarrow> RuntimeFieldErrors \<Rightarrow> RuntimeFieldErrors" where
  "validate_profile c = (\<lambda>(name, p) errs0.
     (let controller = map_of (ca_Controllers c) (pf_ControllerRef p);
          errs1 = add_if (controller = None) ''missing_reference'' [''profiles'', name, ''controller_ref''] errs0;
          errs2 = (case map_of (ca_Accounts c) (pf_AccountRef p) of
             None \<Rightarrow> add ''missing_reference'' [''profiles'', name, ''account_ref''] errs1
           | Some account \<Rightarrow>
               add_if (go_get [] (ra_QuotaPoolsByMode account) (pf_ExecutionMode p) = [])
                 ''mode_without_pools'' [''profiles'', name, ''execution_mode''] errs1)
      in fold (\<lambda>cap. add_if (case controller of None \<Rightarrow> False | Some k \<Rightarrow> cap \<notin> set (rc_Capabilities k))
            ''capability_not_on_controller'' [''profiles'', name, ''capabilities'']) (pf_Capabilities p) errs2))"

definition validate_preferred ::
  "RuntimeCatalog \<Rightarrow> string \<Rightarrow> RuntimeBinding \<Rightarrow> string \<times> string \<Rightarrow> RuntimeFieldErrors \<Rightarrow> RuntimeFieldErrors" where
  "validate_preferred c name b = (\<lambda>(provider, account) errs.
     (let path = [''bindings'', name, ''policy'', ''preferred_accounts'']
      in case map_of (ca_Accounts c) account of
           None \<Rightarrow> add ''missing_reference'' path errs
         | Some a \<Rightarrow>
             add_if (\<not> list_ex (\<lambda>ref. pf_AccountRef (Profiles_at c ref) = account) (rb_PermittedProfiles b))
               ''not_permitted'' path
               (add_if (ra_Provider a \<noteq> provider) ''provider_mismatch'' path errs)))"

definition validate_edge ::
  "string \<Rightarrow> RuntimeBinding \<Rightarrow> string \<times> string list \<Rightarrow> RuntimeFieldErrors \<Rightarrow> RuntimeFieldErrors" where
  "validate_edge name b = (\<lambda>(from, targets) errs.
     fold (\<lambda>target. add_if (target \<notin> set (rb_PermittedProfiles b))
             ''not_permitted'' [''bindings'', name, ''policy'', ''quota_edges'']) targets
       (add_if (from \<notin> set (rb_PermittedProfiles b))
          ''not_permitted'' [''bindings'', name, ''policy'', ''quota_edges''] errs))"

definition validate_binding ::
  "RuntimeCatalog \<Rightarrow> string \<times> RuntimeBinding \<Rightarrow> RuntimeFieldErrors \<times> RuntimeIdentity list
     \<Rightarrow> RuntimeFieldErrors \<times> RuntimeIdentity list" where
  "validate_binding c = (\<lambda>(name, b) (errs0, identities).
     (let errs1 = add_if (rb_Binding b \<in> set identities) ''duplicate'' [''bindings'', name, ''binding''] errs0;
          errs2 = fold (\<lambda>ref. add_if (\<not> has_key (ca_Profiles c) ref)
                    ''missing_reference'' [''bindings'', name, ''permitted_profiles'']) (rb_PermittedProfiles b) errs1;
          errs3 = fold (\<lambda>ref. add_if (ref \<notin> set (rb_PermittedProfiles b))
                    ''not_permitted'' [''bindings'', name, ''policy'', ''primary_profiles''])
                    (po_PrimaryProfiles (rb_Policy b)) errs2;
          errs4 = fold (validate_edge name b) (po_QuotaEdges (rb_Policy b)) errs3;
          errs5 = fold (validate_preferred c name b) (po_PreferredAccounts (rb_Policy b)) errs4
      in (errs5, rb_Binding b # identities)))"

definition zero_policy :: RuntimePolicy where
  "zero_policy = \<lparr>po_PrimaryProfiles = [], po_QuotaEdges = [], po_PreferredAccounts = [],
     po_APIReserveProviders = [], po_MaxAttempts = 0, po_EvidenceMaxAgeSeconds = 0,
     po_QA = \<lparr>qa_Mode = '''', qa_QuotaFallback = False\<rparr>\<rparr>"

definition zero_binding :: RuntimeBinding where
  "zero_binding = \<lparr>rb_Binding = \<lparr>ri_AgentID = uuid_Nil, ri_WorkspaceID = uuid_Nil, ri_GrantID = uuid_Nil\<rparr>,
     rb_PermittedProfiles = [], rb_Policy = zero_policy, rb_Enabled = False\<rparr>"

definition ValidateReferences :: "RuntimeCatalog \<Rightarrow> RuntimeFieldErrors option" where
  "ValidateReferences c =
     (let (errs1, aliases, physical) = fold (validate_pool c) (sortedKeys (ca_Pools c)) ([], [], []);
          errs2 = fold (validate_account c) (ca_Accounts c) errs1;
          errs3 = fold (validate_profile c) (ca_Profiles c) errs2;
          (errs4, identities) =
            fold (\<lambda>name. validate_binding c (name, go_get zero_binding (ca_Bindings c) name))
              (sortedKeys (ca_Bindings c)) (errs3, [])
      in orNil errs4)"

subsection \<open>What a catalog that passes promises\<close>

definition pools_wf :: "RuntimeCatalog \<Rightarrow> bool" where
  "pools_wf c \<longleftrightarrow>
     distinct (map (pool_key \<circ> Pools_at c) (sortedKeys (ca_Pools c)))
     \<and> distinct (concat (map (rp_Aliases \<circ> Pools_at c) (sortedKeys (ca_Pools c))))
     \<and> (\<forall>ref \<in> set (go_keys (ca_Pools c)). \<forall>a \<in> set (rp_Aliases (Pools_at c ref)). \<not> has_key (ca_Pools c) a)"

definition account_wf :: "RuntimeCatalog \<Rightarrow> RuntimeAccount \<Rightarrow> bool" where
  "account_wf c a \<longleftrightarrow> (\<forall>(mode, refs) \<in> set (ra_QuotaPoolsByMode a). \<forall>ref \<in> set refs.
     \<exists>pool. ResolvePool c ref = Some pool \<and> rp_Provider (Pools_at c pool) = ra_Provider a)"

definition profile_wf :: "RuntimeCatalog \<Rightarrow> RuntimeProfile \<Rightarrow> bool" where
  "profile_wf c p \<longleftrightarrow> (\<exists>k a. map_of (ca_Controllers c) (pf_ControllerRef p) = Some k
     \<and> map_of (ca_Accounts c) (pf_AccountRef p) = Some a
     \<and> go_get [] (ra_QuotaPoolsByMode a) (pf_ExecutionMode p) \<noteq> []
     \<and> set (pf_Capabilities p) \<subseteq> set (rc_Capabilities k))"

definition binding_wf :: "RuntimeCatalog \<Rightarrow> RuntimeBinding \<Rightarrow> bool" where
  "binding_wf c b \<longleftrightarrow>
     set (rb_PermittedProfiles b) \<subseteq> set (go_keys (ca_Profiles c))
     \<and> set (po_PrimaryProfiles (rb_Policy b)) \<subseteq> set (rb_PermittedProfiles b)
     \<and> (\<forall>(from, targets) \<in> set (po_QuotaEdges (rb_Policy b)). insert from (set targets) \<subseteq> set (rb_PermittedProfiles b))
     \<and> (\<forall>(provider, account) \<in> set (po_PreferredAccounts (rb_Policy b)).
          (\<exists>a. map_of (ca_Accounts c) account = Some a \<and> ra_Provider a = provider)
          \<and> (\<exists>ref \<in> set (rb_PermittedProfiles b). pf_AccountRef (Profiles_at c ref) = account))"

definition catalog_wf :: "RuntimeCatalog \<Rightarrow> bool" where
  "catalog_wf c \<longleftrightarrow> pools_wf c
     \<and> (\<forall>(n, a) \<in> set (ca_Accounts c). account_wf c a)
     \<and> (\<forall>(n, p) \<in> set (ca_Profiles c). profile_wf c p)
     \<and> distinct (map (rb_Binding \<circ> go_get zero_binding (ca_Bindings c)) (sortedKeys (ca_Bindings c)))
     \<and> (\<forall>n \<in> set (go_keys (ca_Bindings c)). binding_wf c (go_get zero_binding (ca_Bindings c) n))"

subsection \<open>Validation accepts exactly the well-formed catalogs\<close>

lemma add_not_Nil [simp]: "add code path e \<noteq> []"
  by (auto simp: add_def Let_def has_key_def)

lemma add_if_Nil [simp]: "add_if b code path e = [] \<longleftrightarrow> \<not> b \<and> e = []"
  by (simp add: add_if_def)

text \<open>An error loop ends empty exactly when it started empty and no iteration complained.\<close>

lemma fold_errs_Nil:
  assumes "\<And>x e. f x e = [] \<longleftrightarrow> e = [] \<and> P x"
  shows "fold f xs e = [] \<longleftrightarrow> e = [] \<and> (\<forall>x \<in> set xs. P x)"
  by (induction xs arbitrary: e) (auto simp: assms)

lemma fold_add_if_Nil [simp]:
  "fold (\<lambda>x. add_if (P x) (code x) (path x)) xs e = [] \<longleftrightarrow> e = [] \<and> (\<forall>x \<in> set xs. \<not> P x)"
  by (rule fold_errs_Nil) auto

lemma fold_validate_alias:
  "fst (fold (validate_alias c ref) as (e, seen)) = [] \<longleftrightarrow>
     e = [] \<and> distinct as \<and> set as \<inter> set seen = {} \<and> (\<forall>a \<in> set as. a \<noteq> ref \<and> \<not> has_key (ca_Pools c) a)"
  "snd (fold (validate_alias c ref) as (e, seen)) = rev as @ seen"
  by (induction as arbitrary: e seen) (auto simp: validate_alias_def)

lemma fold_validate_pool:
  "fst (fold (validate_pool c) refs (e, al, ph)) = [] \<longleftrightarrow>
     e = [] \<and> distinct (map (pool_key \<circ> Pools_at c) refs) \<and> (pool_key \<circ> Pools_at c) ` set refs \<inter> set ph = {}
     \<and> distinct (concat (map (rp_Aliases \<circ> Pools_at c) refs))
     \<and> set (concat (map (rp_Aliases \<circ> Pools_at c) refs)) \<inter> set al = {}
     \<and> (\<forall>ref \<in> set refs. \<forall>a \<in> set (rp_Aliases (Pools_at c ref)). a \<noteq> ref \<and> \<not> has_key (ca_Pools c) a)"
proof (induction refs arbitrary: e al ph)
  case Nil
  then show ?case by simp
next
  case (Cons ref refs)
  let ?p = "Pools_at c ref"
  let ?e1 = "add_if (pool_key ?p \<in> set ph) ''duplicate'' [''pools'', ref, ''resource_ref''] e"
  let ?in = "fold (validate_alias c ref) (rp_Aliases ?p) (?e1, al)"
  have step: "validate_pool c ref (e, al, ph) = (fst ?in, rev (rp_Aliases ?p) @ al, pool_key ?p # ph)"
    using fold_validate_alias(2) [of c ref "rp_Aliases ?p" ?e1 al]
    by (simp add: validate_pool_def Let_def case_prod_beta)
  show ?case
    by (simp add: step Cons.IH fold_validate_alias(1)) auto
qed

lemma validate_account_Nil: "validate_account c na e = [] \<longleftrightarrow> e = [] \<and> account_wf c (snd na)"
proof -
  have one: "validate_pool_ref c n a m r e = [] \<longleftrightarrow>
      e = [] \<and> (\<exists>pool. ResolvePool c r = Some pool \<and> rp_Provider (Pools_at c pool) = ra_Provider a)" for n a m r e
    by (auto simp: validate_pool_ref_def split: option.splits)
  have inner: "fold (validate_pool_ref c n a m) refs e = [] \<longleftrightarrow> e = [] \<and> (\<forall>r \<in> set refs.
      \<exists>pool. ResolvePool c r = Some pool \<and> rp_Provider (Pools_at c pool) = ra_Provider a)" for n a m refs e
    by (rule fold_errs_Nil) (rule one)
  have outer: "fold (\<lambda>(mode, refs). fold (validate_pool_ref c n a mode) refs) ms e = [] \<longleftrightarrow>
      e = [] \<and> (\<forall>x \<in> set ms. \<forall>r \<in> set (snd x).
        \<exists>pool. ResolvePool c r = Some pool \<and> rp_Provider (Pools_at c pool) = ra_Provider a)" for n a ms e
    by (rule fold_errs_Nil) (auto simp: inner)
  show ?thesis
    by (auto simp: validate_account_def account_wf_def outer split: prod.splits)
qed

lemma validate_profile_Nil: "validate_profile c np e = [] \<longleftrightarrow> e = [] \<and> profile_wf c (snd np)"
  by (cases np) (auto simp: validate_profile_def profile_wf_def Let_def split: option.splits)

lemma validate_edge_Nil:
  "validate_edge name b ft e = [] \<longleftrightarrow> e = [] \<and> insert (fst ft) (set (snd ft)) \<subseteq> set (rb_PermittedProfiles b)"
  by (cases ft) (auto simp: validate_edge_def)

lemma validate_preferred_Nil:
  "validate_preferred c name b pa e = [] \<longleftrightarrow> e = []
     \<and> (\<exists>a. map_of (ca_Accounts c) (snd pa) = Some a \<and> ra_Provider a = fst pa)
     \<and> (\<exists>ref \<in> set (rb_PermittedProfiles b). pf_AccountRef (Profiles_at c ref) = snd pa)"
  by (cases pa) (auto simp: validate_preferred_def Let_def list_ex_iff split: option.splits)

lemma validate_binding_Nil:
  "fst (validate_binding c (name, b) (e, ids)) = [] \<longleftrightarrow> e = [] \<and> rb_Binding b \<notin> set ids \<and> binding_wf c b"
  "snd (validate_binding c (name, b) (e, ids)) = rb_Binding b # ids"
proof -
  have edges: "fold (validate_edge name b) es e = [] \<longleftrightarrow> e = [] \<and>
      (\<forall>x \<in> set es. insert (fst x) (set (snd x)) \<subseteq> set (rb_PermittedProfiles b))" for es e
    by (rule fold_errs_Nil) (rule validate_edge_Nil)
  have prefs: "fold (validate_preferred c name b) ps e = [] \<longleftrightarrow> e = [] \<and> (\<forall>x \<in> set ps.
      (\<exists>a. map_of (ca_Accounts c) (snd x) = Some a \<and> ra_Provider a = fst x)
      \<and> (\<exists>ref \<in> set (rb_PermittedProfiles b). pf_AccountRef (Profiles_at c ref) = snd x))" for ps e
    by (rule fold_errs_Nil) (rule validate_preferred_Nil)
  show "fst (validate_binding c (name, b) (e, ids)) = [] \<longleftrightarrow> e = [] \<and> rb_Binding b \<notin> set ids \<and> binding_wf c b"
    by (simp add: validate_binding_def binding_wf_def Let_def edges prefs go_simps case_prod_beta subset_eq) blast
qed (simp add: validate_binding_def Let_def)

lemma fold_validate_binding:
  "fst (fold (\<lambda>n. validate_binding c (n, g n)) ns (e, ids)) = [] \<longleftrightarrow>
     e = [] \<and> distinct (map (rb_Binding \<circ> g) ns) \<and> (rb_Binding \<circ> g) ` set ns \<inter> set ids = {}
     \<and> (\<forall>n \<in> set ns. binding_wf c (g n))"
proof (induction ns arbitrary: e ids)
  case Nil
  then show ?case by simp
next
  case (Cons n ns)
  let ?e = "fst (validate_binding c (n, g n) (e, ids))"
  have step: "validate_binding c (n, g n) (e, ids) = (?e, rb_Binding (g n) # ids)"
    by (metis prod.collapse validate_binding_Nil(2))
  have eq: "fst (fold (\<lambda>n. validate_binding c (n, g n)) (n # ns) (e, ids)) =
      fst (fold (\<lambda>n. validate_binding c (n, g n)) ns (?e, rb_Binding (g n) # ids))"
    using arg_cong [OF step, of "\<lambda>r. fst (fold (\<lambda>n. validate_binding c (n, g n)) ns r)"] by simp
  show ?case
    unfolding eq Cons.IH validate_binding_Nil(1) by (auto simp: comp_def)
qed

lemma set_sortedKeys [simp]: "set (sortedKeys m) = set (go_keys m)"
  by (simp add: sortedKeys_def)

lemma fst_let_pair: "(let (a, b) = p in f a) = f (fst p)"
  by (simp add: case_prod_beta)

lemma ValidateReferences_None: "ValidateReferences c = None \<longleftrightarrow> catalog_wf c"
proof -
  define r1 where "r1 = fold (validate_pool c) (sortedKeys (ca_Pools c)) ([], [], [])"
  define e3 where "e3 = fold (validate_profile c) (ca_Profiles c) (fold (validate_account c) (ca_Accounts c) (fst r1))"
  have "ValidateReferences c = None \<longleftrightarrow>
      fst (fold (\<lambda>n. validate_binding c (n, go_get zero_binding (ca_Bindings c) n)) (sortedKeys (ca_Bindings c)) (e3, [])) = []"
    by (simp add: ValidateReferences_def Let_def case_prod_beta orNil_def r1_def e3_def)
  also have "\<dots> \<longleftrightarrow> e3 = []
      \<and> distinct (map (rb_Binding \<circ> go_get zero_binding (ca_Bindings c)) (sortedKeys (ca_Bindings c)))
      \<and> (\<forall>n \<in> set (go_keys (ca_Bindings c)). binding_wf c (go_get zero_binding (ca_Bindings c) n))"
    by (simp add: fold_validate_binding)
  also have "e3 = [] \<longleftrightarrow> fst r1 = [] \<and> (\<forall>(n, a) \<in> set (ca_Accounts c). account_wf c a)
      \<and> (\<forall>(n, p) \<in> set (ca_Profiles c). profile_wf c p)"
    unfolding e3_def
    by (subst fold_errs_Nil [where P = "\<lambda>np. profile_wf c (snd np)"], rule validate_profile_Nil,
        subst fold_errs_Nil [where P = "\<lambda>na. account_wf c (snd na)"], rule validate_account_Nil)
      (simp add: case_prod_beta)
  also have "fst r1 = [] \<longleftrightarrow> pools_wf c"
    by (auto simp: r1_def fold_validate_pool pools_wf_def go_simps)
  finally show ?thesis
    unfolding catalog_wf_def by blast
qed

text \<open>\<open>ValidateReferences\<close> accepts a catalog exactly when every reference in it names an existing
  resource of the right provider, pool resources, aliases and binding identities are unique, and
  every policy stays inside the binding's permitted profiles.\<close>

theorem ValidateReferences_iff_wf: "ValidateReferences c = None \<longleftrightarrow> catalog_wf c"
  by (rule ValidateReferences_None)

section \<open>Pool resolution\<close>

text \<open>
  The interface the routing and the reservation code use: a reference resolves to at most one pool
  of the catalog, whatever order the pool map is iterated in.
\<close>

definition names_pool :: "RuntimeCatalog \<Rightarrow> string \<Rightarrow> string \<Rightarrow> bool" where
  "names_pool c ref pool \<longleftrightarrow> has_key (ca_Pools c) pool
     \<and> (pool = ref \<or> \<not> has_key (ca_Pools c) ref \<and> ref \<in> set (rp_Aliases (Pools_at c pool)))"

lemma ResolvePool_sound:
  assumes "catalog_ok c" and "ResolvePool c ref = Some pool"
  shows "names_pool c ref pool"
proof (cases "has_key (ca_Pools c) ref")
  case True
  with assms show ?thesis by (simp add: ResolvePool_def names_pool_def)
next
  case False
  with assms(2) obtain p where "find (\<lambda>(name, p). ref \<in> set (rp_Aliases p)) (ca_Pools c) = Some (pool, p)"
    by (auto simp: ResolvePool_def)
  then have "(pool, p) \<in> set (ca_Pools c)" and "ref \<in> set (rp_Aliases p)"
    by (auto dest: find_SomeD)
  with assms(1) False show ?thesis
    by (auto simp: names_pool_def has_key_def catalog_ok_def go_simps)
qed

lemma ResolvePool_complete:
  assumes "names_pool c ref pool"
  shows "ResolvePool c ref \<noteq> None"
proof (cases "has_key (ca_Pools c) ref")
  case True
  then show ?thesis by (simp add: ResolvePool_def)
next
  case False
  with assms obtain p where "map_of (ca_Pools c) pool = Some p" and "ref \<in> set (rp_Aliases p)"
    by (auto simp: names_pool_def has_key_def go_get_def split: option.splits)
  with False show ?thesis
    by (auto simp: ResolvePool_def find_None_iff dest: map_of_SomeD)
qed

lemma distinct_concat_unique:
  assumes "distinct (concat (map f xs))" and "x \<in> set xs" and "y \<in> set xs" and "a \<in> set (f x)" and "a \<in> set (f y)"
  shows "x = y \<or> f x = f y"
  using assms by (induction xs) auto

lemma distinct_concat_key:
  assumes "distinct (concat (map f xs))" "distinct xs"
    and "x \<in> set xs" "y \<in> set xs" "a \<in> set (f x)" "a \<in> set (f y)"
  shows "x = y"
  using assms by (induction xs) auto

lemma names_pool_unique:
  assumes "catalog_ok c" and "pools_wf c" and "names_pool c ref p" and "names_pool c ref q"
  shows "p = q"
proof (cases "has_key (ca_Pools c) ref")
  case True
  with assms(3,4) show ?thesis by (auto simp: names_pool_def)
next
  case False
  have dk: "distinct (sortedKeys (ca_Pools c))"
    using assms(1) by (simp add: sortedKeys_def go_keys_def catalog_ok_def gomap_ok_def)
  from False assms(3,4) have "p \<in> set (sortedKeys (ca_Pools c))" "q \<in> set (sortedKeys (ca_Pools c))"
    and "ref \<in> set (rp_Aliases (Pools_at c p))" "ref \<in> set (rp_Aliases (Pools_at c q))"
    by (auto simp: names_pool_def go_simps)
  with assms(2) dk show ?thesis
    by (auto simp: pools_wf_def intro: distinct_concat_key [where f = "rp_Aliases \<circ> Pools_at c"])
qed

lemma ResolvePool_iff:
  assumes "catalog_ok c" and "pools_wf c"
  shows "ResolvePool c ref = Some pool \<longleftrightarrow> names_pool c ref pool"
  using assms ResolvePool_sound ResolvePool_complete names_pool_unique by (metis option.exhaust)

lemma names_pool_perm:
  assumes "gomap_ok ps" and "set ps = set (ca_Pools c)" and "gomap_ok (ca_Pools c)"
  shows "names_pool (c\<lparr>ca_Pools := ps\<rparr>) ref pool = names_pool c ref pool"
proof -
  have "map_of ps = map_of (ca_Pools c)"
    using assms by (rule gomap_ok_perm)
  then show ?thesis by (simp add: names_pool_def has_key_def go_get_def)
qed

lemma sortedKeys_perm:
  assumes "gomap_ok ps" and "gomap_ok m" and "set ps = set m"
  shows "sortedKeys ps = sortedKeys m"
  using assms unfolding sortedKeys_def go_keys_def gomap_ok_def
  by (intro sorted_distinct_set_unique) auto

lemma pools_wf_perm:
  assumes "gomap_ok ps" and "set ps = set (ca_Pools c)" and "gomap_ok (ca_Pools c)"
  shows "pools_wf (c\<lparr>ca_Pools := ps\<rparr>) = pools_wf c"
proof -
  have m: "map_of ps = map_of (ca_Pools c)" using assms by (rule gomap_ok_perm)
  have k: "sortedKeys ps = sortedKeys (ca_Pools c)" using assms by (intro sortedKeys_perm)
  have g: "go_get z ps = go_get z (ca_Pools c)" for z by (intro ext) (simp add: go_get_def m)
  have "set (go_keys ps) = set (go_keys (ca_Pools c))" using k by (metis set_sortedKeys)
  then show ?thesis by (simp add: pools_wf_def k g has_key_def m)
qed

text \<open>Pool resolution is deterministic: Go iterates maps in random order, and \<open>ResolvePool\<close> takes the first pool
  with a matching alias; in a catalog that passed validation its answer is the same for every iteration order, and
  it is the one pool that carries the reference as its name or as an alias.\<close>

theorem ResolvePool_order_independent:
  assumes "catalog_ok c" and "ValidateReferences c = None" and "gomap_ok ps" and "set ps = set (ca_Pools c)"
  shows "ResolvePool (c\<lparr>ca_Pools := ps\<rparr>) ref = ResolvePool c ref
    \<and> (ResolvePool c ref = Some pool \<longleftrightarrow> names_pool c ref pool)"
proof -
  have wf: "pools_wf c" using assms(2) by (simp add: ValidateReferences_None catalog_wf_def)
  have g: "gomap_ok (ca_Pools c)" using assms(1) by (simp add: catalog_ok_def)
  have c': "catalog_ok (c\<lparr>ca_Pools := ps\<rparr>)" using assms(1,3) by (simp add: catalog_ok_def)
  have wf': "pools_wf (c\<lparr>ca_Pools := ps\<rparr>)" using wf pools_wf_perm [OF assms(3,4) g] by simp
  have "ResolvePool (c\<lparr>ca_Pools := ps\<rparr>) ref = Some q \<longleftrightarrow> ResolvePool c ref = Some q" for q
    unfolding ResolvePool_iff [OF c' wf'] ResolvePool_iff [OF assms(1) wf] names_pool_perm [OF assms(3,4) g] ..
  then have "ResolvePool (c\<lparr>ca_Pools := ps\<rparr>) ref = ResolvePool c ref" by (metis option.exhaust)
  with ResolvePool_iff [OF assms(1) wf] show ?thesis by simp
qed

section \<open>The projection onto one controller\<close>

record RuntimeDesiredCatalog =
  de_Accounts :: "(string, RuntimeAccount) gomap"
  de_Pools :: "(string, RuntimePool) gomap"
  de_Profiles :: "(string, RuntimeProfile) gomap"
  de_Bindings :: "(string, RuntimeBinding) gomap"

text \<open>The first loop of \<open>DesiredFor\<close>: own profiles, their accounts narrowed to the modes used here,
  and the pools those modes draw from.\<close>

definition desired_pool :: "RuntimeCatalog \<Rightarrow> string \<Rightarrow> RuntimeDesiredCatalog \<Rightarrow> RuntimeDesiredCatalog" where
  "desired_pool c pool out =
     (case ResolvePool c pool of
        None \<Rightarrow> out
      | Some canonical \<Rightarrow> out\<lparr>de_Pools := AList.update canonical (Pools_at c canonical) (de_Pools out)\<rparr>)"

definition desired_profile ::
  "RuntimeCatalog \<Rightarrow> string \<Rightarrow> string \<times> RuntimeProfile \<Rightarrow> RuntimeDesiredCatalog \<Rightarrow> RuntimeDesiredCatalog" where
  "desired_profile c ref = (\<lambda>(name, p) out.
     (if pf_ControllerRef p \<noteq> ref then out
      else let out1 = out\<lparr>de_Profiles := AList.update name p (de_Profiles out)\<rparr>
           in case map_of (ca_Accounts c) (pf_AccountRef p) of
                None \<Rightarrow> out1
              | Some account \<Rightarrow>
                  let narrowed = (case map_of (de_Accounts out1) (pf_AccountRef p) of
                                    None \<Rightarrow> account\<lparr>ra_QuotaPoolsByMode := []\<rparr> | Some a \<Rightarrow> a);
                      refs = go_get [] (ra_QuotaPoolsByMode account) (pf_ExecutionMode p);
                      narrowed2 = narrowed\<lparr>ra_QuotaPoolsByMode :=
                                    AList.update (pf_ExecutionMode p) refs (ra_QuotaPoolsByMode narrowed)\<rparr>;
                      out2 = out1\<lparr>de_Accounts := AList.update (pf_AccountRef p) narrowed2 (de_Accounts out1)\<rparr>
                  in fold (desired_pool c) refs out2))"

text \<open>The second loop: a binding that permits an own profile, its policy cut down to own names.\<close>

definition desired_policy :: "RuntimeDesiredCatalog \<Rightarrow> RuntimePolicy \<Rightarrow> RuntimePolicy" where
  "desired_policy out po =
     (let own = has_key (de_Profiles out)
      in po\<lparr>po_PrimaryProfiles := filter own (po_PrimaryProfiles po),
            po_QuotaEdges := map (\<lambda>(from, to). (from, filter own to)) (filter (\<lambda>(from, to). own from) (po_QuotaEdges po)),
            po_PreferredAccounts := filter (\<lambda>(provider, account). has_key (de_Accounts out) account) (po_PreferredAccounts po),
            po_APIReserveProviders :=
              filter (\<lambda>provider. list_ex (\<lambda>(ref, account). ra_Provider account = provider) (de_Accounts out))
                (po_APIReserveProviders po)\<rparr>)"

definition desired_binding ::
  "RuntimeDesiredCatalog \<Rightarrow> string \<times> RuntimeBinding \<Rightarrow> (string, RuntimeBinding) gomap \<Rightarrow> (string, RuntimeBinding) gomap" where
  "desired_binding out = (\<lambda>(name, b) bs.
     (let permitted = filter (has_key (de_Profiles out)) (rb_PermittedProfiles b)
      in if permitted = [] then bs
         else AList.update name
                (b\<lparr>rb_PermittedProfiles := permitted, rb_Policy := desired_policy out (rb_Policy b)\<rparr>) bs))"

definition DesiredFor :: "RuntimeCatalog \<Rightarrow> string \<Rightarrow> RuntimeDesiredCatalog option" where
  "DesiredFor c ref =
     (if \<not> has_key (ca_Controllers c) ref then None
      else let out = fold (desired_profile c ref) (ca_Profiles c)
                       \<lparr>de_Accounts = [], de_Pools = [], de_Profiles = [], de_Bindings = []\<rparr>
           in Some (out\<lparr>de_Bindings := fold (desired_binding out) (ca_Bindings c) []\<rparr>))"

text \<open>A loop that stores one value per key of a map, skipping some, is a filtered copy of the map.\<close>

lemma fold_update_map_of:
  assumes "\<And>k v m. f (k, v) m = (case g (k, v) of None \<Rightarrow> m | Some w \<Rightarrow> AList.update k w m)"
    and "distinct (map fst xs)"
  shows "map_of (fold f xs m) k =
    (case map_of xs k of None \<Rightarrow> map_of m k
     | Some v \<Rightarrow> (case g (k, v) of None \<Rightarrow> map_of m k | Some w \<Rightarrow> Some w))"
  using assms(2)
proof (induction xs arbitrary: m)
  case Nil
  then show ?case by simp
next
  case (Cons kv xs)
  obtain k0 v0 where kv: "kv = (k0, v0)" by (cases kv)
  with Cons.prems have fresh: "map_of xs k0 = None" and d: "distinct (map fst xs)"
    by (auto simp: map_of_eq_None_iff)
  from kv show ?case
    using Cons.IH [OF d, of "f kv m"] fresh
    by (cases "k = k0") (auto simp: assms(1) update_conv' split: option.splits)
qed

lemma desired_pool_frame [simp]:
  "de_Profiles (fold (desired_pool c) refs out) = de_Profiles out"
  "de_Accounts (fold (desired_pool c) refs out) = de_Accounts out"
  by (induction refs arbitrary: out) (auto simp: desired_pool_def split: option.splits)

lemma desired_profile_Profiles:
  "de_Profiles (desired_profile c ref (n, p) out) =
     (if pf_ControllerRef p = ref then AList.update n p (de_Profiles out) else de_Profiles out)"
  by (auto simp: desired_profile_def Let_def split: option.splits)

lemma fold_desired_Profiles:
  "de_Profiles (fold (desired_profile c ref) ps out) =
     fold (\<lambda>(n, p) m. if pf_ControllerRef p = ref then AList.update n p m else m) ps (de_Profiles out)"
proof (induction ps arbitrary: out)
  case (Cons np ps)
  then show ?case by (cases np) (simp add: desired_profile_Profiles)
qed simp

definition own_profile :: "RuntimeCatalog \<Rightarrow> string \<Rightarrow> string \<Rightarrow> RuntimeProfile \<Rightarrow> bool" where
  "own_profile c ref n p \<longleftrightarrow> map_of (ca_Profiles c) n = Some p \<and> pf_ControllerRef p = ref"

lemma DesiredFor_Profiles:
  assumes "catalog_ok c" and "DesiredFor c ref = Some out"
  shows "map_of (de_Profiles out) n = Some p \<longleftrightarrow> own_profile c ref n p"
proof -
  have "map_of (de_Profiles out) n =
      map_of (fold (\<lambda>(n, p) m. if pf_ControllerRef p = ref then AList.update n p m else m) (ca_Profiles c) []) n"
    using assms(2) by (auto simp: DesiredFor_def Let_def fold_desired_Profiles split: if_splits)
  also have "\<dots> = (case map_of (ca_Profiles c) n of None \<Rightarrow> None
      | Some v \<Rightarrow> (if pf_ControllerRef v = ref then Some v else None))"
    using assms(1)
    by (subst fold_update_map_of [where g = "\<lambda>(n, p). if pf_ControllerRef p = ref then Some p else None"])
      (auto simp: catalog_ok_def gomap_ok_def split: option.splits)
  finally show ?thesis by (auto simp: own_profile_def split: option.splits if_splits)
qed

text \<open>What the account map may hold at any point of the first loop: only accounts of own profiles,
  narrowed to the modes those profiles run in.\<close>

definition account_own :: "RuntimeCatalog \<Rightarrow> string \<Rightarrow> string \<Rightarrow> RuntimeAccount \<Rightarrow> bool" where
  "account_own c ref ar a \<longleftrightarrow>
     (\<exists>n p. own_profile c ref n p \<and> pf_AccountRef p = ar)
     \<and> (\<exists>a0. map_of (ca_Accounts c) ar = Some a0 \<and> ra_Provider a = ra_Provider a0
          \<and> ra_CredentialRef a = ra_CredentialRef a0
          \<and> (\<forall>mode refs. map_of (ra_QuotaPoolsByMode a) mode = Some refs \<longrightarrow>
               refs = go_get [] (ra_QuotaPoolsByMode a0) mode
               \<and> (\<exists>n p. own_profile c ref n p \<and> pf_AccountRef p = ar \<and> pf_ExecutionMode p = mode)))"

definition accounts_own :: "RuntimeCatalog \<Rightarrow> string \<Rightarrow> RuntimeDesiredCatalog \<Rightarrow> bool" where
  "accounts_own c ref out \<longleftrightarrow> (\<forall>ar a. map_of (de_Accounts out) ar = Some a \<longrightarrow> account_own c ref ar a)"

lemma account_own_narrow:
  assumes "a = a0\<lparr>ra_QuotaPoolsByMode := []\<rparr> \<or> account_own c ref (pf_AccountRef p) a"
    and "own_profile c ref n p" and "map_of (ca_Accounts c) (pf_AccountRef p) = Some a0"
  shows "account_own c ref (pf_AccountRef p) (a\<lparr>ra_QuotaPoolsByMode :=
    AList.update (pf_ExecutionMode p) (go_get [] (ra_QuotaPoolsByMode a0) (pf_ExecutionMode p)) (ra_QuotaPoolsByMode a)\<rparr>)"
  using assms by (auto simp: account_own_def update_conv')

lemma desired_profile_accounts_own:
  assumes "accounts_own c ref out" and "map_of (ca_Profiles c) n = Some p"
  shows "accounts_own c ref (desired_profile c ref (n, p) out)"
proof (cases "pf_ControllerRef p = ref \<and> map_of (ca_Accounts c) (pf_AccountRef p) \<noteq> None")
  case False
  with assms(1) show ?thesis
    by (auto simp: desired_profile_def accounts_own_def Let_def split: option.splits)
next
  case True
  then obtain a0 where own: "own_profile c ref n p" and a0: "map_of (ca_Accounts c) (pf_AccountRef p) = Some a0"
    using assms(2) by (auto simp: own_profile_def)
  define a where "a = (case map_of (de_Accounts out) (pf_AccountRef p) of
      None \<Rightarrow> a0\<lparr>ra_QuotaPoolsByMode := []\<rparr> | Some a \<Rightarrow> a)"
  have "a = a0\<lparr>ra_QuotaPoolsByMode := []\<rparr> \<or> account_own c ref (pf_AccountRef p) a"
    using assms(1) by (auto simp: a_def accounts_own_def split: option.splits)
  note new = account_own_narrow [OF this own a0]
  have "de_Accounts (desired_profile c ref (n, p) out) = AList.update (pf_AccountRef p)
      (a\<lparr>ra_QuotaPoolsByMode := AList.update (pf_ExecutionMode p)
         (go_get [] (ra_QuotaPoolsByMode a0) (pf_ExecutionMode p)) (ra_QuotaPoolsByMode a)\<rparr>) (de_Accounts out)"
    using True a0 by (simp add: desired_profile_def Let_def a_def)
  with new assms(1) show ?thesis
    by (auto simp: accounts_own_def update_conv' simp del: RuntimeAccount.update_convs)
qed

lemma fold_desired_accounts_own:
  assumes "accounts_own c ref out" and "\<And>n p. (n, p) \<in> set ps \<Longrightarrow> map_of (ca_Profiles c) n = Some p"
  shows "accounts_own c ref (fold (desired_profile c ref) ps out)"
  using assms
proof (induction ps arbitrary: out)
  case (Cons np ps)
  then show ?case by (cases np) (auto intro: desired_profile_accounts_own)
qed simp

lemma DesiredFor_Accounts:
  assumes "catalog_ok c" and "DesiredFor c ref = Some out" and "map_of (de_Accounts out) ar = Some a"
  shows "account_own c ref ar a"
proof -
  let ?o = "fold (desired_profile c ref) (ca_Profiles c) \<lparr>de_Accounts = [], de_Pools = [], de_Profiles = [], de_Bindings = []\<rparr>"
  have "accounts_own c ref ?o"
    using assms(1) by (intro fold_desired_accounts_own) (auto simp: accounts_own_def catalog_ok_def go_simps)
  moreover have "de_Accounts out = de_Accounts ?o"
    using assms(2) by (auto simp: DesiredFor_def Let_def split: if_splits)
  ultimately show ?thesis using assms(3) by (simp add: accounts_own_def)
qed

text \<open>A projected binding names nothing outside the projection.\<close>

definition binding_inside :: "RuntimeDesiredCatalog \<Rightarrow> RuntimeBinding \<Rightarrow> bool" where
  "binding_inside out b \<longleftrightarrow> (let own = has_key (de_Profiles out); po = rb_Policy b in
     rb_PermittedProfiles b \<noteq> [] \<and> list_all own (rb_PermittedProfiles b) \<and> list_all own (po_PrimaryProfiles po)
     \<and> list_all (\<lambda>(from, to). own from \<and> list_all own to) (po_QuotaEdges po)
     \<and> list_all (\<lambda>(provider, account). has_key (de_Accounts out) account) (po_PreferredAccounts po)
     \<and> list_all (\<lambda>provider. list_ex (\<lambda>(r, a). ra_Provider a = provider) (de_Accounts out)) (po_APIReserveProviders po))"

definition desired_of :: "RuntimeDesiredCatalog \<Rightarrow> RuntimeBinding \<Rightarrow> RuntimeBinding option" where
  "desired_of out b = (let permitted = filter (has_key (de_Profiles out)) (rb_PermittedProfiles b)
     in if permitted = [] then None
        else Some (b\<lparr>rb_PermittedProfiles := permitted, rb_Policy := desired_policy out (rb_Policy b)\<rparr>))"

lemma desired_of_inside: "desired_of out b = Some b' \<Longrightarrow> binding_inside out b'"
  by (auto simp: desired_of_def binding_inside_def desired_policy_def Let_def list_all_iff split: if_splits)

lemma DesiredFor_Bindings:
  assumes "catalog_ok c" and "DesiredFor c ref = Some out"
  shows "map_of (de_Bindings out) n =
    (case map_of (ca_Bindings c) n of None \<Rightarrow> None | Some b \<Rightarrow> desired_of out b)"
proof -
  from assms(2) obtain o1 where eq: "out = o1\<lparr>de_Bindings := fold (desired_binding o1) (ca_Bindings c) []\<rparr>"
    by (auto simp: DesiredFor_def Let_def split: if_splits)
  have "desired_policy out = desired_policy o1"
    unfolding eq by (rule ext) (simp add: desired_policy_def)
  then have "desired_of out = desired_of o1"
    unfolding eq by (intro ext) (simp add: desired_of_def Let_def)
  moreover have "map_of (de_Bindings out) n =
      (case map_of (ca_Bindings c) n of None \<Rightarrow> None | Some b \<Rightarrow> desired_of o1 b)"
    unfolding eq using assms(1)
    by (simp, subst fold_update_map_of [where g = "\<lambda>(n, b). desired_of o1 b"])
      (auto simp: desired_binding_def desired_of_def Let_def catalog_ok_def gomap_ok_def split: option.splits)
  ultimately show ?thesis by (simp split: option.splits)
qed

text \<open>The catalog slice a controller downloads is isolated: it holds exactly the controller's own
  profiles; every account in it is used by one of them, with only the execution modes they run in; it
  holds exactly the bindings that permit one of them, and nothing such a binding's policy still names
  lies outside the slice.\<close>

theorem DesiredFor_isolated:
  assumes "catalog_ok c" and "DesiredFor c ref = Some out"
  shows "(\<forall>n p. map_of (de_Profiles out) n = Some p \<longleftrightarrow> map_of (ca_Profiles c) n = Some p \<and> pf_ControllerRef p = ref)
    \<and> (\<forall>ar a. map_of (de_Accounts out) ar = Some a \<longrightarrow> account_own c ref ar a)
    \<and> (\<forall>bn. has_key (de_Bindings out) bn \<longleftrightarrow>
        (\<exists>b pn. map_of (ca_Bindings c) bn = Some b \<and> pn \<in> set (rb_PermittedProfiles b) \<and> has_key (de_Profiles out) pn))
    \<and> (\<forall>bn b. map_of (de_Bindings out) bn = Some b \<longrightarrow> binding_inside out b)"
proof (intro conjI allI impI)
  show "map_of (de_Profiles out) n = Some p \<longleftrightarrow> map_of (ca_Profiles c) n = Some p \<and> pf_ControllerRef p = ref" for n p
    using DesiredFor_Profiles [OF assms] by (simp add: own_profile_def)
  show "account_own c ref ar a" if "map_of (de_Accounts out) ar = Some a" for ar a
    using that by (rule DesiredFor_Accounts [OF assms])
  show "has_key (de_Bindings out) bn \<longleftrightarrow>
      (\<exists>b pn. map_of (ca_Bindings c) bn = Some b \<and> pn \<in> set (rb_PermittedProfiles b) \<and> has_key (de_Profiles out) pn)" for bn
    unfolding has_key_def [of "de_Bindings out"] DesiredFor_Bindings [OF assms, of bn]
    by (auto simp: desired_of_def Let_def filter_empty_conv split: option.splits)
  show "binding_inside out b" if "map_of (de_Bindings out) bn = Some b" for bn b
    using that DesiredFor_Bindings [OF assms, of bn] by (auto split: option.splits intro: desired_of_inside)
qed


section \<open>A sample catalog\<close>

text \<open>Two controllers, one profile on each, and one binding that may use both.\<close>

definition sample_controller :: RuntimeController where
  "sample_controller = \<lparr>rc_Host = ''h'', rc_Version = ''1'', rc_ReporterGrantID = 9, rc_Capabilities = [''go''],
     rc_Enabled = True, rc_HeartbeatMaxAgeSeconds = 60\<rparr>"

definition sample_pool :: "string \<Rightarrow> RuntimePool" where
  "sample_pool provider = \<lparr>rp_Provider = provider, rp_ResourceRef = ''r'', rp_Aliases = [], rp_MaxConcurrency = 1, rp_ThresholdRef = ''''\<rparr>"

definition sample_account :: "string \<Rightarrow> string \<Rightarrow> RuntimeAccount" where
  "sample_account provider pool = \<lparr>ra_Provider = provider, ra_CredentialRef = ''s'', ra_QuotaPoolsByMode = [(''sub'', [pool]), (''api'', [pool])]\<rparr>"

definition sample_profile :: "string \<Rightarrow> string \<Rightarrow> RuntimeProfile" where
  "sample_profile controller account = \<lparr>pf_ControllerRef = controller, pf_AccountRef = account, pf_Harness = ''h'',
     pf_Model = ''m'', pf_ModelDeveloper = ''d'', pf_ModelFamily = ''f'', pf_ExecutionMode = ''sub'',
     pf_Capabilities = [''go''], pf_Enabled = True\<rparr>"

definition sample_binding :: "string \<Rightarrow> RuntimeBinding" where
  "sample_binding mode = \<lparr>rb_Binding = \<lparr>ri_AgentID = 1, ri_WorkspaceID = 2, ri_GrantID = 3\<rparr>, rb_PermittedProfiles = [''p'', ''q''],
     rb_Policy = \<lparr>po_PrimaryProfiles = [''p''], po_QuotaEdges = [(''p'', [''q'']), (''q'', [''p''])],
       po_PreferredAccounts = [(''v'', ''a'')], po_APIReserveProviders = [''v''], po_MaxAttempts = 4,
       po_EvidenceMaxAgeSeconds = 60, po_QA = \<lparr>qa_Mode = mode, qa_QuotaFallback = True\<rparr>\<rparr>, rb_Enabled = True\<rparr>"

definition sample_catalog :: RuntimeCatalog where
  "sample_catalog = \<lparr>ca_SchemaVersion = 2, ca_Controllers = [(''k'', sample_controller), (''l'', sample_controller)],
     ca_Accounts = [(''a'', sample_account ''v'' ''x''), (''b'', sample_account ''w'' ''y'')],
     ca_Pools = [(''x'', sample_pool ''v''), (''y'', sample_pool ''w'')],
     ca_Profiles = [(''p'', sample_profile ''k'' ''a''), (''q'', sample_profile ''l'' ''b'')],
     ca_Bindings = [(''g'', sample_binding ''strict'')]\<rparr>"

lemmas sample_defs = sample_catalog_def sample_binding_def sample_profile_def sample_account_def
  sample_pool_def sample_controller_def

lemma sample_catalog_ok: "catalog_ok sample_catalog"
  by (simp add: catalog_ok_def gomap_ok_def sample_defs)

theorem DesiredFor_isolated_witness:
  "\<exists>out. DesiredFor sample_catalog ''k'' = Some out \<and> has_key (de_Bindings out) ''g'' \<and> \<not> has_key (de_Profiles out) ''q''"
proof -
  obtain out where out: "DesiredFor sample_catalog ''k'' = Some out"
    by (simp add: DesiredFor_def sample_defs has_key_def Let_def)
  note iso = DesiredFor_isolated [OF sample_catalog_ok out]
  have P: "map_of (de_Profiles out) n = Some p \<longleftrightarrow> map_of (ca_Profiles sample_catalog) n = Some p \<and> pf_ControllerRef p = ''k''" for n p
    using iso by blast
  have p: "map_of (de_Profiles out) ''p'' = Some (sample_profile ''k'' ''a'')"
    unfolding P by (simp add: sample_defs)
  have "map_of (de_Profiles out) ''q'' \<noteq> Some v" for v
    unfolding P by (auto simp: sample_defs)
  then have q: "\<not> has_key (de_Profiles out) ''q''" by (simp add: has_key_def)
  have "map_of (ca_Bindings sample_catalog) ''g'' = Some (sample_binding ''strict'')
      \<and> ''p'' \<in> set (rb_PermittedProfiles (sample_binding ''strict'')) \<and> has_key (de_Profiles out) ''p''"
    using p by (simp add: has_key_def) (simp add: sample_defs)
  then have "has_key (de_Bindings out) ''g''" using iso by blast
  with out q show ?thesis by blast
qed


lemma sample_catalog_valid: "ValidateReferences sample_catalog = None"
  by code_simp

theorem ResolvePool_order_independent_witness:
  "ResolvePool (sample_catalog\<lparr>ca_Pools := rev (ca_Pools sample_catalog)\<rparr>) ''x'' = ResolvePool sample_catalog ''x''"
  by (rule ResolvePool_order_independent [OF sample_catalog_ok sample_catalog_valid, THEN conjunct1])
    (auto simp: gomap_ok_def sample_catalog_def)

end
