(* ===== verification/Runtime_Preview.thy ===== *)
theory Runtime_Preview
  imports Runtime_Catalog "HOL-Library.Multiset"
begin

text \<open>
  \<open>internal/domain/runtime_preview.go\<close>: the read-only routing decision. \<open>PreviewRuntime\<close> is one Go
  function with nested closures; each closure is one definition here, and the variables it captures
  are the record \<open>preview_env\<close> (never written) and the record \<open>route_state\<close> (written). A profile
  reference the Go code returns as the empty string is the empty string here too. The one index
  expression that can panic (\<open>primaryGroups[0][0]\<close>) makes the result \<^const>\<open>None\<close>.
\<close>

section \<open>Data\<close>

record RuntimePoolObservation =
  ob_State :: string
  ob_ObservedAt :: gtime
  ob_Verified :: bool
  ob_EvidenceKind :: string
  ob_ThresholdRef :: string

record RuntimePreviewInput =
  in_Purpose :: string
  in_SourceProfileID :: string
  in_RequiredCapabilities :: "string list"
  in_ArtifactID :: uuid
  in_ArtifactRevision :: string

record RuntimeTrace =
  tr_ProfileID :: string
  tr_Reason :: string

record RuntimePreview =
  pv_SelectedProfileID :: string
  pv_SelectedAccountRef :: string
  pv_PreferredAccountRef :: string
  pv_Reason :: string
  pv_Trace :: "RuntimeTrace list"
  pv_Revision :: int
  pv_LaunchAuthorized :: bool
  pv_ArtifactRevision :: string
  pv_QAMode :: string
  pv_QACompromise :: bool

record RuntimeCandidateEvidence =
  ev_ControllerCurrent :: bool
  ev_Pools :: "(string, RuntimePoolObservation) gomap"
  ev_ActualModelDeveloper :: string
  ev_ActualModelFamily :: string

definition zero_evidence :: RuntimeCandidateEvidence where
  "zero_evidence = \<lparr>ev_ControllerCurrent = False, ev_Pools = [], ev_ActualModelDeveloper = '''', ev_ActualModelFamily = ''''\<rparr>"

record RuntimeAuthor =
  au_AgentID :: uuid
  au_ModelDeveloper :: string
  au_ModelFamily :: string

record RuntimeProvenance =
  pr_ArtifactID :: uuid
  pr_Revision :: string
  pr_Authors :: "RuntimeAuthor list"
  pr_Complete :: bool

definition runtimeIndependent :: "RuntimeCandidateEvidence \<Rightarrow> RuntimeProvenance \<Rightarrow> bool" where
  "runtimeIndependent candidate provenance =
     (if ev_ActualModelDeveloper candidate = '''' \<or> ev_ActualModelFamily candidate = '''' then False
      else \<not> list_ex (\<lambda>author. au_ModelDeveloper author = '''' \<or> au_ModelFamily author = ''''
               \<or> au_ModelDeveloper author = ev_ActualModelDeveloper candidate
               \<or> au_ModelFamily author = ev_ActualModelFamily candidate) (pr_Authors provenance))"

text \<open>What the closures of \<open>PreviewRuntime\<close> capture and do not write.\<close>

record preview_env =
  pe_catalog :: RuntimeCatalog
  pe_binding :: RuntimeBinding
  pe_admitted :: "string list"
  pe_evidence :: "(string, RuntimeCandidateEvidence) gomap"
  pe_request :: RuntimePreviewInput
  pe_now :: gtime

abbreviation pe_policy :: "preview_env \<Rightarrow> RuntimePolicy" where
  "pe_policy env \<equiv> rb_Policy (pe_binding env)"

abbreviation edges_of :: "preview_env \<Rightarrow> string \<Rightarrow> string list" where
  "edges_of env \<equiv> go_get [] (po_QuotaEdges (pe_policy env))"

section \<open>Assessing one profile\<close>

definition pool_fresh :: "preview_env \<Rightarrow> RuntimePoolObservation \<Rightarrow> bool" where
  "pool_fresh env seen \<longleftrightarrow> ob_Verified seen \<and> \<not> IsZero (ob_ObservedAt seen) \<and> \<not> ob_ObservedAt seen > pe_now env
     \<and> \<not> time_Sub (pe_now env) (ob_ObservedAt seen) > Seconds (po_EvidenceMaxAgeSeconds (pe_policy env))"

fun assess_pools :: "preview_env \<Rightarrow> RuntimeCandidateEvidence \<Rightarrow> string list \<Rightarrow> bool \<Rightarrow> bool \<Rightarrow> string" where
  "assess_pools env observation [] quota threshold =
     (if quota then ''quota_blocked'' else if threshold then ''threshold_blocked'' else ''available'')"
| "assess_pools env observation (ref # refs) quota threshold =
     (let c = pe_catalog env; pool = (case ResolvePool c ref of None \<Rightarrow> '''' | Some p \<Rightarrow> p)
      in case map_of (ev_Pools observation) pool of
           None \<Rightarrow> ''pool_evidence_unavailable''
         | Some seen \<Rightarrow>
             if \<not> pool_fresh env seen then ''pool_evidence_unavailable''
             else if ob_State seen = ''available'' then assess_pools env observation refs quota threshold
             else if ob_State seen = ''exhausted'' then assess_pools env observation refs True threshold
             else if ob_State seen = ''threshold'' then
               (if rp_ThresholdRef (Pools_at c pool) = '''' \<or> rp_ThresholdRef (Pools_at c pool) \<noteq> ob_ThresholdRef seen
                   \<or> ob_EvidenceKind seen \<noteq> ''configured_threshold''
                then ''pool_evidence_unknown''
                else assess_pools env observation refs quota True)
             else ''pool_evidence_unknown'')"

definition assess :: "preview_env \<Rightarrow> string \<Rightarrow> string" where
  "assess env ref =
     (let c = pe_catalog env; binding = pe_binding env; policy = rb_Policy binding
      in case map_of (ca_Profiles c) ref of
        None \<Rightarrow> ''profile_not_permitted''
      | Some profile \<Rightarrow>
          if ref \<notin> set (rb_PermittedProfiles binding) \<or> ref \<notin> set (pe_admitted env) then ''profile_not_permitted''
          else if \<not> pf_Enabled profile \<or> \<not> rc_Enabled (Controllers_at c (pf_ControllerRef profile)) then ''profile_disabled''
          else let account = Accounts_at c (pf_AccountRef profile) in
            if pf_ExecutionMode profile = ''api'' \<and> ref \<notin> set (po_PrimaryProfiles policy)
               \<and> ra_Provider account \<notin> set (po_APIReserveProviders policy) then ''api_not_opted_in''
            else case map_of (pe_evidence env) ref of
              None \<Rightarrow> ''controller_unavailable''
            | Some observation \<Rightarrow>
                if \<not> ev_ControllerCurrent observation then ''controller_unavailable''
                else if list_ex (\<lambda>cap. cap \<notin> set (pf_Capabilities profile)) (in_RequiredCapabilities (pe_request env))
                then ''capability_missing''
                else assess_pools env observation
                       (go_get [] (ra_QuotaPoolsByMode account) (pf_ExecutionMode profile)) False False)"

text \<open>\<open>relaxable\<close>: strict review may fall back only when every independent alternative is confirmed
  out of quota.\<close>

fun relaxable_loop :: "preview_env \<Rightarrow> RuntimeProvenance \<Rightarrow> string list \<Rightarrow> int \<Rightarrow> bool \<Rightarrow> bool" where
  "relaxable_loop env prov [] independent allQuota =
     (qa_QuotaFallback (po_QA (pe_policy env)) \<and> independent > 0 \<and> allQuota)"
| "relaxable_loop env prov (ref # refs) independent allQuota =
     (if ref \<notin> set (pe_admitted env) then relaxable_loop env prov refs independent allQuota
      else let observation = go_get zero_evidence (pe_evidence env) ref in
        if ev_ActualModelDeveloper observation = '''' \<or> ev_ActualModelFamily observation = '''' then False
        else if \<not> runtimeIndependent observation prov then relaxable_loop env prov refs independent allQuota
        else relaxable_loop env prov refs (independent + 1) (allQuota \<and> assess env ref = ''quota_blocked''))"

definition relaxable :: "preview_env \<Rightarrow> RuntimeProvenance \<Rightarrow> bool" where
  "relaxable env prov = relaxable_loop env prov (rb_PermittedProfiles (pe_binding env)) 0 True"

section \<open>Provider groups\<close>

definition provider_of :: "preview_env \<Rightarrow> string \<Rightarrow> string" where
  "provider_of env ref = ra_Provider (Accounts_at (pe_catalog env) (pf_AccountRef (Profiles_at (pe_catalog env) ref)))"

definition mode_of :: "preview_env \<Rightarrow> string \<Rightarrow> string" where
  "mode_of env ref = pf_ExecutionMode (Profiles_at (pe_catalog env) ref)"

definition group_step :: "preview_env \<Rightarrow> string list list \<Rightarrow> string \<Rightarrow> string list list" where
  "group_step env gs ref =
     (if gs = [] then [[ref]]
      else if provider_of env (hd (last gs)) \<noteq> provider_of env ref \<or> mode_of env (hd (last gs)) \<noteq> mode_of env ref
      then gs @ [[ref]]
      else butlast gs @ [last gs @ [ref]])"

definition sort_group :: "preview_env \<Rightarrow> string list \<Rightarrow> string list" where
  "sort_group env grp =
     (let preferred = go_get '''' (po_PreferredAccounts (pe_policy env)) (provider_of env (hd grp))
      in if preferred = '''' then grp
         else sort_key (\<lambda>r. if pf_AccountRef (Profiles_at (pe_catalog env) r) = preferred then 0 else 1 :: nat) grp)"

definition groups :: "preview_env \<Rightarrow> string list \<Rightarrow> string list list" where
  "groups env refs = map (sort_group env) (foldl (group_step env) [] refs)"

section \<open>The route\<close>

text \<open>What the closures write: \<open>result.Reason\<close>, \<open>result.Trace\<close>, and \<open>route\<close>'s own variables.\<close>

record route_state =
  rs_reason :: string
  rs_trace :: "RuntimeTrace list"
  rs_visited :: "string list"
  rs_attempts :: int

definition push_trace :: "string \<Rightarrow> string \<Rightarrow> route_state \<Rightarrow> route_state" where
  "push_trace ref reason st = st\<lparr>rs_trace := rs_trace st @ [\<lparr>tr_ProfileID = ref, tr_Reason = reason\<rparr>]\<rparr>"

definition inspect ::
  "preview_env \<Rightarrow> (string \<Rightarrow> bool) option \<Rightarrow> string \<Rightarrow> bool \<Rightarrow> route_state \<Rightarrow> string \<times> route_state" where
  "inspect env accept ref filtered st =
     (if ref \<in> set (rs_visited st) then (''already_visited'', st)
      else let st1 = st\<lparr>rs_visited := ref # rs_visited st\<rparr>; reason = assess env ref in
        if reason = ''available'' \<and> filtered \<and> (case accept of None \<Rightarrow> False | Some f \<Rightarrow> \<not> f ref)
        then (''not_independent'', push_trace ref ''not_independent'' st1)
        else if rs_attempts st1 \<ge> po_MaxAttempts (pe_policy env) then (''attempt_limit'', st1)
        else (reason, push_trace ref reason (st1\<lparr>rs_attempts := rs_attempts st1 + 1\<rparr>)))"

definition blocked :: "string \<Rightarrow> bool" where
  "blocked reason \<longleftrightarrow> reason = ''quota_blocked'' \<or> reason = ''threshold_blocked'' \<or> reason = ''not_independent''"

definition unknown_reason :: "string \<Rightarrow> bool" where
  "unknown_reason reason \<longleftrightarrow> reason = ''pool_evidence_unknown'' \<or> reason = ''pool_evidence_unavailable''
     \<or> reason = ''controller_unavailable''"

text \<open>One group of \<open>walk\<close>: a selection, a final stop, or the children to try next.\<close>

datatype group_result = Picked string | Stopped string | Children "string list list"

fun walk_group ::
  "preview_env \<Rightarrow> (string \<Rightarrow> bool) option \<Rightarrow> string list \<Rightarrow> string list list \<Rightarrow> route_state
     \<Rightarrow> group_result \<times> route_state" where
  "walk_group env accept [] children st = (Children children, st)"
| "walk_group env accept (ref # refs) children st =
     (let (reason, st1) = inspect env accept ref True st in
      if reason = ''available'' then (Picked ref, st1)
      else if reason = ''attempt_limit'' then (Stopped reason, st1)
      else if unknown_reason reason then (Stopped ''sibling_evidence_unknown'', st1)
      else if blocked reason then walk_group env accept refs (children @ groups env (edges_of env ref)) st1
      else walk_group env accept refs children st1)"

text \<open>
  Only a profile visited for the first time contributes children, and only one with quota edges
  contributes any: so either the group adds nothing, or fewer edge sources stay unvisited.
\<close>

definition edge_sources :: "preview_env \<Rightarrow> string set" where
  "edge_sources env = set (go_keys (po_QuotaEdges (pe_policy env)))"

lemma finite_edge_sources [simp]: "finite (edge_sources env)"
  by (simp add: edge_sources_def)

lemma edges_of_outside: "ref \<notin> edge_sources env \<Longrightarrow> edges_of env ref = []"
  by (force simp: edge_sources_def go_get_def go_keys_def split: option.splits dest: map_of_SomeD)

lemma groups_Nil [simp]: "groups env [] = []"
  by (simp add: groups_def)

lemma inspect_visited:
  "inspect env accept ref filtered st = (reason, st1) \<Longrightarrow>
     set (rs_visited st1) = insert ref (set (rs_visited st))
     \<and> (reason \<noteq> ''already_visited'' \<longrightarrow> ref \<notin> set (rs_visited st) \<or> reason = assess env ref)"
  by (auto simp: inspect_def push_trace_def Let_def split: if_splits)

lemma inspect_new:
  "inspect env accept ref filtered st = (reason, st1) \<Longrightarrow> blocked reason \<Longrightarrow> ref \<notin> set (rs_visited st)"
  by (auto simp: inspect_def blocked_def Let_def split: if_splits)

lemma walk_group_visited: "walk_group env accept refs children st = (r, st1) \<Longrightarrow> set (rs_visited st) \<subseteq> set (rs_visited st1)"
proof (induction refs arbitrary: children st)
  case Nil
  then show ?case by simp
next
  case (Cons ref refs)
  obtain reason st0 where i: "inspect env accept ref True st = (reason, st0)"
    by (cases "inspect env accept ref True st")
  from inspect_visited [OF i] have "set (rs_visited st) \<subseteq> set (rs_visited st0)" by auto
  with Cons i show ?case by (fastforce simp: Let_def split: if_splits)
qed

lemma walk_group_children:
  assumes "walk_group env accept refs children st = (Children ch, st1)"
  shows "ch = children \<or> (\<exists>r \<in> edge_sources env. r \<notin> set (rs_visited st) \<and> r \<in> set (rs_visited st1))"
  using assms
proof (induction refs arbitrary: children st)
  case Nil
  then show ?case by simp
next
  case (Cons ref refs)
  obtain reason st0 where i: "inspect env accept ref True st = (reason, st0)"
    by (cases "inspect env accept ref True st")
  note v = inspect_visited [OF i] and new = inspect_new [OF i]
  show ?case
  proof (cases "blocked reason \<and> ref \<in> edge_sources env")
    case True
    then obtain ch' where "walk_group env accept refs ch' st0 = (Children ch, st1)"
      using Cons.prems i by (auto simp: Let_def split: if_splits)
    with v have "ref \<in> set (rs_visited st1)" using walk_group_visited by fastforce
    with True new show ?thesis by blast
  next
    case False
    then have "walk_group env accept refs children st0 = (Children ch, st1)"
      using Cons.prems i by (auto simp: Let_def edges_of_outside split: if_splits)
    from Cons.IH [OF this] v show ?thesis by auto
  qed
qed

lemma walk_decreases:
  assumes "walk_group env accept grp [] st = (Children ch, st1)"
  shows "card (edge_sources env - set (rs_visited st1)) < card (edge_sources env - set (rs_visited st))
    \<or> card (edge_sources env - set (rs_visited st1)) = card (edge_sources env - set (rs_visited st)) \<and> ch = []"
proof -
  note sub = walk_group_visited [OF assms]
  then have le: "card (edge_sources env - set (rs_visited st1)) \<le> card (edge_sources env - set (rs_visited st))"
    by (intro card_mono) auto
  from walk_group_children [OF assms] show ?thesis
  proof
    assume "\<exists>r \<in> edge_sources env. r \<notin> set (rs_visited st) \<and> r \<in> set (rs_visited st1)"
    with sub have "edge_sources env - set (rs_visited st1) \<subset> edge_sources env - set (rs_visited st)" by blast
    then show ?thesis by (simp add: psubset_card_mono)
  qed (use le in auto)
qed

function walk ::
  "preview_env \<Rightarrow> (string \<Rightarrow> bool) option \<Rightarrow> bool \<Rightarrow> string list list \<Rightarrow> route_state \<Rightarrow> string \<times> route_state" where
  "walk env accept edgesLast [] st = ('''', st)"
| "walk env accept edgesLast (grp # pending) st =
     (case walk_group env accept grp [] st of
        (Picked ref, st1) \<Rightarrow> (ref, st1)
      | (Stopped reason, st1) \<Rightarrow> ('''', st1\<lparr>rs_reason := reason\<rparr>)
      | (Children children, st1) \<Rightarrow>
          walk env accept edgesLast (if edgesLast then pending @ children else children @ pending) st1)"
  by pat_completeness auto
termination
  by (relation "measures [\<lambda>(env, accept, edgesLast, pending, st). card (edge_sources env - set (rs_visited st)),
                          \<lambda>(env, accept, edgesLast, pending, st). length pending]")
    (auto dest!: walk_decreases sym [of "(Children _, _)"])

text \<open>\<open>route\<close>: the selected reference (possibly empty), whether \<open>result.Reason\<close> is final, and the state.\<close>

definition route_start :: "route_state \<Rightarrow> route_state" where
  "route_start st = st\<lparr>rs_trace := [], rs_visited := [], rs_attempts := 0\<rparr>"

definition route_reserve ::
  "preview_env \<Rightarrow> (string \<Rightarrow> bool) option \<Rightarrow> route_state \<Rightarrow> string \<times> bool \<times> route_state" where
  "route_reserve env accept st =
     (let source = in_SourceProfileID (pe_request env) in
      if source \<notin> set (rb_PermittedProfiles (pe_binding env))
      then ('''', True, st\<lparr>rs_reason := ''source_not_permitted''\<rparr>)
      else let (reason, st1) = inspect env accept source False st in
        if reason \<noteq> ''quota_blocked'' \<and> reason \<noteq> ''threshold_blocked''
        then ('''', True, st1\<lparr>rs_reason := ''source_has_no_sole_quota_trigger''\<rparr>)
        else let (sel, st2) = walk env accept False (groups env (edges_of env source)) st1 in (sel, False, st2))"

definition route ::
  "preview_env \<Rightarrow> (string \<Rightarrow> bool) option \<Rightarrow> route_state \<Rightarrow> (string \<times> bool \<times> route_state) option" where
  "route env accept st0 =
     (let st = route_start st0 in
      if in_Purpose (pe_request env) = ''quota_reserve'' then Some (route_reserve env accept st)
      else case groups env (po_PrimaryProfiles (pe_policy env)) of
        (first # siblings) # otherGroups \<Rightarrow>
          (let (reason, st1) = inspect env accept first True st in
           if reason = ''available'' then Some (first, False, st1)
           else if blocked reason then
             let pending = (if siblings \<noteq> [] then [siblings] else []) @ otherGroups @ groups env (edges_of env first);
                 (sel, st2) = walk env accept True pending st1
             in Some (sel, False, st2)
           else Some ('''', True, st1\<lparr>rs_reason := ''primary_has_no_sole_quota_trigger''\<rparr>))
      | _ \<Rightarrow> None)"

section \<open>The preview\<close>

definition with_route :: "route_state \<Rightarrow> RuntimePreview \<Rightarrow> RuntimePreview" where
  "with_route st result = result\<lparr>pv_Reason := rs_reason st, pv_Trace := rs_trace st\<rparr>"

definition select_result :: "preview_env \<Rightarrow> string \<Rightarrow> bool \<Rightarrow> RuntimePreview \<Rightarrow> RuntimePreview" where
  "select_result env selected independentPick result =
     (if selected = '''' then result
      else let account = pf_AccountRef (Profiles_at (pe_catalog env) selected);
               provider = ra_Provider (Accounts_at (pe_catalog env) account)
        in result\<lparr>pv_SelectedProfileID := selected, pv_SelectedAccountRef := account,
             pv_PreferredAccountRef := go_get '''' (po_PreferredAccounts (pe_policy env)) provider,
             pv_Reason := (if independentPick then ''independent_reviewer_available'' else ''profile_available'')\<rparr>)"

text \<open>The acceptance filter of an independent review.\<close>

definition accept_independent :: "preview_env \<Rightarrow> RuntimeProvenance \<Rightarrow> string \<Rightarrow> bool" where
  "accept_independent env prov ref =
     (let observation = go_get zero_evidence (pe_evidence env) ref
      in ev_ActualModelDeveloper observation \<noteq> '''' \<and> ev_ActualModelFamily observation \<noteq> ''''
         \<and> runtimeIndependent observation prov)"

text \<open>The part of \<open>PreviewRuntime\<close> after the guards. \<open>qa\<close> is the provenance when \<open>qaFilter\<close> holds (the
  guards have checked that there is one) and \<^const>\<open>None\<close> otherwise.\<close>

definition preview_routed :: "preview_env \<Rightarrow> RuntimeProvenance option \<Rightarrow> RuntimePreview \<Rightarrow> RuntimePreview option" where
  "preview_routed env qa result =
     (let mode = qa_Mode (po_QA (pe_policy env));
          accept = map_option (accept_independent env) qa;
          st0 = \<lparr>rs_reason = pv_Reason result, rs_trace = pv_Trace result, rs_visited = [], rs_attempts = 0\<rparr>
      in case route env accept st0 of
        None \<Rightarrow> None
      | Some (selected, terminal, st) \<Rightarrow>
          let result1 = with_route st result in
          if terminal then Some result1
          else case (if selected = '''' \<and> (pv_Reason result1 = ''no_available_route'' \<or> pv_Reason result1 = ''attempt_limit'')
                     then qa else None) of
            None \<Rightarrow> Some (select_result env selected (selected \<noteq> '''' \<and> qa \<noteq> None) result1)
          | Some prov \<Rightarrow>
              if mode = ''strict'' \<and> \<not> relaxable env prov
              then Some (result1\<lparr>pv_Reason := ''strict_independent_review_unavailable''\<rparr>)
              else if mode = ''strict'' \<or> mode = ''prefer'' then
                let result2 = (if mode = ''strict'' then result1\<lparr>pv_QAMode := ''prefer'', pv_QACompromise := True\<rparr> else result1)
                in (case route env None st of
                      None \<Rightarrow> None
                    | Some (selected2, terminal2, st2) \<Rightarrow>
                        let result3 = with_route st2 result2
                        in if terminal2 then Some result3 else Some (select_result env selected2 False result3))
              else Some result1)"

definition PreviewRuntime ::
  "RuntimeCatalog \<Rightarrow> RuntimeBinding \<Rightarrow> int \<Rightarrow> bool \<Rightarrow> string list \<Rightarrow> (string, RuntimeCandidateEvidence) gomap
     \<Rightarrow> RuntimeProvenance option \<Rightarrow> RuntimePreviewInput \<Rightarrow> gtime \<Rightarrow> RuntimePreview option" where
  "PreviewRuntime c binding revision enabled admitted evidence provenance request now =
     (let env = \<lparr>pe_catalog = c, pe_binding = binding, pe_admitted = admitted, pe_evidence = evidence,
                 pe_request = request, pe_now = now\<rparr>;
          result = \<lparr>pv_SelectedProfileID = '''', pv_SelectedAccountRef = '''', pv_PreferredAccountRef = '''',
                    pv_Reason = ''no_available_route'', pv_Trace = [], pv_Revision = revision, pv_LaunchAuthorized = False,
                    pv_ArtifactRevision = in_ArtifactRevision request, pv_QAMode = '''', pv_QACompromise = False\<rparr>;
          refuse = (\<lambda>r res. Some (res\<lparr>pv_Reason := r\<rparr>));
          review = (in_ArtifactID request \<noteq> uuid_Nil \<or> in_ArtifactRevision request \<noteq> '''');
          mode = qa_Mode (po_QA (rb_Policy binding))
      in if \<not> enabled \<or> \<not> rb_Enabled binding then refuse ''integration_or_admission_disabled'' result
         else if in_Purpose request \<noteq> ''new_launch'' \<and> in_Purpose request \<noteq> ''quota_reserve''
         then refuse ''request_state_invalid'' result
         else if (in_Purpose request = ''new_launch'' \<and> in_SourceProfileID request \<noteq> '''')
                 \<or> (in_Purpose request = ''quota_reserve'' \<and> in_SourceProfileID request = '''')
         then refuse ''request_state_invalid'' result
         else if \<not> review then preview_routed env None result
         else let result1 = result\<lparr>pv_QAMode := mode\<rparr> in
           case provenance of
             None \<Rightarrow> refuse ''exact_sha_provenance_unavailable'' result1
           | Some prov \<Rightarrow>
               if \<not> pr_Complete prov \<or> pr_Authors prov = [] \<or> pr_ArtifactID prov \<noteq> in_ArtifactID request
                  \<or> pr_Revision prov \<noteq> in_ArtifactRevision request
               then refuse ''exact_sha_provenance_unavailable'' result1
               else if list_ex (\<lambda>author. au_AgentID author = uuid_Nil \<or> au_AgentID author = ri_AgentID (rb_Binding binding))
                         (pr_Authors prov)
               then refuse ''reviewer_is_author_or_identity_unknown'' result1
               else preview_routed env (if mode \<noteq> ''off'' then Some prov else None) result1)"

section \<open>What an available profile is\<close>

definition pool_available :: "preview_env \<Rightarrow> RuntimeCandidateEvidence \<Rightarrow> string \<Rightarrow> bool" where
  "pool_available env obs ref \<longleftrightarrow>
     (\<exists>f. map_of (ev_Pools obs) (case ResolvePool (pe_catalog env) ref of None \<Rightarrow> '''' | Some p \<Rightarrow> p) = Some f
          \<and> pool_fresh env f \<and> ob_State f = ''available'')"

definition launchable :: "preview_env \<Rightarrow> string \<Rightarrow> bool" where
  "launchable env ref \<longleftrightarrow>
     (\<exists>profile obs. map_of (ca_Profiles (pe_catalog env)) ref = Some profile
        \<and> ref \<in> set (rb_PermittedProfiles (pe_binding env)) \<and> ref \<in> set (pe_admitted env)
        \<and> pf_Enabled profile \<and> rc_Enabled (Controllers_at (pe_catalog env) (pf_ControllerRef profile))
        \<and> (pf_ExecutionMode profile = ''api'' \<longrightarrow> ref \<in> set (po_PrimaryProfiles (pe_policy env))
             \<or> ra_Provider (Accounts_at (pe_catalog env) (pf_AccountRef profile)) \<in> set (po_APIReserveProviders (pe_policy env)))
        \<and> map_of (pe_evidence env) ref = Some obs \<and> ev_ControllerCurrent obs
        \<and> set (in_RequiredCapabilities (pe_request env)) \<subseteq> set (pf_Capabilities profile)
        \<and> (\<forall>pool \<in> set (go_get [] (ra_QuotaPoolsByMode (Accounts_at (pe_catalog env) (pf_AccountRef profile)))
                          (pf_ExecutionMode profile)). pool_available env obs pool))"

lemma assess_pools_available:
  "assess_pools env obs refs q t = ''available'' \<longleftrightarrow> \<not> q \<and> \<not> t \<and> (\<forall>r \<in> set refs. pool_available env obs r)"
  by (induction env obs refs q t rule: assess_pools.induct)
    (auto simp: pool_available_def Let_def split: option.splits)

lemma assess_available_iff: "assess env ref = ''available'' \<longleftrightarrow> launchable env ref"
  by (auto simp: assess_def launchable_def Let_def assess_pools_available list_ex_iff split: option.splits if_splits)

lemma assess_pools_range:
  "assess_pools env obs refs q t \<in> {''quota_blocked'', ''threshold_blocked'', ''available'',
     ''pool_evidence_unavailable'', ''pool_evidence_unknown''}"
  by (induction env obs refs q t rule: assess_pools.induct) (auto simp: Let_def split: option.splits)

lemma assess_not_special: "assess env ref \<noteq> ''not_independent''"
proof -
  have "assess_pools env obs refs q t \<noteq> ''not_independent''" for obs refs q t
    using assess_pools_range [of env obs refs q t] by auto
  then show ?thesis by (auto simp: assess_def Let_def split: option.splits)
qed

text \<open>With a schema-checked evidence age (at most a day) the freshness test is plain arithmetic.\<close>

lemma pool_fresh_iff:
  assumes "0 \<le> po_EvidenceMaxAgeSeconds (pe_policy env)" and "po_EvidenceMaxAgeSeconds (pe_policy env) \<le> 86400"
  shows "pool_fresh env f \<longleftrightarrow> ob_Verified f \<and> ob_ObservedAt f \<noteq> 0 \<and> ob_ObservedAt f \<le> pe_now env
    \<and> pe_now env - ob_ObservedAt f \<le> po_EvidenceMaxAgeSeconds (pe_policy env) * 1000000000"
  using assms by (auto simp: pool_fresh_def IsZero_def Seconds_small time_Sub_def max_duration_def min_duration_def)

section \<open>The walk picks only acceptable, available profiles\<close>

definition accepted :: "(string \<Rightarrow> bool) option \<Rightarrow> string \<Rightarrow> bool" where
  "accepted accept ref \<longleftrightarrow> (case accept of None \<Rightarrow> True | Some f \<Rightarrow> f ref)"

definition good_pick :: "preview_env \<Rightarrow> (string \<Rightarrow> bool) option \<Rightarrow> string \<Rightarrow> bool" where
  "good_pick env accept sel \<longleftrightarrow> sel = '''' \<or> launchable env sel \<and> accepted accept sel"

lemma inspect_available:
  "inspect env accept ref True st = (''available'', st1) \<Longrightarrow> good_pick env accept ref"
  by (auto simp: inspect_def good_pick_def accepted_def assess_available_iff [symmetric] Let_def
      split: if_splits option.splits)

lemma walk_group_pick: "walk_group env accept refs ch st = (Picked ref, st1) \<Longrightarrow> good_pick env accept ref"
  by (induction refs arbitrary: ch st) (auto simp: Let_def dest: inspect_available split: if_splits prod.splits)

lemma walk_pick: "walk env accept el pending st = (ref, st1) \<Longrightarrow> good_pick env accept ref"
  by (induction env accept el pending st arbitrary: ref st1 rule: walk.induct)
    (auto simp: good_pick_def [of _ _ "''''"] dest: walk_group_pick split: prod.splits group_result.splits)

declare walk.simps [simp del]

lemma route_pick: "route env accept st0 = Some (sel, terminal, st) \<Longrightarrow> good_pick env accept sel"
  by (auto simp: route_def route_reserve_def good_pick_def [of _ _ "''''"] Let_def
      dest: walk_pick inspect_available split: if_splits prod.splits list.splits)

section \<open>The trace: no profile twice, and at most the allowed attempts\<close>

definition tried :: "RuntimeTrace \<Rightarrow> bool" where
  "tried t \<longleftrightarrow> tr_Reason t \<noteq> ''not_independent''"

definition route_inv :: "preview_env \<Rightarrow> route_state \<Rightarrow> bool" where
  "route_inv env st \<longleftrightarrow>
     distinct (map tr_ProfileID (rs_trace st)) \<and> tr_ProfileID ` set (rs_trace st) \<subseteq> set (rs_visited st)
     \<and> int (length (filter tried (rs_trace st))) = rs_attempts st
     \<and> rs_attempts st \<le> max 0 (po_MaxAttempts (pe_policy env))"

lemma route_inv_start [simp]: "route_inv env (route_start st)"
  by (simp add: route_inv_def route_start_def)

lemma route_inv_reason [simp]: "route_inv env (st\<lparr>rs_reason := r\<rparr>) = route_inv env st"
  by (simp add: route_inv_def)

lemma inspect_inv: "inspect env accept ref filtered st = (reason, st1) \<Longrightarrow> route_inv env st \<Longrightarrow> route_inv env st1"
  using assess_not_special [of env ref]
  by (auto simp: inspect_def route_inv_def push_trace_def tried_def Let_def image_subset_iff image_iff split: if_splits)

lemma walk_group_inv: "walk_group env accept refs ch st = (r, st1) \<Longrightarrow> route_inv env st \<Longrightarrow> route_inv env st1"
proof (induction refs arbitrary: ch st)
  case (Cons ref refs)
  obtain reason st0 where i: "inspect env accept ref True st = (reason, st0)"
    by (cases "inspect env accept ref True st")
  with Cons show ?case by (auto simp: Let_def dest: inspect_inv split: if_splits)
qed simp

lemma walk_inv: "walk env accept el pending st = (ref, st1) \<Longrightarrow> route_inv env st \<Longrightarrow> route_inv env st1"
proof (induction env accept el pending st arbitrary: ref st1 rule: walk.induct)
  case (2 env accept el grp pending st)
  obtain r st0 where wg: "walk_group env accept grp [] st = (r, st0)"
    by (cases "walk_group env accept grp [] st")
  with "2.prems" "2.IH" [OF wg [symmetric]] walk_group_inv [OF wg] show ?case
    by (auto simp: walk.simps split: group_result.splits)
qed (simp add: walk.simps)

lemma route_trace_inv: "route env accept st0 = Some (sel, terminal, st) \<Longrightarrow> route_inv env st"
  by (auto simp: route_def route_reserve_def Let_def dest!: inspect_inv walk_inv split: if_splits prod.splits list.splits)

section \<open>The review fallback\<close>

lemma relaxable_loop_iff:
  "0 \<le> n \<Longrightarrow> relaxable_loop env prov refs n q \<longleftrightarrow>
     qa_QuotaFallback (po_QA (pe_policy env)) \<and> q
     \<and> (n > 0 \<or> (\<exists>r \<in> set refs. r \<in> set (pe_admitted env) \<and> accept_independent env prov r))
     \<and> (\<forall>r \<in> set refs. r \<in> set (pe_admitted env) \<longrightarrow>
          ev_ActualModelDeveloper (go_get zero_evidence (pe_evidence env) r) \<noteq> ''''
          \<and> ev_ActualModelFamily (go_get zero_evidence (pe_evidence env) r) \<noteq> ''''
          \<and> (accept_independent env prov r \<longrightarrow> assess env r = ''quota_blocked''))"
  by (induction refs arbitrary: n q) (auto simp: accept_independent_def Let_def)

definition quota_spent_everywhere :: "preview_env \<Rightarrow> RuntimeProvenance \<Rightarrow> bool" where
  "quota_spent_everywhere env prov \<longleftrightarrow>
     (let alternatives = {r \<in> set (rb_PermittedProfiles (pe_binding env)). r \<in> set (pe_admitted env)};
          independents = {r \<in> alternatives. accept_independent env prov r}
      in independents \<noteq> {} \<and> (\<forall>r \<in> independents. assess env r = ''quota_blocked'')
         \<and> (\<forall>r \<in> alternatives. ev_ActualModelDeveloper (go_get zero_evidence (pe_evidence env) r) \<noteq> ''''
              \<and> ev_ActualModelFamily (go_get zero_evidence (pe_evidence env) r) \<noteq> ''''))"

lemma relaxable_iff:
  "relaxable env prov \<longleftrightarrow> qa_QuotaFallback (po_QA (pe_policy env)) \<and> quota_spent_everywhere env prov"
  by (auto simp: relaxable_def relaxable_loop_iff quota_spent_everywhere_def Let_def)


section \<open>What a preview promises\<close>

abbreviation env_of ::
  "RuntimeCatalog \<Rightarrow> RuntimeBinding \<Rightarrow> string list \<Rightarrow> (string, RuntimeCandidateEvidence) gomap
     \<Rightarrow> RuntimePreviewInput \<Rightarrow> gtime \<Rightarrow> preview_env" where
  "env_of c binding admitted evidence request now \<equiv>
     \<lparr>pe_catalog = c, pe_binding = binding, pe_admitted = admitted, pe_evidence = evidence,
      pe_request = request, pe_now = now\<rparr>"

abbreviation selected_account :: "RuntimeCatalog \<Rightarrow> RuntimePreview \<Rightarrow> string" where
  "selected_account c r \<equiv> pf_AccountRef (Profiles_at c (pv_SelectedProfileID r))"

text \<open>The contract of \<open>preview_routed\<close>, from which the properties follow.\<close>

definition routed_ok :: "preview_env \<Rightarrow> RuntimeProvenance option \<Rightarrow> RuntimePreview \<Rightarrow> bool" where
  "routed_ok env qa r \<longleftrightarrow>
     (let sel = pv_SelectedProfileID r; mode = qa_Mode (po_QA (pe_policy env)) in
        (sel \<noteq> '''' \<longrightarrow> launchable env sel \<and> pv_SelectedAccountRef r = selected_account (pe_catalog env) r)
      \<and> (sel \<noteq> '''' \<longrightarrow> (\<forall>prov. qa = Some prov \<longrightarrow>
            pv_QACompromise r \<or> mode = ''prefer'' \<or> accept_independent env prov sel))
      \<and> (\<forall>prov. qa = Some prov \<longrightarrow> sel \<noteq> '''' \<longrightarrow> pv_Reason r = ''independent_reviewer_available'' \<longrightarrow>
            accept_independent env prov sel)
      \<and> (pv_QACompromise r \<longrightarrow> (\<exists>prov. qa = Some prov \<and> mode = ''strict'' \<and> relaxable env prov))
      \<and> \<not> pv_LaunchAuthorized r
      \<and> (\<exists>st. pv_Trace r = rs_trace st \<and> route_inv env st))"

definition fresh_result :: "RuntimePreview \<Rightarrow> bool" where
  "fresh_result r \<longleftrightarrow> pv_SelectedProfileID r = '''' \<and> \<not> pv_QACompromise r \<and> \<not> pv_LaunchAuthorized r \<and> pv_Trace r = []"

lemma routed_ok_trace:
  "fresh_result r \<Longrightarrow> route_inv env st \<Longrightarrow> routed_ok env qa (with_route st r)"
  by (auto simp: routed_ok_def fresh_result_def with_route_def Let_def)

lemma routed_ok_select_strict:
  assumes "fresh_result r" and "route_inv env st"
    and "good_pick env (map_option (accept_independent env) qa) sel"
  shows "routed_ok env qa (select_result env sel b (with_route st r))"
  using assms
  by (auto simp: routed_ok_def fresh_result_def with_route_def select_result_def good_pick_def accepted_def Let_def
      split: option.splits)

lemma routed_ok_select_fallback:
  assumes "pv_SelectedProfileID r = ''''" and "\<not> pv_LaunchAuthorized r" and "route_inv env st"
    and "good_pick env None sel"
    and "pv_QACompromise r \<longrightarrow> qa = Some prov \<and> qa_Mode (po_QA (pe_policy env)) = ''strict'' \<and> relaxable env prov"
    and "qa_Mode (po_QA (pe_policy env)) = ''prefer'' \<or> pv_QACompromise r"
  shows "routed_ok env qa (select_result env sel False (with_route st r)) \<and> routed_ok env qa (with_route st r)"
  using assms
  by (auto simp: routed_ok_def with_route_def select_result_def good_pick_def Let_def)

lemma preview_routed_ok:
  assumes fresh: "fresh_result result" and run: "preview_routed env qa result = Some r"
  shows "routed_ok env qa r"
proof -
  let ?accept = "map_option (accept_independent env) qa"
  let ?st0 = "\<lparr>rs_reason = pv_Reason result, rs_trace = pv_Trace result, rs_visited = [], rs_attempts = 0\<rparr>"
  obtain sel terminal st where rt: "route env ?accept ?st0 = Some (sel, terminal, st)"
    using run by (auto simp: preview_routed_def Let_def split: option.splits)
  note pick = route_pick [OF rt] and inv = route_trace_inv [OF rt]
  note facts = routed_ok_trace [OF fresh inv] routed_ok_select_strict [OF fresh inv pick]
  show ?thesis
  proof (cases "terminal \<or> sel \<noteq> '''' \<or> qa = None
      \<or> pv_Reason (with_route st result) \<notin> {''no_available_route'', ''attempt_limit''}")
    case True
    with run rt facts show ?thesis by (auto simp: preview_routed_def Let_def split: if_splits)
  next
    case False
    then obtain prov where prov: "qa = Some prov" by auto
    let ?mode = "qa_Mode (po_QA (pe_policy env))"
    have unrelaxed: "routed_ok env qa (with_route st result\<lparr>pv_Reason := ''strict_independent_review_unavailable''\<rparr>)"
      using facts(1) fresh by (auto simp: routed_ok_def fresh_result_def with_route_def Let_def)
    show ?thesis
    proof (cases "?mode = ''strict'' \<and> \<not> relaxable env prov \<or> ?mode \<noteq> ''strict'' \<and> ?mode \<noteq> ''prefer''")
      case True
      with False prov run rt facts unrelaxed show ?thesis by (auto simp: preview_routed_def Let_def split: if_splits)
    next
      case relaxed: False
      obtain sel2 terminal2 st2 where rt2: "route env None st = Some (sel2, terminal2, st2)"
        using run rt False prov relaxed by (auto simp: preview_routed_def Let_def split: option.splits if_splits)
      define r2 where "r2 = (if ?mode = ''strict''
          then (with_route st result)\<lparr>pv_QAMode := ''prefer'', pv_QACompromise := True\<rparr> else with_route st result)"
      have "routed_ok env qa (select_result env sel2 False (with_route st2 r2)) \<and> routed_ok env qa (with_route st2 r2)"
        using relaxed fresh prov route_pick [OF rt2] route_trace_inv [OF rt2]
        by (intro routed_ok_select_fallback [where prov = prov])
          (auto simp: r2_def fresh_result_def with_route_def split: if_splits)
      moreover have "r = (if terminal2 then with_route st2 r2 else select_result env sel2 False (with_route st2 r2))"
        using run rt False prov relaxed rt2
        by (auto simp: preview_routed_def Let_def r2_def split: if_splits)
      ultimately show ?thesis by auto
    qed
  qed
qed


definition review_requested :: "RuntimePreviewInput \<Rightarrow> bool" where
  "review_requested request \<longleftrightarrow> in_ArtifactID request \<noteq> uuid_Nil \<or> in_ArtifactRevision request \<noteq> ''''"

definition provenance_exact :: "RuntimeBinding \<Rightarrow> RuntimePreviewInput \<Rightarrow> RuntimeProvenance \<Rightarrow> bool" where
  "provenance_exact binding request prov \<longleftrightarrow>
     pr_Complete prov \<and> pr_Authors prov \<noteq> [] \<and> pr_ArtifactID prov = in_ArtifactID request
     \<and> pr_Revision prov = in_ArtifactRevision request
     \<and> (\<forall>author \<in> set (pr_Authors prov). au_AgentID author \<noteq> uuid_Nil \<and> au_AgentID author \<noteq> ri_AgentID (rb_Binding binding))"

lemma PreviewRuntime_contract:
  assumes "PreviewRuntime c binding revision enabled admitted evidence provenance request now = Some r"
  shows "\<exists>qa. routed_ok (env_of c binding admitted evidence request now) qa r
    \<and> (pv_SelectedProfileID r \<noteq> '''' \<longrightarrow> enabled \<and> rb_Enabled binding
        \<and> (in_Purpose request = ''new_launch'' \<and> in_SourceProfileID request = ''''
           \<or> in_Purpose request = ''quota_reserve'' \<and> in_SourceProfileID request \<noteq> '''')
        \<and> (review_requested request \<longrightarrow> (\<exists>prov. provenance = Some prov \<and> provenance_exact binding request prov
             \<and> (qa_Mode (po_QA (rb_Policy binding)) \<noteq> ''off'' \<longrightarrow> qa = Some prov))))
    \<and> (\<forall>prov. qa = Some prov \<longrightarrow> provenance = Some prov)"
proof -
  let ?env = "env_of c binding admitted evidence request now"
  let ?res = "\<lparr>pv_SelectedProfileID = '''', pv_SelectedAccountRef = '''', pv_PreferredAccountRef = '''',
      pv_Reason = ''no_available_route'', pv_Trace = [], pv_Revision = revision, pv_LaunchAuthorized = False,
      pv_ArtifactRevision = in_ArtifactRevision request, pv_QAMode = '''', pv_QACompromise = False\<rparr>"
  let ?mode = "qa_Mode (po_QA (rb_Policy binding))"
  have fresh: "fresh_result (?res\<lparr>pv_Reason := x, pv_QAMode := m\<rparr>)" for x m
    by (simp add: fresh_result_def)
  have refused: "routed_ok ?env None (?res\<lparr>pv_Reason := x, pv_QAMode := m\<rparr>)" for x m
    using route_inv_start [of ?env "\<lparr>rs_reason = '''', rs_trace = [], rs_visited = [], rs_attempts = 0\<rparr>"]
    by (auto simp: routed_ok_def route_start_def Let_def intro!: exI [of _ "\<lparr>rs_reason = '''', rs_trace = [], rs_visited = [], rs_attempts = 0\<rparr>"])
  have plain: "routed_ok ?env None (?res\<lparr>pv_Reason := x\<rparr>)" for x
    using refused [of "''''" x] by simp
  have routed: "preview_routed ?env qa (?res\<lparr>pv_QAMode := m\<rparr>) = Some r \<Longrightarrow> routed_ok ?env qa r" for qa m
    using preview_routed_ok [OF fresh [of m "''no_available_route''"], of ?env qa r] by simp
  show ?thesis
  proof (cases "enabled \<and> rb_Enabled binding
      \<and> (in_Purpose request = ''new_launch'' \<and> in_SourceProfileID request = ''''
         \<or> in_Purpose request = ''quota_reserve'' \<and> in_SourceProfileID request \<noteq> '''')
      \<and> (review_requested request \<longrightarrow> (\<exists>prov. provenance = Some prov \<and> provenance_exact binding request prov))")
    case False
    then have "\<exists>x m. r = ?res\<lparr>pv_Reason := x, pv_QAMode := m\<rparr>"
      using assms by (auto simp: PreviewRuntime_def review_requested_def provenance_exact_def list_ex_iff Let_def
          split: option.splits if_splits)
    with refused show ?thesis by (intro exI [of _ None]) auto
  next
    case True
    show ?thesis
    proof (cases "review_requested request")
      case False
      then have "preview_routed ?env None ?res = Some r"
        using assms True by (auto simp: PreviewRuntime_def review_requested_def Let_def split: if_splits)
      with routed [of None "''''"] True False show ?thesis by (intro exI [of _ None]) simp
    next
      case rev: True
      then obtain prov where "provenance = Some prov" "provenance_exact binding request prov" using True by auto
      moreover from this have "preview_routed ?env (if ?mode \<noteq> ''off'' then Some prov else None) (?res\<lparr>pv_QAMode := ?mode\<rparr>) = Some r"
        using assms True rev
        by (auto simp: PreviewRuntime_def review_requested_def provenance_exact_def list_ex_iff Let_def split: if_splits)
      ultimately show ?thesis using routed True
        by (intro exI [of _ "if ?mode \<noteq> ''off'' then Some prov else None"]) auto
    qed
  qed
qed

text \<open>C8. Selection is sound: when a preview names a profile, the integration and the binding are
  enabled and that profile is launchable (permitted, admitted, enabled on an enabled and current
  controller, with every required capability, opted in when it is an API profile, and every quota pool
  of its mode backed by fresh evidence that it is available); the account named is the profile's, and
  the preview never authorises a launch.\<close>

theorem PreviewRuntime_selection_sound:
  assumes "PreviewRuntime c binding revision enabled admitted evidence provenance request now = Some r"
    and "pv_SelectedProfileID r \<noteq> ''''"
  shows "enabled \<and> rb_Enabled binding
    \<and> launchable (env_of c binding admitted evidence request now) (pv_SelectedProfileID r)
    \<and> pv_SelectedAccountRef r = selected_account c r \<and> \<not> pv_LaunchAuthorized r"
  using PreviewRuntime_contract [OF assms(1)] assms(2) by (auto simp: routed_ok_def Let_def)

text \<open>C19. Review independence: when a review is previewed under the strict mode and a profile is
  selected without the quota compromise being declared, the provenance of exactly the requested
  artifact revision was complete, the reviewing agent is none of its authors, and the selected
  profile's actual model differs in developer and in family from every author's model.\<close>

theorem PreviewRuntime_strict_independence:
  assumes "PreviewRuntime c binding revision enabled admitted evidence provenance request now = Some r"
    and "pv_SelectedProfileID r \<noteq> ''''" and "review_requested request"
    and "qa_Mode (po_QA (rb_Policy binding)) = ''strict''" and "\<not> pv_QACompromise r"
  shows "\<exists>prov. provenance = Some prov \<and> provenance_exact binding request prov
    \<and> (\<exists>seen. seen = go_get zero_evidence evidence (pv_SelectedProfileID r)
        \<and> (\<forall>a \<in> set (pr_Authors prov). au_ModelDeveloper a \<noteq> ev_ActualModelDeveloper seen
              \<and> au_ModelFamily a \<noteq> ev_ActualModelFamily seen))"
  using PreviewRuntime_contract [OF assms(1)] assms(2-)
  by (auto simp: routed_ok_def accept_independent_def runtimeIndependent_def list_ex_iff Let_def)

text \<open>The compromise is honest: a preview that declares it only does so under the strict mode with
  the quota fallback switched on, when independent alternatives exist, each of them is blocked by
  quota, and no admitted alternative's actual model is unknown.\<close>

theorem PreviewRuntime_compromise:
  assumes "PreviewRuntime c binding revision enabled admitted evidence provenance request now = Some r"
    and "pv_QACompromise r"
  shows "qa_Mode (po_QA (rb_Policy binding)) = ''strict'' \<and> qa_QuotaFallback (po_QA (rb_Policy binding))
    \<and> (\<exists>prov. provenance = Some prov
          \<and> quota_spent_everywhere (env_of c binding admitted evidence request now) prov)"
  using PreviewRuntime_contract [OF assms(1)] assms(2) by (auto simp: routed_ok_def relaxable_iff Let_def)

section \<open>Groups, totality and the first choice\<close>

definition preferred_rank :: "preview_env \<Rightarrow> string list \<Rightarrow> string \<Rightarrow> nat" where
  "preferred_rank env grp ref =
     (let preferred = go_get '''' (po_PreferredAccounts (pe_policy env)) (provider_of env (hd grp))
      in if preferred \<noteq> '''' \<and> pf_AccountRef (Profiles_at (pe_catalog env) ref) \<noteq> preferred then 1 else 0)"

definition same_group :: "preview_env \<Rightarrow> string list \<Rightarrow> bool" where
  "same_group env grp \<longleftrightarrow>
     grp \<noteq> [] \<and> (\<exists>provider mode. \<forall>x \<in> set grp. provider_of env x = provider \<and> mode_of env x = mode)"

lemma group_step_props:
  assumes "\<forall>g \<in> set gs. same_group env g"
  shows "(\<forall>g \<in> set (group_step env gs ref). same_group env g) \<and> concat (group_step env gs ref) = concat gs @ [ref]"
proof (cases gs rule: rev_cases)
  case (snoc hs h)
  then have "same_group env h" using assms by simp
  then obtain p m where h: "h \<noteq> []" "\<forall>x \<in> set h. provider_of env x = p \<and> mode_of env x = m"
    unfolding same_group_def by blast
  show ?thesis
  proof (cases "provider_of env ref = p \<and> mode_of env ref = m")
    case True
    with h have "same_group env (h @ [ref])" unfolding same_group_def by fastforce
    with True h assms snoc show ?thesis by (simp add: group_step_def)
  next
    case False
    with h assms snoc show ?thesis by (auto simp: group_step_def same_group_def)
  qed
qed (simp add: group_step_def same_group_def)

lemma foldl_group_step:
  assumes "\<forall>g \<in> set gs. same_group env g"
  shows "(\<forall>g \<in> set (foldl (group_step env) gs refs). same_group env g)
    \<and> concat (foldl (group_step env) gs refs) = concat gs @ refs"
  using assms
proof (induction refs arbitrary: gs)
  case (Cons ref refs)
  from group_step_props [OF Cons.prems, of ref] Cons.IH [of "group_step env gs ref"] show ?case by simp
qed simp

lemma sort_group_set [simp]: "set (sort_group env g) = set g" "mset (sort_group env g) = mset g"
    "length (sort_group env g) = length g" "sort_group env g = [] \<longleftrightarrow> g = []"
proof -
  show m: "mset (sort_group env g) = mset g" by (simp add: sort_group_def Let_def)
  show "set (sort_group env g) = set g" using mset_eq_setD [OF m] .
  show "length (sort_group env g) = length g" using mset_eq_length [OF m] .
  then show "sort_group env g = [] \<longleftrightarrow> g = []" by (metis length_0_conv)
qed

lemma sort_group_sorted:
  assumes "same_group env g"
  shows "same_group env (sort_group env g) \<and> sorted (map (preferred_rank env (sort_group env g)) (sort_group env g))"
proof
  have hd: "hd (sort_group env g) \<in> set g"
    using assms by (metis hd_in_set same_group_def sort_group_set(1) sort_group_set(4))
  with assms have p: "provider_of env (hd (sort_group env g)) = provider_of env (hd g)"
    unfolding same_group_def by (metis hd_in_set)
  from assms show "same_group env (sort_group env g)" by (simp add: same_group_def)
  let ?pref = "go_get '''' (po_PreferredAccounts (pe_policy env)) (provider_of env (hd g))"
  have rank: "preferred_rank env (sort_group env g) r =
      (if ?pref \<noteq> '''' \<and> pf_AccountRef (Profiles_at (pe_catalog env) r) \<noteq> ?pref then 1 else 0)" for r
    by (simp add: preferred_rank_def p)
  show "sorted (map (preferred_rank env (sort_group env g)) (sort_group env g))"
  proof (cases "?pref = ''''")
    case True
    then have "preferred_rank env (sort_group env g) = (\<lambda>r. 0)"
      by (intro ext) (simp add: rank)
    then show ?thesis by (simp add: map_replicate_const)
  next
    case False
    let ?k = "\<lambda>r. if pf_AccountRef (Profiles_at (pe_catalog env) r) = ?pref then 0 else 1 :: nat"
    have "preferred_rank env (sort_group env g) = ?k"
      using False by (intro ext) (simp add: rank)
    moreover have "sort_group env g = sort_key ?k g"
      using False by (simp add: sort_group_def Let_def)
    ultimately show ?thesis by simp
  qed
qed

text \<open>Grouping is faithful: whatever the catalog, splitting an ordered list of profiles into groups
  loses and repeats none of them, every group is non-empty and shares one provider and one execution
  mode, and inside a group the profiles of the provider's preferred account come first.\<close>

theorem groups_partition:
  "mset (concat (groups env refs)) = mset refs
    \<and> list_all (\<lambda>grp. same_group env grp \<and> sorted (map (preferred_rank env grp) grp)) (groups env refs)"
proof -
  note f = foldl_group_step [of "[]" env refs, simplified]
  have "mset (concat (map (sort_group env) gs)) = mset (concat gs)" for gs
    by (induction gs) auto
  with f show ?thesis by (auto simp: groups_def list_all_iff sort_group_sorted)
qed

lemma groups_first:
  assumes "refs \<noteq> []"
  shows "\<exists>first siblings rest. groups env refs = (first # siblings) # rest \<and> first \<in> set refs"
proof -
  note f = foldl_group_step [of "[]" env refs, simplified]
  obtain g gs where g: "foldl (group_step env) [] refs = g # gs"
    using assms f by (cases "foldl (group_step env) [] refs") auto
  with f have "same_group env g" and "g @ concat gs = refs" by auto
  then have sub: "set g \<subseteq> set refs" by auto
  from \<open>same_group env g\<close> obtain first siblings where s: "sort_group env g = first # siblings"
    by (cases "sort_group env g") (auto simp: same_group_def)
  have "first \<in> set (sort_group env g)" by (simp add: s)
  with sub have "first \<in> set refs" by auto
  with g s show ?thesis by (simp add: groups_def)
qed

lemma route_total: "po_PrimaryProfiles (pe_policy env) \<noteq> [] \<Longrightarrow> \<exists>x. route env accept st = Some x"
  using groups_first [of "po_PrimaryProfiles (pe_policy env)" env]
  by (auto simp: route_def case_prod_beta Let_def)
    (metis prod.exhaust)

lemma preview_routed_total:
  "po_PrimaryProfiles (pe_policy env) \<noteq> [] \<Longrightarrow> \<exists>r. preview_routed env qa result = Some r"
  using route_total [of env] unfolding preview_routed_def Let_def
  by (auto split: option.splits prod.splits) (metis option.distinct(1))+

text \<open>C37. A preview ends with a bounded, loop-free explanation. For every binding with a primary profile (the schema demands one),
  whatever cycles its quota edges form, the preview returns; no profile occurs twice in the trace it gives, and at
  most \<open>max_attempts\<close> of its entries are attempts, where a refusal for the sake of independence counts as none.\<close>

theorem PreviewRuntime_trace:
  assumes "po_PrimaryProfiles (rb_Policy binding) \<noteq> []"
  shows "\<exists>r. PreviewRuntime c binding revision enabled admitted evidence provenance request now = Some r
    \<and> distinct (map tr_ProfileID (pv_Trace r))
    \<and> int (length (filter tried (pv_Trace r))) \<le> max 0 (po_MaxAttempts (rb_Policy binding))"
proof -
  have "\<exists>r. PreviewRuntime c binding revision enabled admitted evidence provenance request now = Some r"
    using preview_routed_total [of "env_of c binding admitted evidence request now"] assms
    by (auto simp: PreviewRuntime_def Let_def split: option.splits)
  then obtain r where r: "PreviewRuntime c binding revision enabled admitted evidence provenance request now = Some r" by blast
  from PreviewRuntime_contract [OF r] r show ?thesis by (auto simp: routed_ok_def route_inv_def Let_def)
qed


text \<open>The first choice is taken: for an ordinary launch whose first primary profile (after the
  provider's preferred account is moved to the front of its group) is launchable, the preview selects
  exactly that profile after one attempt.\<close>

theorem PreviewRuntime_first_choice:
  assumes "enabled" and "rb_Enabled binding"
    and "in_Purpose request = ''new_launch''" and "in_SourceProfileID request = ''''"
    and "\<not> review_requested request" and "0 < po_MaxAttempts (rb_Policy binding)"
    and "groups (env_of c binding admitted evidence request now) (po_PrimaryProfiles (rb_Policy binding))
           = (first # siblings) # others"
    and "launchable (env_of c binding admitted evidence request now) first"
  shows "\<exists>r. PreviewRuntime c binding revision enabled admitted evidence provenance request now = Some r
    \<and> pv_SelectedProfileID r = first \<and> pv_Trace r = [\<lparr>tr_ProfileID = first, tr_Reason = ''available''\<rparr>]"
proof -
  let ?env = "env_of c binding admitted evidence request now"
  have "inspect ?env None first True (route_start st)
      = (''available'', push_trace first ''available'' (route_start st\<lparr>rs_visited := [first], rs_attempts := 1\<rparr>))" for st
    using assms(6,8) by (simp add: inspect_def route_start_def assess_available_iff [THEN iffD2] Let_def)
  then have "route ?env None st = Some (first, False,
      push_trace first ''available'' (route_start st\<lparr>rs_visited := [first], rs_attempts := 1\<rparr>))" for st
    using assms(3,7) by (simp add: route_def Let_def)
  then show ?thesis
    using assms(1-6)
    by (simp add: PreviewRuntime_def review_requested_def preview_routed_def with_route_def select_result_def
        push_trace_def route_start_def Let_def)
qed

section \<open>Sample previews\<close>

definition sample_evidence :: "string \<Rightarrow> string \<Rightarrow> (string, RuntimeCandidateEvidence) gomap" where
  "sample_evidence x y =
     (let obs = (\<lambda>s. \<lparr>ob_State = s, ob_ObservedAt = 100, ob_Verified = True, ob_EvidenceKind = ''k'', ob_ThresholdRef = ''''\<rparr>)
      in [(''p'', \<lparr>ev_ControllerCurrent = True, ev_Pools = [(''x'', obs x)], ev_ActualModelDeveloper = ''d1'', ev_ActualModelFamily = ''f1''\<rparr>),
          (''q'', \<lparr>ev_ControllerCurrent = True, ev_Pools = [(''y'', obs y)], ev_ActualModelDeveloper = ''d2'', ev_ActualModelFamily = ''f2''\<rparr>)])"

definition sample_request :: "uuid \<Rightarrow> string \<Rightarrow> RuntimePreviewInput" where
  "sample_request artifact revision = \<lparr>in_Purpose = ''new_launch'', in_SourceProfileID = '''', in_RequiredCapabilities = [''go''],
     in_ArtifactID = artifact, in_ArtifactRevision = revision\<rparr>"

definition sample_provenance :: RuntimeProvenance where
  "sample_provenance = \<lparr>pr_ArtifactID = 7, pr_Revision = ''abc'', 
     pr_Authors = [\<lparr>au_AgentID = 5, au_ModelDeveloper = ''d1'', au_ModelFamily = ''f1''\<rparr>], pr_Complete = True\<rparr>"

definition sample_preview :: "string \<Rightarrow> string \<Rightarrow> RuntimePreviewInput \<Rightarrow> RuntimePreview option" where
  "sample_preview x y request = PreviewRuntime sample_catalog (sample_binding ''strict'') 1 True [''p'', ''q'']
     (sample_evidence x y) (Some sample_provenance) request 200"

text \<open>An ordinary launch; a review whose independent alternative is reached over a quota edge; and a
  review whose only independent alternative is out of quota.\<close>

lemma sample_plain:
  "map_option (\<lambda>r. (pv_SelectedProfileID r, map tr_ProfileID (pv_Trace r))) (sample_preview ''available'' ''available'' (sample_request 0 '''')) = Some (''p'', [''p''])"
  by code_simp

lemma sample_strict:
  "map_option (\<lambda>r. (pv_SelectedProfileID r, pv_QACompromise r)) (sample_preview ''available'' ''available'' (sample_request 7 ''abc'')) = Some (''q'', False)"
  by code_simp

lemma sample_compromise:
  "map_option (\<lambda>r. (pv_SelectedProfileID r, pv_QACompromise r)) (sample_preview ''available'' ''exhausted'' (sample_request 7 ''abc'')) = Some (''p'', True)"
  by code_simp


abbreviation sample_env :: "string \<Rightarrow> string \<Rightarrow> RuntimePreviewInput \<Rightarrow> preview_env" where
  "sample_env x y request \<equiv>
     env_of sample_catalog (sample_binding ''strict'') [''p'', ''q''] (sample_evidence x y) request 200"

theorem PreviewRuntime_selection_sound_witness:
  "launchable (sample_env ''available'' ''available'' (sample_request 0 '''')) ''p''"
proof -
  from sample_plain obtain r where r: "sample_preview ''available'' ''available'' (sample_request 0 '''') = Some r"
      "pv_SelectedProfileID r = ''p''" by auto
  from PreviewRuntime_selection_sound [OF r(1) [unfolded sample_preview_def]] r(2) show ?thesis by simp
qed

theorem PreviewRuntime_strict_independence_witness:
  "provenance_exact (sample_binding ''strict'') (sample_request 7 ''abc'') sample_provenance"
proof -
  from sample_strict obtain r where r: "sample_preview ''available'' ''available'' (sample_request 7 ''abc'') = Some r"
      "pv_SelectedProfileID r = ''q''" "\<not> pv_QACompromise r" by auto
  have "review_requested (sample_request 7 ''abc'')" "qa_Mode (po_QA (rb_Policy (sample_binding ''strict''))) = ''strict''"
    by (simp_all add: review_requested_def sample_request_def sample_defs)
  from PreviewRuntime_strict_independence [OF r(1) [unfolded sample_preview_def] _ this r(3)] r(2) show ?thesis by auto
qed

theorem PreviewRuntime_compromise_witness:
  "quota_spent_everywhere (sample_env ''available'' ''exhausted'' (sample_request 7 ''abc'')) sample_provenance"
proof -
  from sample_compromise obtain r where r: "sample_preview ''available'' ''exhausted'' (sample_request 7 ''abc'') = Some r"
      "pv_QACompromise r" by auto
  from PreviewRuntime_compromise [OF r(1) [unfolded sample_preview_def] r(2)] show ?thesis by simp
qed

theorem PreviewRuntime_trace_witness:
  "\<exists>r. sample_preview ''available'' ''available'' (sample_request 7 ''abc'') = Some r \<and> distinct (map tr_ProfileID (pv_Trace r))"
proof -
  have "po_PrimaryProfiles (rb_Policy (sample_binding ''strict'')) \<noteq> []" by (simp add: sample_defs)
  from PreviewRuntime_trace [OF this] show ?thesis unfolding sample_preview_def by blast
qed

theorem PreviewRuntime_first_choice_witness:
  "\<exists>r. sample_preview ''available'' ''exhausted'' (sample_request 0 '''') = Some r \<and> pv_SelectedProfileID r = ''p''"
proof -
  let ?env = "sample_env ''available'' ''exhausted'' (sample_request 0 '''')"
  have "assess ?env ''p'' = ''available''" by code_simp
  moreover have "groups ?env (po_PrimaryProfiles (rb_Policy (sample_binding ''strict''))) = (''p'' # []) # []" by code_simp
  ultimately show ?thesis
    using PreviewRuntime_first_choice [of True "sample_binding ''strict''" "sample_request 0 ''''" sample_catalog
        "[''p'', ''q'']" "sample_evidence ''available'' ''exhausted''" 200 "''p''" "[]" "[]" 1 "Some sample_provenance"]
    by (auto simp: sample_preview_def review_requested_def sample_request_def assess_available_iff sample_binding_def)
qed

end
