(* ===== verification/Runtime_Admission.thy ===== *)
theory Runtime_Admission
  imports Runtime_Catalog
begin

text \<open>
  Who may use a binding, and under which catalog: the read side of
  \<open>internal/repository/postgres/runtime_repo.go\<close>, \<open>runtime_controller_state.go\<close> and the first part
  of \<open>runtime_reservation_repo.go\<close>, with the reservation rules of
  \<open>internal/domain/runtime_reservation.go\<close>.

  The tables these queries read are the lists of the record \<open>world\<close>; a query is a \<^const>\<open>find\<close> or a
  \<^const>\<open>filter\<close>. \<open>library\<close> holds what the code takes from elsewhere: the JSON decoder and the schema
  check of a catalog, SHA-256 (hex encoded), and the digest of the marshalled acquire scope.
\<close>

section \<open>Reservation requests\<close>

definition Reserved :: string where "Reserved = ''reserved''"
definition Consumed :: string where "Consumed = ''consumed''"
definition Reconcile :: string where "Reconcile = ''reconcile''"
definition Released :: string where "Released = ''released''"
definition Expired :: string where "Expired = ''expired''"

lemmas reservation_states = Reserved_def Consumed_def Reconcile_def Released_def Expired_def

record RuntimeAcquireInput =
  aq_IdempotencyKey :: string
  aq_ProfileID :: string
  aq_TaskID :: uuid
  aq_CheckoutGeneration :: int
  aq_CheckoutRequestID :: "uuid option"
  aq_WorkerRef :: string
  aq_ExpectedCatalogRevision :: int
  aq_ExpectedCatalogDigest :: string
  aq_ExpectedAdmissionRevision :: int
  aq_ExpectedProfileRevision :: string
  aq_ExpectedPoolSetDigest :: string
  aq_TTLSeconds :: int

definition acquire_valid :: "RuntimeAcquireInput \<Rightarrow> bool" where
  "acquire_valid inp \<longleftrightarrow>
     ValidRuntimeRef (aq_IdempotencyKey inp) \<and> ValidRuntimeRef (aq_ProfileID inp) \<and> ValidRuntimeRef (aq_WorkerRef inp)
     \<and> aq_TaskID inp \<noteq> uuid_Nil \<and> aq_CheckoutGeneration inp > 0
     \<and> (case aq_CheckoutRequestID inp of None \<Rightarrow> True | Some u \<Rightarrow> u \<noteq> uuid_Nil)
     \<and> aq_ExpectedCatalogRevision inp > 0 \<and> aq_ExpectedCatalogDigest inp \<noteq> '''' \<and> aq_ExpectedAdmissionRevision inp > 0
     \<and> aq_ExpectedProfileRevision inp \<noteq> '''' \<and> aq_ExpectedPoolSetDigest inp \<noteq> ''''
     \<and> aq_TTLSeconds inp \<ge> 10 \<and> aq_TTLSeconds inp \<le> 900"

record RuntimeConsumeInput =
  cs_Fence :: int
  cs_CheckoutGeneration :: int
  cs_RunLeaseSeconds :: int

definition consume_valid :: "RuntimeConsumeInput \<Rightarrow> bool" where
  "consume_valid inp \<longleftrightarrow> cs_Fence inp > 0 \<and> cs_CheckoutGeneration inp > 0
     \<and> cs_RunLeaseSeconds inp \<ge> 60 \<and> cs_RunLeaseSeconds inp \<le> 86400"

record RuntimeRenewInput =
  rn_Fence :: int
  rn_CheckoutRequestID :: "uuid option"
  rn_CheckoutGeneration :: int
  rn_RunLeaseSeconds :: int

definition renew_valid :: "RuntimeRenewInput \<Rightarrow> bool" where
  "renew_valid inp \<longleftrightarrow> rn_Fence inp > 0 \<and> rn_CheckoutGeneration inp > 0
     \<and> (case rn_CheckoutRequestID inp of None \<Rightarrow> True | Some u \<Rightarrow> u \<noteq> uuid_Nil)
     \<and> rn_RunLeaseSeconds inp \<ge> 60 \<and> rn_RunLeaseSeconds inp \<le> 86400"

record RuntimeReleaseProof =
  pk_Kind :: string
  pk_EvidenceRef :: string

record RuntimeReleaseInput =
  rl_Fence :: int
  rl_CheckoutRequestID :: "uuid option"
  rl_CheckoutGeneration :: int
  rl_Stopped :: bool
  rl_Proof :: RuntimeReleaseProof

definition release_valid :: "RuntimeReleaseInput \<Rightarrow> bool" where
  "release_valid inp \<longleftrightarrow> rl_Fence inp > 0 \<and> rl_CheckoutGeneration inp > 0
     \<and> (case rl_CheckoutRequestID inp of None \<Rightarrow> True | Some u \<Rightarrow> u \<noteq> uuid_Nil)
     \<and> (pk_EvidenceRef (rl_Proof inp) = '''' \<or> ValidRuntimeRef (pk_EvidenceRef (rl_Proof inp)))"

definition ProofAccepted :: "RuntimeReleaseInput \<Rightarrow> string \<Rightarrow> bool" where
  "ProofAccepted inp state =
     (let kind = pk_Kind (rl_Proof inp); ref = pk_EvidenceRef (rl_Proof inp) in
      if \<not> rl_Stopped inp then False
      else if kind = ''no_child'' then ref = '''' \<or> ValidRuntimeRef ref
      else if kind = ''stopped_process_birth_proof'' then ValidRuntimeRef ref
      else if kind = ''not_started'' then state = Reserved
      else False)"

section \<open>Canonical pools\<close>

definition RuntimeCanonicalPoolID :: "uuid \<Rightarrow> RuntimePool \<Rightarrow> string" where
  "RuntimeCanonicalPoolID owner pool = uuid_String owner @ '':'' @ rp_Provider pool @ '':'' @ rp_ResourceRef pool"

definition RuntimeProfileRevision :: "int \<Rightarrow> string" where
  "RuntimeProfileRevision catalogRevision = ''rev-'' @ FormatInt catalogRevision"

text \<open>The loop collects each canonical identity once, and fails on a name that resolves to no pool.\<close>

fun canonical_pools :: "RuntimeCatalog \<Rightarrow> uuid \<Rightarrow> string list \<Rightarrow> string list \<Rightarrow> string list option" where
  "canonical_pools c owner [] pools = Some pools"
| "canonical_pools c owner (ref # refs) pools =
     (case ResolvePool c ref of
        None \<Rightarrow> None
      | Some name \<Rightarrow>
          let ident = RuntimeCanonicalPoolID owner (Pools_at c name)
          in canonical_pools c owner refs (if ident \<in> set pools then pools else pools @ [ident]))"

definition RuntimeProfilePools :: "RuntimeCatalog \<Rightarrow> uuid \<Rightarrow> string \<Rightarrow> string list option" where
  "RuntimeProfilePools c owner profileRef =
     (case map_of (ca_Profiles c) profileRef of
        None \<Rightarrow> None
      | Some profile \<Rightarrow>
          (case map_of (ca_Accounts c) (pf_AccountRef profile) of
             None \<Rightarrow> None
           | Some account \<Rightarrow>
               (let refs = go_get [] (ra_QuotaPoolsByMode account) (pf_ExecutionMode profile)
                in if length refs = 0 then None
                   else map_option sort (canonical_pools c owner refs []))))"

definition RuntimePoolSetDigest :: "(string \<Rightarrow> string) \<Rightarrow> string list \<Rightarrow> string" where
  "RuntimePoolSetDigest sha256 pools = sha256 (Join (sort pools) [byte 10])"

lemma canonical_pools_distinct:
  "canonical_pools c owner refs pools = Some out \<Longrightarrow> distinct pools \<Longrightarrow> distinct out"
  by (induction refs arbitrary: pools) (auto simp: Let_def split: option.splits if_splits)

lemma RuntimeProfilePools_distinct: "RuntimeProfilePools c owner p = Some pools \<Longrightarrow> distinct pools \<and> sorted pools"
  by (auto simp: RuntimeProfilePools_def Let_def dest: canonical_pools_distinct split: option.splits if_splits)

section \<open>Tables\<close>

record workspace_row =
  ws_id :: uuid
  ws_owner :: uuid
  ws_deleted :: bool

record member_row =
  mb_workspace :: uuid
  mb_user :: uuid
  mb_role :: string

record agent_row =
  ag_id :: uuid
  ag_name :: string
  ag_max_concurrent_tasks :: int
  ag_deleted :: bool

record grant_row =
  gr_id :: uuid
  gr_agent :: uuid
  gr_workspace :: uuid
  gr_api_key_hash :: string
  gr_revoked :: bool

record IntegrationConfig =
  cn_ID :: uuid
  cn_WorkspaceID :: uuid
  cn_Provider :: string
  cn_Config :: string
  cn_IsActive :: bool

record revision_row =
  rv_integration :: uuid
  rv_revision :: int
  rv_digest :: string

record runtimeAdmissionRow =
  ad_integration :: uuid
  ad_binding_ref :: string
  ad_WorkspaceID :: uuid
  ad_AgentID :: uuid
  ad_GrantID :: uuid
  ad_Fingerprint :: string
  ad_Revision :: int
  ad_CatalogDigest :: string
  ad_Enabled :: bool
  ad_Profiles :: "string list"

record task_row =
  tk_id :: uuid
  tk_workspace :: uuid
  tk_holder :: "uuid option"
  tk_generation :: int
  tk_request :: "uuid option"
  tk_expires :: "gtime option"
  tk_deleted :: bool

text \<open>A stored report, \<^const>\<open>None\<close> where the stored JSON cannot be read.\<close>

record RuntimeReport =
  re_Revision :: int
  re_Digest :: string
  re_Status :: string
  re_EmergencyPaused :: bool

record report_row =
  rt_integration :: uuid
  rt_controller_ref :: string
  rt_GrantID :: uuid
  rt_Fingerprint :: string
  rt_Data :: "RuntimeReport option"
  rt_At :: gtime

record world =
  wd_workspaces :: "workspace_row list"
  wd_members :: "member_row list"
  wd_agents :: "agent_row list"
  wd_grants :: "grant_row list"
  wd_connections :: "IntegrationConfig list"
  wd_revisions :: "revision_row list"
  wd_admissions :: "runtimeAdmissionRow list"
  wd_tasks :: "task_row list"
  wd_reports :: "report_row list"

record library =
  li_decode_catalog :: "string \<Rightarrow> RuntimeCatalog option"
  li_sha256 :: "string \<Rightarrow> string"
  li_scope :: "uuid \<Rightarrow> string \<Rightarrow> RuntimeAcquireInput \<Rightarrow> string"

text \<open>A refusal the caller sees, or an error of the database or the stored configuration.\<close>

datatype failure = Refused Error | Fault string

record RuntimeActor =
  ac_UserID :: uuid
  ac_AgentID :: uuid
  ac_AuthWorkspaceID :: uuid
  ac_Connector :: bool

definition first_row :: "'a list \<Rightarrow> 'a option" where
  "first_row xs = (case xs of [] \<Rightarrow> None | x # _ \<Rightarrow> Some x)"

lemma first_row_in: "first_row xs = Some x \<Longrightarrow> x \<in> set xs"
  by (cases xs) (auto simp: first_row_def)


section \<open>Authority\<close>

definition runtimeAdmin :: "world \<Rightarrow> uuid \<Rightarrow> RuntimeActor \<Rightarrow> failure option" where
  "runtimeAdmin w ws actor =
     (let refusal = Refused (Forbidden ''runtime administration requires a workspace owner or admin'') in
      if ac_Connector actor \<or> ac_UserID actor = uuid_Nil \<or> ac_AgentID actor \<noteq> uuid_Nil then Some refusal
      else if \<not> list_ex (\<lambda>r. ws_id r = ws \<and> \<not> ws_deleted r
                \<and> (ws_owner r = ac_UserID actor
                   \<or> list_ex (\<lambda>m. mb_workspace m = ws_id r \<and> mb_user m = ac_UserID actor
                        \<and> (mb_role m = ''owner'' \<or> mb_role m = ''admin'')) (wd_members w))) (wd_workspaces w)
      then Some refusal
      else None)"

definition runtimeGrant :: "library \<Rightarrow> world \<Rightarrow> RuntimeIdentity \<Rightarrow> failure + string" where
  "runtimeGrant lib w identity =
     (case find (\<lambda>g. gr_id g = ri_GrantID identity \<and> gr_agent g = ri_AgentID identity
                   \<and> gr_workspace g = ri_WorkspaceID identity \<and> \<not> gr_revoked g
                   \<and> list_ex (\<lambda>a. ag_id a = gr_agent g \<and> \<not> ag_deleted a) (wd_agents w)
                   \<and> list_ex (\<lambda>s. ws_id s = gr_workspace g \<and> \<not> ws_deleted s) (wd_workspaces w)) (wd_grants w) of
        None \<Rightarrow> Inl (Refused (Forbidden ''runtime requires an active exact workspace grant''))
      | Some g \<Rightarrow> Inr (li_sha256 lib (gr_api_key_hash g)))"

definition runtimeBoundCaller ::
  "library \<Rightarrow> world \<Rightarrow> uuid \<Rightarrow> RuntimeBinding \<Rightarrow> RuntimeActor \<Rightarrow> failure + string" where
  "runtimeBoundCaller lib w ws binding actor =
     (if ri_WorkspaceID (rb_Binding binding) \<noteq> ws \<or> ac_Connector actor
      then Inl (Refused (Forbidden ''runtime binding is not accessible in this workspace''))
      else if ac_AgentID actor \<noteq> uuid_Nil then
        (if ac_AgentID actor \<noteq> ri_AgentID (rb_Binding binding) \<or> ac_AuthWorkspaceID actor \<noteq> ws
         then Inl (Refused (Forbidden ''runtime requires the bound workspace agent key''))
         else runtimeGrant lib w (rb_Binding binding))
      else guard_res (runtimeAdmin w ws actor) (runtimeGrant lib w (rb_Binding binding)))"

section \<open>Connection, catalog and admission\<close>

definition runtimeRevision :: "world \<Rightarrow> uuid \<Rightarrow> int \<times> string" where
  "runtimeRevision w ident =
     (case first_row (sort_key (\<lambda>r. - rv_revision r) (filter (\<lambda>r. rv_integration r = ident) (wd_revisions w))) of
        None \<Rightarrow> (0, '''')
      | Some r \<Rightarrow> (rv_revision r, rv_digest r))"

definition connection_row :: "world \<Rightarrow> uuid \<Rightarrow> IntegrationConfig option" where
  "connection_row w ws =
     first_row (sort_key (\<lambda>r. if cn_Provider r = ''runner'' then 0 else 1 :: nat)
       (filter (\<lambda>r. cn_WorkspaceID r = ws \<and> IsRuntimeProvider (cn_Provider r)) (wd_connections w)))"

definition runtimeSharedConnection :: "world \<Rightarrow> uuid \<Rightarrow> failure + IntegrationConfig" where
  "runtimeSharedConnection w ws =
     (case connection_row w ws of
        None \<Rightarrow> Inl (Refused (NotFound ''Runtime binding''))
      | Some r \<Rightarrow> Inr r)"

definition runtimeConnection :: "world \<Rightarrow> uuid \<Rightarrow> IntegrationConfig option" where
  "runtimeConnection w ws =
     map_option (\<lambda>r. if fst (runtimeRevision w (cn_ID r)) = 0
                     then r\<lparr>cn_Config := NormalizeRuntimeConfig (cn_Config r)\<rparr> else r) (connection_row w ws)"

text \<open>\<open>ParseRuntimeCatalog\<close>: decode and check against the schema (library), then the references.\<close>

definition ParseRuntimeCatalog :: "library \<Rightarrow> string \<Rightarrow> failure + RuntimeCatalog" where
  "ParseRuntimeCatalog lib data =
     (case li_decode_catalog lib data of
        None \<Rightarrow> Inl (Fault ''invalid runtime input'')
      | Some c \<Rightarrow> (case ValidateReferences c of
            Some errs \<Rightarrow> Inl (Fault ''invalid runtime input'')
          | None \<Rightarrow> Inr c))"

record RuntimeAdmission =
  ra_Revision :: int
  ra_Enabled :: bool
  ra_PermittedProfiles :: "string list"

definition runtimeAdmission ::
  "world \<Rightarrow> uuid \<Rightarrow> string \<Rightarrow> RuntimeBinding \<Rightarrow> string \<Rightarrow> string \<Rightarrow> RuntimeAdmission" where
  "runtimeAdmission w connectionID ref binding fingerprint digest =
     (case find (\<lambda>r. ad_integration r = connectionID \<and> ad_binding_ref r = ref) (wd_admissions w) of
        None \<Rightarrow> \<lparr>ra_Revision = 0, ra_Enabled = False, ra_PermittedProfiles = []\<rparr>
      | Some row \<Rightarrow>
          if ad_WorkspaceID row \<noteq> ri_WorkspaceID (rb_Binding binding) \<or> ad_AgentID row \<noteq> ri_AgentID (rb_Binding binding)
             \<or> ad_GrantID row \<noteq> ri_GrantID (rb_Binding binding) \<or> ad_Fingerprint row \<noteq> fingerprint
             \<or> ad_CatalogDigest row \<noteq> digest
          then \<lparr>ra_Revision = ad_Revision row, ra_Enabled = False, ra_PermittedProfiles = []\<rparr>
          else let permitted = filter (\<lambda>p. p \<in> set (ad_Profiles row)) (rb_PermittedProfiles binding)
            in \<lparr>ra_Revision = ad_Revision row, ra_Enabled = (ad_Enabled row \<and> rb_Enabled binding \<and> length permitted > 0),
                ra_PermittedProfiles = permitted\<rparr>)"

record runtimeAdmissionTarget =
  tg_connection :: IntegrationConfig
  tg_catalog :: RuntimeCatalog
  tg_binding :: RuntimeBinding
  tg_fingerprint :: string
  tg_revision :: int
  tg_digest :: string
  tg_admission :: RuntimeAdmission

definition runtimeLoadTarget ::
  "library \<Rightarrow> world \<Rightarrow> uuid \<Rightarrow> uuid \<Rightarrow> string \<Rightarrow> RuntimeActor \<Rightarrow> failure + runtimeAdmissionTarget" where
  "runtimeLoadTarget lib w owner receiver ref actor =
     bind_res (runtimeSharedConnection w owner) (\<lambda>connection.
     bind_res (ParseRuntimeCatalog lib (cn_Config connection)) (\<lambda>catalog.
       case map_of (ca_Bindings catalog) ref of
         None \<Rightarrow> Inl (Refused (NotFound ''Runtime binding''))
       | Some binding \<Rightarrow>
           if ri_WorkspaceID (rb_Binding binding) \<noteq> receiver then Inl (Refused (NotFound ''Runtime binding''))
           else bind_res (runtimeBoundCaller lib w receiver binding actor) (\<lambda>fingerprint.
             let (revision, digest) = runtimeRevision w (cn_ID connection) in
             Inr \<lparr>tg_connection = connection, tg_catalog = catalog, tg_binding = binding,
                  tg_fingerprint = fingerprint, tg_revision = revision, tg_digest = digest,
                  tg_admission = runtimeAdmission w (cn_ID connection) ref binding fingerprint digest\<rparr>)))"

text \<open>\<open>runtimeReservationErr\<close>: the message is chosen by the status, the reason goes into \<open>details\<close>.\<close>

definition runtimeReservationErr :: "nat \<Rightarrow> string \<Rightarrow> Error" where
  "runtimeReservationErr code reason =
     (plain_error code ''''
        (if code = StatusConflict then ''runtime reservation conflict''
         else if code = StatusGone then ''runtime reservation is no longer usable''
         else if code = StatusLocked then ''runtime execution admission is disabled''
         else if code = StatusForbidden then ''runtime reservation is not permitted''
         else ''''))\<lparr>Details := reason\<rparr>"

abbreviation refuse :: "nat \<Rightarrow> string \<Rightarrow> failure" where
  "refuse code reason \<equiv> Refused (runtimeReservationErr code reason)"

definition checkProfile :: "runtimeAdmissionTarget \<Rightarrow> string \<Rightarrow> failure option" where
  "checkProfile t profile =
     (let p = Profiles_at (tg_catalog t) profile in
      if \<not> cn_IsActive (tg_connection t) \<or> \<not> rb_Enabled (tg_binding t) \<or> \<not> ra_Enabled (tg_admission t)
      then Some (refuse StatusLocked ''runtime_disabled'')
      else if profile \<notin> set (ra_PermittedProfiles (tg_admission t))
      then Some (refuse StatusForbidden ''profile_not_admitted'')
      else if \<not> pf_Enabled p \<or> \<not> rc_Enabled (Controllers_at (tg_catalog t) (pf_ControllerRef p))
      then Some (refuse StatusLocked ''runtime_disabled'')
      else None)"

section \<open>Controller liveness\<close>

text \<open>The grant lookup by identifier alone ignores revocation; \<open>runtimeGrant\<close> then checks it. Its only
  failure is a refusal, so \<open>grantErr\<close> never aborts here.\<close>

definition runtimeReportLiveness ::
  "library \<Rightarrow> world \<Rightarrow> IntegrationConfig \<Rightarrow> RuntimeCatalog \<Rightarrow> string \<Rightarrow> int \<Rightarrow> string \<Rightarrow> gtime
     \<Rightarrow> report_row \<Rightarrow> string" where
  "runtimeReportLiveness lib w connection catalog ref revision digest now row =
     (case map_of (ca_Controllers catalog) ref of
        None \<Rightarrow> ''unreported''
      | Some controller \<Rightarrow>
          (case rt_Data row of
             None \<Rightarrow> ''stale''
           | Some report \<Rightarrow>
               (case find (\<lambda>g. gr_id g = rt_GrantID row) (wd_grants w) of
                  None \<Rightarrow> ''stale''
                | Some g \<Rightarrow>
                    let grant = runtimeGrant lib w \<lparr>ri_AgentID = gr_agent g, ri_WorkspaceID = cn_WorkspaceID connection,
                                                    ri_GrantID = rt_GrantID row\<rparr>
                    in if re_EmergencyPaused report then ''paused''
                       else if (case grant of Inl _ \<Rightarrow> True | Inr current \<Rightarrow> current \<noteq> rt_Fingerprint row)
                         \<or> rc_ReporterGrantID controller \<noteq> rt_GrantID row
                         \<or> re_Revision report \<noteq> revision \<or> re_Digest report \<noteq> digest \<or> re_Status report \<noteq> ''applied''
                         \<or> \<not> rc_Enabled controller
                         \<or> time_Sub now (rt_At row) > Seconds (rc_HeartbeatMaxAgeSeconds controller)
                       then ''stale'' else ''current'')))"

definition runtimeControllerLiveness ::
  "library \<Rightarrow> world \<Rightarrow> IntegrationConfig \<Rightarrow> RuntimeCatalog \<Rightarrow> string \<Rightarrow> int \<Rightarrow> string \<Rightarrow> gtime \<Rightarrow> string" where
  "runtimeControllerLiveness lib w connection catalog ref revision digest now =
     (case find (\<lambda>r. rt_integration r = cn_ID connection \<and> rt_controller_ref r = ref) (wd_reports w) of
        None \<Rightarrow> ''unreported''
      | Some row \<Rightarrow> runtimeReportLiveness lib w connection catalog ref revision digest now row)"

section \<open>The task's writer\<close>

definition sameRequest :: "uuid option \<Rightarrow> uuid option \<Rightarrow> bool" where
  "sameRequest a b = (case b of None \<Rightarrow> a = None | Some u \<Rightarrow> a = Some u)"

lemma sameRequest_eq [simp]: "sameRequest a b \<longleftrightarrow> a = b"
  by (auto simp: sameRequest_def split: option.splits)

definition runtimeTaskWriter ::
  "world \<Rightarrow> gtime \<Rightarrow> uuid \<Rightarrow> uuid \<Rightarrow> uuid \<Rightarrow> int \<Rightarrow> uuid option \<Rightarrow> failure option" where
  "runtimeTaskWriter w now task receiver agent generation request =
     (case find (\<lambda>t. tk_id t = task \<and> tk_workspace t = receiver \<and> \<not> tk_deleted t) (wd_tasks w) of
        None \<Rightarrow> Some (Refused (NotFound ''Task''))
      | Some row \<Rightarrow>
          let live = (case tk_expires row of None \<Rightarrow> True | Some e \<Rightarrow> e > now) in
          refuse_if (tk_holder row = None \<or> tk_holder row \<noteq> Some agent \<or> \<not> live
                     \<or> tk_generation row \<noteq> generation \<or> \<not> sameRequest (tk_request row) request)
            (refuse StatusConflict ''writer_lease_mismatch''))"

definition runtimeReservationWriter :: "RuntimeActor \<Rightarrow> uuid \<Rightarrow> failure option" where
  "runtimeReservationWriter actor receiver =
     refuse_if (ac_Connector actor \<or> ac_AgentID actor = uuid_Nil \<or> ac_AuthWorkspaceID actor \<noteq> receiver)
       (Refused (Forbidden ''runtime reservation requires the bound workspace agent key''))"

section \<open>What an admitted caller has\<close>

text \<open>A live exact grant of an existing agent in an existing workspace.\<close>

definition live_grant :: "library \<Rightarrow> world \<Rightarrow> RuntimeIdentity \<Rightarrow> string \<Rightarrow> bool" where
  "live_grant lib w identity fingerprint \<longleftrightarrow>
     (\<exists>g \<in> set (wd_grants w). gr_id g = ri_GrantID identity \<and> gr_agent g = ri_AgentID identity
        \<and> gr_workspace g = ri_WorkspaceID identity \<and> \<not> gr_revoked g \<and> fingerprint = li_sha256 lib (gr_api_key_hash g))
     \<and> (\<exists>a \<in> set (wd_agents w). ag_id a = ri_AgentID identity \<and> \<not> ag_deleted a)
     \<and> (\<exists>s \<in> set (wd_workspaces w). ws_id s = ri_WorkspaceID identity \<and> \<not> ws_deleted s)"

lemma runtimeGrant_live: "runtimeGrant lib w identity = Inr fp \<Longrightarrow> live_grant lib w identity fp"
  by (auto simp: runtimeGrant_def live_grant_def list_ex_iff split: option.splits dest!: find_SomeD)

lemma runtimeBoundCaller_writer:
  assumes "runtimeBoundCaller lib w ws binding actor = Inr fp" and "runtimeReservationWriter actor ws = None"
  shows "ac_AgentID actor = ri_AgentID (rb_Binding binding) \<and> ri_WorkspaceID (rb_Binding binding) = ws
    \<and> live_grant lib w (rb_Binding binding) fp"
  using assms
  by (auto simp: runtimeBoundCaller_def runtimeReservationWriter_def split: if_splits dest: runtimeGrant_live)

lemma ParseRuntimeCatalog_wf: "ParseRuntimeCatalog lib data = Inr c \<Longrightarrow> ValidateReferences c = None"
  by (auto simp: ParseRuntimeCatalog_def split: option.split_asm)

lemma runtimeLoadTarget_Inr:
  assumes "runtimeLoadTarget lib w owner receiver ref actor = Inr t"
  shows "runtimeSharedConnection w owner = Inr (tg_connection t)
    \<and> ParseRuntimeCatalog lib (cn_Config (tg_connection t)) = Inr (tg_catalog t)
    \<and> map_of (ca_Bindings (tg_catalog t)) ref = Some (tg_binding t)
    \<and> ri_WorkspaceID (rb_Binding (tg_binding t)) = receiver
    \<and> runtimeBoundCaller lib w receiver (tg_binding t) actor = Inr (tg_fingerprint t)"
proof -
  from assms obtain connection catalog where c: "runtimeSharedConnection w owner = Inr connection"
      "ParseRuntimeCatalog lib (cn_Config connection) = Inr catalog"
    and rest: "(case map_of (ca_Bindings catalog) ref of
         None \<Rightarrow> Inl (Refused (NotFound ''Runtime binding''))
       | Some binding \<Rightarrow>
           if ri_WorkspaceID (rb_Binding binding) \<noteq> receiver then Inl (Refused (NotFound ''Runtime binding''))
           else bind_res (runtimeBoundCaller lib w receiver binding actor) (\<lambda>fingerprint.
             let (revision, digest) = runtimeRevision w (cn_ID connection) in
             Inr \<lparr>tg_connection = connection, tg_catalog = catalog, tg_binding = binding,
                  tg_fingerprint = fingerprint, tg_revision = revision, tg_digest = digest,
                  tg_admission = runtimeAdmission w (cn_ID connection) ref binding fingerprint digest\<rparr>)) = Inr t"
    unfolding runtimeLoadTarget_def bind_res_Inr by blast
  show ?thesis
  proof (cases "map_of (ca_Bindings catalog) ref")
    case (Some binding)
    with rest c show ?thesis by (cases "ri_WorkspaceID (rb_Binding binding) = receiver") (auto simp: case_prod_beta)
  qed (use rest in simp)
qed

lemma runtimeLoadTarget_writer:
  assumes "runtimeLoadTarget lib w owner receiver ref actor = Inr t" and "runtimeReservationWriter actor receiver = None"
  shows "ac_AgentID actor = ri_AgentID (rb_Binding (tg_binding t))
    \<and> live_grant lib w (rb_Binding (tg_binding t)) (tg_fingerprint t)
    \<and> ValidateReferences (tg_catalog t) = None"
  using runtimeLoadTarget_Inr [OF assms(1)] assms(2)
  by (auto dest!: runtimeBoundCaller_writer ParseRuntimeCatalog_wf)

lemma checkProfile_None:
  "checkProfile t profile = None \<longleftrightarrow>
     cn_IsActive (tg_connection t) \<and> rb_Enabled (tg_binding t) \<and> ra_Enabled (tg_admission t)
     \<and> profile \<in> set (ra_PermittedProfiles (tg_admission t))
     \<and> pf_Enabled (Profiles_at (tg_catalog t) profile)
     \<and> rc_Enabled (Controllers_at (tg_catalog t) (pf_ControllerRef (Profiles_at (tg_catalog t) profile)))"
  by (auto simp: checkProfile_def Let_def)

section \<open>A sample world\<close>

definition sample_lib :: library where
  "sample_lib = \<lparr>li_decode_catalog = (\<lambda>s. if s = ''c'' then Some sample_catalog else None),
     li_sha256 = (\<lambda>s. CHR ''h'' # s), li_scope = (\<lambda>integration ref inp. aq_ProfileID inp)\<rparr>"

definition sample_world :: world where
  "sample_world = \<lparr>
     wd_workspaces = [\<lparr>ws_id = 2, ws_owner = 8, ws_deleted = False\<rparr>], wd_members = [],
     wd_agents = [\<lparr>ag_id = 1, ag_name = ''a'', ag_max_concurrent_tasks = 1, ag_deleted = False\<rparr>,
                  \<lparr>ag_id = 4, ag_name = ''r'', ag_max_concurrent_tasks = 1, ag_deleted = False\<rparr>],
     wd_grants = [\<lparr>gr_id = 3, gr_agent = 1, gr_workspace = 2, gr_api_key_hash = ''k'', gr_revoked = False\<rparr>,
                  \<lparr>gr_id = 9, gr_agent = 4, gr_workspace = 2, gr_api_key_hash = ''r'', gr_revoked = False\<rparr>],
     wd_connections = [\<lparr>cn_ID = 10, cn_WorkspaceID = 2, cn_Provider = ''runner'', cn_Config = ''c'', cn_IsActive = True\<rparr>],
     wd_revisions = [\<lparr>rv_integration = 10, rv_revision = 1, rv_digest = ''d''\<rparr>],
     wd_admissions = [\<lparr>ad_integration = 10, ad_binding_ref = ''g'', ad_WorkspaceID = 2, ad_AgentID = 1, ad_GrantID = 3,
                       ad_Fingerprint = ''hk'', ad_Revision = 1, ad_CatalogDigest = ''d'', ad_Enabled = True, ad_Profiles = [''p'']\<rparr>],
     wd_tasks = [\<lparr>tk_id = 20, tk_workspace = 2, tk_holder = Some 1, tk_generation = 1, tk_request = None, tk_expires = None,
                  tk_deleted = False\<rparr>],
     wd_reports = [\<lparr>rt_integration = 10, rt_controller_ref = ''k'', rt_GrantID = 9, rt_Fingerprint = ''hr'',
                    rt_Data = Some \<lparr>re_Revision = 1, re_Digest = ''d'', re_Status = ''applied'', re_EmergencyPaused = False\<rparr>, rt_At = 1\<rparr>]\<rparr>"

end
