(* ===== verification/Runtime_Reservation.thy ===== *)
theory Runtime_Reservation
  imports Runtime_Admission
begin

text \<open>
  Execution admission: \<open>internal/repository/postgres/runtime_reservation_repo.go\<close> over the two tables of
  migration \<open>20261009003\<close>. Each exported operation is one database transaction, hence one function on
  \<open>store\<close>; a refusal returns the store unchanged (the deferred rollback), except where the code commits
  first. What the code reads from its surroundings are arguments: the other tables (\<open>world\<close>), the
  clocks (\<open>now()\<close> of the transaction, and the two readings of \<open>time.Now()\<close>), and the fresh identifier.

  The advisory locks serialise transactions on one agent and on one pool. The unique indexes are checked
  by \<open>insert_reservation\<close> against whatever store it finds, so the lemmas about it also cover a
  transaction that raced with others.
\<close>

section \<open>Rows\<close>

record runtimeReservationRow =
  rw_ID :: uuid
  rw_Fence :: int
  rw_IntegrationID :: uuid
  rw_BindingRef :: string
  rw_AgentID :: uuid
  rw_WorkspaceID :: uuid
  rw_GrantID :: uuid
  rw_GrantFingerprint :: string
  rw_IdempotencyKey :: string
  rw_ScopeDigest :: string
  rw_TaskID :: uuid
  rw_CheckoutGeneration :: int
  rw_CheckoutRequestID :: "uuid option"
  rw_ControllerRef :: string
  rw_WorkerRef :: string
  rw_ProfileRef :: string
  rw_CatalogRevision :: int
  rw_CatalogDigest :: string
  rw_AdmissionRevision :: int
  rw_ProfileRevision :: string
  rw_Pools :: "string list"
  rw_PoolSetDigest :: string
  rw_State :: string
  rw_ExpiresAt :: gtime
  rw_ReceiptID :: "uuid option"
  rw_ConsumedAt :: "gtime option"
  rw_ReleaseID :: "uuid option"
  rw_ReleasedAt :: "gtime option"
  rw_ReleaseProofKind :: "string option"
  rw_ReleaseEvidenceRef :: "string option"
  rw_CreatedAt :: gtime

record claim =
  cl_reservation :: uuid
  cl_pool :: string
  cl_slot :: int

record store =
  st_rows :: "runtimeReservationRow list"
  st_claims :: "claim list"
  st_fence :: int

record clock =
  ck_db :: gtime
  ck_app :: gtime
  ck_out :: gtime

definition active :: "runtimeReservationRow \<Rightarrow> bool" where
  "active r \<longleftrightarrow> rw_State r = Reserved \<or> rw_State r = Consumed"

definition effectiveState :: "runtimeReservationRow \<Rightarrow> gtime \<Rightarrow> string" where
  "effectiveState row now =
     (if rw_State row = Reserved \<and> \<not> rw_ExpiresAt row > now then Expired
      else if rw_State row = Consumed \<and> \<not> rw_ExpiresAt row > now then Reconcile
      else rw_State row)"

section \<open>The wire form\<close>

record RuntimeConsumeReceipt =
  cr_ReceiptID :: uuid
  cr_ConsumedAt :: gtime
  cr_RunLeaseExpiresAt :: gtime

record RuntimeReleaseReceipt =
  rr_ReleaseID :: uuid
  rr_ReleasedAt :: gtime
  rr_ProofKind :: string

record RuntimeReservation =
  rs_ReservationID :: uuid
  rs_Fence :: int
  rs_State :: string
  rs_ResourceOwnerWorkspaceID :: uuid
  rs_BindingRef :: string
  rs_AgentID :: uuid
  rs_WorkspaceID :: uuid
  rs_GrantID :: uuid
  rs_TaskID :: uuid
  rs_CheckoutGeneration :: int
  rs_CheckoutRequestID :: "uuid option"
  rs_WorkerRef :: string
  rs_ControllerRef :: string
  rs_ProfileID :: string
  rs_CatalogRevision :: int
  rs_CatalogDigest :: string
  rs_AdmissionRevision :: int
  rs_ProfileRevision :: string
  rs_Pools :: "string list"
  rs_PoolSetDigest :: string
  rs_ExpiresAt :: gtime
  rs_CreatedAt :: gtime
  rs_ConsumeReceipt :: "RuntimeConsumeReceipt option"
  rs_ReleaseReceipt :: "RuntimeReleaseReceipt option"

text \<open>A null time or string reads as the zero value, as \<open>sql.NullTime\<close> and \<open>sql.NullString\<close> do.\<close>

definition null_or :: "'a \<Rightarrow> 'a option \<Rightarrow> 'a" where
  "null_or zero v = (case v of None \<Rightarrow> zero | Some x \<Rightarrow> x)"

definition toDomain :: "uuid \<Rightarrow> gtime \<Rightarrow> runtimeReservationRow \<Rightarrow> RuntimeReservation" where
  "toDomain owner now row =
     \<lparr>rs_ReservationID = rw_ID row, rs_Fence = rw_Fence row, rs_State = effectiveState row now,
      rs_ResourceOwnerWorkspaceID = owner, rs_BindingRef = rw_BindingRef row, rs_AgentID = rw_AgentID row,
      rs_WorkspaceID = rw_WorkspaceID row, rs_GrantID = rw_GrantID row, rs_TaskID = rw_TaskID row,
      rs_CheckoutGeneration = rw_CheckoutGeneration row, rs_CheckoutRequestID = rw_CheckoutRequestID row,
      rs_WorkerRef = rw_WorkerRef row, rs_ControllerRef = rw_ControllerRef row, rs_ProfileID = rw_ProfileRef row,
      rs_CatalogRevision = rw_CatalogRevision row, rs_CatalogDigest = rw_CatalogDigest row,
      rs_AdmissionRevision = rw_AdmissionRevision row, rs_ProfileRevision = rw_ProfileRevision row,
      rs_Pools = rw_Pools row, rs_PoolSetDigest = rw_PoolSetDigest row, rs_ExpiresAt = rw_ExpiresAt row,
      rs_CreatedAt = rw_CreatedAt row,
      rs_ConsumeReceipt = map_option (\<lambda>u. \<lparr>cr_ReceiptID = u, cr_ConsumedAt = null_or 0 (rw_ConsumedAt row),
                                            cr_RunLeaseExpiresAt = rw_ExpiresAt row\<rparr>) (rw_ReceiptID row),
      rs_ReleaseReceipt = map_option (\<lambda>u. \<lparr>rr_ReleaseID = u, rr_ReleasedAt = null_or 0 (rw_ReleasedAt row),
                                            rr_ProofKind = null_or '''' (rw_ReleaseProofKind row)\<rparr>) (rw_ReleaseID row)\<rparr>"

section \<open>Statements of one transaction\<close>

text \<open>\<open>UPDATE ... WHERE p\<close> and \<open>DELETE FROM claims WHERE reservation_id ...\<close>\<close>

definition update_rows ::
  "(runtimeReservationRow \<Rightarrow> bool) \<Rightarrow> (runtimeReservationRow \<Rightarrow> runtimeReservationRow) \<Rightarrow> store \<Rightarrow> store" where
  "update_rows p f s = s\<lparr>st_rows := map (\<lambda>r. if p r then f r else r) (st_rows s)\<rparr>"

definition delete_claims :: "(uuid \<Rightarrow> bool) \<Rightarrow> store \<Rightarrow> store" where
  "delete_claims p s = s\<lparr>st_claims := filter (\<lambda>c. \<not> p (cl_reservation c)) (st_claims s)\<rparr>"

definition sweep_due :: "gtime \<Rightarrow> runtimeReservationRow \<Rightarrow> bool" where
  "sweep_due now r \<longleftrightarrow> rw_State r = Reserved \<and> rw_ExpiresAt r \<le> now"

definition runtimeSweepExpired :: "gtime \<Rightarrow> store \<Rightarrow> store" where
  "runtimeSweepExpired now s =
     (let swept = map rw_ID (filter (sweep_due now) (st_rows s))
      in delete_claims (\<lambda>u. u \<in> set swept) (update_rows (sweep_due now) (\<lambda>r. r\<lparr>rw_State := Expired\<rparr>) s))"

definition runtimeExpireOne :: "uuid \<Rightarrow> store \<Rightarrow> store" where
  "runtimeExpireOne ident s =
     delete_claims (\<lambda>u. u = ident)
       (update_rows (\<lambda>r. rw_ID r = ident \<and> rw_State r = Reserved) (\<lambda>r. r\<lparr>rw_State := Expired\<rparr>) s)"

definition runtimeLockedReservation ::
  "store \<Rightarrow> uuid \<Rightarrow> uuid \<Rightarrow> uuid \<Rightarrow> string \<Rightarrow> failure + runtimeReservationRow" where
  "runtimeLockedReservation s ident integration receiver ref =
     (case find (\<lambda>r. rw_ID r = ident \<and> rw_IntegrationID r = integration \<and> rw_WorkspaceID r = receiver
                   \<and> rw_BindingRef r = ref) (st_rows s) of
        None \<Rightarrow> Inl (Refused (NotFound ''Runtime reservation''))
      | Some row \<Rightarrow> Inr row)"

text \<open>The holder that \<open>runtimeTaskWriterActive\<close> names: the newest active reservation of the task.\<close>

definition runtimeTaskWriterActive :: "world \<Rightarrow> store \<Rightarrow> uuid \<Rightarrow> Error" where
  "runtimeTaskWriterActive w s task =
     (let refusal = runtimeReservationErr StatusConflict ''task_writer_active'' in
      case first_row (sort_key (\<lambda>r. - rw_CreatedAt r) (filter (\<lambda>r. rw_TaskID r = task \<and> active r) (st_rows s))) of
        None \<Rightarrow> refusal
      | Some holder \<Rightarrow>
          let name = (case find (\<lambda>a. ag_id a = rw_AgentID holder) (wd_agents w) of None \<Rightarrow> '''' | Some a \<Rightarrow> ag_name a)
          in refusal\<lparr>Context :=
               [(''holder'', CtxObject [(''reservation_id'', CtxUUID (rw_ID holder)), (''agent_id'', CtxUUID (rw_AgentID holder)),
                                        (''agent_name'', CtxText name), (''state'', CtxText (rw_State holder))]),
                (if rw_State holder = Reserved then (''expires_at'', CtxTime (rw_ExpiresAt holder))
                 else (''blocks_until'', CtxText ''release''))]\<rparr>)"

definition runtimeScopeDigest :: "library \<Rightarrow> uuid \<Rightarrow> string \<Rightarrow> RuntimeAcquireInput \<Rightarrow> string" where
  "runtimeScopeDigest lib integration ref inp = li_scope lib integration ref (inp\<lparr>aq_IdempotencyKey := ''''\<rparr>)"

text \<open>\<open>runtimeUniqueConflict\<close> for the constraint a failed insert names; the slot check is no unique violation.\<close>

definition runtimeUniqueConflict :: "world \<Rightarrow> store \<Rightarrow> uuid \<Rightarrow> string \<Rightarrow> failure" where
  "runtimeUniqueConflict w s task constraint =
     (if constraint = ''runtime_reservations_active_task'' then Refused (runtimeTaskWriterActive w s task)
      else if constraint = ''runtime_reservations_active_worker'' then refuse StatusConflict ''worker_active''
      else if constraint = ''runtime_reservation_pool_claims_pool_id_slot_key'' then refuse StatusConflict ''pool_exhausted''
      else if constraint = ''runtime_reservation_pool_claims_slot_check'' then Fault constraint
      else refuse StatusConflict ''idempotency_scope_mismatch'')"

text \<open>The inserts, with the primary keys, unique constraints and checks of the migration.\<close>

definition same_worker :: "runtimeReservationRow \<Rightarrow> runtimeReservationRow \<Rightarrow> bool" where
  "same_worker r q \<longleftrightarrow> rw_IntegrationID r = rw_IntegrationID q \<and> rw_ControllerRef r = rw_ControllerRef q
     \<and> rw_WorkerRef r = rw_WorkerRef q"

definition insert_reservation :: "runtimeReservationRow \<Rightarrow> store \<Rightarrow> string + store" where
  "insert_reservation row s =
     (if list_ex (\<lambda>q. rw_ID q = rw_ID row) (st_rows s) then Inl ''runtime_reservations_pkey''
      else if list_ex (\<lambda>q. rw_Fence q = rw_Fence row) (st_rows s) then Inl ''runtime_reservations_fence_key''
      else if list_ex (\<lambda>q. rw_AgentID q = rw_AgentID row \<and> rw_IdempotencyKey q = rw_IdempotencyKey row) (st_rows s)
      then Inl ''runtime_reservations_agent_id_idempotency_key_key''
      else if list_ex (\<lambda>q. active q \<and> rw_TaskID q = rw_TaskID row) (st_rows s)
      then Inl ''runtime_reservations_active_task''
      else if list_ex (\<lambda>q. active q \<and> same_worker q row) (st_rows s)
      then Inl ''runtime_reservations_active_worker''
      else Inr (s\<lparr>st_rows := st_rows s @ [row], st_fence := rw_Fence row\<rparr>))"

definition insert_claim :: "claim \<Rightarrow> store \<Rightarrow> string + store" where
  "insert_claim c s =
     (if cl_slot c \<le> 0 then Inl ''runtime_reservation_pool_claims_slot_check''
      else if list_ex (\<lambda>d. cl_reservation d = cl_reservation c \<and> cl_pool d = cl_pool c) (st_claims s)
      then Inl ''runtime_reservation_pool_claims_pkey''
      else if list_ex (\<lambda>d. cl_pool d = cl_pool c \<and> cl_slot d = cl_slot c) (st_claims s)
      then Inl ''runtime_reservation_pool_claims_pool_id_slot_key''
      else Inr (s\<lparr>st_claims := st_claims s @ [c]\<rparr>))"

fun insert_claims :: "uuid \<Rightarrow> (string \<times> int) list \<Rightarrow> store \<Rightarrow> string + store" where
  "insert_claims ident [] s = Inr s"
| "insert_claims ident ((pool, slot) # rest) s =
     bind_res (insert_claim \<lparr>cl_reservation = ident, cl_pool = pool, cl_slot = slot\<rparr> s) (insert_claims ident rest)"


section \<open>Acquire\<close>

text \<open>\<open>slot := 1; for slices.Contains(used, slot) { slot++ }\<close>\<close>

lemma free_slot_decreases: "slot \<in> set used \<Longrightarrow> card {x \<in> set used. slot + 1 \<le> x} < card {x \<in> set used. slot \<le> (x :: int)}"
proof (rule psubset_card_mono)
  assume "slot \<in> set used"
  then have "slot \<in> {x \<in> set used. slot \<le> x} - {x \<in> set used. slot + 1 \<le> x}" by simp
  then show "{x \<in> set used. slot + 1 \<le> x} \<subset> {x \<in> set used. slot \<le> x}" by fastforce
qed simp

function free_slot :: "int list \<Rightarrow> int \<Rightarrow> int" where
  "free_slot used slot = (if slot \<in> set used then free_slot used (slot + 1) else slot)"
  by pat_completeness auto
termination
  by (relation "measure (\<lambda>(used, slot). card {x \<in> set used. slot \<le> x})") (auto intro: free_slot_decreases)

declare free_slot.simps [simp del]

definition pool_capacity :: "RuntimeCatalog \<Rightarrow> uuid \<Rightarrow> (string, int) gomap" where
  "pool_capacity c owner =
     fold (\<lambda>(name, pool) m. AList.update (RuntimeCanonicalPoolID owner pool) (rp_MaxConcurrency pool) m) (ca_Pools c) []"

definition used_slots :: "store \<Rightarrow> string \<Rightarrow> int list" where
  "used_slots s pool = map cl_slot (filter (\<lambda>c. cl_pool c = pool) (st_claims s))"

fun choose_slots :: "store \<Rightarrow> (string, int) gomap \<Rightarrow> string list \<Rightarrow> (failure + (string \<times> int) list)" where
  "choose_slots s capacity [] = Inr []"
| "choose_slots s capacity (pool # pools) =
     (let used = used_slots s pool in
      if int (length used) \<ge> go_get 0 capacity pool then Inl (refuse StatusConflict ''pool_exhausted'')
      else bind_res (choose_slots s capacity pools) (\<lambda>rest. Inr ((pool, free_slot used 1) # rest)))"

definition active_count :: "store \<Rightarrow> uuid \<Rightarrow> nat" where
  "active_count s agent = length (filter (\<lambda>r. rw_AgentID r = agent \<and> active r) (st_rows s))"

text \<open>The reads under the locks, after the sweep: the identity cap, the task, the worker, the pools.\<close>

definition admit_resources ::
  "world \<Rightarrow> store \<Rightarrow> uuid \<Rightarrow> runtimeAdmissionTarget \<Rightarrow> RuntimeAcquireInput \<Rightarrow> string list
     \<Rightarrow> failure + (string \<times> int) list" where
  "admit_resources w s owner target inp pools =
     (let agent = ri_AgentID (rb_Binding (tg_binding target));
          controller = pf_ControllerRef (Profiles_at (tg_catalog target) (aq_ProfileID inp)) in
      case find (\<lambda>a. ag_id a = agent \<and> \<not> ag_deleted a) (wd_agents w) of
        None \<Rightarrow> Inl (Fault ''sql: no rows in result set'')
      | Some a \<Rightarrow>
          if ag_max_concurrent_tasks a \<le> 0 then Inl (refuse StatusLocked ''identity_cap_unset'')
          else if int (active_count s agent) \<ge> ag_max_concurrent_tasks a
          then Inl (refuse StatusConflict ''identity_cap_reached'')
          else if list_ex (\<lambda>r. rw_TaskID r = aq_TaskID inp \<and> active r) (st_rows s)
          then Inl (Refused (runtimeTaskWriterActive w s (aq_TaskID inp)))
          else if list_ex (\<lambda>r. rw_IntegrationID r = cn_ID (tg_connection target) \<and> rw_ControllerRef r = controller
                    \<and> rw_WorkerRef r = aq_WorkerRef inp \<and> active r) (st_rows s)
          then Inl (refuse StatusConflict ''worker_active'')
          else choose_slots s (pool_capacity (tg_catalog target) owner) pools)"

definition new_row ::
  "clock \<Rightarrow> uuid \<Rightarrow> int \<Rightarrow> uuid \<Rightarrow> string \<Rightarrow> runtimeAdmissionTarget \<Rightarrow> RuntimeAcquireInput \<Rightarrow> string
     \<Rightarrow> string list \<Rightarrow> string \<Rightarrow> runtimeReservationRow" where
  "new_row ck ident fence receiver ref target inp scope pools poolDigest =
     \<lparr>rw_ID = ident, rw_Fence = fence, rw_IntegrationID = cn_ID (tg_connection target), rw_BindingRef = ref,
      rw_AgentID = ri_AgentID (rb_Binding (tg_binding target)), rw_WorkspaceID = receiver,
      rw_GrantID = ri_GrantID (rb_Binding (tg_binding target)), rw_GrantFingerprint = tg_fingerprint target,
      rw_IdempotencyKey = aq_IdempotencyKey inp, rw_ScopeDigest = scope, rw_TaskID = aq_TaskID inp,
      rw_CheckoutGeneration = aq_CheckoutGeneration inp, rw_CheckoutRequestID = aq_CheckoutRequestID inp,
      rw_ControllerRef = pf_ControllerRef (Profiles_at (tg_catalog target) (aq_ProfileID inp)),
      rw_WorkerRef = aq_WorkerRef inp, rw_ProfileRef = aq_ProfileID inp, rw_CatalogRevision = tg_revision target,
      rw_CatalogDigest = tg_digest target, rw_AdmissionRevision = ra_Revision (tg_admission target),
      rw_ProfileRevision = RuntimeProfileRevision (tg_revision target), rw_Pools = pools, rw_PoolSetDigest = poolDigest,
      rw_State = Reserved, rw_ExpiresAt = ck_db ck + aq_TTLSeconds inp * 1000000000,
      rw_ReceiptID = None, rw_ConsumedAt = None, rw_ReleaseID = None, rw_ReleasedAt = None,
      rw_ReleaseProofKind = None, rw_ReleaseEvidenceRef = None, rw_CreatedAt = ck_db ck\<rparr>"

text \<open>The two inserts; a violated constraint aborts the transaction, and the refusal is worded from what
  other connections see, the committed store.\<close>

definition store_reservation ::
  "world \<Rightarrow> store \<Rightarrow> runtimeReservationRow \<Rightarrow> (string \<times> int) list \<Rightarrow> store \<Rightarrow> failure + store" where
  "store_reservation w committed row slots s =
     (case insert_reservation row s of
        Inl constraint \<Rightarrow> Inl (runtimeUniqueConflict w committed (rw_TaskID row) constraint)
      | Inr s1 \<Rightarrow>
          (case insert_claims (rw_ID row) slots s1 of
             Inl constraint \<Rightarrow> Inl (runtimeUniqueConflict w committed (rw_TaskID row) constraint)
           | Inr s2 \<Rightarrow> Inr s2))"

text \<open>What is checked before anything is written: the admission, the profile, the expected revisions, the
  controller and the task's writer. It yields the canonical pools.\<close>

definition acquire_admission ::
  "library \<Rightarrow> world \<Rightarrow> clock \<Rightarrow> uuid \<Rightarrow> uuid \<Rightarrow> runtimeAdmissionTarget \<Rightarrow> RuntimeAcquireInput \<Rightarrow> failure + string list" where
  "acquire_admission lib w ck owner receiver target inp =
     guard_res (checkProfile target (aq_ProfileID inp))
       (case RuntimeProfilePools (tg_catalog target) owner (aq_ProfileID inp) of
          None \<Rightarrow> Inl (refuse StatusForbidden ''profile_not_admitted'')
        | Some pools \<Rightarrow>
            if aq_ExpectedCatalogRevision inp \<noteq> tg_revision target \<or> aq_ExpectedCatalogDigest inp \<noteq> tg_digest target
               \<or> aq_ExpectedAdmissionRevision inp \<noteq> ra_Revision (tg_admission target)
               \<or> aq_ExpectedProfileRevision inp \<noteq> RuntimeProfileRevision (tg_revision target)
               \<or> aq_ExpectedPoolSetDigest inp \<noteq> RuntimePoolSetDigest (li_sha256 lib) pools
            then Inl (refuse StatusConflict ''stale_revision'')
            else let liveness = runtimeControllerLiveness lib w (tg_connection target) (tg_catalog target)
                       (pf_ControllerRef (Profiles_at (tg_catalog target) (aq_ProfileID inp)))
                       (tg_revision target) (tg_digest target) (ck_app ck)
              in if liveness = ''paused'' then Inl (refuse StatusLocked ''controller_paused'')
                 else if liveness \<noteq> ''current'' then Inl (refuse StatusLocked ''controller_unavailable'')
                 else guard_res (runtimeTaskWriter w (ck_db ck) (aq_TaskID inp) receiver
                        (ri_AgentID (rb_Binding (tg_binding target))) (aq_CheckoutGeneration inp) (aq_CheckoutRequestID inp))
                        (Inr pools))"

definition acquire_body ::
  "library \<Rightarrow> world \<Rightarrow> clock \<Rightarrow> uuid \<Rightarrow> uuid \<Rightarrow> uuid \<Rightarrow> string \<Rightarrow> runtimeAdmissionTarget \<Rightarrow> RuntimeAcquireInput
     \<Rightarrow> store \<Rightarrow> failure + (runtimeReservationRow \<times> bool \<times> store)" where
  "acquire_body lib w ck fresh owner receiver ref target inp s =
     (let agent = ri_AgentID (rb_Binding (tg_binding target));
          scope = runtimeScopeDigest lib (cn_ID (tg_connection target)) ref inp in
      case find (\<lambda>r. rw_AgentID r = agent \<and> rw_IdempotencyKey r = aq_IdempotencyKey inp) (st_rows s) of
        Some existing \<Rightarrow>
          if rw_ScopeDigest existing \<noteq> scope then Inl (refuse StatusConflict ''idempotency_scope_mismatch'')
          else Inr (existing, False, s)
      | None \<Rightarrow>
          bind_res (acquire_admission lib w ck owner receiver target inp) (\<lambda>pools.
          let s1 = runtimeSweepExpired (ck_db ck) s;
              poolDigest = RuntimePoolSetDigest (li_sha256 lib) pools;
              row = new_row ck fresh (st_fence s1 + 1) receiver ref target inp scope pools poolDigest
          in bind_res (admit_resources w s1 owner target inp pools) (\<lambda>slots.
             bind_res (store_reservation w s row slots s1) (\<lambda>s2. Inr (row, True, s2)))))"

definition AcquireReservation ::
  "library \<Rightarrow> world \<Rightarrow> clock \<Rightarrow> uuid \<Rightarrow> uuid \<Rightarrow> uuid \<Rightarrow> string \<Rightarrow> RuntimeActor \<Rightarrow> RuntimeAcquireInput
     \<Rightarrow> store \<Rightarrow> (failure + (RuntimeReservation \<times> bool)) \<times> store" where
  "AcquireReservation lib w ck fresh owner receiver ref actor inp s =
     (case guard_res (refuse_if (\<not> acquire_valid inp) (Refused (BadRequest ''invalid runtime reservation request'')))
             (guard_res (runtimeReservationWriter actor receiver)
               (bind_res (runtimeLoadTarget lib w owner receiver ref actor) (\<lambda>target.
                  acquire_body lib w ck fresh owner receiver ref target inp s))) of
        Inl e \<Rightarrow> (Inl e, s)
      | Inr (row, created, s2) \<Rightarrow> (Inr (toDomain owner (ck_out ck) row, created), s2))"


section \<open>Consume, renew, release, get\<close>

definition put_row :: "runtimeReservationRow \<Rightarrow> store \<Rightarrow> store" where
  "put_row row s = update_rows (\<lambda>r. rw_ID r = rw_ID row) (\<lambda>_. row) s"

definition grant_changed :: "runtimeAdmissionTarget \<Rightarrow> runtimeReservationRow \<Rightarrow> bool" where
  "grant_changed target row \<longleftrightarrow> ri_GrantID (rb_Binding (tg_binding target)) \<noteq> rw_GrantID row
     \<or> ri_AgentID (rb_Binding (tg_binding target)) \<noteq> rw_AgentID row \<or> tg_fingerprint target \<noteq> rw_GrantFingerprint row"

definition stale_revision :: "library \<Rightarrow> uuid \<Rightarrow> runtimeAdmissionTarget \<Rightarrow> runtimeReservationRow \<Rightarrow> bool" where
  "stale_revision lib owner target row =
     (case RuntimeProfilePools (tg_catalog target) owner (rw_ProfileRef row) of
        None \<Rightarrow> True
      | Some pools \<Rightarrow> tg_revision target \<noteq> rw_CatalogRevision row \<or> tg_digest target \<noteq> rw_CatalogDigest row
          \<or> ra_Revision (tg_admission target) \<noteq> rw_AdmissionRevision row
          \<or> RuntimeProfileRevision (tg_revision target) \<noteq> rw_ProfileRevision row
          \<or> RuntimePoolSetDigest (li_sha256 lib) pools \<noteq> rw_PoolSetDigest row)"

text \<open>The result of a locked operation on a row: a refusal that rolls back, a refusal after the expiry was
  committed, a row read back unchanged, a row written, or a row read back after its expiry was committed.\<close>

datatype outcome =
    Abort failure
  | ExpireThenFail failure
  | ReadBack runtimeReservationRow
  | Write runtimeReservationRow
  | ExpireThenRead runtimeReservationRow

definition apply_outcome ::
  "uuid \<Rightarrow> gtime \<Rightarrow> uuid \<Rightarrow> outcome \<Rightarrow> store \<Rightarrow> (failure + RuntimeReservation) \<times> store" where
  "apply_outcome owner now ident result s =
     (case result of
        Abort e \<Rightarrow> (Inl e, s)
      | ExpireThenFail e \<Rightarrow> (Inl e, runtimeExpireOne ident s)
      | ReadBack row \<Rightarrow> (Inr (toDomain owner now row), s)
      | Write row \<Rightarrow> (Inr (toDomain owner now row), put_row row s)
      | ExpireThenRead row \<Rightarrow> (Inr (toDomain owner now row), runtimeExpireOne ident s))"

definition consume_decide ::
  "library \<Rightarrow> world \<Rightarrow> clock \<Rightarrow> uuid \<Rightarrow> uuid \<Rightarrow> uuid \<Rightarrow> RuntimeActor \<Rightarrow> RuntimeConsumeInput
     \<Rightarrow> runtimeAdmissionTarget \<Rightarrow> runtimeReservationRow \<Rightarrow> outcome" where
  "consume_decide lib w ck fresh owner receiver actor inp target row =
     (let state = effectiveState row (ck_app ck) in
      if rw_AgentID row \<noteq> ac_AgentID actor then Abort (Refused (NotFound ''Runtime reservation''))
      else if rw_Fence row \<noteq> cs_Fence inp \<or> rw_CheckoutGeneration row \<noteq> cs_CheckoutGeneration inp
      then Abort (refuse StatusConflict ''fence_mismatch'')
      else if state = Consumed \<or> state = Reconcile then ReadBack row
      else if state = Released then Abort (refuse StatusGone ''reservation_released'')
      else if state = Expired then ExpireThenFail (refuse StatusGone ''reservation_expired'')
      else if grant_changed target row then Abort (refuse StatusForbidden ''grant_changed'')
      else case checkProfile target (rw_ProfileRef row) of
        Some e \<Rightarrow> Abort e
      | None \<Rightarrow>
          if stale_revision lib owner target row then Abort (refuse StatusConflict ''stale_revision'')
          else case runtimeTaskWriter w (ck_db ck) (rw_TaskID row) receiver (rw_AgentID row)
                      (rw_CheckoutGeneration row) (rw_CheckoutRequestID row) of
            Some e \<Rightarrow> Abort e
          | None \<Rightarrow>
              if rw_State row = Reserved
              then Write (row\<lparr>rw_State := Consumed, rw_ReceiptID := Some fresh, rw_ConsumedAt := Some (ck_db ck),
                              rw_ExpiresAt := ck_db ck + cs_RunLeaseSeconds inp * 1000000000\<rparr>)
              else Abort (Fault ''sql: no rows in result set''))"

definition ConsumeReservation ::
  "library \<Rightarrow> world \<Rightarrow> clock \<Rightarrow> uuid \<Rightarrow> uuid \<Rightarrow> uuid \<Rightarrow> string \<Rightarrow> uuid \<Rightarrow> RuntimeActor \<Rightarrow> RuntimeConsumeInput
     \<Rightarrow> store \<Rightarrow> (failure + RuntimeReservation) \<times> store" where
  "ConsumeReservation lib w ck fresh owner receiver ref ident actor inp s =
     (case guard_res (refuse_if (\<not> consume_valid inp) (Refused (BadRequest ''invalid runtime consume request'')))
             (guard_res (runtimeReservationWriter actor receiver)
               (bind_res (runtimeLoadTarget lib w owner receiver ref actor) (\<lambda>target.
                bind_res (runtimeLockedReservation s ident (cn_ID (tg_connection target)) receiver ref) (\<lambda>row.
                  Inr (consume_decide lib w ck fresh owner receiver actor inp target row))))) of
        Inl e \<Rightarrow> (Inl e, s)
      | Inr result \<Rightarrow> apply_outcome owner (ck_out ck) ident result s)"

definition renew_decide ::
  "world \<Rightarrow> clock \<Rightarrow> uuid \<Rightarrow> RuntimeActor \<Rightarrow> RuntimeRenewInput \<Rightarrow> runtimeAdmissionTarget
     \<Rightarrow> runtimeReservationRow \<Rightarrow> outcome" where
  "renew_decide w ck receiver actor inp target row =
     (if rw_AgentID row \<noteq> ac_AgentID actor then Abort (Refused (NotFound ''Runtime reservation''))
      else if rw_Fence row \<noteq> rn_Fence inp \<or> rw_CheckoutGeneration row \<noteq> rn_CheckoutGeneration inp
              \<or> \<not> sameRequest (rw_CheckoutRequestID row) (rn_CheckoutRequestID inp)
      then Abort (refuse StatusConflict ''writer_mismatch'')
      else if rw_State row = Reserved then Abort (refuse StatusConflict ''not_consumed'')
      else if rw_State row = Released \<or> rw_State row = Expired
      then Abort (refuse StatusGone (''reservation_'' @ rw_State row))
      else if grant_changed target row then Abort (refuse StatusForbidden ''grant_changed'')
      else case runtimeTaskWriter w (ck_db ck) (rw_TaskID row) receiver (rw_AgentID row)
                  (rw_CheckoutGeneration row) (rw_CheckoutRequestID row) of
        Some e \<Rightarrow> Abort e
      | None \<Rightarrow>
          if rw_State row = Consumed
          then Write (row\<lparr>rw_ExpiresAt := max (rw_ExpiresAt row) (ck_db ck + rn_RunLeaseSeconds inp * 1000000000)\<rparr>)
          else Abort (Fault ''sql: no rows in result set''))"

definition RenewReservation ::
  "library \<Rightarrow> world \<Rightarrow> clock \<Rightarrow> uuid \<Rightarrow> uuid \<Rightarrow> string \<Rightarrow> uuid \<Rightarrow> RuntimeActor \<Rightarrow> RuntimeRenewInput
     \<Rightarrow> store \<Rightarrow> (failure + RuntimeReservation) \<times> store" where
  "RenewReservation lib w ck owner receiver ref ident actor inp s =
     (case guard_res (refuse_if (\<not> renew_valid inp) (Refused (BadRequest ''invalid runtime renew request'')))
             (guard_res (runtimeReservationWriter actor receiver)
               (bind_res (runtimeLoadTarget lib w owner receiver ref actor) (\<lambda>target.
                bind_res (runtimeLockedReservation s ident (cn_ID (tg_connection target)) receiver ref) (\<lambda>row.
                  Inr (renew_decide w ck receiver actor inp target row))))) of
        Inl e \<Rightarrow> (Inl e, s)
      | Inr result \<Rightarrow> apply_outcome owner (ck_out ck) ident result s)"

definition reservationForReader ::
  "world \<Rightarrow> store \<Rightarrow> uuid \<Rightarrow> uuid \<Rightarrow> string \<Rightarrow> uuid \<Rightarrow> RuntimeActor \<Rightarrow> failure + runtimeReservationRow" where
  "reservationForReader w s owner receiver ref ident actor =
     (if ac_Connector actor
      then Inl (Refused (Forbidden ''runtime reservation requires the bound workspace agent key''))
      else case runtimeConnection w owner of
        None \<Rightarrow> Inl (Refused (NotFound ''Runtime reservation''))
      | Some connection \<Rightarrow>
          bind_res (runtimeLockedReservation s ident (cn_ID connection) receiver ref) (\<lambda>row.
            if ac_AgentID actor \<noteq> uuid_Nil then
              (if ac_AgentID actor \<noteq> rw_AgentID row \<or> ac_AuthWorkspaceID actor \<noteq> receiver
               then Inl (Refused (NotFound ''Runtime reservation'')) else Inr row)
            else guard_res (runtimeAdmin w receiver actor) (Inr row)))"

definition release_decide ::
  "clock \<Rightarrow> uuid \<Rightarrow> RuntimeReleaseInput \<Rightarrow> runtimeReservationRow \<Rightarrow> outcome" where
  "release_decide ck fresh inp row =
     (let state = effectiveState row (ck_app ck) in
      if rw_Fence row \<noteq> rl_Fence inp \<or> rw_CheckoutGeneration row \<noteq> rl_CheckoutGeneration inp
         \<or> \<not> sameRequest (rw_CheckoutRequestID row) (rl_CheckoutRequestID inp)
      then Abort (refuse StatusConflict ''writer_mismatch'')
      else if state = Released then ReadBack row
      else if state = Expired then ExpireThenRead (row\<lparr>rw_State := Expired\<rparr>)
      else if \<not> ProofAccepted inp (rw_State row) then Abort (refuse StatusConflict ''release_unproven'')
      else if active row
      then Write (row\<lparr>rw_State := Released, rw_ReleaseID := Some fresh, rw_ReleasedAt := Some (ck_db ck),
                      rw_ReleaseProofKind := Some (pk_Kind (rl_Proof inp)),
                      rw_ReleaseEvidenceRef := (let e = pk_EvidenceRef (rl_Proof inp) in if e = '''' then None else Some e)\<rparr>)
      else Abort (Fault ''sql: no rows in result set''))"

definition ReleaseReservation ::
  "world \<Rightarrow> clock \<Rightarrow> uuid \<Rightarrow> uuid \<Rightarrow> uuid \<Rightarrow> string \<Rightarrow> uuid \<Rightarrow> RuntimeActor \<Rightarrow> RuntimeReleaseInput
     \<Rightarrow> store \<Rightarrow> (failure + RuntimeReservation) \<times> store" where
  "ReleaseReservation w ck fresh owner receiver ref ident actor inp s =
     (case guard_res (refuse_if (\<not> release_valid inp) (Refused (BadRequest ''invalid runtime release request'')))
             (bind_res (reservationForReader w s owner receiver ref ident actor) (\<lambda>row.
                Inr (release_decide ck fresh inp row))) of
        Inl e \<Rightarrow> (Inl e, s)
      | Inr result \<Rightarrow>
          (case result of
             Write row \<Rightarrow> (Inr (toDomain owner (ck_out ck) row), delete_claims (\<lambda>u. u = ident) (put_row row s))
           | _ \<Rightarrow> apply_outcome owner (ck_out ck) ident result s))"

definition GetReservation ::
  "world \<Rightarrow> clock \<Rightarrow> uuid \<Rightarrow> uuid \<Rightarrow> string \<Rightarrow> uuid \<Rightarrow> RuntimeActor \<Rightarrow> store \<Rightarrow> failure + RuntimeReservation" where
  "GetReservation w ck owner receiver ref ident actor s =
     bind_res (reservationForReader w s owner receiver ref ident actor) (\<lambda>row. Inr (toDomain owner (ck_out ck) row))"


section \<open>The store's invariant\<close>

definition row_ok :: "runtimeReservationRow \<Rightarrow> bool" where
  "row_ok r \<longleftrightarrow>
     rw_State r \<in> {Reserved, Consumed, Released, Expired}
     \<and> (rw_State r = Reserved \<or> rw_State r = Expired \<longrightarrow> rw_ReceiptID r = None \<and> rw_ReleaseID r = None)
     \<and> (rw_State r = Consumed \<longrightarrow> rw_ReceiptID r \<noteq> None \<and> rw_ReleaseID r = None)
     \<and> (rw_State r = Released \<longrightarrow> rw_ReleaseID r \<noteq> None)"

abbreviation worker_of :: "runtimeReservationRow \<Rightarrow> uuid \<times> string \<times> string" where
  "worker_of r \<equiv> (rw_IntegrationID r, rw_ControllerRef r, rw_WorkerRef r)"

abbreviation request_of :: "runtimeReservationRow \<Rightarrow> uuid \<times> string" where
  "request_of r \<equiv> (rw_AgentID r, rw_IdempotencyKey r)"

definition rows_ok :: "store \<Rightarrow> bool" where
  "rows_ok s \<longleftrightarrow>
     distinct (map rw_ID (st_rows s)) \<and> distinct (map rw_Fence (st_rows s)) \<and> (\<forall>r \<in> set (st_rows s). rw_Fence r \<le> st_fence s)
     \<and> distinct (map request_of (st_rows s))
     \<and> distinct (map rw_TaskID (filter active (st_rows s))) \<and> distinct (map worker_of (filter active (st_rows s)))
     \<and> (\<forall>r \<in> set (st_rows s). row_ok r \<and> distinct (rw_Pools r))"

text \<open>Claims are exactly what the active reservations occupy, and no two share a slot.\<close>

definition claims_ok :: "store \<Rightarrow> bool" where
  "claims_ok s \<longleftrightarrow>
     distinct (map (\<lambda>c. (cl_reservation c, cl_pool c)) (st_claims s))
     \<and> distinct (map (\<lambda>c. (cl_pool c, cl_slot c)) (st_claims s)) \<and> (\<forall>c \<in> set (st_claims s). 0 < cl_slot c)
     \<and> {(cl_reservation c, cl_pool c) | c. c \<in> set (st_claims s)}
       = {(rw_ID r, p) | r p. r \<in> set (st_rows s) \<and> active r \<and> p \<in> set (rw_Pools r)}"

definition store_ok :: "store \<Rightarrow> bool" where
  "store_ok s \<longleftrightarrow> rows_ok s \<and> claims_ok s"

definition empty_store :: store where
  "empty_store = \<lparr>st_rows = [], st_claims = [], st_fence = 0\<rparr>"

lemma empty_store_ok: "store_ok empty_store"
  by (simp add: store_ok_def rows_ok_def claims_ok_def empty_store_def)

text \<open>What a row never changes, and how the rest of it may change.\<close>

definition identity_of :: "runtimeReservationRow \<Rightarrow> runtimeReservationRow" where
  "identity_of r = r\<lparr>rw_State := '''', rw_ExpiresAt := 0, rw_ReceiptID := None, rw_ConsumedAt := None,
     rw_ReleaseID := None, rw_ReleasedAt := None, rw_ReleaseProofKind := None, rw_ReleaseEvidenceRef := None\<rparr>"

lemma identity_of_update [simp]:
  "identity_of (r\<lparr>rw_State := a\<rparr>) = identity_of r" "identity_of (r\<lparr>rw_ExpiresAt := b\<rparr>) = identity_of r"
  "identity_of (r\<lparr>rw_ReceiptID := c\<rparr>) = identity_of r" "identity_of (r\<lparr>rw_ConsumedAt := d\<rparr>) = identity_of r"
  "identity_of (r\<lparr>rw_ReleaseID := e\<rparr>) = identity_of r" "identity_of (r\<lparr>rw_ReleasedAt := f\<rparr>) = identity_of r"
  "identity_of (r\<lparr>rw_ReleaseProofKind := g\<rparr>) = identity_of r" "identity_of (r\<lparr>rw_ReleaseEvidenceRef := h\<rparr>) = identity_of r"
  by (simp_all add: identity_of_def)

definition row_le :: "runtimeReservationRow \<Rightarrow> runtimeReservationRow \<Rightarrow> bool" where
  "row_le r q \<longleftrightarrow> identity_of q = identity_of r
     \<and> (rw_State r = Released \<or> rw_State r = Expired \<longrightarrow> q = r)
     \<and> (rw_State r = Consumed \<longrightarrow> rw_State q = Consumed \<and> rw_ExpiresAt r \<le> rw_ExpiresAt q \<or> rw_State q = Released)
     \<and> (rw_State r = Consumed \<longrightarrow> rw_ReceiptID q = rw_ReceiptID r \<and> rw_ConsumedAt q = rw_ConsumedAt r)
     \<and> (rw_State r = Reserved \<longrightarrow> q = r \<or> rw_State q \<in> {Consumed, Released, Expired})"

definition store_le :: "store \<Rightarrow> store \<Rightarrow> bool" where
  "store_le s t \<longleftrightarrow> st_fence s \<le> st_fence t \<and> (\<forall>r \<in> set (st_rows s). \<exists>q \<in> set (st_rows t). row_le r q)"

lemma identity_of_eqD:
  "identity_of q = identity_of r \<Longrightarrow> rw_ID q = rw_ID r \<and> rw_Fence q = rw_Fence r \<and> request_of q = request_of r
     \<and> rw_TaskID q = rw_TaskID r \<and> worker_of q = worker_of r \<and> rw_Pools q = rw_Pools r \<and> rw_ScopeDigest q = rw_ScopeDigest r"
  by (cases q; cases r) (simp add: identity_of_def)

lemma states_differ [simp]:
  "Reserved \<noteq> Consumed" "Reserved \<noteq> Released" "Reserved \<noteq> Expired" "Consumed \<noteq> Released" "Consumed \<noteq> Expired"
  "Released \<noteq> Expired" "Reconcile \<noteq> Reserved" "Reconcile \<noteq> Consumed" "Reconcile \<noteq> Released" "Reconcile \<noteq> Expired"
  by (simp_all add: reservation_states)

lemmas states_differ_sym [simp] = states_differ [symmetric]

lemma row_le_refl [simp]: "row_le r r"
  by (simp add: row_le_def)

lemma row_le_trans: "row_le r p \<Longrightarrow> row_le p q \<Longrightarrow> row_le r q"
  by (auto simp: row_le_def)

lemma row_le_active: "row_ok r \<Longrightarrow> row_le r q \<Longrightarrow> active q \<Longrightarrow> active r"
  by (auto simp: row_le_def active_def row_ok_def)

lemma store_le_refl [simp]: "store_le s s"
  by (auto simp: store_le_def intro: row_le_refl)

lemma store_le_trans: "store_le s t \<Longrightarrow> store_le t u \<Longrightarrow> store_le s u"
  unfolding store_le_def by (meson order.trans row_le_trans)

subsection \<open>Updates\<close>

lemma distinct_map_filter_shrink:
  "distinct (map k (filter P xs)) \<Longrightarrow> (\<And>x. x \<in> set xs \<Longrightarrow> k (g x) = k x \<and> (P (g x) \<longrightarrow> P x)) \<Longrightarrow>
     distinct (map k (filter P (map g xs)))"
proof (induction xs)
  case (Cons x xs)
  have "k ` set (filter P (map g xs)) \<subseteq> k ` set (filter P xs)" using Cons.prems(2) by auto
  with Cons show ?case by (auto split: if_splits)
qed simp

text \<open>Every statement that changes rows replaces each row by a later version of itself and drops the
  claims of the reservations that stop being active.\<close>

lemma evolve_rows_ok:
  assumes ok: "rows_ok s"
    and rows: "st_rows t = map g (st_rows s)" and fence: "st_fence t = st_fence s"
    and step: "\<And>r. r \<in> set (st_rows s) \<Longrightarrow> row_le r (g r) \<and> row_ok (g r)"
  shows "rows_ok t \<and> store_le s t"
proof -
  have keep: "rw_ID (g r) = rw_ID r" "rw_Fence (g r) = rw_Fence r" "request_of (g r) = request_of r"
      "rw_TaskID (g r) = rw_TaskID r" "worker_of (g r) = worker_of r" "rw_Pools (g r) = rw_Pools r"
      and act: "active (g r) \<longrightarrow> active r" if "r \<in> set (st_rows s)" for r
    using identity_of_eqD [of "g r" r] step [OF that] row_le_active [of r "g r"] ok that
    by (auto simp: row_le_def rows_ok_def)
  have same: "map k (st_rows t) = map k (st_rows s)" if "\<And>r. r \<in> set (st_rows s) \<Longrightarrow> k (g r) = k r" for k :: "_ \<Rightarrow> 'x"
    using that by (simp add: rows)
  have "distinct (map rw_TaskID (filter active (st_rows t)))" "distinct (map worker_of (filter active (st_rows t)))"
    using ok keep act unfolding rows rows_ok_def by (auto intro!: distinct_map_filter_shrink)
  moreover have "distinct (map rw_ID (st_rows t))" "distinct (map rw_Fence (st_rows t))" "distinct (map request_of (st_rows t))"
    using ok keep by (simp_all add: rows_ok_def same [of rw_ID] same [of rw_Fence] same [of request_of])
  ultimately have "rows_ok t"
    using ok keep step by (auto simp: rows_ok_def rows fence)
  moreover have "store_le s t"
    using step by (auto simp: store_le_def rows fence)
  ultimately show ?thesis ..
qed

lemma evolve_ok:
  assumes ok: "store_ok s"
    and rows: "st_rows t = map g (st_rows s)" and fence: "st_fence t = st_fence s"
    and step: "\<And>r. r \<in> set (st_rows s) \<Longrightarrow> row_le r (g r) \<and> row_ok (g r)"
    and claims: "st_claims t = filter (\<lambda>c. keep (cl_reservation c)) (st_claims s)"
    and kept: "\<And>r. r \<in> set (st_rows s) \<Longrightarrow> active r \<Longrightarrow> keep (rw_ID r) \<longleftrightarrow> active (g r)"
  shows "store_ok t \<and> store_le s t"
proof -
  note r = evolve_rows_ok [OF _ rows fence step]
  have id: "rw_ID (g q) = rw_ID q \<and> rw_Pools (g q) = rw_Pools q \<and> (active (g q) \<longrightarrow> active q)" if "q \<in> set (st_rows s)" for q
    using step [OF that] that ok row_le_active [of q "g q"] identity_of_eqD [of "g q" q]
    by (auto simp: row_le_def store_ok_def rows_ok_def)
  have old: "{(cl_reservation c, cl_pool c) | c. c \<in> set (st_claims s)}
       = {(rw_ID r, p) | r p. r \<in> set (st_rows s) \<and> active r \<and> p \<in> set (rw_Pools r)}"
    using ok by (simp add: store_ok_def claims_ok_def)
  have "{(cl_reservation c, cl_pool c) | c. c \<in> set (st_claims t)}
      = {x \<in> {(cl_reservation c, cl_pool c) | c. c \<in> set (st_claims s)}. keep (fst x)}"
    by (auto simp: claims)
  also have "\<dots> = {(rw_ID r, p) | r p. r \<in> set (st_rows s) \<and> active (g r) \<and> p \<in> set (rw_Pools r)}"
    unfolding old using kept id by fastforce
  also have "\<dots> = {(rw_ID (g r), p) | r p. r \<in> set (st_rows s) \<and> active (g r) \<and> p \<in> set (rw_Pools (g r))}"
    using id by (intro Collect_cong ex_cong1) auto
  also have "\<dots> = {(rw_ID r, p) | r p. r \<in> set (st_rows t) \<and> active r \<and> p \<in> set (rw_Pools r)}"
    by (auto simp: rows)
  finally have "claims_ok t"
    using ok by (auto simp: store_ok_def claims_ok_def claims distinct_map_filter)
  with r ok show ?thesis by (simp add: store_ok_def)
qed


lemma rows_okD:
  "store_ok s \<Longrightarrow> r \<in> set (st_rows s) \<Longrightarrow> row_ok r"
  "store_ok s \<Longrightarrow> distinct (map rw_ID (st_rows s))"
  unfolding store_ok_def rows_ok_def by blast+

lemma same_id_same_row:
  "store_ok s \<Longrightarrow> r \<in> set (st_rows s) \<Longrightarrow> q \<in> set (st_rows s) \<Longrightarrow> rw_ID q = rw_ID r \<Longrightarrow> q = r"
  using rows_okD(2) [of s] unfolding distinct_map inj_on_def by blast

lemma row_le_from_reserved:
  "identity_of q = identity_of r \<Longrightarrow> rw_State r = Reserved \<Longrightarrow> rw_State q \<in> {Consumed, Released, Expired} \<Longrightarrow> row_le r q"
  by (simp add: row_le_def)

lemma row_le_from_consumed:
  "identity_of q = identity_of r \<Longrightarrow> rw_State r = Consumed \<Longrightarrow>
     rw_State q = Consumed \<and> rw_ExpiresAt r \<le> rw_ExpiresAt q \<or> rw_State q = Released \<Longrightarrow>
     rw_ReceiptID q = rw_ReceiptID r \<Longrightarrow> rw_ConsumedAt q = rw_ConsumedAt r \<Longrightarrow> row_le r q"
  by (simp add: row_le_def)

lemma expire_row:
  "row_ok r \<Longrightarrow> rw_State r = Reserved \<Longrightarrow> row_le r (r\<lparr>rw_State := Expired\<rparr>) \<and> row_ok (r\<lparr>rw_State := Expired\<rparr>)"
  by (intro conjI row_le_from_reserved) (simp_all add: row_ok_def)

lemma sweep_ok:
  assumes "store_ok s"
  shows "store_ok (runtimeSweepExpired now s) \<and> store_le s (runtimeSweepExpired now s)"
proof (rule evolve_ok [OF assms, where g = "\<lambda>r. if sweep_due now r then r\<lparr>rw_State := Expired\<rparr> else r"
      and keep = "\<lambda>u. u \<notin> rw_ID ` {r \<in> set (st_rows s). sweep_due now r}"])
  show "row_le r (if sweep_due now r then r\<lparr>rw_State := Expired\<rparr> else r)
      \<and> row_ok (if sweep_due now r then r\<lparr>rw_State := Expired\<rparr> else r)" if "r \<in> set (st_rows s)" for r
    using expire_row [of r] rows_okD(1) [OF assms that] by (auto simp: sweep_due_def)
  show "rw_ID r \<notin> rw_ID ` {r \<in> set (st_rows s). sweep_due now r}
      \<longleftrightarrow> active (if sweep_due now r then r\<lparr>rw_State := Expired\<rparr> else r)" if "r \<in> set (st_rows s)" "active r" for r
    using that same_id_same_row [OF assms] by (fastforce simp: active_def)
qed (auto simp: runtimeSweepExpired_def delete_claims_def update_rows_def Let_def)

text \<open>\<open>runtimeExpireOne\<close> is only reached for a row that is not consumed.\<close>

lemma expire_one_ok:
  assumes "store_ok s" and "\<And>r. r \<in> set (st_rows s) \<Longrightarrow> rw_ID r = ident \<Longrightarrow> rw_State r \<noteq> Consumed"
  shows "store_ok (runtimeExpireOne ident s) \<and> store_le s (runtimeExpireOne ident s)"
proof (rule evolve_ok [OF assms(1), where keep = "\<lambda>u. u \<noteq> ident"
      and g = "\<lambda>r. if rw_ID r = ident \<and> rw_State r = Reserved then r\<lparr>rw_State := Expired\<rparr> else r"])
  show "row_le r (if rw_ID r = ident \<and> rw_State r = Reserved then r\<lparr>rw_State := Expired\<rparr> else r)
      \<and> row_ok (if rw_ID r = ident \<and> rw_State r = Reserved then r\<lparr>rw_State := Expired\<rparr> else r)"
    if "r \<in> set (st_rows s)" for r
    using expire_row [of r] rows_okD(1) [OF assms(1) that] by auto
  show "rw_ID r \<noteq> ident \<longleftrightarrow> active (if rw_ID r = ident \<and> rw_State r = Reserved then r\<lparr>rw_State := Expired\<rparr> else r)"
    if "r \<in> set (st_rows s)" "active r" for r
    using that assms(2) by (auto simp: active_def)
qed (auto simp: runtimeExpireOne_def delete_claims_def update_rows_def Let_def)

lemma put_row_ok:
  assumes "store_ok s" and "row \<in> set (st_rows s)" and "row_le row q \<and> row_ok q" and "active row \<longleftrightarrow> active q"
  shows "store_ok (put_row q s) \<and> store_le s (put_row q s)"
proof (rule evolve_ok [OF assms(1), where g = "\<lambda>r. if rw_ID r = rw_ID row then q else r" and keep = "\<lambda>u. True"])
  have id: "rw_ID q = rw_ID row" using assms(3) identity_of_eqD [of q row] by (simp add: row_le_def)
  show "st_rows (put_row q s) = map (\<lambda>r. if rw_ID r = rw_ID row then q else r) (st_rows s)"
    by (simp add: put_row_def update_rows_def id)
  show "row_le r (if rw_ID r = rw_ID row then q else r) \<and> row_ok (if rw_ID r = rw_ID row then q else r)"
    if "r \<in> set (st_rows s)" for r
    using that assms rows_okD(1) [OF assms(1) that] same_id_same_row [OF assms(1,2) that] by auto
  show "True \<longleftrightarrow> active (if rw_ID r = rw_ID row then q else r)" if "r \<in> set (st_rows s)" "active r" for r
    using that assms(4) same_id_same_row [OF assms(1,2) that(1)] by auto
qed (simp_all add: put_row_def update_rows_def)

lemma release_row_ok:
  assumes "store_ok s" and "row \<in> set (st_rows s)" and "row_le row q \<and> row_ok q" and "\<not> active q" and "rw_ID row = ident"
  shows "store_ok (delete_claims (\<lambda>u. u = ident) (put_row q s)) \<and> store_le s (delete_claims (\<lambda>u. u = ident) (put_row q s))"
proof (rule evolve_ok [OF assms(1), where g = "\<lambda>r. if rw_ID r = ident then q else r" and keep = "\<lambda>u. u \<noteq> ident"])
  have id: "rw_ID q = ident" using assms(3,5) identity_of_eqD [of q row] by (simp add: row_le_def)
  show "st_rows (delete_claims (\<lambda>u. u = ident) (put_row q s)) = map (\<lambda>r. if rw_ID r = ident then q else r) (st_rows s)"
    by (simp add: put_row_def update_rows_def delete_claims_def id)
  show "row_le r (if rw_ID r = ident then q else r) \<and> row_ok (if rw_ID r = ident then q else r)"
    if "r \<in> set (st_rows s)" for r
    using that assms rows_okD(1) [OF assms(1) that] same_id_same_row [OF assms(1,2) that] by auto
  show "rw_ID r \<noteq> ident \<longleftrightarrow> active (if rw_ID r = ident then q else r)" if "r \<in> set (st_rows s)" "active r" for r
    using that assms(4) by auto
qed (simp_all add: put_row_def update_rows_def delete_claims_def)

subsection \<open>Insertion\<close>

lemma insert_claims_Inr:
  "insert_claims ident slots s = Inr t \<Longrightarrow>
     t = s\<lparr>st_claims := st_claims s @ map (\<lambda>(p, n). \<lparr>cl_reservation = ident, cl_pool = p, cl_slot = n\<rparr>) slots\<rparr>
     \<and> (distinct (map (\<lambda>c. (cl_reservation c, cl_pool c)) (st_claims s)) \<longrightarrow>
          distinct (map (\<lambda>c. (cl_reservation c, cl_pool c)) (st_claims t)))
     \<and> (distinct (map (\<lambda>c. (cl_pool c, cl_slot c)) (st_claims s)) \<longrightarrow>
          distinct (map (\<lambda>c. (cl_pool c, cl_slot c)) (st_claims t)))
     \<and> ((\<forall>c \<in> set (st_claims s). 0 < cl_slot c) \<longrightarrow> (\<forall>c \<in> set (st_claims t). 0 < cl_slot c))"
proof (induction slots arbitrary: s)
  case (Cons pn slots)
  obtain p n where pn: "pn = (p, n)" by (cases pn)
  let ?c = "\<lparr>cl_reservation = ident, cl_pool = p, cl_slot = n\<rparr>"
  from Cons.prems pn obtain u where u: "insert_claim ?c s = Inr u" and r: "insert_claims ident slots u = Inr t" by auto
  then have eq: "u = s\<lparr>st_claims := st_claims s @ [?c]\<rparr>" and n: "0 < n"
      and d: "\<forall>d \<in> set (st_claims s). \<not> (cl_reservation d = ident \<and> cl_pool d = p) \<and> \<not> (cl_pool d = p \<and> cl_slot d = n)"
    by (auto simp: insert_claim_def list_ex_iff split: if_splits)
  have "distinct (map (\<lambda>c. (cl_reservation c, cl_pool c)) (st_claims s)) \<Longrightarrow> distinct (map (\<lambda>c. (cl_reservation c, cl_pool c)) (st_claims u))"
      "distinct (map (\<lambda>c. (cl_pool c, cl_slot c)) (st_claims s)) \<Longrightarrow> distinct (map (\<lambda>c. (cl_pool c, cl_slot c)) (st_claims u))"
      "\<forall>c \<in> set (st_claims s). 0 < cl_slot c \<Longrightarrow> \<forall>c \<in> set (st_claims u). 0 < cl_slot c"
    using d n unfolding eq by auto
  moreover have "t = s\<lparr>st_claims := st_claims s @ map (\<lambda>(p, n). \<lparr>cl_reservation = ident, cl_pool = p, cl_slot = n\<rparr>) (pn # slots)\<rparr>"
    using Cons.IH [OF r] unfolding eq pn by simp
  ultimately show ?case using Cons.IH [OF r] by blast
qed simp

lemma store_reservation_Inr:
  assumes "store_reservation w committed row slots s = Inr t"
  shows "\<exists>s1. insert_reservation row s = Inr s1 \<and> insert_claims (rw_ID row) slots s1 = Inr t"
  using assms by (auto simp: store_reservation_def split: sum.split_asm)

text \<open>The database backstop: whatever the transaction read before, a reservation that the constraints let
  in keeps the invariant of the store it finds.\<close>

lemma store_reservation_ok:
  assumes ok: "store_ok s" and ins: "store_reservation w committed row slots s = Inr t"
    and new: "rw_State row = Reserved" "row_ok row" "distinct (rw_Pools row)" "st_fence s < rw_Fence row"
    and slots: "map fst slots = rw_Pools row"
  shows "store_ok t \<and> store_le s t"
proof -
  obtain s1 where i: "insert_reservation row s = Inr s1" and c: "insert_claims (rw_ID row) slots s1 = Inr t"
    using store_reservation_Inr [OF ins] by auto
  from i have s1: "s1 = s\<lparr>st_rows := st_rows s @ [row], st_fence := rw_Fence row\<rparr>"
      and fresh: "\<forall>q \<in> set (st_rows s). rw_ID q \<noteq> rw_ID row \<and> rw_Fence q \<noteq> rw_Fence row \<and> request_of q \<noteq> request_of row
        \<and> (active q \<longrightarrow> rw_TaskID q \<noteq> rw_TaskID row \<and> worker_of q \<noteq> worker_of row)"
    by (auto simp: insert_reservation_def list_ex_iff same_worker_def split: if_splits)
  note t = insert_claims_Inr [OF c]
  let ?new = "map (\<lambda>(p, n). \<lparr>cl_reservation = rw_ID row, cl_pool = p, cl_slot = n\<rparr>) slots"
  have rows: "st_rows t = st_rows s @ [row]" and cl: "st_claims t = st_claims s @ ?new" and f: "st_fence t = rw_Fence row"
    using t s1 by auto
  have "rows_ok t"
    using ok fresh new unfolding store_ok_def rows_ok_def rows f
    by (auto simp: image_iff intro: order.strict_implies_order order.trans)
  moreover have "claims_ok t"
  proof -
    have "{(cl_reservation c, cl_pool c) | c. c \<in> set ?new} = {rw_ID row} \<times> fst ` set slots"
      by (force simp: image_iff)
    also have "fst ` set slots = set (rw_Pools row)" by (metis slots list.set_map)
    finally have "{(cl_reservation c, cl_pool c) | c. c \<in> set ?new} = {(rw_ID row, p) | p. p \<in> set (rw_Pools row)}" by auto
    moreover have "{(cl_reservation c, cl_pool c) | c. c \<in> set (st_claims t)}
        = {(cl_reservation c, cl_pool c) | c. c \<in> set (st_claims s)} \<union> {(cl_reservation c, cl_pool c) | c. c \<in> set ?new}"
      unfolding cl set_append by blast
    moreover have "{(rw_ID r, p) | r p. r \<in> set (st_rows t) \<and> active r \<and> p \<in> set (rw_Pools r)}
        = {(rw_ID r, p) | r p. r \<in> set (st_rows s) \<and> active r \<and> p \<in> set (rw_Pools r)} \<union> {(rw_ID row, p) | p. p \<in> set (rw_Pools row)}"
      using new(1) unfolding rows by (auto simp: active_def)
    ultimately have "{(cl_reservation c, cl_pool c) | c. c \<in> set (st_claims t)}
        = {(rw_ID r, p) | r p. r \<in> set (st_rows t) \<and> active r \<and> p \<in> set (rw_Pools r)}"
      using ok unfolding store_ok_def claims_ok_def by argo
    moreover have "st_claims s1 = st_claims s" by (simp add: s1)
    ultimately show ?thesis
      using ok t unfolding store_ok_def claims_ok_def by argo
  qed
  moreover have "store_le s t" using new(4) by (auto simp: store_le_def rows f intro: row_le_refl)
  ultimately show ?thesis by (simp add: store_ok_def)
qed


section \<open>The operations keep the invariant and only move rows forward\<close>

lemma free_slot_spec:
  "free_slot used k \<notin> set used \<and> k \<le> free_slot used k \<and> (\<forall>j. k \<le> j \<longrightarrow> j < free_slot used k \<longrightarrow> j \<in> set used)"
proof (induction used k rule: free_slot.induct)
  case (1 used slot)
  show ?case
  proof (cases "slot \<in> set used")
    case True
    then have eq: "free_slot used slot = free_slot used (slot + 1)" by (subst free_slot.simps) simp
    show ?thesis
    proof (unfold eq, intro conjI allI impI)
      show "j \<in> set used" if "slot \<le> j" "j < free_slot used (slot + 1)" for j
        using 1 [OF True] True that by (cases "j = slot") auto
    qed (use 1 [OF True] in auto)
  qed (subst free_slot.simps, simp)+
qed

lemma free_slot_bound: "1 \<le> free_slot used 1 \<and> free_slot used 1 \<le> int (length used) + 1"
proof
  note f = free_slot_spec [of used 1]
  then show "1 \<le> free_slot used 1" by blast
  from f have "{1 .. free_slot used 1 - 1} \<subseteq> set used" by auto
  then have "card {1 .. free_slot used 1 - 1} \<le> length used"
    by (meson List.finite_set card_length card_mono le_trans)
  then show "free_slot used 1 \<le> int (length used) + 1" by simp
qed

lemma choose_slots_Inr:
  "choose_slots s capacity pools = Inr slots \<Longrightarrow>
     map fst slots = pools
     \<and> (\<forall>(p, n) \<in> set slots. int (length (used_slots s p)) < go_get 0 capacity p \<and> 1 \<le> n \<and> n \<le> go_get 0 capacity p)"
proof (induction pools arbitrary: slots)
  case (Cons pool pools)
  then obtain rest where "int (length (used_slots s pool)) < go_get 0 capacity pool"
      and r: "choose_slots s capacity pools = Inr rest" and "slots = (pool, free_slot (used_slots s pool) 1) # rest"
    by (auto simp: Let_def split: if_split_asm)
  with Cons.IH [OF r] free_slot_bound [of "used_slots s pool"] show ?case by auto
qed simp

lemma new_row_ok:
  "distinct pools \<Longrightarrow> row_ok (new_row ck ident fence receiver ref target inp scope pools d)"
  by (simp add: new_row_def row_ok_def)

text \<open>A successful acquire either replays an existing reservation or has passed every check and stored a new one.\<close>

definition acquired ::
  "library \<Rightarrow> world \<Rightarrow> clock \<Rightarrow> uuid \<Rightarrow> uuid \<Rightarrow> uuid \<Rightarrow> string \<Rightarrow> runtimeAdmissionTarget \<Rightarrow> RuntimeAcquireInput
     \<Rightarrow> store \<Rightarrow> runtimeReservationRow \<Rightarrow> store \<Rightarrow> bool" where
  "acquired lib w ck fresh owner receiver ref target inp s row t \<longleftrightarrow>
     (\<exists>pools slots. acquire_admission lib w ck owner receiver target inp = Inr pools
        \<and> row = new_row ck fresh (st_fence s + 1) receiver ref target inp
             (runtimeScopeDigest lib (cn_ID (tg_connection target)) ref inp) pools (RuntimePoolSetDigest (li_sha256 lib) pools)
        \<and> admit_resources w (runtimeSweepExpired (ck_db ck) s) owner target inp pools = Inr slots
        \<and> store_reservation w s row slots (runtimeSweepExpired (ck_db ck) s) = Inr t)"

lemma sweep_fence [simp]: "st_fence (runtimeSweepExpired now s) = st_fence s"
  by (simp add: runtimeSweepExpired_def delete_claims_def update_rows_def Let_def)

lemma acquire_body_Inr:
  assumes "acquire_body lib w ck fresh owner receiver ref target inp s = Inr (row, created, t)"
  shows "\<not> created \<and> t = s \<and> row \<in> set (st_rows s) \<and> rw_AgentID row = ri_AgentID (rb_Binding (tg_binding target))
        \<and> rw_IdempotencyKey row = aq_IdempotencyKey inp
        \<and> rw_ScopeDigest row = runtimeScopeDigest lib (cn_ID (tg_connection target)) ref inp
    \<or> created \<and> acquired lib w ck fresh owner receiver ref target inp s row t"
proof (cases "find (\<lambda>r. rw_AgentID r = ri_AgentID (rb_Binding (tg_binding target)) \<and> rw_IdempotencyKey r = aq_IdempotencyKey inp) (st_rows s)")
  case None
  with assms show ?thesis by (auto simp: acquire_body_def acquired_def Let_def)
next
  case (Some q)
  then have "q \<in> set (st_rows s) \<and> rw_AgentID q = ri_AgentID (rb_Binding (tg_binding target)) \<and> rw_IdempotencyKey q = aq_IdempotencyKey inp"
    using find_SomeD by fastforce
  with Some assms show ?thesis by (auto simp: acquire_body_def Let_def split: if_split_asm)
qed

lemma admission_pools:
  "acquire_admission lib w ck owner receiver target inp = Inr pools \<Longrightarrow>
     RuntimeProfilePools (tg_catalog target) owner (aq_ProfileID inp) = Some pools \<and> checkProfile target (aq_ProfileID inp) = None"
  by (auto simp: acquire_admission_def Let_def split: option.split_asm if_split_asm)

lemma admit_slots:
  "admit_resources w s owner target inp pools = Inr slots \<Longrightarrow>
     choose_slots s (pool_capacity (tg_catalog target) owner) pools = Inr slots
     \<and> (\<exists>a \<in> set (wd_agents w). ag_id a = ri_AgentID (rb_Binding (tg_binding target)) \<and> \<not> ag_deleted a
          \<and> int (active_count s (ri_AgentID (rb_Binding (tg_binding target)))) < ag_max_concurrent_tasks a)"
  by (auto simp: admit_resources_def Let_def split: option.split_asm if_split_asm dest!: find_SomeD)

lemma acquired_ok:
  assumes "store_ok s" and "acquired lib w ck fresh owner receiver ref target inp s row t"
  shows "store_ok t \<and> store_le s t"
proof -
  obtain pools slots where a: "acquire_admission lib w ck owner receiver target inp = Inr pools"
      and r: "row = new_row ck fresh (st_fence s + 1) receiver ref target inp
             (runtimeScopeDigest lib (cn_ID (tg_connection target)) ref inp) pools (RuntimePoolSetDigest (li_sha256 lib) pools)"
      and m: "admit_resources w (runtimeSweepExpired (ck_db ck) s) owner target inp pools = Inr slots"
      and i: "store_reservation w s row slots (runtimeSweepExpired (ck_db ck) s) = Inr t"
    using assms(2) by (auto simp: acquired_def)
  have d: "distinct pools" using admission_pools [OF a] RuntimeProfilePools_distinct by blast
  note sw = sweep_ok [OF assms(1), of "ck_db ck"]
  have "store_ok t \<and> store_le (runtimeSweepExpired (ck_db ck) s) t"
  proof (rule store_reservation_ok [OF _ i])
    show "row_ok row" unfolding r by (rule new_row_ok [OF d])
    show "map fst slots = rw_Pools row" using admit_slots [OF m] choose_slots_Inr by (auto simp: r new_row_def)
  qed (use sw d in \<open>simp_all add: r new_row_def\<close>)
  with sw show ?thesis by (blast intro: store_le_trans)
qed

lemma Acquire_cases:
  assumes "AcquireReservation lib w ck fresh owner receiver ref actor inp s = (res, t)"
  shows "(\<exists>e. res = Inl e \<and> t = s)
    \<or> (\<exists>target row created. res = Inr (toDomain owner (ck_out ck) row, created) \<and> acquire_valid inp
         \<and> runtimeReservationWriter actor receiver = None
         \<and> runtimeLoadTarget lib w owner receiver ref actor = Inr target
         \<and> acquire_body lib w ck fresh owner receiver ref target inp s = Inr (row, created, t))"
  using assms by (auto simp: AcquireReservation_def split: sum.split_asm)

lemma Acquire_ok [inv_intros]:
  assumes "store_ok s" and "AcquireReservation lib w ck fresh owner receiver ref actor inp s = (res, t)"
  shows "store_ok t \<and> store_le s t"
  using Acquire_cases [OF assms(2)] assms(1) by (auto dest!: acquire_body_Inr dest: acquired_ok)


lemma locked_row:
  "runtimeLockedReservation s ident integration receiver ref = Inr row \<Longrightarrow>
     row \<in> set (st_rows s) \<and> rw_ID row = ident \<and> rw_IntegrationID row = integration
     \<and> rw_WorkspaceID row = receiver \<and> rw_BindingRef row = ref"
  by (auto simp: runtimeLockedReservation_def split: option.split_asm dest!: find_SomeD)

text \<open>What an outcome may do to the row it was decided on.\<close>

definition outcome_ok :: "runtimeReservationRow \<Rightarrow> outcome \<Rightarrow> bool" where
  "outcome_ok row result \<longleftrightarrow>
     (case result of
        Abort e \<Rightarrow> True
      | ExpireThenFail e \<Rightarrow> rw_State row \<noteq> Consumed
      | ReadBack q \<Rightarrow> q = row
      | Write q \<Rightarrow> row_le row q \<and> row_ok q \<and> active row
      | ExpireThenRead q \<Rightarrow> rw_State row \<noteq> Consumed)"

lemma effectiveState_consumed: "rw_State row = Consumed \<Longrightarrow> effectiveState row now \<in> {Consumed, Reconcile}"
  by (simp add: effectiveState_def)

lemma effectiveState_expired: "effectiveState row now = Expired \<Longrightarrow> rw_State row \<noteq> Consumed"
  using effectiveState_consumed [of row now] by auto

lemma consume_decide_ok:
  assumes "row_ok row"
  shows "outcome_ok row (consume_decide lib w ck fresh owner receiver actor inp target row)"
proof -
  have "outcome_ok row (Write (row\<lparr>rw_State := Consumed, rw_ReceiptID := Some fresh, rw_ConsumedAt := Some now, rw_ExpiresAt := e\<rparr>))"
    if "rw_State row = Reserved" for now e
    unfolding outcome_ok_def outcome.case using that assms
    by (intro conjI row_le_from_reserved) (simp_all add: row_ok_def active_def)
  then show ?thesis
    by (simp add: consume_decide_def outcome_ok_def Let_def effectiveState_expired split: option.split)
qed

lemma renew_decide_ok:
  assumes "row_ok row"
  shows "outcome_ok row (renew_decide w ck receiver actor inp target row)"
proof -
  have "outcome_ok row (Write (row\<lparr>rw_ExpiresAt := max (rw_ExpiresAt row) e\<rparr>))" if "rw_State row = Consumed" for e
    unfolding outcome_ok_def outcome.case using that assms
    by (intro conjI row_le_from_consumed) (simp_all add: row_ok_def active_def)
  then show ?thesis
    by (simp add: renew_decide_def outcome_ok_def Let_def split: option.split)
qed

lemma release_decide_ok:
  assumes "row_ok row"
  shows "outcome_ok row (release_decide ck fresh inp row)
    \<and> (\<forall>q. release_decide ck fresh inp row = Write q \<longrightarrow> rw_State q = Released)"
proof -
  have "outcome_ok row (Write (row\<lparr>rw_State := Released, rw_ReleaseID := Some fresh, rw_ReleasedAt := Some now,
      rw_ReleaseProofKind := k, rw_ReleaseEvidenceRef := e\<rparr>))" if "active row" for now k e
    unfolding outcome_ok_def outcome.case using that assms
    by (cases "rw_State row = Reserved")
      (intro conjI row_le_from_reserved row_le_from_consumed; simp add: row_ok_def active_def)+
  then show ?thesis
    by (simp add: release_decide_def outcome_ok_def Let_def effectiveState_expired)
qed

lemma expire_locked_ok:
  assumes "store_ok s" and "row \<in> set (st_rows s)" and "rw_State row \<noteq> Consumed"
  shows "store_ok (runtimeExpireOne (rw_ID row) s) \<and> store_le s (runtimeExpireOne (rw_ID row) s)"
  using assms same_id_same_row by (intro expire_one_ok) blast+

lemma apply_outcome_ok:
  assumes "store_ok s" and "row \<in> set (st_rows s)" and "outcome_ok row result"
    and "\<And>q. result = Write q \<Longrightarrow> active q"
    and "apply_outcome owner now (rw_ID row) result s = (res, t)"
  shows "store_ok t \<and> store_le s t"
proof (cases result)
  case (Write q)
  with assms show ?thesis using put_row_ok [OF assms(1,2), of q] by (auto simp: apply_outcome_def outcome_ok_def)
qed (use assms expire_locked_ok [OF assms(1,2)] in \<open>auto simp: apply_outcome_def outcome_ok_def\<close>)

lemma Consume_cases:
  assumes "ConsumeReservation lib w ck fresh owner receiver ref ident actor inp s = (res, t)"
  shows "(\<exists>e. res = Inl e \<and> t = s)
    \<or> (\<exists>target row. runtimeReservationWriter actor receiver = None
         \<and> runtimeLoadTarget lib w owner receiver ref actor = Inr target
         \<and> row \<in> set (st_rows s) \<and> rw_ID row = ident \<and> rw_WorkspaceID row = receiver
         \<and> apply_outcome owner (ck_out ck) ident
              (consume_decide lib w ck fresh owner receiver actor inp target row) s = (res, t))"
  using assms by (auto simp: ConsumeReservation_def split: sum.split_asm dest!: locked_row)

lemma Renew_cases:
  assumes "RenewReservation lib w ck owner receiver ref ident actor inp s = (res, t)"
  shows "(\<exists>e. res = Inl e \<and> t = s)
    \<or> (\<exists>target row. runtimeReservationWriter actor receiver = None
         \<and> runtimeLoadTarget lib w owner receiver ref actor = Inr target
         \<and> row \<in> set (st_rows s) \<and> rw_ID row = ident \<and> rw_WorkspaceID row = receiver
         \<and> apply_outcome owner (ck_out ck) ident (renew_decide w ck receiver actor inp target row) s = (res, t))"
  using assms by (auto simp: RenewReservation_def split: sum.split_asm dest!: locked_row)

lemma reader_row:
  "reservationForReader w s owner receiver ref ident actor = Inr row \<Longrightarrow>
     row \<in> set (st_rows s) \<and> rw_ID row = ident \<and> rw_WorkspaceID row = receiver
     \<and> (ac_AgentID actor = rw_AgentID row \<and> ac_AuthWorkspaceID actor = receiver \<or> runtimeAdmin w receiver actor = None)"
  by (auto simp: reservationForReader_def split: if_split_asm option.split_asm dest: locked_row)

text \<open>The store after a release decided on \<open>row\<close>.\<close>

definition apply_release ::
  "uuid \<Rightarrow> gtime \<Rightarrow> uuid \<Rightarrow> outcome \<Rightarrow> store \<Rightarrow> (failure + RuntimeReservation) \<times> store" where
  "apply_release owner now ident result s =
     (case result of
        Write row \<Rightarrow> (Inr (toDomain owner now row), delete_claims (\<lambda>u. u = ident) (put_row row s))
      | _ \<Rightarrow> apply_outcome owner now ident result s)"

lemma Release_cases:
  assumes "ReleaseReservation w ck fresh owner receiver ref ident actor inp s = (res, t)"
  shows "(\<exists>e. res = Inl e \<and> t = s)
    \<or> (\<exists>row. reservationForReader w s owner receiver ref ident actor = Inr row \<and> row \<in> set (st_rows s) \<and> rw_ID row = ident
         \<and> apply_release owner (ck_out ck) ident (release_decide ck fresh inp row) s = (res, t))"
  using assms by (auto simp: ReleaseReservation_def apply_release_def split: sum.split_asm) (blast dest: reader_row)+

lemma consume_writes_active:
  "consume_decide lib w ck fresh owner receiver actor inp target row = Write q \<Longrightarrow> active q"
  by (auto simp: consume_decide_def Let_def active_def split: if_split_asm option.split_asm)

lemma renew_writes_active: "renew_decide w ck receiver actor inp target row = Write q \<Longrightarrow> active q"
  by (auto simp: renew_decide_def Let_def active_def split: if_split_asm option.split_asm)

lemma Consume_ok [inv_intros]:
  assumes "store_ok s" and "ConsumeReservation lib w ck fresh owner receiver ref ident actor inp s = (res, t)"
  shows "store_ok t \<and> store_le s t"
proof (rule disjE [OF Consume_cases [OF assms(2)]], goal_cases)
  case 2
  then obtain target row where r: "row \<in> set (st_rows s)" "rw_ID row = ident"
    and o: "apply_outcome owner (ck_out ck) ident (consume_decide lib w ck fresh owner receiver actor inp target row) s = (res, t)"
    by blast
  show ?case
    by (rule apply_outcome_ok [OF assms(1) r(1) consume_decide_ok [OF rows_okD(1) [OF assms(1) r(1)]]])
      (use o r(2) consume_writes_active in auto)
qed (use assms(1) in auto)

lemma Renew_ok [inv_intros]:
  assumes "store_ok s" and "RenewReservation lib w ck owner receiver ref ident actor inp s = (res, t)"
  shows "store_ok t \<and> store_le s t"
proof (rule disjE [OF Renew_cases [OF assms(2)]], goal_cases)
  case 2
  then obtain target row where r: "row \<in> set (st_rows s)" "rw_ID row = ident"
    and o: "apply_outcome owner (ck_out ck) ident (renew_decide w ck receiver actor inp target row) s = (res, t)"
    by blast
  show ?case
    by (rule apply_outcome_ok [OF assms(1) r(1) renew_decide_ok [OF rows_okD(1) [OF assms(1) r(1)]]])
      (use o r(2) renew_writes_active in auto)
qed (use assms(1) in auto)

lemma Release_ok [inv_intros]:
  assumes "store_ok s" and "ReleaseReservation w ck fresh owner receiver ref ident actor inp s = (res, t)"
  shows "store_ok t \<and> store_le s t"
proof (rule disjE [OF Release_cases [OF assms(2)]], goal_cases)
  case 2
  then obtain row where r: "row \<in> set (st_rows s)" "rw_ID row = ident"
    and o: "apply_release owner (ck_out ck) ident (release_decide ck fresh inp row) s = (res, t)"
    by blast
  note d = release_decide_ok [OF rows_okD(1) [OF assms(1) r(1)], of ck fresh inp]
  show ?case
  proof (cases "release_decide ck fresh inp row")
    case (Write q)
    with d have "row_le row q \<and> row_ok q" "\<not> active q" by (auto simp: outcome_ok_def active_def)
    from release_row_ok [OF assms(1) r(1) this r(2)] o Write show ?thesis by (simp add: apply_release_def)
  qed (use apply_outcome_ok [OF assms(1) r(1) d [THEN conjunct1]] o r(2) in \<open>auto simp: apply_release_def\<close>)
qed (use assms(1) in auto)


section \<open>The reservation system\<close>

text \<open>A request carries everything the operation reads besides the store. Between two requests the other
  tables and the clocks may change in any way.\<close>

datatype request =
    RqAcquire world clock uuid uuid uuid string RuntimeActor RuntimeAcquireInput
  | RqConsume world clock uuid uuid uuid string uuid RuntimeActor RuntimeConsumeInput
  | RqRenew world clock uuid uuid string uuid RuntimeActor RuntimeRenewInput
  | RqRelease world clock uuid uuid uuid string uuid RuntimeActor RuntimeReleaseInput

fun execute :: "library \<Rightarrow> store \<Rightarrow> request \<Rightarrow> store" where
  "execute lib s (RqAcquire w ck fresh owner receiver ref actor inp) =
     snd (AcquireReservation lib w ck fresh owner receiver ref actor inp s)"
| "execute lib s (RqConsume w ck fresh owner receiver ref ident actor inp) =
     snd (ConsumeReservation lib w ck fresh owner receiver ref ident actor inp s)"
| "execute lib s (RqRenew w ck owner receiver ref ident actor inp) =
     snd (RenewReservation lib w ck owner receiver ref ident actor inp s)"
| "execute lib s (RqRelease w ck fresh owner receiver ref ident actor inp) =
     snd (ReleaseReservation w ck fresh owner receiver ref ident actor inp s)"

definition reservation_step :: "library \<Rightarrow> store \<Rightarrow> request \<Rightarrow> store \<Rightarrow> bool" where
  "reservation_step lib s rq t \<longleftrightarrow> t = execute lib s rq"

lemma execute_ok: "store_ok s \<Longrightarrow> store_ok (execute lib s rq) \<and> store_le s (execute lib s rq)"
  by (cases rq) (simp_all add: Acquire_ok [OF _ surjective_pairing] Consume_ok [OF _ surjective_pairing]
      Renew_ok [OF _ surjective_pairing] Release_ok [OF _ surjective_pairing])

interpretation reservations: state_machine "\<lambda>s. s = empty_store" "reservation_step lib" store_ok for lib
  by unfold_locales (auto simp: reservation_step_def empty_store_ok execute_ok)

lemma run_le:
  assumes "reservations.run lib s rqs t" and "store_ok s"
  shows "store_ok t \<and> store_le s t"
proof
  show "store_ok t" by (rule reservations.run_invariant [OF assms])
  show "store_le s t"
    by (rule reservations.run_monotone [OF assms(1) _ _ _ assms(2)])
      (auto simp: reservation_step_def execute_ok intro: store_le_trans)
qed

lemma distinct_map_filterD:
  "distinct (map f (filter P xs)) \<Longrightarrow> x \<in> set xs \<Longrightarrow> y \<in> set xs \<Longrightarrow> P x \<Longrightarrow> P y \<Longrightarrow> f x = f y \<Longrightarrow> x = y"
  by (auto simp: distinct_map dest: inj_onD)

text \<open>C1. Exclusive occupancy: whatever sequence of acquire, consume, renew and release requests runs,
  with whatever clocks and surrounding tables, no task and no controller worker ever has two active
  reservations; no two claims share a slot of a pool; and the claims are exactly the pools of the active
  reservations, so no capacity leaks and none is held twice.\<close>

theorem reservations_exclusive:
  assumes "reservations.run lib empty_store rqs s"
  shows "(\<forall>r \<in> set (st_rows s). \<forall>q \<in> set (st_rows s). active r \<longrightarrow> active q \<longrightarrow>
        (rw_TaskID r = rw_TaskID q \<or> worker_of r = worker_of q) \<longrightarrow> r = q)
    \<and> (\<forall>c \<in> set (st_claims s). \<forall>d \<in> set (st_claims s). cl_pool c = cl_pool d \<longrightarrow> cl_slot c = cl_slot d \<longrightarrow> c = d)
    \<and> {(cl_reservation c, cl_pool c) | c. c \<in> set (st_claims s)}
       = {(rw_ID r, p) | r p. r \<in> set (st_rows s) \<and> active r \<and> p \<in> set (rw_Pools r)}"
proof -
  have ok: "store_ok s" using run_le [OF assms empty_store_ok] by blast
  then have t: "distinct (map rw_TaskID (filter active (st_rows s)))"
    and w: "distinct (map worker_of (filter active (st_rows s)))"
    and c: "distinct (map (\<lambda>c. (cl_pool c, cl_slot c)) (st_claims s))"
    by (auto simp: store_ok_def rows_ok_def claims_ok_def)
  show ?thesis
  proof (intro conjI ballI impI)
    show "r = q" if "r \<in> set (st_rows s)" "q \<in> set (st_rows s)" "active r" "active q"
        "rw_TaskID r = rw_TaskID q \<or> worker_of r = worker_of q" for r q
      using that distinct_map_filterD [OF t, of r q] distinct_map_filterD [OF w, of r q] by blast
    show "c = d" if "c \<in> set (st_claims s)" "d \<in> set (st_claims s)" "cl_pool c = cl_pool d" "cl_slot c = cl_slot d" for c d
      using distinct_map_filterD [of "\<lambda>c. (cl_pool c, cl_slot c)" "\<lambda>_. True" "st_claims s" c d] \<open>distinct (map (\<lambda>c. (cl_pool c, cl_slot c)) _)\<close> that
      by simp
  qed (use ok in \<open>simp add: store_ok_def claims_ok_def\<close>)
qed

text \<open>C36. Histories only move forward: along any further run, a stored reservation is never deleted and
  never changes what it identifies (agent, task, fence, pools and so on); a released or expired one never
  changes again, so no fence becomes valid twice; a consumed one stays consumed with its receipt and a lease
  that never shrinks, until it is released; and fences of later reservations are strictly larger.\<close>

theorem reservations_monotone:
  assumes "reservations.run lib empty_store before s" and "reservations.run lib s later t" and "r \<in> set (st_rows s)"
  shows "(\<exists>q \<in> set (st_rows t). identity_of q = identity_of r
        \<and> (rw_State r = Released \<or> rw_State r = Expired \<longrightarrow> q = r)
        \<and> (rw_State r = Consumed \<longrightarrow> rw_ReceiptID q = rw_ReceiptID r \<and> rw_ReceiptID q \<noteq> None
             \<and> (rw_State q = Consumed \<and> rw_ExpiresAt r \<le> rw_ExpiresAt q \<or> rw_State q = Released)))
    \<and> st_fence s \<le> st_fence t \<and> rw_Fence r \<le> st_fence s"
proof -
  have s: "store_ok s" using run_le [OF assms(1) empty_store_ok] by blast
  have t: "store_le s t" using run_le [OF assms(2) s] by blast
  from t assms(3) obtain q where q: "q \<in> set (st_rows t)" "row_le r q" by (auto simp: store_le_def)
  have "rw_State r = Consumed \<longrightarrow> rw_ReceiptID r \<noteq> None"
    using rows_okD(1) [OF s assms(3)] by (simp add: row_ok_def)
  with q have "\<exists>q \<in> set (st_rows t). identity_of q = identity_of r
        \<and> (rw_State r = Released \<or> rw_State r = Expired \<longrightarrow> q = r)
        \<and> (rw_State r = Consumed \<longrightarrow> rw_ReceiptID q = rw_ReceiptID r \<and> rw_ReceiptID q \<noteq> None
             \<and> (rw_State q = Consumed \<and> rw_ExpiresAt r \<le> rw_ExpiresAt q \<or> rw_State q = Released))"
    unfolding row_le_def by auto
  moreover have "rw_Fence r \<le> st_fence s" using s assms(3) by (auto simp: store_ok_def rows_ok_def)
  ultimately show ?thesis using t by (simp add: store_le_def)
qed


section \<open>Acquire\<close>

lemma store_reservation_effect:
  assumes "store_reservation w committed row slots s = Inr t"
  shows "st_rows t = st_rows s @ [row]
    \<and> st_claims t = st_claims s @ map (\<lambda>(p, n). \<lparr>cl_reservation = rw_ID row, cl_pool = p, cl_slot = n\<rparr>) slots"
proof -
  obtain s1 where i: "insert_reservation row s = Inr s1" and c: "insert_claims (rw_ID row) slots s1 = Inr t"
    using store_reservation_Inr [OF assms] by auto
  from i have "s1 = s\<lparr>st_rows := st_rows s @ [row], st_fence := rw_Fence row\<rparr>"
    by (auto simp: insert_reservation_def split: if_split_asm)
  with insert_claims_Inr [OF c] show ?thesis by simp
qed

lemma at_most_one: "distinct (map f xs) \<Longrightarrow> length (filter (\<lambda>x. f x = p) xs) \<le> 1"
  by (induction xs) (auto simp: filter_empty_conv image_iff)

lemma used_after_insert:
  assumes "st_claims t = st_claims s @ map (\<lambda>(p, n). \<lparr>cl_reservation = u, cl_pool = p, cl_slot = n\<rparr>) slots"
    and "distinct (map fst slots)"
  shows "length (used_slots t p) \<le> length (used_slots s p) + 1"
proof -
  have "length (filter (\<lambda>c. cl_pool c = p) (map (\<lambda>(p, n). \<lparr>cl_reservation = u, cl_pool = p, cl_slot = n\<rparr>) slots))
      = length (filter (\<lambda>x. fst x = p) slots)"
    by (simp add: filter_map comp_def case_prod_beta)
  with at_most_one [OF assms(2), of p] show ?thesis by (simp add: used_slots_def assms(1))
qed

definition writer_lease :: "world \<Rightarrow> gtime \<Rightarrow> uuid \<Rightarrow> uuid \<Rightarrow> uuid \<Rightarrow> int \<Rightarrow> uuid option \<Rightarrow> bool" where
  "writer_lease w now task receiver agent generation request \<longleftrightarrow>
     (\<exists>t \<in> set (wd_tasks w). tk_id t = task \<and> tk_workspace t = receiver \<and> \<not> tk_deleted t \<and> tk_holder t = Some agent
        \<and> tk_generation t = generation \<and> tk_request t = request
        \<and> (case tk_expires t of None \<Rightarrow> True | Some e \<Rightarrow> now < e))"

lemma runtimeTaskWriter_None:
  "runtimeTaskWriter w now task receiver agent generation request = None \<Longrightarrow>
     writer_lease w now task receiver agent generation request"
  by (auto simp: runtimeTaskWriter_def writer_lease_def Let_def split: option.split_asm dest!: find_SomeD)

lemma admission_facts:
  assumes "acquire_admission lib w ck owner receiver target inp = Inr pools"
  shows "checkProfile target (aq_ProfileID inp) = None
    \<and> RuntimeProfilePools (tg_catalog target) owner (aq_ProfileID inp) = Some pools
    \<and> aq_ExpectedCatalogRevision inp = tg_revision target \<and> aq_ExpectedAdmissionRevision inp = ra_Revision (tg_admission target)
    \<and> runtimeControllerLiveness lib w (tg_connection target) (tg_catalog target)
        (pf_ControllerRef (Profiles_at (tg_catalog target) (aq_ProfileID inp))) (tg_revision target) (tg_digest target) (ck_app ck) = ''current''
    \<and> writer_lease w (ck_db ck) (aq_TaskID inp) receiver (ri_AgentID (rb_Binding (tg_binding target)))
        (aq_CheckoutGeneration inp) (aq_CheckoutRequestID inp)"
  using assms by (auto simp: acquire_admission_def Let_def dest: runtimeTaskWriter_None split: option.split_asm if_split_asm)

lemma acquired_resources:
  assumes "acquired lib w ck fresh owner receiver ref target inp s row t"
  shows "\<exists>pools. acquire_admission lib w ck owner receiver target inp = Inr pools \<and> rw_Pools row = pools
    \<and> row \<in> set (st_rows t) \<and> rw_ID row = fresh \<and> rw_State row = Reserved
    \<and> rw_AgentID row = ri_AgentID (rb_Binding (tg_binding target)) \<and> rw_TaskID row = aq_TaskID inp
    \<and> rw_ExpiresAt row = ck_db ck + aq_TTLSeconds inp * 1000000000
    \<and> (\<exists>a \<in> set (wd_agents w). ag_id a = rw_AgentID row \<and> \<not> ag_deleted a
          \<and> int (active_count t (rw_AgentID row)) \<le> ag_max_concurrent_tasks a)
    \<and> (\<forall>p \<in> set pools. int (length (used_slots t p)) \<le> go_get 0 (pool_capacity (tg_catalog target) owner) p)"
proof -
  let ?s1 = "runtimeSweepExpired (ck_db ck) s" and ?agent = "ri_AgentID (rb_Binding (tg_binding target))"
  obtain pools slots where a: "acquire_admission lib w ck owner receiver target inp = Inr pools"
      and r: "row = new_row ck fresh (st_fence s + 1) receiver ref target inp
             (runtimeScopeDigest lib (cn_ID (tg_connection target)) ref inp) pools (RuntimePoolSetDigest (li_sha256 lib) pools)"
      and m: "admit_resources w ?s1 owner target inp pools = Inr slots"
      and i: "store_reservation w s row slots ?s1 = Inr t"
    using assms by (auto simp: acquired_def)
  note eff = store_reservation_effect [OF i]
  note sl = admit_slots [OF m]
  note ch = choose_slots_Inr [OF sl [THEN conjunct1]]
  have row: "rw_ID row = fresh" "rw_State row = Reserved" "rw_AgentID row = ?agent" "rw_TaskID row = aq_TaskID inp" "rw_Pools row = pools"
      "rw_ExpiresAt row = ck_db ck + aq_TTLSeconds inp * 1000000000" "active row"
    by (simp_all add: r new_row_def active_def)
  have "active_count t ?agent = active_count ?s1 ?agent + 1"
    using eff row by (simp add: active_count_def)
  with sl have cap: "\<exists>a \<in> set (wd_agents w). ag_id a = rw_AgentID row \<and> \<not> ag_deleted a
      \<and> int (active_count t (rw_AgentID row)) \<le> ag_max_concurrent_tasks a"
    unfolding row by fastforce
  have "distinct (map fst slots)" using ch admission_pools [OF a] RuntimeProfilePools_distinct by auto
  note used = used_after_insert [OF eff [THEN conjunct2] this]
  have "int (length (used_slots t p)) \<le> go_get 0 (pool_capacity (tg_catalog target) owner) p" if "p \<in> set pools" for p
  proof -
    from that ch obtain n where "(p, n) \<in> set slots" by (metis (no_types, lifting) imageE list.set_map prod.collapse)
    with ch have "int (length (used_slots ?s1 p)) < go_get 0 (pool_capacity (tg_catalog target) owner) p" by fastforce
    with used [of p] show ?thesis by linarith
  qed
  with a row cap eff show ?thesis by (intro exI [of _ pools]) simp
qed

text \<open>C15. Admission is earned: an acquire that creates a reservation was made with the bound agent's own
  workspace key under a live exact grant and a catalog without reference errors, for an admitted and enabled
  profile whose controller is current, at exactly the revisions the caller expected, while the agent held the
  task's live checkout; and after it the agent is within its concurrency cap and every quota pool of the
  profile is within its capacity.\<close>

theorem AcquireReservation_admits:
  assumes "AcquireReservation lib w ck fresh owner receiver ref actor inp s = (Inr (v, True), t)"
  shows "\<exists>target row. v = toDomain owner (ck_out ck) row \<and> row \<in> set (st_rows t) \<and> rw_ID row = fresh \<and> rw_State row = Reserved
    \<and> runtimeLoadTarget lib w owner receiver ref actor = Inr target
    \<and> ac_AgentID actor = rw_AgentID row \<and> ac_AuthWorkspaceID actor = receiver
    \<and> live_grant lib w (rb_Binding (tg_binding target)) (tg_fingerprint target)
    \<and> ValidateReferences (tg_catalog target) = None \<and> checkProfile target (aq_ProfileID inp) = None
    \<and> aq_ExpectedCatalogRevision inp = tg_revision target \<and> aq_ExpectedAdmissionRevision inp = ra_Revision (tg_admission target)
    \<and> runtimeControllerLiveness lib w (tg_connection target) (tg_catalog target)
        (pf_ControllerRef (Profiles_at (tg_catalog target) (aq_ProfileID inp))) (tg_revision target) (tg_digest target) (ck_app ck) = ''current''
    \<and> writer_lease w (ck_db ck) (aq_TaskID inp) receiver (rw_AgentID row) (aq_CheckoutGeneration inp) (aq_CheckoutRequestID inp)
    \<and> (\<exists>a \<in> set (wd_agents w). ag_id a = rw_AgentID row \<and> \<not> ag_deleted a
          \<and> int (active_count t (rw_AgentID row)) \<le> ag_max_concurrent_tasks a)
    \<and> RuntimeProfilePools (tg_catalog target) owner (aq_ProfileID inp) = Some (rw_Pools row)
    \<and> (\<forall>p \<in> set (rw_Pools row). int (length (used_slots t p)) \<le> go_get 0 (pool_capacity (tg_catalog target) owner) p)"
proof -
  from Acquire_cases [OF assms] obtain target row where v: "v = toDomain owner (ck_out ck) row"
    and wr: "runtimeReservationWriter actor receiver = None" and ld: "runtimeLoadTarget lib w owner receiver ref actor = Inr target"
    and b: "acquire_body lib w ck fresh owner receiver ref target inp s = Inr (row, True, t)" by auto
  from acquire_body_Inr [OF b] have ac: "acquired lib w ck fresh owner receiver ref target inp s row t" by blast
  obtain pools where p: "acquire_admission lib w ck owner receiver target inp = Inr pools" "rw_Pools row = pools"
    and rest: "row \<in> set (st_rows t)" "rw_ID row = fresh" "rw_State row = Reserved"
      "rw_AgentID row = ri_AgentID (rb_Binding (tg_binding target))"
      "\<exists>a \<in> set (wd_agents w). ag_id a = rw_AgentID row \<and> \<not> ag_deleted a \<and> int (active_count t (rw_AgentID row)) \<le> ag_max_concurrent_tasks a"
      "\<forall>p \<in> set pools. int (length (used_slots t p)) \<le> go_get 0 (pool_capacity (tg_catalog target) owner) p"
    using acquired_resources [OF ac] by blast
  have "ac_AuthWorkspaceID actor = receiver" using wr by (simp add: runtimeReservationWriter_def)
  with v rest p ld admission_facts [OF p(1)] runtimeLoadTarget_writer [OF ld wr] show ?thesis
    by (intro exI [of _ target] exI [of _ row]) simp
qed

text \<open>Acquire is idempotent: once a key has created a reservation, any later acquire of the same agent
  with that key, whatever else happened in between, changes nothing and answers either with a refusal or
  with that same reservation (same identifier and fence), never a second one.\<close>

theorem AcquireReservation_idempotent:
  assumes "store_ok s" and "AcquireReservation lib w ck fresh owner receiver ref actor inp s = (Inr (v, True), t)"
    and "reservations.run lib t rqs u"
    and "AcquireReservation lib w' ck' fresh' owner' receiver' ref' actor inp' u = (res, u')"
    and "aq_IdempotencyKey inp' = aq_IdempotencyKey inp"
  shows "u' = u \<and> (\<forall>v' created. res = Inr (v', created) \<longrightarrow>
    \<not> created \<and> rs_ReservationID v' = rs_ReservationID v \<and> rs_Fence v' = rs_Fence v)"
proof -
  from Acquire_cases [OF assms(2)] obtain target row where v: "v = toDomain owner (ck_out ck) row"
    and wr: "runtimeReservationWriter actor receiver = None" and ld: "runtimeLoadTarget lib w owner receiver ref actor = Inr target"
    and b: "acquire_body lib w ck fresh owner receiver ref target inp s = Inr (row, True, t)" by auto
  from acquire_body_Inr [OF b] have ac: "acquired lib w ck fresh owner receiver ref target inp s row t" by blast
  then have key: "rw_IdempotencyKey row = aq_IdempotencyKey inp" "rw_AgentID row = ac_AgentID actor"
    using runtimeLoadTarget_writer [OF ld wr] by (auto simp: acquired_def new_row_def)
  have row: "row \<in> set (st_rows t)" using acquired_resources [OF ac] by blast
  have "store_ok t" using acquired_ok [OF assms(1) ac] by blast
  from run_le [OF assms(3) this] have u: "store_ok u" "store_le t u" by auto
  then obtain q where q: "q \<in> set (st_rows u)" "identity_of q = identity_of row"
    using row by (auto simp: store_le_def row_le_def)
  note same = identity_of_eqD [OF q(2)]
  show ?thesis
  proof (cases "\<exists>e. res = Inl e \<and> u' = u")
    case False
    with Acquire_cases [OF assms(4)] obtain target' row' created where r: "res = Inr (toDomain owner' (ck_out ck') row', created)"
      and wr': "runtimeReservationWriter actor receiver' = None" and ld': "runtimeLoadTarget lib w' owner' receiver' ref' actor = Inr target'"
      and b': "acquire_body lib w' ck' fresh' owner' receiver' ref' target' inp' u = Inr (row', created, u')" by auto
    have agent: "ri_AgentID (rb_Binding (tg_binding target')) = ac_AgentID actor"
      using runtimeLoadTarget_writer [OF ld' wr'] by simp
    have "find (\<lambda>r. rw_AgentID r = ac_AgentID actor \<and> rw_IdempotencyKey r = aq_IdempotencyKey inp') (st_rows u) \<noteq> None"
      using q(1) same key assms(5) by (auto simp: find_None_iff)
    then have "\<not> created" using b' agent by (auto simp: acquire_body_def Let_def split: if_split_asm)
    with acquire_body_Inr [OF b'] agent have r': "u' = u" "row' \<in> set (st_rows u)" "request_of row' = request_of q"
      using same key assms(5) by auto
    have "distinct (map request_of (st_rows u))" using u(1) by (simp add: store_ok_def rows_ok_def)
    then have "row' = q" using r'(2,3) q(1) distinct_map_filterD [of request_of "\<lambda>_. True" "st_rows u" row' q] by simp
    with r r' same v \<open>\<not> created\<close> show ?thesis by (simp add: toDomain_def)
  qed auto
qed


section \<open>Consume and renew\<close>

lemma put_row_in: "store_ok s \<Longrightarrow> row \<in> set (st_rows s) \<Longrightarrow> rw_ID q = rw_ID row \<Longrightarrow> q \<in> set (st_rows (put_row q s))"
  by (force simp: put_row_def update_rows_def image_iff)

lemma put_row_lookup:
  "store_ok s \<Longrightarrow> x \<in> set (st_rows (put_row q s)) \<Longrightarrow> x = q \<or> x \<in> set (st_rows s) \<and> rw_ID x \<noteq> rw_ID q"
  by (auto simp: put_row_def update_rows_def)

abbreviation started :: "clock \<Rightarrow> uuid \<Rightarrow> RuntimeConsumeInput \<Rightarrow> runtimeReservationRow \<Rightarrow> runtimeReservationRow" where
  "started ck fresh inp row \<equiv> row\<lparr>rw_State := Consumed, rw_ReceiptID := Some fresh, rw_ConsumedAt := Some (ck_db ck),
     rw_ExpiresAt := ck_db ck + cs_RunLeaseSeconds inp * 1000000000\<rparr>"

lemma consume_decide_success:
  assumes "row_ok row"
    and "apply_outcome owner now ident (consume_decide lib w ck fresh owner receiver actor inp target row) s = (Inr v, t)"
  shows "(rw_State row = Consumed \<and> t = s \<and> v = toDomain owner now row)
     \<or> (rw_State row = Reserved \<and> t = put_row (started ck fresh inp row) s \<and> v = toDomain owner now (started ck fresh inp row))"
  using assms unfolding consume_decide_def Let_def
  by (auto simp: apply_outcome_def effectiveState_def row_ok_def split: if_split_asm option.split_asm)

lemma Consume_success:
  assumes "store_ok s" and "ConsumeReservation lib w ck fresh owner receiver ref ident actor inp s = (Inr v, t)"
  shows "\<exists>q \<in> set (st_rows t). rw_ID q = ident \<and> rw_State q = Consumed \<and> rw_ReceiptID q \<noteq> None \<and> v = toDomain owner (ck_out ck) q
    \<and> (t = s \<or> (\<exists>r \<in> set (st_rows s). rw_ID r = ident \<and> rw_State r = Reserved))"
proof -
  from Consume_cases [OF assms(2)] obtain target row where r: "row \<in> set (st_rows s)" "rw_ID row = ident"
    and o: "apply_outcome owner (ck_out ck) ident (consume_decide lib w ck fresh owner receiver actor inp target row) s = (Inr v, t)"
    by blast
  from consume_decide_success [OF rows_okD(1) [OF assms(1) r(1)] o] show ?thesis
  proof (elim disjE conjE)
    assume "rw_State row = Consumed" "t = s" "v = toDomain owner (ck_out ck) row"
    moreover have "rw_ReceiptID row \<noteq> None" using rows_okD(1) [OF assms(1) r(1)] \<open>rw_State row = Consumed\<close> by (simp add: row_ok_def)
    ultimately show ?thesis using r by blast
  next
    assume "rw_State row = Reserved" "t = put_row (started ck fresh inp row) s"
      "v = toDomain owner (ck_out ck) (started ck fresh inp row)"
    then show ?thesis using put_row_in [OF assms(1) r(1), of "started ck fresh inp row"] r
      by (intro bexI [of _ "started ck fresh inp row"]) auto
  qed
qed

text \<open>C21. A reservation starts at most one run: after a successful consume, every later successful consume of
  the same reservation, by whatever request and after whatever other operations, writes nothing and returns
  the receipt (identifier and instant) of the first one.\<close>

theorem ConsumeReservation_once:
  assumes "store_ok s" and "ConsumeReservation lib w ck fresh owner receiver ref ident actor inp s = (Inr v, t)"
    and "reservations.run lib t rqs u"
    and "ConsumeReservation lib w' ck' fresh' owner' receiver' ref' ident actor' inp' u = (Inr v', u')"
  shows "u' = u \<and> (\<exists>rc rc'. rs_ConsumeReceipt v = Some rc \<and> rs_ConsumeReceipt v' = Some rc'
    \<and> cr_ReceiptID rc' = cr_ReceiptID rc \<and> cr_ConsumedAt rc' = cr_ConsumedAt rc)"
proof -
  obtain q where q: "q \<in> set (st_rows t)" "rw_ID q = ident" "rw_State q = Consumed" "rw_ReceiptID q \<noteq> None" "v = toDomain owner (ck_out ck) q"
    using Consume_success [OF assms(1,2)] by blast
  have "store_ok t" using Consume_ok [OF assms(1,2)] by blast
  from run_le [OF assms(3) this] have u: "store_ok u" "store_le t u" by auto
  then obtain p where p: "p \<in> set (st_rows u)" "row_le q p" using q(1) by (auto simp: store_le_def)
  then have pid: "rw_ID p = ident" "rw_ReceiptID p = rw_ReceiptID q" "rw_ConsumedAt p = rw_ConsumedAt q" "rw_State p \<noteq> Reserved"
    using q identity_of_eqD [of p q] by (auto simp: row_le_def)
  obtain p' where p': "p' \<in> set (st_rows u')" "rw_ID p' = ident" "rw_State p' = Consumed" "v' = toDomain owner' (ck_out ck') p'"
      "u' = u \<or> (\<exists>r \<in> set (st_rows u). rw_ID r = ident \<and> rw_State r = Reserved)"
    using Consume_success [OF u(1) assms(4)] by blast
  with same_id_same_row [OF u(1) p(1)] pid have "u' = u" by metis
  with same_id_same_row [OF u(1) p(1), of p'] p' pid have "p' = p" by simp
  with \<open>u' = u\<close> p' q pid show ?thesis by (auto simp: toDomain_def)
qed

text \<open>C22. Starting needs everything acquiring needed: when a consume turns a reserved row into a consumed one,
  the caller is its agent, holds its fence, the reservation was not past its time, the agent's grant is live and
  the one it was reserved under, the profile is still admitted and enabled, catalog, admission and pools are
  unchanged since, and the agent still holds the task's live checkout.\<close>

theorem ConsumeReservation_authority:
  assumes "store_ok s" and "ConsumeReservation lib w ck fresh owner receiver ref ident actor inp s = (res, t)"
    and "r \<in> set (st_rows s)" and "rw_State r = Reserved"
    and "q \<in> set (st_rows t)" and "rw_ID q = rw_ID r" and "rw_State q = Consumed"
  shows "\<exists>target. runtimeLoadTarget lib w owner receiver ref actor = Inr target
    \<and> rw_ID r = ident \<and> ac_AgentID actor = rw_AgentID r \<and> cs_Fence inp = rw_Fence r \<and> ck_app ck < rw_ExpiresAt r
    \<and> live_grant lib w (rb_Binding (tg_binding target)) (rw_GrantFingerprint r)
    \<and> ri_GrantID (rb_Binding (tg_binding target)) = rw_GrantID r
    \<and> checkProfile target (rw_ProfileRef r) = None \<and> \<not> stale_revision lib owner target r
    \<and> writer_lease w (ck_db ck) (rw_TaskID r) receiver (rw_AgentID r) (rw_CheckoutGeneration r) (rw_CheckoutRequestID r)
    \<and> rw_ExpiresAt q = ck_db ck + cs_RunLeaseSeconds inp * 1000000000"
proof -
  have changed: "t \<noteq> s" using assms(3-7) same_id_same_row [OF assms(1,3), of q] by auto
  with Consume_cases [OF assms(2)] obtain target row where wr: "runtimeReservationWriter actor receiver = None"
    and ld: "runtimeLoadTarget lib w owner receiver ref actor = Inr target" and row: "row \<in> set (st_rows s)" "rw_ID row = ident"
    and o: "apply_outcome owner (ck_out ck) ident (consume_decide lib w ck fresh owner receiver actor inp target row) s = (res, t)"
    by blast
  note ok = consume_decide_ok [OF rows_okD(1) [OF assms(1) row(1)], of lib w ck fresh owner receiver actor inp target]
  consider p where "consume_decide lib w ck fresh owner receiver actor inp target row = Write p"
    | "t = runtimeExpireOne ident s"
    using o changed by (auto simp: apply_outcome_def split: outcome.split_asm)
  then show ?thesis
  proof cases
    case 1
    then have t: "t = put_row p s" and p: "rw_State row = Reserved" "ac_AgentID actor = rw_AgentID row" "cs_Fence inp = rw_Fence row"
      "ck_app ck < rw_ExpiresAt row" "\<not> grant_changed target row" "checkProfile target (rw_ProfileRef row) = None"
      "\<not> stale_revision lib owner target row"
      "runtimeTaskWriter w (ck_db ck) (rw_TaskID row) receiver (rw_AgentID row) (rw_CheckoutGeneration row) (rw_CheckoutRequestID row) = None"
      "rw_ID p = rw_ID row" "rw_ExpiresAt p = ck_db ck + cs_RunLeaseSeconds inp * 1000000000"
      using o by (auto simp: apply_outcome_def consume_decide_def effectiveState_def Let_def split: if_split_asm option.split_asm)
    have "q = p" "r = row"
      using put_row_lookup [OF assms(1) assms(5) [unfolded t]] same_id_same_row [OF assms(1,3)] assms(4,6,7) row p(9) by force+
    with p row ld runtimeTaskWriter_None [OF p(8)] runtimeLoadTarget_writer [OF ld wr] show ?thesis
      by (intro exI [of _ target]) (simp add: grant_changed_def)
  next
    case 2
    then have "q \<in> set (st_rows s)"
      using assms(5,7) by (auto simp: runtimeExpireOne_def delete_claims_def update_rows_def split: if_split_asm)
    with same_id_same_row [OF assms(1,3)] assms(4,6,7) show ?thesis by force
  qed
qed

text \<open>A heartbeat only extends: a successful renewal applies to a consumed reservation of the calling agent
  with its fence, requires the live checkout, and leaves a lease that is at least the old one and at least the
  requested number of seconds from now.\<close>

theorem RenewReservation_extends:
  assumes "store_ok s" and "RenewReservation lib w ck owner receiver ref ident actor inp s = (Inr v, t)"
  shows "\<exists>r \<in> set (st_rows s). \<exists>q \<in> set (st_rows t). rw_ID r = ident \<and> rw_State r = Consumed \<and> ac_AgentID actor = rw_AgentID r
    \<and> rn_Fence inp = rw_Fence r
    \<and> writer_lease w (ck_db ck) (rw_TaskID r) receiver (rw_AgentID r) (rw_CheckoutGeneration r) (rw_CheckoutRequestID r)
    \<and> q = r\<lparr>rw_ExpiresAt := max (rw_ExpiresAt r) (ck_db ck + rn_RunLeaseSeconds inp * 1000000000)\<rparr>
    \<and> v = toDomain owner (ck_out ck) q"
proof -
  from Renew_cases [OF assms(2)] obtain target row where row: "row \<in> set (st_rows s)" "rw_ID row = ident"
    and o: "apply_outcome owner (ck_out ck) ident (renew_decide w ck receiver actor inp target row) s = (Inr v, t)" by blast
  let ?q = "row\<lparr>rw_ExpiresAt := max (rw_ExpiresAt row) (ck_db ck + rn_RunLeaseSeconds inp * 1000000000)\<rparr>"
  from o have f: "rw_State row = Consumed" "ac_AgentID actor = rw_AgentID row" "rn_Fence inp = rw_Fence row" "t = put_row ?q s"
      "v = toDomain owner (ck_out ck) ?q"
      "runtimeTaskWriter w (ck_db ck) (rw_TaskID row) receiver (rw_AgentID row) (rw_CheckoutGeneration row) (rw_CheckoutRequestID row) = None"
    by (auto simp: apply_outcome_def renew_decide_def Let_def split: if_split_asm option.split_asm)
  have "?q \<in> set (st_rows t)" unfolding f(4) by (rule put_row_in [OF assms(1) row(1)]) simp
  with row f(1-3,5) runtimeTaskWriter_None [OF f(6)] show ?thesis by blast
qed


section \<open>The end of an occupancy\<close>

fun request_clock :: "request \<Rightarrow> clock" where
  "request_clock (RqAcquire w ck fresh owner receiver ref actor inp) = ck"
| "request_clock (RqConsume w ck fresh owner receiver ref ident actor inp) = ck"
| "request_clock (RqRenew w ck owner receiver ref ident actor inp) = ck"
| "request_clock (RqRelease w ck fresh owner receiver ref ident actor inp) = ck"

definition ttl_over :: "clock \<Rightarrow> runtimeReservationRow \<Rightarrow> runtimeReservationRow \<Rightarrow> bool" where
  "ttl_over ck r q \<longleftrightarrow> rw_State r = Reserved \<and> rw_State q = Expired
     \<and> (rw_ExpiresAt r \<le> ck_db ck \<or> rw_ExpiresAt r \<le> ck_app ck)"

definition proven_release :: "world \<Rightarrow> uuid \<Rightarrow> RuntimeActor \<Rightarrow> RuntimeReleaseInput \<Rightarrow> runtimeReservationRow \<Rightarrow> bool" where
  "proven_release w receiver actor inp r \<longleftrightarrow>
     ProofAccepted inp (rw_State r) \<and> rl_Fence inp = rw_Fence r \<and> rl_CheckoutGeneration inp = rw_CheckoutGeneration r
     \<and> rl_CheckoutRequestID inp = rw_CheckoutRequestID r \<and> rw_WorkspaceID r = receiver
     \<and> (ac_AgentID actor = rw_AgentID r \<and> ac_AuthWorkspaceID actor = receiver \<or> runtimeAdmin w receiver actor = None)"

lemma sweep_in:
  "q \<in> set (st_rows (runtimeSweepExpired now s)) \<Longrightarrow>
     \<exists>r \<in> set (st_rows s). q = (if sweep_due now r then r\<lparr>rw_State := Expired\<rparr> else r)"
  by (auto simp: runtimeSweepExpired_def delete_claims_def update_rows_def Let_def)

lemma expire_one_in:
  "q \<in> set (st_rows (runtimeExpireOne ident s)) \<Longrightarrow>
     \<exists>r \<in> set (st_rows s). q = (if rw_ID r = ident \<and> rw_State r = Reserved then r\<lparr>rw_State := Expired\<rparr> else r)"
  by (auto simp: runtimeExpireOne_def delete_claims_def update_rows_def)

lemma expire_one_ends:
  assumes "store_ok s" and "r \<in> set (st_rows s)" and "active r"
    and "q \<in> set (st_rows (runtimeExpireOne ident s))" and "rw_ID q = rw_ID r" and "\<not> active q"
  shows "rw_State r = Reserved \<and> rw_State q = Expired \<and> rw_ID r = ident"
proof -
  obtain p where p: "p \<in> set (st_rows s)" "q = (if rw_ID p = ident \<and> rw_State p = Reserved then p\<lparr>rw_State := Expired\<rparr> else p)"
    using expire_one_in [OF assms(4)] by blast
  then have "p = r" using same_id_same_row [OF assms(1,2) p(1)] assms(5) by (simp split: if_splits)
  with p assms(3,6) show ?thesis by (auto split: if_splits)
qed

lemma locked_outcome_ends:
  assumes "store_ok s" and "r \<in> set (st_rows s)" and "active r"
    and "row \<in> set (st_rows s)" and "apply_outcome owner now (rw_ID row) result s = (res, t)"
    and "q \<in> set (st_rows t)" and "rw_ID q = rw_ID r" and "\<not> active q" and "\<And>p. result = Write p \<Longrightarrow> active p"
  shows "r = row \<and> rw_State r = Reserved \<and> rw_State q = Expired
    \<and> ((\<exists>e. result = ExpireThenFail e) \<or> (\<exists>p. result = ExpireThenRead p))"
proof -
  have unchanged: "t \<noteq> s" using same_id_same_row [OF assms(1,2), of q] assms(3,6,7,8) by auto
  have "\<not> (\<exists>p. result = Write p)"
  proof
    assume "\<exists>p. result = Write p"
    then obtain p where p: "result = Write p" "active p" using assms(9) by blast
    then have "t = put_row p s" using assms(5) by (simp add: apply_outcome_def)
    with put_row_lookup [OF assms(1)] assms(6) have "q = p \<or> q \<in> set (st_rows s)" by blast
    with p same_id_same_row [OF assms(1,2), of q] assms(3,7,8) show False by auto
  qed
  then have kind: "(\<exists>e. result = ExpireThenFail e) \<or> (\<exists>p. result = ExpireThenRead p)" and t: "t = runtimeExpireOne (rw_ID row) s"
    using assms(5) unchanged by (auto simp: apply_outcome_def split: outcome.split_asm)
  from expire_one_ends [OF assms(1-3) assms(6) [unfolded t] assms(7,8)] same_id_same_row [OF assms(1,4,2)] kind
  show ?thesis by auto
qed

lemma consume_expires: "consume_decide lib w ck fresh owner receiver actor inp target row = ExpireThenFail e \<Longrightarrow>
    rw_State row = Reserved \<Longrightarrow> rw_ExpiresAt row \<le> ck_app ck"
  by (auto simp: consume_decide_def effectiveState_def Let_def split: if_split_asm option.split_asm)

lemma consume_not_read: "consume_decide lib w ck fresh owner receiver actor inp target row \<noteq> ExpireThenRead q"
  by (auto simp: consume_decide_def Let_def split: option.split)

lemma renew_no_expiry:
  "renew_decide w ck receiver actor inp target row \<noteq> ExpireThenFail e"
  "renew_decide w ck receiver actor inp target row \<noteq> ExpireThenRead q"
  by (auto simp: renew_decide_def Let_def split: option.split)

lemma release_expires:
  "release_decide ck fresh inp row = ExpireThenRead q \<Longrightarrow> rw_State row = Reserved \<Longrightarrow> rw_ExpiresAt row \<le> ck_app ck"
  "release_decide ck fresh inp row \<noteq> ExpireThenFail e"
  by (auto simp: release_decide_def effectiveState_def Let_def split: if_split_asm)

lemma release_writes:
  "release_decide ck fresh inp row = Write q \<Longrightarrow> rw_State q = Released \<and> rw_ID q = rw_ID row \<and> ProofAccepted inp (rw_State row)
     \<and> rl_Fence inp = rw_Fence row \<and> rl_CheckoutGeneration inp = rw_CheckoutGeneration row \<and> rl_CheckoutRequestID inp = rw_CheckoutRequestID row"
  by (auto simp: release_decide_def Let_def split: if_split_asm)

lemma acquire_ends:
  assumes "store_ok s" and "r \<in> set (st_rows s)" and "active r"
    and "AcquireReservation lib w ck fresh owner receiver ref actor inp s = (res, t)"
    and "q \<in> set (st_rows t)" and "rw_ID q = rw_ID r" and "\<not> active q"
  shows "ttl_over ck r q"
proof -
  have "t \<noteq> s" using same_id_same_row [OF assms(1,2), of q] assms(3,5,6,7) by auto
  with Acquire_cases [OF assms(4)] obtain target row where ac: "acquired lib w ck fresh owner receiver ref target inp s row t"
    using acquire_body_Inr by blast
  then obtain slots where "store_reservation w s row slots (runtimeSweepExpired (ck_db ck) s) = Inr t"
    unfolding acquired_def by blast
  from store_reservation_effect [OF this] have "st_rows t = st_rows (runtimeSweepExpired (ck_db ck) s) @ [row]" by blast
  moreover have "rw_State row = Reserved" using acquired_resources [OF ac] by blast
  ultimately have "q \<in> set (st_rows (runtimeSweepExpired (ck_db ck) s))"
    using assms(5,7) by (auto simp: active_def)
  from sweep_in [OF this] obtain p where p: "p \<in> set (st_rows s)" "q = (if sweep_due (ck_db ck) p then p\<lparr>rw_State := Expired\<rparr> else p)"
    by blast
  then have "p = r" using same_id_same_row [OF assms(1,2) p(1)] assms(6) by (simp split: if_splits)
  with p assms(3,7) show ?thesis by (auto simp: ttl_over_def sweep_due_def split: if_splits)
qed

lemma release_ends:
  assumes "store_ok s" and "r \<in> set (st_rows s)" and "active r"
    and "ReleaseReservation w ck fresh owner receiver ref ident actor inp s = (res, t)"
    and "q \<in> set (st_rows t)" and "rw_ID q = rw_ID r" and "\<not> active q"
  shows "ttl_over ck r q \<or> rw_ID r = ident \<and> rw_State q = Released \<and> proven_release w receiver actor inp r"
proof -
  have "t \<noteq> s" using same_id_same_row [OF assms(1,2), of q] assms(3,5,6,7) by auto
  with Release_cases [OF assms(4)] obtain row where rd: "reservationForReader w s owner receiver ref ident actor = Inr row"
    and row: "row \<in> set (st_rows s)" "rw_ID row = ident"
    and o: "apply_release owner (ck_out ck) ident (release_decide ck fresh inp row) s = (res, t)" by blast
  show ?thesis
  proof (cases "\<exists>p. release_decide ck fresh inp row = Write p")
    case True
    then obtain p where p: "release_decide ck fresh inp row = Write p" by blast
    with o have "q \<in> set (st_rows (put_row p s))" using assms(5) by (auto simp: apply_release_def delete_claims_def)
    moreover have "q \<notin> set (st_rows s)" using same_id_same_row [OF assms(1,2), of q] assms(3,6,7) by blast
    ultimately have "q = p" using put_row_lookup [OF assms(1)] by blast
    then have "rw_ID row = rw_ID r" using release_writes [OF p] assms(6) by simp
    then have "row = r" by (rule same_id_same_row [OF assms(1,2) row(1)])
    with release_writes [OF p] reader_row [OF rd] \<open>q = p\<close> row show ?thesis by (simp add: proven_release_def)
  next
    case False
    then have "apply_outcome owner (ck_out ck) (rw_ID row) (release_decide ck fresh inp row) s = (res, t)"
      using o row by (auto simp: apply_release_def split: outcome.split_asm)
    from locked_outcome_ends [OF assms(1-3) row(1) this assms(5-7)] False release_expires show ?thesis
      by (auto simp: ttl_over_def)
  qed
qed

lemma consume_ends:
  assumes "store_ok s" and "r \<in> set (st_rows s)" and "active r"
    and "ConsumeReservation lib w ck fresh owner receiver ref ident actor inp s = (res, t)"
    and "q \<in> set (st_rows t)" and "rw_ID q = rw_ID r" and "\<not> active q"
  shows "ttl_over ck r q"
proof -
  have "t \<noteq> s" using same_id_same_row [OF assms(1,2), of q] assms(3,5,6,7) by auto
  with Consume_cases [OF assms(4)] obtain target row where row: "row \<in> set (st_rows s)" "rw_ID row = ident"
    and o: "apply_outcome owner (ck_out ck) ident (consume_decide lib w ck fresh owner receiver actor inp target row) s = (res, t)"
    by blast
  note ends = locked_outcome_ends [OF assms(1-3) row(1) o [folded row(2)] assms(5-7)
      consume_writes_active [of lib w ck fresh owner receiver actor inp target row]]
  from ends obtain e where "consume_decide lib w ck fresh owner receiver actor inp target row = ExpireThenFail e"
    using consume_not_read [of lib w ck fresh owner receiver actor inp target row] by blast
  from consume_expires [OF this] ends show ?thesis unfolding ttl_over_def by blast
qed

lemma renew_ends:
  assumes "store_ok s" and "r \<in> set (st_rows s)" and "active r"
    and "RenewReservation lib w ck owner receiver ref ident actor inp s = (res, t)"
    and "q \<in> set (st_rows t)" and "rw_ID q = rw_ID r"
  shows "active q"
proof (rule ccontr)
  assume "\<not> active q"
  then have "t \<noteq> s" using same_id_same_row [OF assms(1,2), of q] assms(3,5,6) by auto
  with Renew_cases [OF assms(4)] obtain target row where row: "row \<in> set (st_rows s)" "rw_ID row = ident"
    and o: "apply_outcome owner (ck_out ck) ident (renew_decide w ck receiver actor inp target row) s = (res, t)" by blast
  from locked_outcome_ends [OF assms(1-3) row(1) o [folded row(2)] assms(5,6) \<open>\<not> active q\<close>
      renew_writes_active [of w ck receiver actor inp target row]]
  show False using renew_no_expiry [of w ck receiver actor inp target row] by blast
qed

text \<open>C10. Occupancy ends only on proof or time: a step ends an active reservation only if it was reserved, never
  consumed, and its time had passed; or if the step is a release of exactly it, by its agent or an owner or admin of
  its workspace, quoting its fence, generation and checkout request, with an accepted proof that nothing runs.\<close>

theorem occupancy_ends_only:
  assumes "store_ok s" and "r \<in> set (st_rows s)" and "active r"
    and "q \<in> set (st_rows (execute lib s rq))" and "rw_ID q = rw_ID r" and "\<not> active q"
  shows "ttl_over (request_clock rq) r q
    \<or> (\<exists>w ck fresh owner receiver ref actor inp. rq = RqRelease w ck fresh owner receiver ref (rw_ID r) actor inp
         \<and> rw_State q = Released \<and> proven_release w receiver actor inp r)"
proof (cases rq)
  case (RqAcquire w ck fresh owner receiver ref actor inp)
  with acquire_ends [OF assms(1-3) surjective_pairing] assms(4-6) show ?thesis by simp
next
  case (RqConsume w ck fresh owner receiver ref ident actor inp)
  with consume_ends [OF assms(1-3) surjective_pairing] assms(4-6) show ?thesis by simp
next
  case (RqRenew w ck owner receiver ref ident actor inp)
  with renew_ends [OF assms(1-3) surjective_pairing] assms(4-6) show ?thesis by simp
next
  case (RqRelease w ck fresh owner receiver ref ident actor inp)
  with release_ends [OF assms(1-3) surjective_pairing, of q w ck fresh owner receiver ref ident actor inp] assms(4-6)
  show ?thesis by auto
qed


section \<open>A sample run\<close>

definition sample_clock :: "gtime \<Rightarrow> clock" where
  "sample_clock t = \<lparr>ck_db = t, ck_app = t, ck_out = t\<rparr>"

definition sample_actor :: RuntimeActor where
  "sample_actor = \<lparr>ac_UserID = 0, ac_AgentID = 1, ac_AuthWorkspaceID = 2, ac_Connector = False\<rparr>"

definition sample_acquire :: RuntimeAcquireInput where
  "sample_acquire = \<lparr>aq_IdempotencyKey = ''i'', aq_ProfileID = ''p'', aq_TaskID = 20, aq_CheckoutGeneration = 1,
     aq_CheckoutRequestID = None, aq_WorkerRef = ''w'', aq_ExpectedCatalogRevision = 1, aq_ExpectedCatalogDigest = ''d'',
     aq_ExpectedAdmissionRevision = 1, aq_ExpectedProfileRevision = ''rev-1'',
     aq_ExpectedPoolSetDigest = CHR ''h'' # RuntimeCanonicalPoolID 2 (sample_pool ''v''), aq_TTLSeconds = 60\<rparr>"

definition acquire_sample :: "store \<Rightarrow> (failure + RuntimeReservation \<times> bool) \<times> store" where
  "acquire_sample = AcquireReservation sample_lib sample_world (sample_clock 5) 30 2 2 ''g'' sample_actor sample_acquire"

definition consume_sample :: "gtime \<Rightarrow> uuid \<Rightarrow> store \<Rightarrow> (failure + RuntimeReservation) \<times> store" where
  "consume_sample now fresh = ConsumeReservation sample_lib sample_world (sample_clock now) fresh 2 2 ''g'' 30 sample_actor
     \<lparr>cs_Fence = 1, cs_CheckoutGeneration = 1, cs_RunLeaseSeconds = 60\<rparr>"

definition renew_sample :: "gtime \<Rightarrow> store \<Rightarrow> (failure + RuntimeReservation) \<times> store" where
  "renew_sample now = RenewReservation sample_lib sample_world (sample_clock now) 2 2 ''g'' 30 sample_actor
     \<lparr>rn_Fence = 1, rn_CheckoutRequestID = None, rn_CheckoutGeneration = 1, rn_RunLeaseSeconds = 60\<rparr>"

definition release_request :: request where
  "release_request = RqRelease sample_world (sample_clock 9) 50 2 2 ''g'' 30 sample_actor
     \<lparr>rl_Fence = 1, rl_CheckoutRequestID = None, rl_CheckoutGeneration = 1, rl_Stopped = True,
      rl_Proof = \<lparr>pk_Kind = ''no_child'', pk_EvidenceRef = ''''\<rparr>\<rparr>"

definition store_1 :: store where "store_1 = snd (acquire_sample empty_store)"
definition store_2 :: store where "store_2 = snd (consume_sample 6 40 store_1)"

lemma sample_acquired: "map_sum (\<lambda>_. ()) (\<lambda>(v, c). (rs_ReservationID v, c)) (fst (acquire_sample empty_store)) = Inr (30, True)"
  by code_simp

lemma sample_store_1: "map (\<lambda>r. (rw_ID r, rw_State r)) (st_rows store_1) = [(30, ''reserved'')] \<and> length (st_claims store_1) = 1"
  by code_simp

lemma sample_consumed: "map_sum (\<lambda>_. ()) rs_ConsumeReceipt (fst (consume_sample 6 40 store_1)) = Inr (Some \<lparr>cr_ReceiptID = 40, cr_ConsumedAt = 6, cr_RunLeaseExpiresAt = 60000000006\<rparr>)"
  by code_simp

lemma sample_store_2: "map (\<lambda>r. (rw_ID r, rw_State r)) (st_rows store_2) = [(30, ''consumed'')] \<and> length (st_claims store_2) = 1"
  by code_simp

lemma sample_replayed: "map_sum (\<lambda>_. ()) rs_ConsumeReceipt (fst (consume_sample 7 41 store_2)) = Inr (Some \<lparr>cr_ReceiptID = 40, cr_ConsumedAt = 6, cr_RunLeaseExpiresAt = 60000000006\<rparr>)"
  by code_simp

lemma sample_released:
  "map (\<lambda>r. (rw_ID r, rw_State r)) (st_rows (execute sample_lib store_2 release_request)) = [(30, ''released'')]
     \<and> st_claims (execute sample_lib store_2 release_request) = []"
  by code_simp


lemma store_1_ok: "store_ok store_1"
  using Acquire_ok [OF empty_store_ok surjective_pairing] by (simp add: store_1_def acquire_sample_def)

lemma store_2_ok: "store_ok store_2"
  using Consume_ok [OF store_1_ok surjective_pairing] by (simp add: store_2_def consume_sample_def)

definition sample_requests :: "request list" where
  "sample_requests = [RqAcquire sample_world (sample_clock 5) 30 2 2 ''g'' sample_actor sample_acquire,
     RqConsume sample_world (sample_clock 6) 40 2 2 ''g'' 30 sample_actor
       \<lparr>cs_Fence = 1, cs_CheckoutGeneration = 1, cs_RunLeaseSeconds = 60\<rparr>]"

lemma sample_run: "reservations.run sample_lib empty_store sample_requests store_2"
  unfolding sample_requests_def
  by (rule reservations.run_Cons [where t = store_1], simp add: reservation_step_def store_1_def acquire_sample_def,
      rule reservations.run_Cons [where t = store_2], simp add: reservation_step_def store_2_def consume_sample_def,
      rule reservations.run_Nil)

theorem reservations_exclusive_witness:
  "{(cl_reservation c, cl_pool c) | c. c \<in> set (st_claims store_2)}
     = {(rw_ID r, p) | r p. r \<in> set (st_rows store_2) \<and> active r \<and> p \<in> set (rw_Pools r)}"
  using reservations_exclusive [OF sample_run] by blast

lemma store_1_row: "\<exists>r. st_rows store_1 = [r] \<and> rw_ID r = 30 \<and> rw_State r = Reserved"
  using sample_store_1 by (auto simp: map_eq_Cons_conv Reserved_def)

lemma store_2_row: "\<exists>r. st_rows store_2 = [r] \<and> rw_ID r = 30 \<and> rw_State r = Consumed"
  using sample_store_2 by (auto simp: map_eq_Cons_conv Consumed_def)

theorem reservations_monotone_witness:
  "\<exists>r. st_rows store_2 = [r] \<and> rw_ReceiptID r \<noteq> None \<and> rw_Fence r \<le> st_fence store_2"
proof -
  obtain r where r: "st_rows store_2 = [r]" "rw_State r = Consumed" using store_2_row by blast
  from reservations_monotone [OF sample_run reservations.run_Nil, of r] r show ?thesis by auto
qed

lemma sample_acquire_result: "\<exists>v. acquire_sample empty_store = (Inr (v, True), store_1)"
  using sample_acquired unfolding store_1_def
  by (cases "acquire_sample empty_store"; cases "fst (acquire_sample empty_store)") auto

theorem AcquireReservation_admits_witness:
  "\<exists>row. row \<in> set (st_rows store_1) \<and> rw_ID row = 30 \<and> rw_State row = Reserved
     \<and> writer_lease sample_world 5 20 2 (rw_AgentID row) 1 None"
proof -
  obtain v where v: "acquire_sample empty_store = (Inr (v, True), store_1)" using sample_acquire_result by blast
  have in_eq: "aq_TaskID sample_acquire = 20" "aq_CheckoutGeneration sample_acquire = 1" "aq_CheckoutRequestID sample_acquire = None"
      "ck_db (sample_clock 5) = 5"
    by (simp_all add: sample_acquire_def sample_clock_def)
  from AcquireReservation_admits [OF v [unfolded acquire_sample_def], unfolded in_eq] show ?thesis by blast
qed

theorem AcquireReservation_idempotent_witness: "snd (acquire_sample store_2) = store_2"
proof -
  obtain v where v: "acquire_sample empty_store = (Inr (v, True), store_1)" using sample_acquire_result by blast
  have run: "reservations.run sample_lib store_1 [RqConsume sample_world (sample_clock 6) 40 2 2 ''g'' 30 sample_actor
       \<lparr>cs_Fence = 1, cs_CheckoutGeneration = 1, cs_RunLeaseSeconds = 60\<rparr>] store_2"
    by (rule reservations.run_Cons [where t = store_2], simp add: reservation_step_def store_2_def consume_sample_def,
        rule reservations.run_Nil)
  from AcquireReservation_idempotent [OF empty_store_ok v [unfolded acquire_sample_def] run surjective_pairing refl]
  show ?thesis by (simp add: acquire_sample_def)
qed

lemma sample_consume_result: "\<exists>v. consume_sample 6 40 store_1 = (Inr v, store_2)"
  using sample_consumed unfolding store_2_def
  by (cases "consume_sample 6 40 store_1"; cases "fst (consume_sample 6 40 store_1)") auto

theorem ConsumeReservation_once_witness: "snd (consume_sample 7 41 store_2) = store_2"
proof -
  obtain v where v: "consume_sample 6 40 store_1 = (Inr v, store_2)" using sample_consume_result by blast
  obtain v' u where v': "consume_sample 7 41 store_2 = (Inr v', u)"
    using sample_replayed by (cases "consume_sample 7 41 store_2"; cases "fst (consume_sample 7 41 store_2)") auto
  from ConsumeReservation_once [OF store_1_ok v [unfolded consume_sample_def] reservations.run_Nil v' [unfolded consume_sample_def]] v'
  show ?thesis by simp
qed

theorem ConsumeReservation_authority_witness: "\<exists>r. st_rows store_1 = [r] \<and> ac_AgentID sample_actor = rw_AgentID r \<and> 6 < rw_ExpiresAt r"
proof -
  obtain v where v: "consume_sample 6 40 store_1 = (Inr v, store_2)" using sample_consume_result by blast
  obtain r where r: "st_rows store_1 = [r]" "rw_ID r = 30" "rw_State r = Reserved" using store_1_row by blast
  obtain q where q: "st_rows store_2 = [q]" "rw_ID q = 30" "rw_State q = Consumed" using store_2_row by blast
  from ConsumeReservation_authority [OF store_1_ok v [unfolded consume_sample_def], of r q] r q
  show ?thesis by (auto simp: sample_clock_def)
qed

theorem RenewReservation_extends_witness:
  "\<exists>q. q \<in> set (st_rows (snd (renew_sample 7 store_2))) \<and> rw_ExpiresAt q \<ge> 60000000007"
proof -
  have "map_sum (\<lambda>_. ()) rs_ReservationID (fst (renew_sample 7 store_2)) = Inr 30" by code_simp
  then obtain v t where v: "renew_sample 7 store_2 = (Inr v, t)"
    by (cases "renew_sample 7 store_2"; cases "fst (renew_sample 7 store_2)") auto
  from RenewReservation_extends [OF store_2_ok v [unfolded renew_sample_def]] v show ?thesis
    by (force simp: sample_clock_def)
qed

theorem occupancy_ends_only_witness:
  "\<exists>r. st_rows store_2 = [r] \<and> proven_release sample_world 2 sample_actor
     \<lparr>rl_Fence = 1, rl_CheckoutRequestID = None, rl_CheckoutGeneration = 1, rl_Stopped = True,
      rl_Proof = \<lparr>pk_Kind = ''no_child'', pk_EvidenceRef = ''''\<rparr>\<rparr> r"
proof -
  obtain r where r: "st_rows store_2 = [r]" "rw_ID r = 30" "rw_State r = Consumed" using store_2_row by blast
  obtain q where q: "st_rows (execute sample_lib store_2 release_request) = [q]" "rw_ID q = 30" "rw_State q = Released"
    using sample_released by (auto simp: map_eq_Cons_conv Released_def)
  have "active r" "\<not> active q" using r q by (simp_all add: active_def)
  from occupancy_ends_only [OF store_2_ok _ this(1) _ _ this(2), where lib = sample_lib and rq = release_request] r q
  show ?thesis by (auto simp: ttl_over_def release_request_def)
qed


section \<open>Release succeeds\<close>

text \<open>Capacity can always be given back: a release of an active reservation by a permitted caller that quotes its
  fence, generation and checkout request and carries an accepted proof succeeds, whatever became of the grant, the
  catalog or the task; the reservation is then stored as released and none of its claims is left.\<close>

theorem ReleaseReservation_succeeds:
  assumes "store_ok s" and "release_valid inp"
    and "reservationForReader w s owner receiver ref ident actor = Inr row"
    and "active row" and "effectiveState row (ck_app ck) \<noteq> Expired"
    and "rl_Fence inp = rw_Fence row" and "rl_CheckoutGeneration inp = rw_CheckoutGeneration row"
    and "rl_CheckoutRequestID inp = rw_CheckoutRequestID row" and "ProofAccepted inp (rw_State row)"
  shows "\<exists>v t. ReleaseReservation w ck fresh owner receiver ref ident actor inp s = (Inr v, t) \<and> rs_State v = Released
    \<and> (\<exists>q \<in> set (st_rows t). rw_ID q = ident \<and> rw_State q = Released \<and> rw_ReleaseID q = Some fresh)
    \<and> (\<forall>c \<in> set (st_claims t). cl_reservation c \<noteq> ident)"
proof -
  define q where "q = row\<lparr>rw_State := Released, rw_ReleaseID := Some fresh, rw_ReleasedAt := Some (ck_db ck),
      rw_ReleaseProofKind := Some (pk_Kind (rl_Proof inp)),
      rw_ReleaseEvidenceRef := (let e = pk_EvidenceRef (rl_Proof inp) in if e = '''' then None else Some e)\<rparr>"
  note rd = reader_row [OF assms(3)]
  have "effectiveState row (ck_app ck) \<noteq> Released"
    using assms(4) by (auto simp: active_def effectiveState_def)
  then have "release_decide ck fresh inp row = Write q"
    using assms(4-9) by (simp add: release_decide_def Let_def q_def)
  then have run: "ReleaseReservation w ck fresh owner receiver ref ident actor inp s
      = (Inr (toDomain owner (ck_out ck) q), delete_claims (\<lambda>u. u = ident) (put_row q s))"
    using assms(2,3) by (simp add: ReleaseReservation_def)
  have id: "rw_ID q = rw_ID row" "rw_State q = Released" "rw_ReleaseID q = Some fresh" by (simp_all add: q_def)
  have "q \<in> set (st_rows (put_row q s))" using rd id by (intro put_row_in [OF assms(1)]) auto
  then have "q \<in> set (st_rows (delete_claims (\<lambda>u. u = ident) (put_row q s)))" by (simp add: delete_claims_def)
  moreover have "rs_State (toDomain owner (ck_out ck) q) = Released" using id by (simp add: toDomain_def effectiveState_def)
  ultimately show ?thesis using rd id run by (auto simp: delete_claims_def intro!: bexI [of _ q])
qed

theorem ReleaseReservation_succeeds_witness:
  "30 \<notin> cl_reservation ` set (st_claims (execute sample_lib store_2 release_request))"
proof -
  let ?inp = "\<lparr>rl_Fence = 1, rl_CheckoutRequestID = None, rl_CheckoutGeneration = 1, rl_Stopped = True,
      rl_Proof = \<lparr>pk_Kind = ''no_child'', pk_EvidenceRef = ''''\<rparr>\<rparr>"
  have e: "map_sum (\<lambda>_. ()) (\<lambda>r. (rw_Fence r, rw_CheckoutGeneration r, rw_CheckoutRequestID r, rw_State r, rw_ExpiresAt r))
      (reservationForReader sample_world store_2 2 2 ''g'' 30 sample_actor) = Inr (1, 1, None, ''consumed'', 60000000006)"
    by code_simp
  obtain row where row: "reservationForReader sample_world store_2 2 2 ''g'' 30 sample_actor = Inr row"
      "rw_Fence row = 1" "rw_CheckoutGeneration row = 1" "rw_CheckoutRequestID row = None" "rw_State row = Consumed" "rw_ExpiresAt row = 60000000006"
    using e by (cases "reservationForReader sample_world store_2 2 2 ''g'' 30 sample_actor") (auto simp: Consumed_def)
  have "release_valid ?inp" "ProofAccepted ?inp (rw_State row)" by (simp_all add: release_valid_def ProofAccepted_def)
  from ReleaseReservation_succeeds [OF store_2_ok this(1) row(1), where ck = "sample_clock 9" and fresh = 50] this(2) row
  show ?thesis by (auto simp: release_request_def active_def effectiveState_def sample_clock_def)
qed

section \<open>Canonical pool identities\<close>

lemma canonical_id_inj:
  assumes "RuntimeCanonicalPoolID owner p = RuntimeCanonicalPoolID owner q"
    and "CHR '':'' \<notin> set (rp_Provider p)" and "CHR '':'' \<notin> set (rp_Provider q)"
  shows "pool_key p = pool_key q"
  using assms append_cons_unique [of "CHR '':''" "rp_Provider p" "rp_Provider q" "rp_ResourceRef p" "rp_ResourceRef q"]
  by (simp add: RuntimeCanonicalPoolID_def pool_key_def)

lemma fold_update_last:
  assumes "\<And>q. q \<in> set xs \<Longrightarrow> f q = k \<Longrightarrow> g q = v" and "q \<in> set xs" and "f q = k"
  shows "map_of (fold (\<lambda>x. AList.update (f x) (g x)) xs m) k = Some v"
  using assms
proof (induction xs arbitrary: m)
  case (Cons x xs)
  have keep: "map_of m k = Some v \<Longrightarrow> (\<And>q. q \<in> set ys \<Longrightarrow> f q = k \<Longrightarrow> g q = v) \<Longrightarrow>
      map_of (fold (\<lambda>x. AList.update (f x) (g x)) ys m) k = Some v" for ys m
    by (induction ys arbitrary: m) (auto simp: update_conv')
  show ?case
  proof (cases "f x = k")
    case True
    then have "map_of (AList.update (f x) (g x) m) k = Some v"
      using Cons.prems(1) [of x] by (simp add: update_conv')
    from keep [OF this] Cons.prems(1) show ?thesis by simp
  next
    case False
    with Cons show ?thesis by auto
  qed
qed simp

text \<open>The capacity an acquire enforces is the catalog's: in a validated catalog whose provider names contain no
  colon, the limit looked up under a pool's canonical identity is that pool's own \<open>max_concurrency\<close>, whatever order
  the pool map is iterated in.\<close>

theorem pool_capacity_exact:
  assumes "catalog_ok c" and "ValidateReferences c = None"
    and "\<forall>n p. map_of (ca_Pools c) n = Some p \<longrightarrow> CHR '':'' \<notin> set (rp_Provider p)"
    and "map_of (ca_Pools c) name = Some pool"
  shows "go_get 0 (pool_capacity c owner) (RuntimeCanonicalPoolID owner pool) = rp_MaxConcurrency pool"
proof -
  have wf: "pools_wf c" using assms(2) by (simp add: ValidateReferences_None catalog_wf_def)
  have ok: "gomap_ok (ca_Pools c)" using assms(1) by (simp add: catalog_ok_def)
  have "p = pool" if "(n, p) \<in> set (ca_Pools c)" "RuntimeCanonicalPoolID owner p = RuntimeCanonicalPoolID owner pool" for n p
  proof -
    have np: "map_of (ca_Pools c) n = Some p" using that(1) ok by (simp add: gomap_ok_in)
    then have "pool_key p = pool_key pool" using canonical_id_inj [OF that(2)] assms(3,4) by blast
    moreover have "n \<in> set (sortedKeys (ca_Pools c))" "name \<in> set (sortedKeys (ca_Pools c))"
      using np assms(4) has_key_iff [of "ca_Pools c"] by (auto simp: has_key_def)
    ultimately have "n = name"
      using wf np assms(4) unfolding pools_wf_def
      by (auto simp: distinct_map go_simps dest!: inj_onD [of _ _ n name])
    with np assms(4) show ?thesis by simp
  qed
  then have "map_of (pool_capacity c owner) (RuntimeCanonicalPoolID owner pool) = Some (rp_MaxConcurrency pool)"
    using map_of_SomeD [OF assms(4)] unfolding pool_capacity_def case_prod_beta
    by (intro fold_update_last [where q = "(name, pool)"]) force+
  then show ?thesis by (simp add: go_get_def)
qed

theorem pool_capacity_exact_witness:
  "go_get 0 (pool_capacity sample_catalog 2) (RuntimeCanonicalPoolID 2 (sample_pool ''v'')) = 1"
proof -
  have "\<forall>n p. map_of (ca_Pools sample_catalog) n = Some p \<longrightarrow> CHR '':'' \<notin> set (rp_Provider p)"
    by (auto simp: sample_defs split: if_splits)
  from pool_capacity_exact [OF sample_catalog_ok sample_catalog_valid this, of "''x''" "sample_pool ''v''" 2]
  show ?thesis by (simp add: sample_defs)
qed

text \<open>Without the restriction the identity is ambiguous: this catalog passes validation, whose duplicate check
  separates provider and resource by a NUL byte, but its two pools have one canonical identity, so they share
  their claims and the limit of the pool that happens to be iterated last.\<close>

definition colliding_catalog :: RuntimeCatalog where
  "colliding_catalog = \<lparr>ca_SchemaVersion = 2, ca_Controllers = [], ca_Accounts = [],
     ca_Pools = [(''x'', \<lparr>rp_Provider = ''a:b'', rp_ResourceRef = ''c'', rp_Aliases = [], rp_MaxConcurrency = 1, rp_ThresholdRef = ''''\<rparr>),
                 (''y'', \<lparr>rp_Provider = ''a'', rp_ResourceRef = ''b:c'', rp_Aliases = [], rp_MaxConcurrency = 5, rp_ThresholdRef = ''''\<rparr>)],
     ca_Profiles = [], ca_Bindings = []\<rparr>"

text \<open>The canonical pool identity is ambiguous: a catalog that passes reference validation can hold two different
  pools with one canonical identity, and the capacity then enforced for both (5 or 1 here) depends on the order in which
  the pool map is iterated.\<close>

theorem canonical_pool_identity_collision:
  "ValidateReferences colliding_catalog = None
     \<and> RuntimeCanonicalPoolID 2 (Pools_at colliding_catalog ''x'') = RuntimeCanonicalPoolID 2 (Pools_at colliding_catalog ''y'')
     \<and> go_get 0 (pool_capacity colliding_catalog 2) (RuntimeCanonicalPoolID 2 (Pools_at colliding_catalog ''x'')) = 5
     \<and> go_get 0 (pool_capacity (colliding_catalog\<lparr>ca_Pools := rev (ca_Pools colliding_catalog)\<rparr>) 2)
         (RuntimeCanonicalPoolID 2 (Pools_at colliding_catalog ''x'')) = 1"
  by code_simp

end
