(* ===== verification/Runtime_Execution.thy ===== *)
theory Runtime_Execution
  imports Runtime_Admission
begin

text \<open>
  Execution observations: \<open>internal/domain/runtime_execution.go\<close> and the write side of
  \<open>internal/repository/postgres/runtime_execution_repo.go\<close>. A controller boots (it gets a generation), then sends
  numbered reports about the attempts it runs; the tables keep the latest state of each attempt.

  The three tables are lists. \<open>exec_env\<close> holds the clocks, the rows of other tables the checks read, and what comes
  from elsewhere: the hash of a marshalled report and the instant the database stores for one (it keeps microseconds). The
  connection row is locked by every writer, so a request is one step.
\<close>

section \<open>Reports\<close>

definition executionStates :: "string list" where
  "executionStates = [''starting'', ''running'', ''waiting'', ''stopped'', ''completed'', ''failed'']"

text \<open>\<open>^[a-zA-Z0-9][a-zA-Z0-9._:+-]{0,99}$\<close>\<close>

definition ValidExecutionToken :: "string \<Rightarrow> bool" where
  "ValidExecutionToken value = token_match is_alnum (\<lambda>c. is_alnum c \<or> c \<in> set ''._:+-'') 99 value"

definition ExecutionTerminal :: "string \<Rightarrow> bool" where
  "ExecutionTerminal state \<longleftrightarrow> state = ''stopped'' \<or> state = ''completed'' \<or> state = ''failed''"

record ExecutionInstanceRequest =
  eq_SchemaVersion :: int
  eq_InstanceID :: string

record ExecutionResolvedRoute =
  ro_Source :: string
  ro_Revision :: int
  ro_Digest :: "string option"
  ro_ProfileRef :: "string option"
  ro_Harness :: "string option"
  ro_Model :: "string option"
  ro_Effort :: "string option"

record ExecutionObserved =
  ob_Harness :: "string option"
  ob_Model :: "string option"
  ob_Effort :: "string option"
  ob_Source :: string
  ob_ObservedAt :: gtime

record ExecutionFieldSource =
  fs_Source :: string
  fs_ObservedAt :: gtime

record ExecutionProvenance =
  pv_Harness :: "ExecutionFieldSource option"
  pv_Model :: "ExecutionFieldSource option"
  pv_Effort :: "ExecutionFieldSource option"

record ExecutionAttemptReport =
  ea_WorkspaceID :: uuid
  ea_ProjectID :: uuid
  ea_AgentID :: uuid
  ea_BindingRef :: string
  ea_TaskID :: "uuid option"
  ea_ControllerRef :: string
  ea_InstanceID :: string
  ea_Generation :: int
  ea_AttemptID :: string
  ea_TurnID :: "string option"
  ea_State :: string
  ea_ResolvedRoute :: ExecutionResolvedRoute
  ea_Observed :: ExecutionObserved
  ea_Provenance :: "ExecutionProvenance option"

record ExecutionReport =
  er_SchemaVersion :: int
  er_InstanceID :: string
  er_Generation :: int
  er_Sequence :: int
  er_ReportedAt :: gtime
  er_Attempts :: "ExecutionAttemptReport list"

definition validOptionalToken :: "string option \<Rightarrow> bool" where
  "validOptionalToken v = (case v of None \<Rightarrow> True | Some s \<Rightarrow> ValidExecutionToken s)"

definition field_source_valid :: "gtime \<Rightarrow> ExecutionFieldSource option \<Rightarrow> bool" where
  "field_source_valid now s = (case s of None \<Rightarrow> True
     | Some f \<Rightarrow> ValidExecutionToken (fs_Source f) \<and> \<not> IsZero (fs_ObservedAt f) \<and> fs_ObservedAt f \<le> now)"

definition attempt_validate :: "gtime \<Rightarrow> string \<Rightarrow> string \<Rightarrow> int \<Rightarrow> ExecutionAttemptReport \<Rightarrow> Error option" where
  "attempt_validate now controllerRef instanceID generation a =
     (let bad = BadRequest ''invalid execution attempt''; rr = ea_ResolvedRoute a; o' = ea_Observed a in
      if ea_WorkspaceID a = uuid_Nil \<or> ea_ProjectID a = uuid_Nil \<or> ea_AgentID a = uuid_Nil \<or> ea_TaskID a = Some uuid_Nil
      then Some bad
      else if ea_ControllerRef a \<noteq> controllerRef \<or> ea_InstanceID a \<noteq> instanceID \<or> ea_Generation a \<noteq> generation
      then Some (BadRequest ''attempt controller, instance and generation must match the envelope'')
      else if \<not> ValidRuntimeRef (ea_BindingRef a) \<or> \<not> ValidExecutionToken (ea_AttemptID a) \<or> \<not> validOptionalToken (ea_TurnID a)
      then Some bad
      else if ea_State a \<notin> set executionStates then Some bad
      else if \<not> ValidExecutionToken (ro_Source rr) \<or> ro_Revision rr < 0 \<or> \<not> validOptionalToken (ro_Digest rr)
         \<or> \<not> validOptionalToken (ro_ProfileRef rr) \<or> \<not> validOptionalToken (ro_Harness rr)
         \<or> \<not> validOptionalToken (ro_Model rr) \<or> \<not> validOptionalToken (ro_Effort rr)
      then Some bad
      else if \<not> ValidExecutionToken (ob_Source o') \<or> IsZero (ob_ObservedAt o') \<or> ob_ObservedAt o' > now
         \<or> \<not> validOptionalToken (ob_Harness o') \<or> \<not> validOptionalToken (ob_Model o') \<or> \<not> validOptionalToken (ob_Effort o')
      then Some bad
      else case ea_Provenance a of
             None \<Rightarrow> None
           | Some p \<Rightarrow> refuse_if (\<not> field_source_valid now (pv_Harness p) \<or> \<not> field_source_valid now (pv_Model p)
                                  \<or> \<not> field_source_valid now (pv_Effort p)) bad)"

definition attempt_key :: "ExecutionAttemptReport \<Rightarrow> uuid \<times> uuid \<times> string" where
  "attempt_key a = (ea_ProjectID a, ea_AgentID a, ea_AttemptID a)"

text \<open>The loop of \<open>ExecutionReport.Validate\<close>, with the keys seen so far.\<close>

fun validate_attempts ::
  "(ExecutionAttemptReport \<Rightarrow> Error option) \<Rightarrow> (uuid \<times> uuid \<times> string) list \<Rightarrow> ExecutionAttemptReport list \<Rightarrow> Error option" where
  "validate_attempts check seen [] = None"
| "validate_attempts check seen (a # as) =
     (case check a of
        Some e \<Rightarrow> Some e
      | None \<Rightarrow> if attempt_key a \<in> set seen then Some (BadRequest ''duplicate attempt in report'')
                else validate_attempts check (attempt_key a # seen) as)"

definition report_validate :: "gtime \<Rightarrow> string \<Rightarrow> ExecutionReport \<Rightarrow> Error option" where
  "report_validate now controllerRef r =
     (if er_SchemaVersion r \<noteq> 1 \<or> \<not> ValidExecutionToken (er_InstanceID r) \<or> er_Generation r < 1 \<or> er_Sequence r < 1
      then Some (BadRequest ''invalid execution report'')
      else if IsZero (er_ReportedAt r) \<or> er_ReportedAt r > now
      then Some (BadRequest ''reported_at must be set and not in the future'')
      else if length (er_Attempts r) = 0 \<or> length (er_Attempts r) > 200
      then Some (BadRequest ''invalid execution report'')
      else validate_attempts (attempt_validate now controllerRef (er_InstanceID r) (er_Generation r)) [] (er_Attempts r))"

lemma validate_attempts_None:
  "validate_attempts check seen as = None \<longleftrightarrow>
     (\<forall>a \<in> set as. check a = None) \<and> distinct (map attempt_key as) \<and> set seen \<inter> attempt_key ` set as = {}"
  by (induction as arbitrary: seen) (auto split: option.splits)

section \<open>Freshness\<close>

record ExecutionFreshnessInput =
  fi_State :: string
  fi_ModelKnown :: bool
  fi_ObservedAt :: gtime
  fi_HeartbeatAt :: gtime
  fi_ReportedAt :: gtime
  fi_ReceivedAt :: gtime
  fi_GenerationCurrent :: bool
  fi_ControllerLive :: bool

definition ExecutionFreshness :: "gtime \<Rightarrow> ExecutionFreshnessInput \<Rightarrow> string" where
  "ExecutionFreshness now inp =
     (let window = Seconds 120 in
      if ExecutionTerminal (fi_State inp) then ''history''
      else if \<not> fi_ControllerLive inp \<or> time_Sub now (fi_HeartbeatAt inp) > window then ''offline''
      else if \<not> fi_GenerationCurrent inp \<or> time_Sub now (fi_ReportedAt inp) > window \<or> time_Sub now (fi_ReceivedAt inp) > window
      then ''stale''
      else if fi_ModelKnown inp \<and> time_Sub now (fi_ObservedAt inp) > window then ''stale''
      else if \<not> fi_ModelKnown inp then ''unknown''
      else ''current'')"

section \<open>Tables\<close>

record execution_instance =
  xi_integration :: uuid
  xi_controller_ref :: string
  xi_InstanceID :: string
  xi_Generation :: int
  xi_GrantID :: uuid
  xi_Fingerprint :: string
  xi_ReceivedAt :: gtime

record execution_envelope =
  xe_integration :: uuid
  xe_controller_ref :: string
  xe_InstanceID :: string
  xe_Sequence :: int
  xe_BodyHash :: string
  xe_ReceivedAt :: gtime

text \<open>A row of \<open>runtime_execution_attempts\<close>; the reported columns are kept as the report they came from, with the
  observation time as stored.\<close>

record executionAttemptRow =
  xa_integration :: uuid
  xa_Report :: ExecutionAttemptReport
  xa_Sequence :: int
  xa_GrantID :: uuid
  xa_Fingerprint :: string
  xa_HeartbeatAt :: gtime
  xa_ReceivedAt :: gtime
  xa_FirstSeenAt :: gtime

record exec_store =
  es_instances :: "execution_instance list"
  es_reports :: "execution_envelope list"
  es_attempts :: "executionAttemptRow list"

record exec_env =
  ev_lib :: library
  ev_world :: world
  ev_now :: gtime
  ev_db_now :: gtime
  ev_hash :: "ExecutionReport \<Rightarrow> string"
  ev_stored_time :: "gtime \<Rightarrow> gtime"
  ev_projects :: "(uuid \<times> uuid) list"
  ev_members :: "(uuid \<times> uuid) list"
  ev_runner_projects :: "uuid list"
  ev_tasks :: "(uuid \<times> uuid) list"

text \<open>\<open>ev_projects\<close> are the live projects with their workspace, \<open>ev_members\<close> the projects' agent members,
  \<open>ev_runner_projects\<close> those with the Runner enabled, \<open>ev_tasks\<close> the tasks with their project.\<close>

section \<open>The reporter\<close>

record execution_reporter =
  rp_connection :: IntegrationConfig
  rp_catalog :: RuntimeCatalog
  rp_controller :: RuntimeController
  rp_fingerprint :: string

definition reporter_key :: "uuid \<Rightarrow> RuntimeActor \<Rightarrow> failure option" where
  "reporter_key ws actor =
     refuse_if (ac_Connector actor \<or> ac_AgentID actor = uuid_Nil \<or> ac_AuthWorkspaceID actor \<noteq> ws)
       (Refused (Forbidden ''execution telemetry requires the controller's exact owner-workspace agent key''))"

definition executionReporter :: "exec_env \<Rightarrow> uuid \<Rightarrow> string \<Rightarrow> RuntimeActor \<Rightarrow> failure + execution_reporter" where
  "executionReporter env ws ref actor =
     guard_res (reporter_key ws actor)
       (case runtimeConnection (ev_world env) ws of
          None \<Rightarrow> Inl (Refused (NotFound ''Runtime controller''))
        | Some connection \<Rightarrow>
            bind_res (ParseRuntimeCatalog (ev_lib env) (cn_Config connection)) (\<lambda>catalog.
              case map_of (ca_Controllers catalog) ref of
                None \<Rightarrow> Inl (Refused (NotFound ''Runtime controller''))
              | Some controller \<Rightarrow>
                  bind_res (runtimeGrant (ev_lib env) (ev_world env)
                      \<lparr>ri_AgentID = ac_AgentID actor, ri_WorkspaceID = ws, ri_GrantID = rc_ReporterGrantID controller\<rparr>)
                    (\<lambda>fingerprint. Inr \<lparr>rp_connection = connection, rp_catalog = catalog, rp_controller = controller,
                       rp_fingerprint = fingerprint\<rparr>)))"

section \<open>Registering a boot\<close>

record ExecutionInstance =
  ei_SchemaVersion :: int
  ei_InstanceID :: string
  ei_Generation :: int
  ei_ReceivedAt :: gtime

text \<open>\<open>COALESCE(MAX(x), 0)\<close>\<close>

definition max_or_zero :: "int list \<Rightarrow> int" where
  "max_or_zero xs = (case xs of [] \<Rightarrow> 0 | _ \<Rightarrow> Max (set xs))"

definition instances_of :: "exec_store \<Rightarrow> uuid \<Rightarrow> string \<Rightarrow> execution_instance list" where
  "instances_of s integration ref = filter (\<lambda>i. xi_integration i = integration \<and> xi_controller_ref i = ref) (es_instances s)"

definition newest_generation :: "exec_store \<Rightarrow> uuid \<Rightarrow> string \<Rightarrow> int" where
  "newest_generation s integration ref = max_or_zero (map xi_Generation (instances_of s integration ref))"

definition RegisterExecutionInstance ::
  "exec_env \<Rightarrow> uuid \<Rightarrow> string \<Rightarrow> RuntimeActor \<Rightarrow> ExecutionInstanceRequest \<Rightarrow> exec_store
     \<Rightarrow> (failure + ExecutionInstance) \<times> exec_store" where
  "RegisterExecutionInstance env ws ref actor req s =
     (if eq_SchemaVersion req \<noteq> 1 \<or> \<not> ValidExecutionToken (eq_InstanceID req)
      then (Inl (Refused (BadRequest ''invalid execution instance'')), s)
      else case executionReporter env ws ref actor of
        Inl e \<Rightarrow> (Inl e, s)
      | Inr reporter \<Rightarrow>
          let integration = cn_ID (rp_connection reporter) in
          (case find (\<lambda>i. xi_InstanceID i = eq_InstanceID req) (instances_of s integration ref) of
             Some existing \<Rightarrow>
               (Inr \<lparr>ei_SchemaVersion = 1, ei_InstanceID = eq_InstanceID req, ei_Generation = xi_Generation existing,
                     ei_ReceivedAt = xi_ReceivedAt existing\<rparr>, s)
           | None \<Rightarrow>
               let row = \<lparr>xi_integration = integration, xi_controller_ref = ref, xi_InstanceID = eq_InstanceID req,
                          xi_Generation = newest_generation s integration ref + 1,
                          xi_GrantID = rc_ReporterGrantID (rp_controller reporter), xi_Fingerprint = rp_fingerprint reporter,
                          xi_ReceivedAt = ev_db_now env\<rparr>
               in (Inr \<lparr>ei_SchemaVersion = 1, ei_InstanceID = eq_InstanceID req, ei_Generation = xi_Generation row,
                        ei_ReceivedAt = xi_ReceivedAt row\<rparr>, s\<lparr>es_instances := es_instances s @ [row]\<rparr>)))"

section \<open>Storing a report\<close>

definition taskKey :: "uuid option \<Rightarrow> string" where
  "taskKey u = (case u of None \<Rightarrow> '''' | Some t \<Rightarrow> uuid_String t)"

definition sameTurn :: "string option \<Rightarrow> string option \<Rightarrow> bool" where
  "sameTurn a b \<longleftrightarrow> (case (a, b) of (Some x, Some y) \<Rightarrow> x = y | _ \<Rightarrow> a = None \<and> b = None)"

definition cacheKey :: "ExecutionAttemptReport \<Rightarrow> string" where
  "cacheKey a = Join [ea_BindingRef a, uuid_String (ea_WorkspaceID a), uuid_String (ea_ProjectID a), uuid_String (ea_AgentID a),
     taskKey (ea_TaskID a), if ExecutionTerminal (ea_State a) then ''true'' else ''false''] ''|''"

definition denied :: failure where
  "denied = Refused (Forbidden ''execution attempt is outside this controller's admitted scope'')"

text \<open>The checks of \<open>checkExecutionAttempt\<close> past its cache. A failed grant check is \<open>denied\<close> like the rest.\<close>

definition attempt_scope :: "exec_env \<Rightarrow> execution_reporter \<Rightarrow> string \<Rightarrow> ExecutionAttemptReport \<Rightarrow> failure option" where
  "attempt_scope env reporter ref a =
     (let w = ev_world env; catalog = rp_catalog reporter; integration = cn_ID (rp_connection reporter) in
      case map_of (ca_Bindings catalog) (ea_BindingRef a) of
        None \<Rightarrow> Some denied
      | Some binding \<Rightarrow>
          if ri_WorkspaceID (rb_Binding binding) \<noteq> ea_WorkspaceID a \<or> ri_AgentID (rb_Binding binding) \<noteq> ea_AgentID a
          then Some denied
          else if \<not> list_ex (\<lambda>p. pf_ControllerRef (Profiles_at catalog p) = ref) (rb_PermittedProfiles binding) then Some denied
          else (case runtimeGrant (ev_lib env) w (rb_Binding binding) of
             Inl e \<Rightarrow> Some denied
           | Inr fingerprint \<Rightarrow>
               let admission = runtimeAdmission w integration (ea_BindingRef a) binding fingerprint (snd (runtimeRevision w integration)) in
               if length (ra_PermittedProfiles admission) = 0 then Some denied
               else if \<not> ((ea_ProjectID a, ea_WorkspaceID a) \<in> set (ev_projects env)
                          \<and> (ea_ProjectID a, ea_AgentID a) \<in> set (ev_members env)
                          \<and> (ExecutionTerminal (ea_State a) \<or> ea_ProjectID a \<in> set (ev_runner_projects env)))
               then Some denied
               else (case ea_TaskID a of
                       None \<Rightarrow> None
                     | Some t \<Rightarrow> refuse_if ((t, ea_ProjectID a) \<notin> set (ev_tasks env)) denied)))"

definition checkExecutionAttempt ::
  "exec_env \<Rightarrow> execution_reporter \<Rightarrow> string \<Rightarrow> ExecutionAttemptReport \<Rightarrow> string list \<Rightarrow> failure + string list" where
  "checkExecutionAttempt env reporter ref a checked =
     (if cacheKey a \<in> set checked then Inr checked
      else guard_res (attempt_scope env reporter ref a) (Inr (cacheKey a # checked)))"

definition row_key :: "executionAttemptRow \<Rightarrow> uuid \<times> string \<times> uuid \<times> uuid \<times> string" where
  "row_key r = (xa_integration r, ea_ControllerRef (xa_Report r), attempt_key (xa_Report r))"

definition row_generation :: "executionAttemptRow \<Rightarrow> int" where
  "row_generation r = ea_Generation (xa_Report r)"

definition truncate_us :: "gtime \<Rightarrow> gtime" where
  "truncate_us t = t - t mod 1000"

text \<open>What the loop refuses about the attempt's previous state.\<close>

definition continues :: "executionAttemptRow \<Rightarrow> ExecutionAttemptReport \<Rightarrow> failure option" where
  "continues prev a =
     (let p = xa_Report prev; o' = ea_Observed a in
      if ExecutionTerminal (ea_State p) \<and> \<not> ExecutionTerminal (ea_State a)
      then Some (Refused (Conflict ''a finished attempt cannot run again; a resumed session is a new attempt''))
      else if \<not> sameTurn (ea_TurnID p) (ea_TurnID a) \<and> (ob_Model o' \<noteq> None \<or> ob_Effort o' \<noteq> None)
              \<and> \<not> (truncate_us (ob_ObservedAt o') > truncate_us (ob_ObservedAt (ea_Observed p)))
      then Some (Refused (BadRequest ''a new turn needs its own observation of model and effort''))
      else None)"

definition attempt_row ::
  "exec_env \<Rightarrow> execution_reporter \<Rightarrow> ExecutionReport \<Rightarrow> ExecutionAttemptReport \<Rightarrow> executionAttemptRow" where
  "attempt_row env reporter report a =
     \<lparr>xa_integration = cn_ID (rp_connection reporter),
      xa_Report = a\<lparr>ea_Observed := (ea_Observed a)\<lparr>ob_ObservedAt := ev_stored_time env (ob_ObservedAt (ea_Observed a))\<rparr>\<rparr>,
      xa_Sequence = er_Sequence report, xa_GrantID = rc_ReporterGrantID (rp_controller reporter),
      xa_Fingerprint = rp_fingerprint reporter, xa_HeartbeatAt = ev_stored_time env (er_ReportedAt report),
      xa_ReceivedAt = ev_db_now env, xa_FirstSeenAt = ev_db_now env\<rparr>"

text \<open>\<open>ON CONFLICT DO UPDATE\<close>: only a later stamp replaces a row; workspace and first sight are kept.\<close>

definition later_stamp :: "executionAttemptRow \<Rightarrow> executionAttemptRow \<Rightarrow> bool" where
  "later_stamp r n \<longleftrightarrow> row_generation r < row_generation n \<or> (row_generation r = row_generation n \<and> xa_Sequence r < xa_Sequence n)"

definition merge_row :: "executionAttemptRow \<Rightarrow> executionAttemptRow \<Rightarrow> executionAttemptRow" where
  "merge_row n r = (if later_stamp r n
     then n\<lparr>xa_Report := (xa_Report n)\<lparr>ea_WorkspaceID := ea_WorkspaceID (xa_Report r)\<rparr>, xa_FirstSeenAt := xa_FirstSeenAt r\<rparr> else r)"

definition upsert_attempt :: "executionAttemptRow \<Rightarrow> executionAttemptRow list \<Rightarrow> executionAttemptRow list" where
  "upsert_attempt n rows =
     (if row_key n \<in> row_key ` set rows then map (\<lambda>r. if row_key r = row_key n then merge_row n r else r) rows else rows @ [n])"

fun store_attempts ::
  "exec_env \<Rightarrow> execution_reporter \<Rightarrow> string \<Rightarrow> ExecutionReport \<Rightarrow> ExecutionAttemptReport list \<Rightarrow> string list
     \<Rightarrow> executionAttemptRow list \<Rightarrow> failure + executionAttemptRow list" where
  "store_attempts env reporter ref report [] checked rows = Inr rows"
| "store_attempts env reporter ref report (a # as) checked rows =
     bind_res (checkExecutionAttempt env reporter ref a checked) (\<lambda>checked1.
       let n = attempt_row env reporter report a in
       guard_res (case find (\<lambda>r. row_key r = row_key n) rows of None \<Rightarrow> None | Some prev \<Rightarrow> continues prev a)
         (store_attempts env reporter ref report as checked1 (upsert_attempt n rows)))"

record ExecutionReportAck =
  ak_Recorded :: bool
  ak_Duplicate :: bool
  ak_Attempts :: nat
  ak_LaunchAuthorized :: bool

definition envelopes_of :: "exec_store \<Rightarrow> uuid \<Rightarrow> string \<Rightarrow> string \<Rightarrow> execution_envelope list" where
  "envelopes_of s integration ref instance' =
     filter (\<lambda>x. xe_integration x = integration \<and> xe_controller_ref x = ref \<and> xe_InstanceID x = instance') (es_reports s)"

definition last_sequence :: "exec_store \<Rightarrow> uuid \<Rightarrow> string \<Rightarrow> string \<Rightarrow> int" where
  "last_sequence s integration ref instance' = max_or_zero (map xe_Sequence (envelopes_of s integration ref instance'))"

text \<open>What is dropped after seven days: envelopes but the newest of their instance, and finished attempts.\<close>

definition executionReportRetention :: duration where
  "executionReportRetention = 7 * 24 * 3600000000000"

definition retain :: "uuid \<Rightarrow> string \<Rightarrow> gtime \<Rightarrow> exec_store \<Rightarrow> exec_store" where
  "retain integration ref cutoff s =
     s\<lparr>es_reports := filter (\<lambda>x. \<not> (xe_integration x = integration \<and> xe_controller_ref x = ref \<and> xe_ReceivedAt x < cutoff
          \<and> xe_Sequence x < last_sequence s integration ref (xe_InstanceID x))) (es_reports s),
       es_attempts := filter (\<lambda>r. \<not> (xa_integration r = integration \<and> ea_ControllerRef (xa_Report r) = ref
          \<and> ExecutionTerminal (ea_State (xa_Report r)) \<and> xa_ReceivedAt r < cutoff)) (es_attempts s)\<rparr>"

text \<open>The fences between the reporter check and the rows: \<^const>\<open>None\<close> is an exact replay.\<close>

definition report_fence :: "exec_env \<Rightarrow> uuid \<Rightarrow> string \<Rightarrow> ExecutionReport \<Rightarrow> exec_store \<Rightarrow> failure + unit option" where
  "report_fence env integration ref report s =
     (case find (\<lambda>i. xi_InstanceID i = er_InstanceID report) (instances_of s integration ref) of
        None \<Rightarrow> Inl (Refused (Conflict ''execution instance is not registered with this generation''))
      | Some i \<Rightarrow>
          if xi_Generation i \<noteq> er_Generation report
          then Inl (Refused (Conflict ''execution instance is not registered with this generation''))
          else if newest_generation s integration ref > er_Generation report
          then Inl (Refused (Conflict ''execution instance was superseded by a newer boot''))
          else (case find (\<lambda>x. xe_Sequence x = er_Sequence report) (envelopes_of s integration ref (er_InstanceID report)) of
             Some x \<Rightarrow> if xe_BodyHash x = ev_hash env report then Inr None
                       else Inl (Refused (Conflict ''execution report sequence was already used with a different body''))
           | None \<Rightarrow> if er_Sequence report \<le> last_sequence s integration ref (er_InstanceID report)
                     then Inl (Refused (Conflict ''execution report sequence must increase'')) else Inr (Some ())))"

definition ReportExecutions ::
  "exec_env \<Rightarrow> uuid \<Rightarrow> string \<Rightarrow> RuntimeActor \<Rightarrow> ExecutionReport \<Rightarrow> exec_store \<Rightarrow> (failure + ExecutionReportAck) \<times> exec_store" where
  "ReportExecutions env ws ref actor report s =
     (let ack = \<lambda>duplicate. \<lparr>ak_Recorded = True, ak_Duplicate = duplicate, ak_Attempts = length (er_Attempts report), ak_LaunchAuthorized = False\<rparr> in
      case guard_res (reporter_key ws actor) (guard_res (map_option Refused (report_validate (ev_now env) ref report))
             (executionReporter env ws ref actor)) of
        Inl e \<Rightarrow> (Inl e, s)
      | Inr reporter \<Rightarrow>
          let integration = cn_ID (rp_connection reporter) in
          (case report_fence env integration ref report s of
             Inl e \<Rightarrow> (Inl e, s)
           | Inr None \<Rightarrow> (Inr (ack True), s)
           | Inr (Some _) \<Rightarrow>
               (case store_attempts env reporter ref report (er_Attempts report) [] (es_attempts s) of
                  Inl e \<Rightarrow> (Inl e, s)
                | Inr rows \<Rightarrow>
                    let envelope = \<lparr>xe_integration = integration, xe_controller_ref = ref, xe_InstanceID = er_InstanceID report,
                          xe_Sequence = er_Sequence report, xe_BodyHash = ev_hash env report, xe_ReceivedAt = ev_db_now env\<rparr>
                    in (Inr (ack False), retain integration ref (ev_now env - executionReportRetention)
                          (s\<lparr>es_attempts := rows, es_reports := es_reports s @ [envelope]\<rparr>)))))"

section \<open>The cached scope check decides every attempt\<close>

lemma uuid_String_no_bar: "CHR ''|'' \<notin> set (uuid_String u)"
proof -
  have nibble: "n < 16" if "n \<in> set (uuid_nibbles u)" for n
    using that uuid_nibble_less by (auto simp: uuid_nibbles_def)
  have "length hex_digits = 16" by (simp add: hex_digits_def)
  then have "hex_digits ! n \<in> set hex_digits" if "n < 16" for n using that nth_mem [of n hex_digits] by simp
  then have "c \<in> set hex_digits" if "c \<in> set (map (\<lambda>n. hex_digits ! n) (uuid_nibbles u))" for c
    using that nibble by auto
  then have no: "CHR ''|'' \<notin> set (map (\<lambda>n. hex_digits ! n) (uuid_nibbles u))" by (auto simp: hex_digits_def)
  have "CHR ''|'' \<notin> set (take m (drop n h))" "CHR ''|'' \<notin> set (take m h)" "CHR ''|'' \<notin> set (drop n h)"
    if "CHR ''|'' \<notin> set h" for m n h
    using that by (auto dest: in_set_takeD in_set_dropD)
  note parts = this [OF no]
  have "CHR ''|'' \<notin> set ''-''" by simp
  with parts show ?thesis unfolding uuid_String_def Let_def set_append by (simp only: Un_iff not_False_eq_True simp_thms)
qed

lemma taskKey_inj: "taskKey a = taskKey b \<Longrightarrow> a = b"
  using length_uuid_String by (auto simp: taskKey_def split: option.split_asm) (metis length_uuid_String list.size(3) zero_neq_numeral)+

lemma ValidRuntimeRef_no_bar: "ValidRuntimeRef s \<Longrightarrow> CHR ''|'' \<notin> set s"
proof -
  have "\<not> is_alnum (CHR ''|'')" by (simp add: is_alnum_def is_digit_def is_lower_def is_upper_def less_eq_char_def)
  moreover assume "ValidRuntimeRef s"
  ultimately show ?thesis
    by (auto simp: ValidRuntimeRef_def token_match_def list_all_iff split: list.split_asm)
qed

lemma cacheKey_inj:
  assumes "cacheKey a = cacheKey b" and "ValidRuntimeRef (ea_BindingRef a)" and "ValidRuntimeRef (ea_BindingRef b)"
  shows "ea_BindingRef a = ea_BindingRef b \<and> ea_WorkspaceID a = ea_WorkspaceID b \<and> ea_ProjectID a = ea_ProjectID b
    \<and> ea_AgentID a = ea_AgentID b \<and> ea_TaskID a = ea_TaskID b \<and> ExecutionTerminal (ea_State a) = ExecutionTerminal (ea_State b)"
proof -
  have task: "CHR ''|'' \<notin> set (taskKey u)" for u using uuid_String_no_bar by (simp add: taskKey_def split: option.split)
  note cut = append_cons_unique [of "CHR ''|''"]
  from assms(1) have e: "ea_BindingRef a @ CHR ''|'' # uuid_String (ea_WorkspaceID a) @ CHR ''|'' # uuid_String (ea_ProjectID a)
      @ CHR ''|'' # uuid_String (ea_AgentID a) @ CHR ''|'' # taskKey (ea_TaskID a) @ CHR ''|'' # (if ExecutionTerminal (ea_State a) then ''true'' else ''false'')
    = ea_BindingRef b @ CHR ''|'' # uuid_String (ea_WorkspaceID b) @ CHR ''|'' # uuid_String (ea_ProjectID b)
      @ CHR ''|'' # uuid_String (ea_AgentID b) @ CHR ''|'' # taskKey (ea_TaskID b) @ CHR ''|'' # (if ExecutionTerminal (ea_State b) then ''true'' else ''false'')"
    by (simp add: cacheKey_def)
  note 1 = cut [OF ValidRuntimeRef_no_bar [OF assms(2)] ValidRuntimeRef_no_bar [OF assms(3)] e]
  note 2 = cut [OF uuid_String_no_bar uuid_String_no_bar conjunct2 [OF 1]]
  note 3 = cut [OF uuid_String_no_bar uuid_String_no_bar conjunct2 [OF 2]]
  note 4 = cut [OF uuid_String_no_bar uuid_String_no_bar conjunct2 [OF 3]]
  note 5 = cut [OF task task conjunct2 [OF 4]]
  from 1 2 3 4 5 taskKey_inj show ?thesis by (auto split: if_split_asm)
qed

lemma attempt_scope_cong:
  assumes "ea_BindingRef a = ea_BindingRef b" and "ea_WorkspaceID a = ea_WorkspaceID b" and "ea_ProjectID a = ea_ProjectID b"
    and "ea_AgentID a = ea_AgentID b" and "ea_TaskID a = ea_TaskID b" and "ExecutionTerminal (ea_State a) = ExecutionTerminal (ea_State b)"
  shows "attempt_scope env reporter ref a = attempt_scope env reporter ref b"
  unfolding attempt_scope_def assms ..

lemma store_attempts_scope:
  assumes "store_attempts env reporter ref report as checked rows = Inr out"
    and "\<forall>a \<in> set as. ValidRuntimeRef (ea_BindingRef a)"
    and "\<forall>k \<in> set checked. \<exists>b. k = cacheKey b \<and> ValidRuntimeRef (ea_BindingRef b) \<and> attempt_scope env reporter ref b = None"
  shows "\<forall>a \<in> set as. attempt_scope env reporter ref a = None"
  using assms
proof (induction as arbitrary: checked rows)
  case (Cons a as)
  from Cons.prems(1) obtain checked1 where c: "checkExecutionAttempt env reporter ref a checked = Inr checked1"
      and rest: "store_attempts env reporter ref report as checked1 (upsert_attempt (attempt_row env reporter report a) rows) = Inr out"
    by (auto simp: Let_def)
  have a: "attempt_scope env reporter ref a = None"
  proof (cases "cacheKey a \<in> set checked")
    case True
    with Cons.prems(3) obtain b where b: "cacheKey a = cacheKey b" "ValidRuntimeRef (ea_BindingRef b)" "attempt_scope env reporter ref b = None"
      by blast
    have "ValidRuntimeRef (ea_BindingRef a)" using Cons.prems(2) by simp
    from cacheKey_inj [OF b(1) this b(2)] b(3) attempt_scope_cong [of a b] show ?thesis by simp
  next
    case False
    with c show ?thesis by (simp add: checkExecutionAttempt_def)
  qed
  have "checked1 = checked \<or> checked1 = cacheKey a # checked"
    using c by (auto simp: checkExecutionAttempt_def split: if_split_asm)
  with Cons.prems(2,3) a have "\<forall>k \<in> set checked1. \<exists>b. k = cacheKey b \<and> ValidRuntimeRef (ea_BindingRef b) \<and> attempt_scope env reporter ref b = None"
    by auto
  with Cons.IH [OF rest] Cons.prems(2) a show ?case by simp
qed simp

section \<open>What a stored report leaves\<close>

lemma row_key_merge [simp]: "row_key n = row_key r \<Longrightarrow> row_key (merge_row n r) = row_key r"
  by (simp add: merge_row_def row_key_def attempt_key_def)

lemma upsert_keys: "row_key ` set (upsert_attempt n rows) = insert (row_key n) (row_key ` set rows)"
proof (cases "row_key n \<in> row_key ` set rows")
  case True
  have "map row_key (map (\<lambda>r. if row_key r = row_key n then merge_row n r else r) rows) = map row_key rows" by simp
  then have "row_key ` set (map (\<lambda>r. if row_key r = row_key n then merge_row n r else r) rows) = row_key ` set rows"
    unfolding set_map [symmetric] by (rule arg_cong)
  with True show ?thesis unfolding upsert_attempt_def by (simp only: if_True insert_absorb)
qed (simp add: upsert_attempt_def)

lemma upsert_distinct: "distinct (map row_key rows) \<Longrightarrow> distinct (map row_key (upsert_attempt n rows))"
proof (cases "row_key n \<in> row_key ` set rows")
  case True
  have "map row_key (map (\<lambda>r. if row_key r = row_key n then merge_row n r else r) rows) = map row_key rows" by simp
  moreover assume "distinct (map row_key rows)"
  ultimately show ?thesis using True unfolding upsert_attempt_def by (simp only: if_True)
qed (simp add: upsert_attempt_def)

definition at_key :: "executionAttemptRow list \<Rightarrow> uuid \<times> string \<times> uuid \<times> uuid \<times> string \<Rightarrow> executionAttemptRow option" where
  "at_key rows k = find (\<lambda>r. row_key r = k) rows"

lemma at_key_Some: "at_key rows k = Some r \<Longrightarrow> r \<in> set rows \<and> row_key r = k"
  by (auto simp: at_key_def dest: find_SomeD)

lemma at_key_in: "distinct (map row_key rows) \<Longrightarrow> r \<in> set rows \<Longrightarrow> at_key rows (row_key r) = Some r"
  unfolding at_key_def by (induction rows) (auto simp: image_iff)

lemma at_key_upsert_other: "k \<noteq> row_key n \<Longrightarrow> at_key (upsert_attempt n rows) k = at_key rows k"
proof -
  assume k: "k \<noteq> row_key n"
  have "find (\<lambda>r. row_key r = k) (map (\<lambda>r. if row_key r = row_key n then merge_row n r else r) rows) = find (\<lambda>r. row_key r = k) rows"
    using k by (induction rows) auto
  moreover have "find (\<lambda>r. row_key r = k) (rows @ [n]) = find (\<lambda>r. row_key r = k) rows" using k by (induction rows) auto
  ultimately show ?thesis by (simp add: at_key_def upsert_attempt_def)
qed

lemma at_key_upsert: "at_key (upsert_attempt n rows) (row_key n) = (case at_key rows (row_key n) of None \<Rightarrow> Some n | Some r \<Rightarrow> Some (merge_row n r))"
proof -
  have "find (\<lambda>r. row_key r = row_key n) (map (\<lambda>r. if row_key r = row_key n then merge_row n r else r) rows)
      = map_option (merge_row n) (find (\<lambda>r. row_key r = row_key n) rows)"
    by (induction rows) auto
  moreover have "row_key n \<notin> row_key ` set rows \<Longrightarrow> find (\<lambda>r. row_key r = row_key n) (rows @ [n]) = Some n
      \<and> find (\<lambda>r. row_key r = row_key n) rows = None"
    by (induction rows) auto
  moreover have "row_key n \<in> row_key ` set rows \<Longrightarrow> find (\<lambda>r. row_key r = row_key n) rows \<noteq> None"
    by (induction rows) auto
  ultimately show ?thesis by (auto simp: at_key_def upsert_attempt_def)
qed

lemma row_key_attempt_row [simp]:
  "row_key (attempt_row env reporter report a) = (cn_ID (rp_connection reporter), ea_ControllerRef a, attempt_key a)"
  by (simp add: row_key_def attempt_row_def attempt_key_def)

definition written :: "(ExecutionAttemptReport \<Rightarrow> executionAttemptRow) \<Rightarrow> ExecutionAttemptReport list \<Rightarrow> executionAttemptRow list
    \<Rightarrow> uuid \<times> string \<times> uuid \<times> uuid \<times> string \<Rightarrow> executionAttemptRow option" where
  "written f as rows k = (case find (\<lambda>a. row_key (f a) = k) as of
      None \<Rightarrow> at_key rows k
    | Some a \<Rightarrow> (case at_key rows k of None \<Rightarrow> Some (f a) | Some r \<Rightarrow> Some (merge_row (f a) r)))"

lemma store_attempts_rows:
  assumes "store_attempts env reporter ref report as checked rows = Inr out"
    and "distinct (map row_key rows)" and "distinct (map (\<lambda>a. row_key (attempt_row env reporter report a)) as)"
  shows "distinct (map row_key out) \<and> (\<forall>k. at_key out k = written (attempt_row env reporter report) as rows k)
    \<and> (\<forall>a \<in> set as. \<forall>r. at_key rows (row_key (attempt_row env reporter report a)) = Some r \<longrightarrow> continues r a = None)"
  using assms
proof (induction as arbitrary: checked rows)
  case Nil
  then show ?case by (simp add: written_def)
next
  case (Cons a as)
  define f where "f = attempt_row env reporter report"
  from Cons.prems(1) obtain checked1 where c: "(case at_key rows (row_key (f a)) of None \<Rightarrow> None | Some prev \<Rightarrow> continues prev a) = None"
      and rest: "store_attempts env reporter ref report as checked1 (upsert_attempt (f a) rows) = Inr out"
    by (auto simp: Let_def f_def at_key_def)
  have other: "row_key (f b) \<noteq> row_key (f a)" if "b \<in> set as" for b
    using Cons.prems(3) that by (auto simp: f_def image_iff)
  have dist: "distinct (map (\<lambda>a. row_key (f a)) as)" using Cons.prems(3) by (simp add: f_def)
  from Cons.IH [OF rest upsert_distinct [OF Cons.prems(2)] dist [unfolded f_def]]
  have ih: "distinct (map row_key out)" "\<And>k. at_key out k = written f as (upsert_attempt (f a) rows) k"
      "\<And>b r. b \<in> set as \<Longrightarrow> at_key (upsert_attempt (f a) rows) (row_key (f b)) = Some r \<Longrightarrow> continues r b = None"
    by (auto simp: f_def)
  have "at_key out k = written f (a # as) rows k" for k
  proof (cases "row_key (f a) = k")
    case True
    then have "find (\<lambda>b. row_key (f b) = k) as = None" using other by (auto simp: find_None_iff)
    with True show ?thesis unfolding ih(2) written_def using at_key_upsert [of "f a" rows] by simp
  next
    case False
    then have "at_key (upsert_attempt (f a) rows) k = at_key rows k" using at_key_upsert_other [of k "f a"] by simp
    with False show ?thesis unfolding ih(2) written_def by (simp split: option.split)
  qed
  moreover have "continues r b = None" if "b \<in> set (a # as)" "at_key rows (row_key (f b)) = Some r" for b r
  proof (cases "b = a")
    case True
    with c that show ?thesis by simp
  next
    case False
    with that have "b \<in> set as" by simp
    with ih(3) [OF this] that(2) at_key_upsert_other [OF other [OF this]] show ?thesis by simp
  qed
  ultimately show ?case using ih(1) unfolding f_def by blast
qed

section \<open>The invariant of the tables\<close>

definition boot_of :: "execution_instance \<Rightarrow> uuid \<times> string \<times> string" where
  "boot_of i = (xi_integration i, xi_controller_ref i, xi_InstanceID i)"

definition generation_of :: "execution_instance \<Rightarrow> uuid \<times> string \<times> int" where
  "generation_of i = (xi_integration i, xi_controller_ref i, xi_Generation i)"

definition envelope_boot :: "execution_envelope \<Rightarrow> uuid \<times> string \<times> string" where
  "envelope_boot x = (xe_integration x, xe_controller_ref x, xe_InstanceID x)"

definition row_boot :: "executionAttemptRow \<Rightarrow> uuid \<times> string \<times> string" where
  "row_boot r = (xa_integration r, ea_ControllerRef (xa_Report r), ea_InstanceID (xa_Report r))"

text \<open>A row was stored by a registered boot, under its generation, by a report not newer than that boot's newest envelope.\<close>

definition row_backed :: "exec_store \<Rightarrow> executionAttemptRow \<Rightarrow> bool" where
  "row_backed s r \<longleftrightarrow>
     (\<exists>i \<in> set (es_instances s). boot_of i = row_boot r \<and> xi_Generation i = row_generation r)
     \<and> (\<exists>x \<in> set (es_reports s). envelope_boot x = row_boot r \<and> xa_Sequence r \<le> xe_Sequence x)"

definition exec_ok :: "exec_store \<Rightarrow> bool" where
  "exec_ok s \<longleftrightarrow> distinct (map boot_of (es_instances s)) \<and> distinct (map generation_of (es_instances s))
     \<and> (\<forall>i \<in> set (es_instances s). xi_Generation i > 0)
     \<and> distinct (map (\<lambda>x. (envelope_boot x, xe_Sequence x)) (es_reports s))
     \<and> distinct (map row_key (es_attempts s)) \<and> (\<forall>r \<in> set (es_attempts s). row_backed s r)"

text \<open>What stays true of a row once stored: whatever has its key later is the row itself or carries a later stamp.\<close>

definition fenced :: "executionAttemptRow \<Rightarrow> exec_store \<Rightarrow> bool" where
  "fenced r s \<longleftrightarrow> row_backed s r \<and> (\<forall>n \<in> set (es_attempts s). row_key n = row_key r \<longrightarrow> n = r \<or> later_stamp r n)"

lemma max_or_zero_ge: "x \<in> set xs \<Longrightarrow> x \<le> max_or_zero xs"
  by (cases xs) (auto simp: max_or_zero_def)

lemma max_or_zero_in: "xs \<noteq> [] \<Longrightarrow> max_or_zero xs \<in> set xs"
  using Max_in [of "set xs"] by (cases xs) (simp_all add: max_or_zero_def)

lemma newest_ge: "i \<in> set (es_instances s) \<Longrightarrow> xi_Generation i \<le> newest_generation s (xi_integration i) (xi_controller_ref i)"
  unfolding newest_generation_def instances_of_def by (intro max_or_zero_ge) auto

lemma last_ge: "x \<in> set (es_reports s) \<Longrightarrow> xe_Sequence x \<le> last_sequence s (xe_integration x) (xe_controller_ref x) (xe_InstanceID x)"
  unfolding last_sequence_def envelopes_of_def by (intro max_or_zero_ge) auto

lemma later_stamp_trans: "later_stamp a b \<Longrightarrow> later_stamp b c \<Longrightarrow> later_stamp a c"
  by (auto simp: later_stamp_def)

section \<open>Registering keeps the tables\<close>

lemma Register_cases:
  assumes "RegisterExecutionInstance env ws ref actor req s = (r, t)"
  shows "t = s \<or> (\<exists>row. t = s\<lparr>es_instances := es_instances s @ [row]\<rparr> \<and> boot_of row \<notin> boot_of ` set (es_instances s)
      \<and> xi_Generation row = newest_generation s (xi_integration row) (xi_controller_ref row) + 1)"
proof (cases "eq_SchemaVersion req \<noteq> 1 \<or> \<not> ValidExecutionToken (eq_InstanceID req)")
  case True
  with assms show ?thesis by (auto simp: RegisterExecutionInstance_def)
next
  case ok: False
  show ?thesis
  proof (cases "executionReporter env ws ref actor")
    case (Inl e)
    with assms ok show ?thesis by (simp add: RegisterExecutionInstance_def)
  next
    case (Inr reporter)
    define integration where "integration = cn_ID (rp_connection reporter)"
    show ?thesis
    proof (cases "find (\<lambda>i. xi_InstanceID i = eq_InstanceID req) (instances_of s integration ref)")
      case (Some i)
      with assms ok Inr show ?thesis by (simp add: RegisterExecutionInstance_def integration_def Let_def)
    next
      case None
      define row where "row = \<lparr>xi_integration = integration, xi_controller_ref = ref, xi_InstanceID = eq_InstanceID req,
                          xi_Generation = newest_generation s integration ref + 1,
                          xi_GrantID = rc_ReporterGrantID (rp_controller reporter), xi_Fingerprint = rp_fingerprint reporter,
                          xi_ReceivedAt = ev_db_now env\<rparr>"
      from assms ok Inr None have "t = s\<lparr>es_instances := es_instances s @ [row]\<rparr>"
        by (simp add: RegisterExecutionInstance_def integration_def Let_def row_def)
      moreover have "boot_of row \<notin> boot_of ` set (es_instances s)"
        using None by (auto simp: find_None_iff instances_of_def boot_of_def row_def)
      ultimately show ?thesis by (intro disjI2 exI [of _ row]) (simp add: row_def)
    qed
  qed
qed

lemma row_backed_mono:
  assumes "row_backed s r" and "set (es_instances s) \<subseteq> set (es_instances t)" and "set (es_reports s) \<subseteq> set (es_reports t)"
  shows "row_backed t r"
  using assms unfolding row_backed_def by blast

lemma registered_ok:
  assumes ok: "exec_ok s" and new: "boot_of row \<notin> boot_of ` set (es_instances s)"
    and gen: "xi_Generation row = newest_generation s (xi_integration row) (xi_controller_ref row) + 1"
  shows "exec_ok (s\<lparr>es_instances := es_instances s @ [row]\<rparr>)"
proof -
  have "generation_of row \<notin> generation_of ` set (es_instances s)"
    using newest_ge [of _ s] gen by (fastforce simp: generation_of_def)
  moreover have "0 \<le> newest_generation s (xi_integration row) (xi_controller_ref row)"
  proof (cases "instances_of s (xi_integration row) (xi_controller_ref row) = []")
    case True
    then show ?thesis by (simp add: newest_generation_def max_or_zero_def)
  next
    case False
    then have "newest_generation s (xi_integration row) (xi_controller_ref row)
        \<in> xi_Generation ` set (instances_of s (xi_integration row) (xi_controller_ref row))"
      using max_or_zero_in [of "map xi_Generation (instances_of s (xi_integration row) (xi_controller_ref row))"]
      by (simp add: newest_generation_def)
    with ok show ?thesis by (auto simp: exec_ok_def instances_of_def intro: less_imp_le)
  qed
  moreover have "row_backed (s\<lparr>es_instances := es_instances s @ [row]\<rparr>) r" if "row_backed s r" for r
    using that by (rule row_backed_mono) auto
  ultimately show ?thesis using ok new gen unfolding exec_ok_def by auto
qed

lemma registered_fenced: "fenced r s \<Longrightarrow> fenced r (s\<lparr>es_instances := es_instances s @ [row]\<rparr>)"
  unfolding fenced_def using row_backed_mono [of s r "s\<lparr>es_instances := es_instances s @ [row]\<rparr>"] by auto

section \<open>Reporting keeps the tables\<close>

lemma report_validate_None:
  assumes "report_validate now ref r = None"
  shows "distinct (map attempt_key (er_Attempts r)) \<and> (\<forall>a \<in> set (er_Attempts r). ea_ControllerRef a = ref
     \<and> ea_InstanceID a = er_InstanceID r \<and> ea_Generation a = er_Generation r \<and> ValidRuntimeRef (ea_BindingRef a)
     \<and> ob_ObservedAt (ea_Observed a) \<le> now)"
proof -
  from assms have "validate_attempts (attempt_validate now ref (er_InstanceID r) (er_Generation r)) [] (er_Attempts r) = None"
    by (simp add: report_validate_def split: if_split_asm)
  then show ?thesis
    unfolding validate_attempts_None by (auto simp: attempt_validate_def Let_def split: if_split_asm)
qed

text \<open>The state a fresh report leaves before anything is dropped.\<close>

definition with_report :: "execution_envelope \<Rightarrow> executionAttemptRow list \<Rightarrow> exec_store \<Rightarrow> exec_store" where
  "with_report x rows s = s\<lparr>es_attempts := rows, es_reports := es_reports s @ [x]\<rparr>"

lemma with_report_simps [simp]:
  "es_attempts (with_report x rows s) = rows" "es_reports (with_report x rows s) = es_reports s @ [x]"
  "es_instances (with_report x rows s) = es_instances s"
  by (simp_all add: with_report_def)

definition envelope_for :: "exec_env \<Rightarrow> execution_reporter \<Rightarrow> string \<Rightarrow> ExecutionReport \<Rightarrow> execution_envelope" where
  "envelope_for env reporter ref report =
     \<lparr>xe_integration = cn_ID (rp_connection reporter), xe_controller_ref = ref, xe_InstanceID = er_InstanceID report,
      xe_Sequence = er_Sequence report, xe_BodyHash = ev_hash env report, xe_ReceivedAt = ev_db_now env\<rparr>"

definition accepted :: "exec_env \<Rightarrow> uuid \<Rightarrow> string \<Rightarrow> RuntimeActor \<Rightarrow> ExecutionReport \<Rightarrow> exec_store \<Rightarrow> execution_reporter
    \<Rightarrow> executionAttemptRow list \<Rightarrow> bool" where
  "accepted env ws ref actor report s reporter rows \<longleftrightarrow>
     reporter_key ws actor = None \<and> report_validate (ev_now env) ref report = None
     \<and> executionReporter env ws ref actor = Inr reporter
     \<and> report_fence env (cn_ID (rp_connection reporter)) ref report s = Inr (Some ())
     \<and> store_attempts env reporter ref report (er_Attempts report) [] (es_attempts s) = Inr rows"

lemma Report_cases:
  assumes "ReportExecutions env ws ref actor report s = (r, t)"
  shows "t = s \<or> (\<exists>reporter rows. accepted env ws ref actor report s reporter rows
     \<and> t = retain (cn_ID (rp_connection reporter)) ref (ev_now env - executionReportRetention)
             (with_report (envelope_for env reporter ref report) rows s))"
proof (cases "guard_res (reporter_key ws actor) (guard_res (map_option Refused (report_validate (ev_now env) ref report))
             (executionReporter env ws ref actor))")
  case (Inl e)
  with assms show ?thesis by (simp add: ReportExecutions_def)
next
  case (Inr reporter)
  then have g: "reporter_key ws actor = None" "report_validate (ev_now env) ref report = None"
      "executionReporter env ws ref actor = Inr reporter" by simp_all
  note unfolded = assms [unfolded ReportExecutions_def Let_def Inr sum.case]
  show ?thesis
  proof (cases "report_fence env (cn_ID (rp_connection reporter)) ref report s")
    case (Inl e)
    with unfolded show ?thesis by simp
  next
    case f: (Inr u)
    show ?thesis
    proof (cases "u = Some () \<and> (\<exists>rows. store_attempts env reporter ref report (er_Attempts report) [] (es_attempts s) = Inr rows)")
      case True
      then obtain rows where rows: "store_attempts env reporter ref report (er_Attempts report) [] (es_attempts s) = Inr rows" and u: "u = Some ()" by blast
      with unfolded f have "t = retain (cn_ID (rp_connection reporter)) ref (ev_now env - executionReportRetention)
             (with_report (envelope_for env reporter ref report) rows s)"
        by (simp add: with_report_def envelope_for_def)
      with g f u rows show ?thesis unfolding accepted_def by blast
    next
      case False
      with unfolded f show ?thesis by (cases u) (auto split: sum.split_asm)
    qed
  qed
qed

lemma fence_facts:
  assumes "report_fence env integration ref report s = Inr (Some ())"
  shows "(\<exists>i \<in> set (es_instances s). boot_of i = (integration, ref, er_InstanceID report) \<and> xi_Generation i = er_Generation report)
     \<and> newest_generation s integration ref \<le> er_Generation report
     \<and> last_sequence s integration ref (er_InstanceID report) < er_Sequence report"
proof -
  from assms obtain i where i: "find (\<lambda>i. xi_InstanceID i = er_InstanceID report) (instances_of s integration ref) = Some i"
      and rest: "xi_Generation i = er_Generation report" "newest_generation s integration ref \<le> er_Generation report"
        "last_sequence s integration ref (er_InstanceID report) < er_Sequence report"
    by (auto simp: report_fence_def split: option.split_asm if_split_asm)
  from find_SomeD [OF i] have "i \<in> set (es_instances s)" "boot_of i = (integration, ref, er_InstanceID report)"
    by (auto simp: instances_of_def boot_of_def)
  with rest show ?thesis by blast
qed

text \<open>What a row of an accepted report can be.\<close>

lemma accepted_rows:
  assumes acc: "accepted env ws ref actor report s reporter rows" and ok: "exec_ok s"
  shows "distinct (map row_key rows) \<and> (\<forall>n \<in> set rows. n \<in> set (es_attempts s)
     \<or> (\<exists>a \<in> set (er_Attempts report). row_key n = row_key (attempt_row env reporter report a)
          \<and> (case at_key (es_attempts s) (row_key n) of None \<Rightarrow> n = attempt_row env reporter report a
             | Some r \<Rightarrow> n = merge_row (attempt_row env reporter report a) r \<and> continues r a = None)))"
proof -
  have v: "distinct (map attempt_key (er_Attempts report))" "\<And>a. a \<in> set (er_Attempts report) \<Longrightarrow> ea_ControllerRef a = ref"
    using report_validate_None acc by (auto simp: accepted_def)
  have inj: "inj_on attempt_key (set (er_Attempts report))" "distinct (er_Attempts report)"
    using v(1) by (simp_all add: distinct_map)
  then have dist: "distinct (map (\<lambda>a. row_key (attempt_row env reporter report a)) (er_Attempts report))"
    by (auto simp: distinct_map inj_on_def)
  have "store_attempts env reporter ref report (er_Attempts report) [] (es_attempts s) = Inr rows"
      "distinct (map row_key (es_attempts s))" using acc ok by (simp_all add: accepted_def exec_ok_def)
  note st = store_attempts_rows [OF this dist]
  have st_at: "at_key rows k = written (attempt_row env reporter report) (er_Attempts report) (es_attempts s) k" for k
    using st [THEN conjunct2, THEN conjunct1] by (rule spec)
  have "n \<in> set (es_attempts s) \<or> (\<exists>a \<in> set (er_Attempts report). row_key n = row_key (attempt_row env reporter report a)
          \<and> (case at_key (es_attempts s) (row_key n) of None \<Rightarrow> n = attempt_row env reporter report a
             | Some r \<Rightarrow> n = merge_row (attempt_row env reporter report a) r \<and> continues r a = None))" if n: "n \<in> set rows" for n
  proof -
    have at: "at_key rows (row_key n) = Some n" by (rule at_key_in [OF st [THEN conjunct1] n])
    have w: "written (attempt_row env reporter report) (er_Attempts report) (es_attempts s) (row_key n) = Some n"
      by (rule trans [OF st_at [symmetric] at])
    show ?thesis
    proof (cases "find (\<lambda>a. row_key (attempt_row env reporter report a) = row_key n) (er_Attempts report)")
      case None
      with w show ?thesis by (auto simp: written_def dest: at_key_Some)
    next
      case (Some a)
      from find_SomeD [OF Some] have a: "a \<in> set (er_Attempts report)" and k: "row_key (attempt_row env reporter report a) = row_key n"
        by (rule conjunct1, rule conjunct2)
      show ?thesis
      proof (intro disjI2 bexI [OF _ a] conjI)
        show "row_key n = row_key (attempt_row env reporter report a)" by (rule k [symmetric])
        show "case at_key (es_attempts s) (row_key n) of None \<Rightarrow> n = attempt_row env reporter report a
             | Some r \<Rightarrow> n = merge_row (attempt_row env reporter report a) r \<and> continues r a = None"
        proof (cases "at_key (es_attempts s) (row_key n)")
          case None
          with w [unfolded written_def Some] show ?thesis by simp
        next
          case (Some r)
          have "continues r a = None" by (rule st [THEN conjunct2, THEN conjunct2, rule_format, OF a Some [folded k]])
          with w [unfolded written_def \<open>find _ _ = _\<close>] Some show ?thesis by simp
        qed
      qed
    qed
  qed
  with st [THEN conjunct1] show ?thesis by blast
qed

lemma row_key_boot: "row_key a = row_key b \<Longrightarrow> xa_integration a = xa_integration b \<and> ea_ControllerRef (xa_Report a) = ea_ControllerRef (xa_Report b)"
  by (simp add: row_key_def)

lemma merge_later: "later_stamp r n \<Longrightarrow> row_generation (merge_row n r) = row_generation n \<and> xa_Sequence (merge_row n r) = xa_Sequence n
    \<and> row_boot (merge_row n r) = row_boot n"
  by (simp add: merge_row_def row_generation_def row_boot_def)

text \<open>What an accepted report writes comes after everything its boot and the boots before it have written.\<close>

lemma attempt_row_newest:
  assumes acc: "accepted env ws ref actor report s reporter rows" and ok: "exec_ok s" and bkd: "row_backed s r"
    and a: "a \<in> set (er_Attempts report)" and key: "row_key r = row_key (attempt_row env reporter report a)"
  shows "later_stamp r (attempt_row env reporter report a)"
proof -
  define integration where "integration = cn_ID (rp_connection reporter)"
  have a': "ea_ControllerRef a = ref" "ea_InstanceID a = er_InstanceID report" "ea_Generation a = er_Generation report"
    using report_validate_None acc a by (auto simp: accepted_def)
  from fence_facts acc obtain i where i: "i \<in> set (es_instances s)" "boot_of i = (integration, ref, er_InstanceID report)"
      "xi_Generation i = er_Generation report"
    and newest: "newest_generation s integration ref \<le> er_Generation report"
    and last: "last_sequence s integration ref (er_InstanceID report) < er_Sequence report"
    unfolding accepted_def integration_def by blast
  from bkd obtain j x where j: "j \<in> set (es_instances s)" "boot_of j = row_boot r" "xi_Generation j = row_generation r"
      and x: "x \<in> set (es_reports s)" "envelope_boot x = row_boot r" "xa_Sequence r \<le> xe_Sequence x"
    unfolding row_backed_def by blast
  have r: "xa_integration r = integration" "ea_ControllerRef (xa_Report r) = ref"
    using row_key_boot [OF key] a'(1) by (simp_all add: attempt_row_def integration_def)
  with j(2) have jref: "xi_integration j = integration" "xi_controller_ref j = ref" by (simp_all add: boot_of_def row_boot_def)
  have gen: "row_generation r \<le> er_Generation report"
    using newest_ge [OF j(1)] newest jref j(3) by simp
  have n: "row_generation (attempt_row env reporter report a) = er_Generation report" "xa_Sequence (attempt_row env reporter report a) = er_Sequence report"
    using a'(3) by (simp_all add: attempt_row_def row_generation_def)
  show ?thesis
  proof (cases "row_generation r = er_Generation report")
    case True
    have "distinct (map generation_of (es_instances s))" using ok unfolding exec_ok_def by blast
    then have "inj_on generation_of (set (es_instances s))" unfolding distinct_map by (rule conjunct2)
    moreover have "generation_of j = generation_of i"
      using i(2,3) j(3) jref True by (simp add: generation_of_def boot_of_def)
    ultimately have "j = i" using i(1) j(1) by (blast dest: inj_onD)
    with i(2) j(2) x(2) have "envelope_boot x = (integration, ref, er_InstanceID report)" by simp
    with last_ge [OF x(1)] last x(3) have "xa_Sequence r < er_Sequence report" by (simp add: envelope_boot_def)
    with True n show ?thesis by (simp add: later_stamp_def)
  next
    case False
    with gen n show ?thesis by (simp add: later_stamp_def)
  qed
qed

lemma accepted_row_later:
  assumes acc: "accepted env ws ref actor report s reporter rows" and ok: "exec_ok s" and n: "n \<in> set rows"
  shows "n \<in> set (es_attempts s) \<or> (\<exists>a \<in> set (er_Attempts report). row_key n = row_key (attempt_row env reporter report a)
     \<and> row_generation n = row_generation (attempt_row env reporter report a) \<and> xa_Sequence n = er_Sequence report
     \<and> row_boot n = row_boot (attempt_row env reporter report a))"
proof -
  have seq: "xa_Sequence (attempt_row env reporter report a) = er_Sequence report" for a by (simp add: attempt_row_def)
  show ?thesis
  proof (cases "n \<in> set (es_attempts s)")
    case False
    with accepted_rows [OF acc ok, THEN conjunct2, rule_format, OF n]
    obtain a where a: "a \<in> set (er_Attempts report)" "row_key n = row_key (attempt_row env reporter report a)"
      and old: "case at_key (es_attempts s) (row_key n) of None \<Rightarrow> n = attempt_row env reporter report a
             | Some r \<Rightarrow> n = merge_row (attempt_row env reporter report a) r \<and> continues r a = None" by blast
    show ?thesis
    proof (cases "at_key (es_attempts s) (row_key n)")
      case None
      with old have "n = attempt_row env reporter report a" by simp
      with a seq show ?thesis by blast
    next
      case (Some r)
      with old have e: "n = merge_row (attempt_row env reporter report a) r" by simp
      from at_key_Some [OF Some] have r: "r \<in> set (es_attempts s)" "row_key r = row_key n" by (rule conjunct1, rule conjunct2)
      from ok r(1) have bkd: "row_backed s r" unfolding exec_ok_def by blast
      note later = attempt_row_newest [OF acc ok bkd a(1) r(2) [THEN trans, OF a(2)]]
      from merge_later [OF later] e a seq show ?thesis by (intro disjI2 bexI [of _ a]) simp_all
    qed
  qed simp
qed

lemma reported_backed:
  assumes acc: "accepted env ws ref actor report s reporter rows" and ok: "exec_ok s" and n: "n \<in> set rows"
  shows "row_backed (with_report (envelope_for env reporter ref report) rows s) n"
proof -
  let ?t = "with_report (envelope_for env reporter ref report) rows s"
  from accepted_row_later [OF acc ok n] show ?thesis
  proof
    assume "n \<in> set (es_attempts s)"
    with ok have "row_backed s n" unfolding exec_ok_def by blast
    then show ?thesis by (rule row_backed_mono) auto
  next
    assume "\<exists>a \<in> set (er_Attempts report). row_key n = row_key (attempt_row env reporter report a)
     \<and> row_generation n = row_generation (attempt_row env reporter report a) \<and> xa_Sequence n = er_Sequence report
     \<and> row_boot n = row_boot (attempt_row env reporter report a)"
    then obtain a where a: "a \<in> set (er_Attempts report)" and n': "row_generation n = row_generation (attempt_row env reporter report a)"
      "xa_Sequence n = er_Sequence report" "row_boot n = row_boot (attempt_row env reporter report a)" by blast
    have a': "ea_ControllerRef a = ref" "ea_InstanceID a = er_InstanceID report" "ea_Generation a = er_Generation report"
      using report_validate_None acc a by (auto simp: accepted_def)
    have boot: "row_boot n = (cn_ID (rp_connection reporter), ref, er_InstanceID report)" "row_generation n = er_Generation report"
      using n' a' by (simp_all add: attempt_row_def row_boot_def row_generation_def)
    from fence_facts acc obtain i where i: "i \<in> set (es_instances s)" "boot_of i = (cn_ID (rp_connection reporter), ref, er_InstanceID report)"
      "xi_Generation i = er_Generation report" unfolding accepted_def by blast
    have x: "envelope_boot (envelope_for env reporter ref report) = row_boot n" "xa_Sequence n \<le> xe_Sequence (envelope_for env reporter ref report)"
      using boot n'(2) by (simp_all add: envelope_boot_def envelope_for_def)
    have "\<exists>i \<in> set (es_instances ?t). boot_of i = row_boot n \<and> xi_Generation i = row_generation n"
      unfolding boot using i by auto
    moreover have "\<exists>x \<in> set (es_reports ?t). envelope_boot x = row_boot n \<and> xa_Sequence n \<le> xe_Sequence x"
      using x by (intro bexI [of _ "envelope_for env reporter ref report"]) simp_all
    ultimately show ?thesis unfolding row_backed_def by (rule conjI)
  qed
qed

lemma reported_ok:
  assumes acc: "accepted env ws ref actor report s reporter rows" and ok: "exec_ok s"
  shows "exec_ok (with_report (envelope_for env reporter ref report) rows s)"
proof -
  let ?x = "envelope_for env reporter ref report"
  have "last_sequence s (cn_ID (rp_connection reporter)) ref (er_InstanceID report) < er_Sequence report"
    using fence_facts acc by (auto simp: accepted_def)
  then have "(envelope_boot ?x, xe_Sequence ?x) \<notin> (\<lambda>x. (envelope_boot x, xe_Sequence x)) ` set (es_reports s)"
    using last_ge [of _ s] by (fastforce simp: envelope_boot_def envelope_for_def)
  with ok have "distinct (map (\<lambda>x. (envelope_boot x, xe_Sequence x)) (es_reports s @ [?x]))"
    unfolding exec_ok_def by simp
  moreover have "distinct (map row_key rows)" using accepted_rows [OF acc ok] by (rule conjunct1)
  moreover have "\<forall>r \<in> set rows. row_backed (with_report ?x rows s) r" using reported_backed [OF acc ok] by blast
  ultimately show ?thesis using ok unfolding exec_ok_def with_report_simps by blast
qed

lemma reported_fenced:
  assumes acc: "accepted env ws ref actor report s reporter rows" and ok: "exec_ok s" and f: "fenced r s"
  shows "fenced r (with_report (envelope_for env reporter ref report) rows s)"
  unfolding fenced_def with_report_simps
proof (intro conjI ballI impI)
  from f have r: "row_backed s r" unfolding fenced_def by (rule conjunct1)
  then show "row_backed (with_report (envelope_for env reporter ref report) rows s) r" by (rule row_backed_mono) auto
  fix n assume n: "n \<in> set rows" and k: "row_key n = row_key r"
  from accepted_row_later [OF acc ok n] show "n = r \<or> later_stamp r n"
  proof
    assume "n \<in> set (es_attempts s)"
    with f k show ?thesis unfolding fenced_def by blast
  next
    assume "\<exists>a \<in> set (er_Attempts report). row_key n = row_key (attempt_row env reporter report a)
     \<and> row_generation n = row_generation (attempt_row env reporter report a) \<and> xa_Sequence n = er_Sequence report
     \<and> row_boot n = row_boot (attempt_row env reporter report a)"
    then obtain a where a: "a \<in> set (er_Attempts report)" "row_key n = row_key (attempt_row env reporter report a)"
      and n': "row_generation n = row_generation (attempt_row env reporter report a)" "xa_Sequence n = er_Sequence report" by blast
    note later = attempt_row_newest [OF acc ok r a(1) k [symmetric, THEN trans, OF a(2)]]
    have "xa_Sequence (attempt_row env reporter report a) = er_Sequence report" by (simp add: attempt_row_def)
    with later n' have "later_stamp r n" by (simp add: later_stamp_def)
    then show ?thesis by (rule disjI2)
  qed
qed

text \<open>Retention keeps the newest envelope of every boot, so nothing it forgets can come back.\<close>

lemma retain_simps [simp]:
  "es_instances (retain i ref cutoff s) = es_instances s"
  "set (es_attempts (retain i ref cutoff s)) \<subseteq> set (es_attempts s)"
  "set (es_reports (retain i ref cutoff s)) \<subseteq> set (es_reports s)"
  by (auto simp: retain_def)

lemma retain_distinct:
  "distinct (map f (es_reports s)) \<Longrightarrow> distinct (map f (es_reports (retain i ref cutoff s)))"
  "distinct (map g (es_attempts s)) \<Longrightarrow> distinct (map g (es_attempts (retain i ref cutoff s)))"
  by (simp_all add: retain_def distinct_map_filter)

lemma retain_newest:
  assumes "x \<in> set (es_reports s)"
  shows "\<exists>y \<in> set (es_reports (retain i ref cutoff s)). envelope_boot y = envelope_boot x \<and> xe_Sequence x \<le> xe_Sequence y"
proof -
  let ?xs = "envelopes_of s (xe_integration x) (xe_controller_ref x) (xe_InstanceID x)"
  have "x \<in> set ?xs" using assms by (simp add: envelopes_of_def)
  then have "map xe_Sequence ?xs \<noteq> []" by auto
  from max_or_zero_in [OF this] obtain y where y: "y \<in> set ?xs"
      "xe_Sequence y = last_sequence s (xe_integration x) (xe_controller_ref x) (xe_InstanceID x)"
    by (auto simp: last_sequence_def)
  from y(1) have y': "y \<in> set (es_reports s)" "envelope_boot y = envelope_boot x"
    by (simp_all add: envelopes_of_def envelope_boot_def)
  have "y \<in> set (es_reports (retain i ref cutoff s))"
    using y y' by (auto simp: retain_def envelope_boot_def)
  moreover have "xe_Sequence x \<le> xe_Sequence y" using last_ge [OF assms] y(2) by simp
  ultimately show ?thesis using y'(2) by blast
qed

lemma retain_backed: "row_backed s r \<Longrightarrow> row_backed (retain i ref cutoff s) r"
proof -
  assume r: "row_backed s r"
  then obtain x where x: "x \<in> set (es_reports s)" "envelope_boot x = row_boot r" "xa_Sequence r \<le> xe_Sequence x"
    unfolding row_backed_def by blast
  from retain_newest [OF x(1), of i ref cutoff] obtain y where y: "y \<in> set (es_reports (retain i ref cutoff s))"
      "envelope_boot y = envelope_boot x" "xe_Sequence x \<le> xe_Sequence y" by blast
  have "envelope_boot y = row_boot r" using y(2) x(2) by (rule trans)
  moreover have "xa_Sequence r \<le> xe_Sequence y" using x(3) y(3) by simp
  ultimately show ?thesis using r y(1) unfolding row_backed_def retain_simps by blast
qed

lemma retain_ok: "exec_ok s \<Longrightarrow> exec_ok (retain i ref cutoff s)"
proof -
  assume ok: "exec_ok s"
  then have "distinct (map (\<lambda>x. (envelope_boot x, xe_Sequence x)) (es_reports (retain i ref cutoff s)))"
    unfolding exec_ok_def by (blast intro: retain_distinct(1))
  moreover have "distinct (map row_key (es_attempts (retain i ref cutoff s)))"
    using ok unfolding exec_ok_def by (blast intro: retain_distinct(2))
  moreover have "\<forall>r \<in> set (es_attempts (retain i ref cutoff s)). row_backed (retain i ref cutoff s) r"
    using ok retain_simps(2) unfolding exec_ok_def by (blast intro: retain_backed)
  ultimately show ?thesis using ok unfolding exec_ok_def retain_simps(1) by blast
qed

lemma retain_fenced: "fenced r s \<Longrightarrow> fenced r (retain i ref cutoff s)"
  unfolding fenced_def using retain_backed retain_simps(2) by blast

section \<open>Runs of requests\<close>

datatype exec_request =
    Boot exec_env uuid string RuntimeActor ExecutionInstanceRequest
  | Report exec_env uuid string RuntimeActor ExecutionReport

fun exec_step :: "exec_store \<Rightarrow> exec_request \<Rightarrow> exec_store" where
  "exec_step s (Boot env ws ref actor req) = snd (RegisterExecutionInstance env ws ref actor req s)"
| "exec_step s (Report env ws ref actor report) = snd (ReportExecutions env ws ref actor report s)"

definition exec_run :: "exec_store \<Rightarrow> exec_request list \<Rightarrow> exec_store" where
  "exec_run = foldl exec_step"

lemma exec_step_ok: "exec_ok s \<Longrightarrow> exec_ok (exec_step s q)"
proof (cases q)
  case (Boot env ws ref actor req)
  assume ok: "exec_ok s"
  obtain r t where e: "RegisterExecutionInstance env ws ref actor req s = (r, t)" by fastforce
  from Register_cases [OF e] registered_ok [OF ok] have "exec_ok t" using ok by blast
  with Boot e show ?thesis by simp
next
  case (Report env ws ref actor report)
  assume ok: "exec_ok s"
  obtain r t where e: "ReportExecutions env ws ref actor report s = (r, t)" by fastforce
  from Report_cases [OF e] have "exec_ok t" using ok retain_ok [OF reported_ok [OF _ ok]] by blast
  with Report e show ?thesis by simp
qed

lemma exec_step_fenced: "exec_ok s \<Longrightarrow> fenced r s \<Longrightarrow> fenced r (exec_step s q)"
proof (cases q)
  case (Boot env ws ref actor req)
  assume f: "fenced r s"
  obtain u t where e: "RegisterExecutionInstance env ws ref actor req s = (u, t)" by fastforce
  from Register_cases [OF e] have "fenced r t" using f registered_fenced [OF f] by blast
  with Boot e show ?thesis by simp
next
  case (Report env ws ref actor report)
  assume ok: "exec_ok s" and f: "fenced r s"
  obtain u t where e: "ReportExecutions env ws ref actor report s = (u, t)" by fastforce
  from Report_cases [OF e] have "fenced r t" using f retain_fenced [OF reported_fenced [OF _ ok f]] by blast
  with Report e show ?thesis by simp
qed

end
