(* ===== verification/Execution_Properties.thy ===== *)
theory Execution_Properties
  imports Runtime_Execution
begin

text \<open>
  What execution telemetry promises: the stored state of an attempt never goes back, reports stay inside the scope their
  controller was admitted to, replays are harmless, and a state is called current only while it is fresh.
\<close>

section \<open>Runs\<close>

definition empty_exec_store :: exec_store where
  "empty_exec_store = \<lparr>es_instances = [], es_reports = [], es_attempts = []\<rparr>"

lemma empty_exec_ok: "exec_ok empty_exec_store"
  by (simp add: exec_ok_def empty_exec_store_def)

interpretation telemetry: state_machine "\<lambda>s. s = empty_exec_store" "\<lambda>s q t. t = exec_step s q" exec_ok
  by unfold_locales (simp_all add: empty_exec_ok exec_step_ok)

lemma telemetry_fold: "telemetry.run s qs (exec_run s qs)"
  by (induction qs arbitrary: s) (auto simp: exec_run_def intro: telemetry.run.intros)

lemma stored_fenced:
  assumes "exec_ok s" and "r \<in> set (es_attempts s)"
  shows "fenced r s"
  unfolding fenced_def
proof (intro conjI ballI impI disjI1)
  show "row_backed s r" using assms unfolding exec_ok_def by blast
  fix n assume "n \<in> set (es_attempts s)" "row_key n = row_key r"
  moreover have "inj_on row_key (set (es_attempts s))" using assms(1) unfolding exec_ok_def distinct_map by blast
  ultimately show "n = r" using assms(2) by (blast dest: inj_onD)
qed

lemma run_fenced:
  assumes "telemetry.run s qs t" and "exec_ok s" and "fenced r s"
  shows "fenced r t"
  using telemetry.run_monotone [OF assms(1), of "\<lambda>a b. fenced r a \<longrightarrow> fenced r b"] assms(2,3) exec_step_fenced by blast

text \<open>C6. The stored state of an attempt never goes back: over any run of boots and reports, by any controllers, with any
  clocks, grants and catalogs, a row that has the key of an earlier row is that row or comes from a newer boot, or from a
  later report of the same boot. Retention cannot be used to bring an old state back.\<close>

theorem executions_never_regress:
  assumes "telemetry.run s qs t" and "exec_ok s" and "r \<in> set (es_attempts s)" and "n \<in> set (es_attempts t)"
    and "row_key n = row_key r"
  shows "n = r \<or> row_generation r < row_generation n \<or> row_generation r = row_generation n \<and> xa_Sequence r < xa_Sequence n"
proof -
  have "fenced r t" using run_fenced [OF assms(1,2)] stored_fenced [OF assms(2,3)] by blast
  with assms(4,5) have "n = r \<or> later_stamp r n" unfolding fenced_def by blast
  then show ?thesis unfolding later_stamp_def .
qed

section \<open>One report\<close>

lemma Report_Inr:
  assumes "ReportExecutions env ws ref actor report s = (Inr ack, t)"
  shows "\<exists>reporter. reporter_key ws actor = None \<and> report_validate (ev_now env) ref report = None
     \<and> executionReporter env ws ref actor = Inr reporter
     \<and> (ak_Duplicate ack \<and> t = s \<and> report_fence env (cn_ID (rp_connection reporter)) ref report s = Inr None
        \<or> \<not> ak_Duplicate ack \<and> (\<exists>rows. accepted env ws ref actor report s reporter rows
           \<and> t = retain (cn_ID (rp_connection reporter)) ref (ev_now env - executionReportRetention)
                   (with_report (envelope_for env reporter ref report) rows s)))"
proof (cases "guard_res (reporter_key ws actor) (guard_res (map_option Refused (report_validate (ev_now env) ref report))
             (executionReporter env ws ref actor))")
  case (Inl e)
  with assms show ?thesis by (simp add: ReportExecutions_def)
next
  case (Inr reporter)
  then have g: "reporter_key ws actor = None" "report_validate (ev_now env) ref report = None"
      "executionReporter env ws ref actor = Inr reporter" by simp_all
  note unfolded = assms [unfolded ReportExecutions_def Let_def Inr sum.case]
  show ?thesis
  proof (cases "report_fence env (cn_ID (rp_connection reporter)) ref report s")
    case (Inl e)
    with unfolded show ?thesis by simp
  next
    case f: (Inr u)
    show ?thesis
    proof (cases u)
      case None
      with unfolded f have "ak_Duplicate ack \<and> t = s" by auto
      with g f None show ?thesis by blast
    next
      case u: (Some v)
      with unfolded f obtain rows where rows: "store_attempts env reporter ref report (er_Attempts report) [] (es_attempts s) = Inr rows"
          and t: "\<not> ak_Duplicate ack" "t = retain (cn_ID (rp_connection reporter)) ref (ev_now env - executionReportRetention)
             (with_report (envelope_for env reporter ref report) rows s)"
        by (auto simp: with_report_def envelope_for_def split: sum.split_asm)
      from g f u rows have "accepted env ws ref actor report s reporter rows" unfolding accepted_def by simp
      with g t show ?thesis by blast
    qed
  qed
qed

text \<open>The scope a stored attempt was admitted in, and the reporter that may speak for it.\<close>

definition attempt_admitted :: "exec_env \<Rightarrow> execution_reporter \<Rightarrow> string \<Rightarrow> ExecutionAttemptReport \<Rightarrow> bool" where
  "attempt_admitted env reporter ref a \<longleftrightarrow> (\<exists>binding fingerprint.
     map_of (ca_Bindings (rp_catalog reporter)) (ea_BindingRef a) = Some binding
     \<and> rb_Binding binding = \<lparr>ri_AgentID = ea_AgentID a, ri_WorkspaceID = ea_WorkspaceID a, ri_GrantID = ri_GrantID (rb_Binding binding)\<rparr>
     \<and> (\<exists>p \<in> set (rb_PermittedProfiles binding). pf_ControllerRef (Profiles_at (rp_catalog reporter) p) = ref)
     \<and> runtimeGrant (ev_lib env) (ev_world env) (rb_Binding binding) = Inr fingerprint
     \<and> ra_PermittedProfiles (runtimeAdmission (ev_world env) (cn_ID (rp_connection reporter)) (ea_BindingRef a) binding fingerprint
          (snd (runtimeRevision (ev_world env) (cn_ID (rp_connection reporter))))) \<noteq> []
     \<and> (ea_ProjectID a, ea_WorkspaceID a) \<in> set (ev_projects env) \<and> (ea_ProjectID a, ea_AgentID a) \<in> set (ev_members env)
     \<and> (ExecutionTerminal (ea_State a) \<or> ea_ProjectID a \<in> set (ev_runner_projects env))
     \<and> (case ea_TaskID a of None \<Rightarrow> True | Some t \<Rightarrow> (t, ea_ProjectID a) \<in> set (ev_tasks env)))"

lemma attempt_scope_admitted: "attempt_scope env reporter ref a = None \<Longrightarrow> attempt_admitted env reporter ref a"
  unfolding attempt_admitted_def attempt_scope_def Let_def
  by (auto simp: list_ex_iff split: option.split_asm if_split_asm sum.split_asm)

text \<open>C20. A report is stored only inside its controller's scope: the caller is the owner-workspace agent whose live grant
  the catalog names as the controller's reporter; the boot is the newest of the controller, the sequence is new; and every
  attempt, the ones whose check came out of the cache included, names a binding of its exact agent and workspace with a
  profile of this controller, a live grant, a standing admission, a live project with the agent as a member and, unless
  the attempt is over, the Runner on, and a task of that project. An acknowledgement never authorises a launch.\<close>

theorem reports_stay_in_scope:
  assumes "ReportExecutions env ws ref actor report s = (Inr ack, t)" and "\<not> ak_Duplicate ack" and "a \<in> set (er_Attempts report)"
  shows "\<exists>reporter fingerprint. \<not> ac_Connector actor \<and> ac_AuthWorkspaceID actor = ws \<and> executionReporter env ws ref actor = Inr reporter
     \<and> map_of (ca_Controllers (rp_catalog reporter)) ref = Some (rp_controller reporter)
     \<and> runtimeGrant (ev_lib env) (ev_world env)
          \<lparr>ri_AgentID = ac_AgentID actor, ri_WorkspaceID = ws, ri_GrantID = rc_ReporterGrantID (rp_controller reporter)\<rparr> = Inr fingerprint
     \<and> newest_generation s (cn_ID (rp_connection reporter)) ref \<le> er_Generation report
     \<and> last_sequence s (cn_ID (rp_connection reporter)) ref (er_InstanceID report) < er_Sequence report
     \<and> ea_ControllerRef a = ref \<and> ea_Generation a = er_Generation report
     \<and> attempt_admitted env reporter ref a \<and> \<not> ak_LaunchAuthorized ack"
proof -
  from Report_Inr [OF assms(1)] assms(2) obtain reporter rows where acc: "accepted env ws ref actor report s reporter rows"
      and k: "reporter_key ws actor = None" and v: "report_validate (ev_now env) ref report = None"
      and r: "executionReporter env ws ref actor = Inr reporter" by blast
  from k have actor: "\<not> ac_Connector actor" "ac_AuthWorkspaceID actor = ws" by (simp_all add: reporter_key_def)
  from r obtain fp where c: "map_of (ca_Controllers (rp_catalog reporter)) ref = Some (rp_controller reporter)"
      "runtimeGrant (ev_lib env) (ev_world env)
          \<lparr>ri_AgentID = ac_AgentID actor, ri_WorkspaceID = ws, ri_GrantID = rc_ReporterGrantID (rp_controller reporter)\<rparr> = Inr fp"
    by (auto simp: executionReporter_def k split: option.split_asm)
  note valid = report_validate_None [OF v]
  have "\<forall>a \<in> set (er_Attempts report). attempt_scope env reporter ref a = None"
    using acc valid by (intro store_attempts_scope) (auto simp: accepted_def)
  with assms(3) have "attempt_admitted env reporter ref a" by (blast intro: attempt_scope_admitted)
  moreover have "\<not> ak_LaunchAuthorized ack"
    using assms(1) by (auto simp: ReportExecutions_def Let_def split: sum.split_asm option.split_asm)
  moreover note fence_facts [of env "cn_ID (rp_connection reporter)" ref report s] acc
  ultimately show ?thesis using actor r c valid assms(3) unfolding accepted_def by blast
qed

section \<open>Finished attempts\<close>

text \<open>A finished attempt does not come back to life while its row is kept: after a report, accepted or not, whatever has
  the key of a finished row is finished too, and a change of turn that claims a model or an effort carries an observation
  later than the stored one, to the microsecond.\<close>

theorem finished_stays_finished:
  assumes "ReportExecutions env ws ref actor report s = (res, t)" and "exec_ok s"
    and "r \<in> set (es_attempts s)" and "n \<in> set (es_attempts t)" and "row_key n = row_key r"
  shows "ExecutionTerminal (ea_State (xa_Report r)) \<le> ExecutionTerminal (ea_State (xa_Report n))
    \<and> (n = r \<or> (\<exists>a \<in> set (er_Attempts report). continues r a = None \<and> ea_State (xa_Report n) = ea_State a
         \<and> ea_TurnID (xa_Report n) = ea_TurnID a \<and> xa_FirstSeenAt n = xa_FirstSeenAt r))"
proof (cases "n \<in> set (es_attempts s)")
  case True
  moreover have "inj_on row_key (set (es_attempts s))" using assms(2) unfolding exec_ok_def distinct_map by blast
  ultimately have "n = r" using assms(3,5) by (blast dest: inj_onD)
  then show ?thesis by simp
next
  case False
  with Report_cases [OF assms(1)] assms(4) obtain reporter rows where acc: "accepted env ws ref actor report s reporter rows"
    and n: "n \<in> set rows" using retain_simps(2) by fastforce
  from False accepted_rows [OF acc assms(2), THEN conjunct2, rule_format, OF n]
  obtain a where a: "a \<in> set (er_Attempts report)" and old: "case at_key (es_attempts s) (row_key n) of None \<Rightarrow> n = attempt_row env reporter report a
             | Some r \<Rightarrow> n = merge_row (attempt_row env reporter report a) r \<and> continues r a = None" by blast
  have "at_key (es_attempts s) (row_key r) = Some r" using assms(2,3) unfolding exec_ok_def by (blast intro: at_key_in)
  with old assms(5) have m: "n = merge_row (attempt_row env reporter report a) r" "continues r a = None" by simp_all
  from False assms(3) m(1) have "later_stamp r (attempt_row env reporter report a)" by (auto simp: merge_row_def split: if_split_asm)
  with m(1) have e: "ea_State (xa_Report n) = ea_State a" "ea_TurnID (xa_Report n) = ea_TurnID a" "xa_FirstSeenAt n = xa_FirstSeenAt r"
    by (simp_all add: merge_row_def attempt_row_def)
  from m(2) e(1) have "ExecutionTerminal (ea_State (xa_Report r)) \<le> ExecutionTerminal (ea_State (xa_Report n))"
    by (auto simp: continues_def Let_def split: if_split_asm)
  with a m(2) e show ?thesis by blast
qed

section \<open>Replays\<close>



lemma executionReporter_clocks [simp]:
  "executionReporter (env\<lparr>ev_now := a, ev_db_now := b\<rparr>) = executionReporter env"
proof -
  have e: "ev_lib (env\<lparr>ev_now := a, ev_db_now := b\<rparr>) = ev_lib env" "ev_world (env\<lparr>ev_now := a, ev_db_now := b\<rparr>) = ev_world env"
    by simp_all
  show ?thesis unfolding executionReporter_def e ..
qed

lemma newest_retain [simp]: "newest_generation (retain i ref c s) = newest_generation s"
  by (simp add: newest_generation_def instances_of_def fun_eq_iff)



section \<open>Boots\<close>

text \<open>A boot gets one generation for life, and a new boot a generation above all earlier ones of its controller: a
  registration either returns the stored generation and changes nothing, or stores exactly one boot, the newest.\<close>

theorem boots_are_fenced:
  assumes "RegisterExecutionInstance env ws ref actor req s = (Inr v, t)" and "exec_ok s"
  shows "\<exists>reporter i. executionReporter env ws ref actor = Inr reporter \<and> i \<in> set (es_instances t)
     \<and> boot_of i = (cn_ID (rp_connection reporter), ref, eq_InstanceID req) \<and> xi_Generation i = ei_Generation v
     \<and> (i \<in> set (es_instances s) \<and> t = s
        \<or> t = s\<lparr>es_instances := es_instances s @ [i]\<rparr> \<and> newest_generation s (cn_ID (rp_connection reporter)) ref < ei_Generation v
          \<and> newest_generation t (cn_ID (rp_connection reporter)) ref = ei_Generation v)"
proof (cases "executionReporter env ws ref actor")
  case (Inl e)
  with assms(1) show ?thesis by (simp add: RegisterExecutionInstance_def split: if_split_asm)
next
  case (Inr reporter)
  let ?i = "cn_ID (rp_connection reporter)"
  show ?thesis
  proof (cases "find (\<lambda>i. xi_InstanceID i = eq_InstanceID req) (instances_of s ?i ref)")
    case (Some i)
    with assms(1) Inr have "t = s" "ei_Generation v = xi_Generation i"
      by (auto simp: RegisterExecutionInstance_def Let_def split: if_split_asm)
    moreover from find_SomeD [OF Some] have "i \<in> set (es_instances s)" "boot_of i = (?i, ref, eq_InstanceID req)"
      by (auto simp: instances_of_def boot_of_def)
    ultimately show ?thesis using Inr by auto
  next
    case None
    define i where "i = \<lparr>xi_integration = ?i, xi_controller_ref = ref, xi_InstanceID = eq_InstanceID req,
                          xi_Generation = newest_generation s ?i ref + 1,
                          xi_GrantID = rc_ReporterGrantID (rp_controller reporter), xi_Fingerprint = rp_fingerprint reporter,
                          xi_ReceivedAt = ev_db_now env\<rparr>"
    from assms(1) Inr None have t: "t = s\<lparr>es_instances := es_instances s @ [i]\<rparr>" and v: "ei_Generation v = newest_generation s ?i ref + 1"
      by (auto simp: RegisterExecutionInstance_def Let_def i_def split: if_split_asm)
    have "newest_generation t ?i ref = newest_generation s ?i ref + 1"
    proof (rule antisym)
      have "i \<in> set (es_instances t)" by (simp add: t)
      from newest_ge [OF this] show "newest_generation s ?i ref + 1 \<le> newest_generation t ?i ref" by (simp add: i_def)
      have "map xi_Generation (instances_of t ?i ref) \<noteq> []" by (simp add: t instances_of_def i_def)
      from max_or_zero_in [OF this] obtain j where j: "j \<in> set (instances_of t ?i ref)" "newest_generation t ?i ref = xi_Generation j"
        by (auto simp: newest_generation_def)
      show "newest_generation t ?i ref \<le> newest_generation s ?i ref + 1"
      proof (cases "j = i")
        case True
        with j(2) show ?thesis by (simp add: i_def)
      next
        case False
        with j(1) have "j \<in> set (es_instances s)" "xi_integration j = ?i" "xi_controller_ref j = ref"
          by (auto simp: t instances_of_def split: if_split_asm)
        with newest_ge [of j s] j(2) show ?thesis by simp
      qed
    qed
    with t v Inr show ?thesis by (intro exI [of _ reporter] exI [of _ i]) (simp add: i_def boot_of_def)
  qed
qed

section \<open>Freshness\<close>

text \<open>How much a shown state may be trusted.\<close>

definition freshness_rank :: "string \<Rightarrow> nat" where
  "freshness_rank f = (if f = ''current'' \<or> f = ''unknown'' then 0 else if f = ''stale'' then 1 else if f = ''offline'' then 2 else 3)"

text \<open>A state is shown as current only while it is: the attempt runs, its controller is live and on its current boot, and
  the heartbeat, the report, its receipt and the model's observation are each at most two minutes old. As the clock moves
  on a state only degrades, from current or unknown to stale to offline, and a finished one stays history.\<close>

theorem freshness_degrades:
  assumes "now \<le> later"
  shows "freshness_rank (ExecutionFreshness now inp) \<le> freshness_rank (ExecutionFreshness later inp)
    \<and> (ExecutionFreshness later inp = ''current'' \<longrightarrow>
         \<not> ExecutionTerminal (fi_State inp) \<and> fi_ControllerLive inp \<and> fi_GenerationCurrent inp \<and> fi_ModelKnown inp
         \<and> (\<forall>t \<in> {fi_HeartbeatAt inp, fi_ReportedAt inp, fi_ReceivedAt inp, fi_ObservedAt inp}. later - t \<le> 120 * 1000000000))
    \<and> (ExecutionFreshness later inp = ''history'' \<longleftrightarrow> ExecutionTerminal (fi_State inp))"
proof -
  have w: "Seconds 120 = 120 * 1000000000" by (simp add: Seconds_def wrap64_def)
  have gt: "time_Sub t u > Seconds 120 \<longleftrightarrow> t - u > 120 * 1000000000" for t u
    unfolding w by (rule time_Sub_gt) (simp_all add: min_duration_def max_duration_def)
  show ?thesis unfolding ExecutionFreshness_def Let_def gt
    using assms by (auto simp: freshness_rank_def)
qed


section \<open>A sample run\<close>

definition sample_exec_env :: "gtime \<Rightarrow> exec_env" where
  "sample_exec_env t = \<lparr>ev_lib = sample_lib, ev_world = sample_world, ev_now = t, ev_db_now = t,
     ev_hash = (\<lambda>r. concat (map ea_State (er_Attempts r))), ev_stored_time = truncate_us,
     ev_projects = [(30, 2)], ev_members = [(30, 1)], ev_runner_projects = [30], ev_tasks = [(20, 30)]\<rparr>"

definition sample_reporter :: RuntimeActor where
  "sample_reporter = \<lparr>ac_UserID = 0, ac_AgentID = 4, ac_AuthWorkspaceID = 2, ac_Connector = False\<rparr>"

definition sample_attempt :: "int \<Rightarrow> string \<Rightarrow> ExecutionAttemptReport" where
  "sample_attempt gen state = \<lparr>ea_WorkspaceID = 2, ea_ProjectID = 30, ea_AgentID = 1, ea_BindingRef = ''g'', ea_TaskID = Some 20,
     ea_ControllerRef = ''k'', ea_InstanceID = (if gen = 1 then ''b1'' else ''b2''), ea_Generation = gen, ea_AttemptID = ''a1'', ea_TurnID = Some ''t1'', ea_State = state,
     ea_ResolvedRoute = \<lparr>ro_Source = ''catalog'', ro_Revision = 1, ro_Digest = None, ro_ProfileRef = Some ''p'', ro_Harness = None,
       ro_Model = None, ro_Effort = None\<rparr>,
     ea_Observed = \<lparr>ob_Harness = None, ob_Model = Some ''m'', ob_Effort = None, ob_Source = ''harness'', ob_ObservedAt = 4000\<rparr>,
     ea_Provenance = None\<rparr>"

definition sample_report :: "int \<Rightarrow> int \<Rightarrow> string \<Rightarrow> ExecutionReport" where
  "sample_report gen seq state = \<lparr>er_SchemaVersion = 1, er_InstanceID = (if gen = 1 then ''b1'' else ''b2''), er_Generation = gen,
     er_Sequence = seq, er_ReportedAt = 5000, er_Attempts = [sample_attempt gen state]\<rparr>"

definition sample_boot :: "string \<Rightarrow> exec_request" where
  "sample_boot i = Boot (sample_exec_env 6000) 2 ''k'' sample_reporter \<lparr>eq_SchemaVersion = 1, eq_InstanceID = i\<rparr>"

definition sample_send :: "int \<Rightarrow> int \<Rightarrow> string \<Rightarrow> exec_request" where
  "sample_send gen seq state = Report (sample_exec_env 7000) 2 ''k'' sample_reporter (sample_report gen seq state)"

definition sample_running :: exec_store where
  "sample_running = exec_run empty_exec_store [sample_boot ''b1'', sample_send 1 1 ''running'']"

definition sample_row :: executionAttemptRow where
  "sample_row = hd (es_attempts sample_running)"

lemma sample_running_ok: "exec_ok sample_running"
  unfolding sample_running_def by (rule telemetry.run_invariant [OF telemetry_fold empty_exec_ok])

lemma sample_row_in: "sample_row \<in> set (es_attempts sample_running)"
proof -
  have "length (es_attempts sample_running) = 1" by code_simp
  then show ?thesis unfolding sample_row_def by (cases "es_attempts sample_running") simp_all
qed

text \<open>A newer boot takes the attempt over; the old boot's late report is refused.\<close>

definition sample_later :: exec_store where
  "sample_later = exec_run sample_running [sample_boot ''b2'', sample_send 2 1 ''completed'', sample_send 1 2 ''running'']"

lemma sample_later_rows: "map (\<lambda>r. (row_generation r, xa_Sequence r, ea_State (xa_Report r))) (es_attempts sample_later) = [(2, 1, ''completed'')]"
  by code_simp

theorem executions_never_regress_witness:
  "\<exists>n \<in> set (es_attempts sample_later). row_key n = row_key sample_row
     \<and> (n = sample_row \<or> row_generation sample_row < row_generation n
        \<or> row_generation sample_row = row_generation n \<and> xa_Sequence sample_row < xa_Sequence n)"
proof -
  obtain n where n: "es_attempts sample_later = [n]"
    using arg_cong [OF sample_later_rows, of length] by (cases "es_attempts sample_later") simp_all
  have "map row_key (es_attempts sample_later) = [row_key sample_row]" by code_simp
  with n have k: "row_key n = row_key sample_row" by simp
  have m: "n \<in> set (es_attempts sample_later)" by (simp add: n)
  with executions_never_regress [OF telemetry_fold sample_running_ok sample_row_in, of n] k
  show ?thesis unfolding sample_later_def by blast
qed

definition sample_stored :: "(failure + ExecutionReportAck) \<times> exec_store" where
  "sample_stored = ReportExecutions (sample_exec_env 8000) 2 ''k'' sample_reporter (sample_report 1 2 ''completed'') sample_running"

definition sample_ack :: ExecutionReportAck where
  "sample_ack = \<lparr>ak_Recorded = True, ak_Duplicate = False, ak_Attempts = 1, ak_LaunchAuthorized = False\<rparr>"

lemma sample_stored_ack: "fst sample_stored = Inr sample_ack"
  by code_simp

lemma sample_stored_eq: "ReportExecutions (sample_exec_env 8000) 2 ''k'' sample_reporter (sample_report 1 2 ''completed'') sample_running
    = (Inr sample_ack, snd sample_stored)"
  using sample_stored_ack by (metis prod.collapse sample_stored_def)

theorem reports_stay_in_scope_witness:
  "attempt_admitted (sample_exec_env 8000) (projr (executionReporter (sample_exec_env 8000) 2 ''k'' sample_reporter)) ''k''
     (sample_attempt 1 ''completed'')"
proof -
  have "sample_attempt 1 ''completed'' \<in> set (er_Attempts (sample_report 1 2 ''completed''))" by (simp add: sample_report_def)
  from reports_stay_in_scope [OF sample_stored_eq _ this] show ?thesis by (auto simp: sample_ack_def)
qed

theorem finished_stays_finished_witness:
  "\<exists>n \<in> set (es_attempts (snd sample_stored)). row_key n = row_key sample_row \<and> ea_State (xa_Report n) = ''completed''
     \<and> xa_FirstSeenAt n = xa_FirstSeenAt sample_row"
proof -
  have rows: "map (\<lambda>r. (row_key r, ea_State (xa_Report r))) (es_attempts (snd sample_stored)) = [(row_key sample_row, ''completed'')]"
    by code_simp
  then obtain n where n: "es_attempts (snd sample_stored) = [n]" "row_key n = row_key sample_row" "ea_State (xa_Report n) = ''completed''"
    by (cases "es_attempts (snd sample_stored)") auto
  have "ea_State (xa_Report sample_row) = ''running''" by code_simp
  with n(3) have "n \<noteq> sample_row" by auto
  with n finished_stays_finished [OF sample_stored_eq sample_running_ok sample_row_in, of n] show ?thesis by auto
qed


definition sample_booted :: "(failure + ExecutionInstance) \<times> exec_store" where
  "sample_booted = RegisterExecutionInstance (sample_exec_env 6000) 2 ''k'' sample_reporter
     \<lparr>eq_SchemaVersion = 1, eq_InstanceID = ''b2''\<rparr> sample_running"

theorem boots_are_fenced_witness:
  "fst sample_booted = Inr \<lparr>ei_SchemaVersion = 1, ei_InstanceID = ''b2'', ei_Generation = 2, ei_ReceivedAt = 6000\<rparr>
   \<and> (\<exists>i \<in> set (es_instances (snd sample_booted)). xi_Generation i = 2 \<and> xi_InstanceID i = ''b2'')"
proof -
  have v: "fst sample_booted = Inr \<lparr>ei_SchemaVersion = 1, ei_InstanceID = ''b2'', ei_Generation = 2, ei_ReceivedAt = 6000\<rparr>" by code_simp
  then have "RegisterExecutionInstance (sample_exec_env 6000) 2 ''k'' sample_reporter
     \<lparr>eq_SchemaVersion = 1, eq_InstanceID = ''b2''\<rparr> sample_running
    = (Inr \<lparr>ei_SchemaVersion = 1, ei_InstanceID = ''b2'', ei_Generation = 2, ei_ReceivedAt = 6000\<rparr>, snd sample_booted)"
    by (metis prod.collapse sample_booted_def)
  from boots_are_fenced [OF this sample_running_ok] v show ?thesis by (auto simp: boot_of_def)
qed

definition sample_freshness :: ExecutionFreshnessInput where
  "sample_freshness = \<lparr>fi_State = ''running'', fi_ModelKnown = True, fi_ObservedAt = 10, fi_HeartbeatAt = 10, fi_ReportedAt = 10,
     fi_ReceivedAt = 10, fi_GenerationCurrent = True, fi_ControllerLive = True\<rparr>"

theorem freshness_degrades_witness:
  "ExecutionFreshness 20 sample_freshness = ''current''
   \<and> freshness_rank (ExecutionFreshness 20 sample_freshness) \<le> freshness_rank (ExecutionFreshness 200000000000 sample_freshness)"
proof -
  have "ExecutionFreshness 20 sample_freshness = ''current''" by code_simp
  with freshness_degrades [of 20 200000000000 sample_freshness] show ?thesis by simp
qed

end
