(* ===== verification/Go_Strings.thy ===== *)
theory Go_Strings
  imports Prelude "HOL-Library.Sublist"
begin

text \<open>
  What the components use of \<open>strings.TrimSpace\<close>: it removes a prefix and a suffix of white space, and trimming twice is
  trimming once.
\<close>

lemma strip_all_id: "strip_one encs s = None \<Longrightarrow> strip_all encs s = s"
  by (subst strip_all.simps) simp

lemma strip_one_prefix: "strip_one encs s = Some t \<Longrightarrow> \<exists>e \<in> set encs. s = e @ t"
proof -
  assume h: "strip_one encs s = Some t"
  then obtain e es where f: "filter (\<lambda>e. take (length e) s = e) encs = e # es" and t: "t = drop (length e) s"
    by (auto simp: strip_one_def split: list.splits if_splits)
  then have "e \<in> set (filter (\<lambda>e. take (length e) s = e) encs)" by simp
  then have "e \<in> set encs" "take (length e) s = e" by auto
  with t show ?thesis by (metis append_take_drop_id)
qed

lemma strip_all_done: "list_all (\<lambda>e. e \<noteq> []) encs \<Longrightarrow> strip_one encs (strip_all encs s) = None \<and> suffix (strip_all encs s) s"
proof (induction encs s rule: strip_all.induct)
  case (1 encs s)
  show ?case
  proof (cases "strip_one encs s")
    case None
    then show ?thesis by (simp add: strip_all_id)
  next
    case (Some t)
    then have e: "strip_all encs s = strip_all encs t" by (subst strip_all.simps) simp
    have "suffix t s" using strip_one_prefix [OF Some] by (auto simp: suffix_def)
    with 1 Some e show ?thesis by (metis suffix_order.order_trans)
  qed
qed

lemma strip_one_None:
  assumes "list_all (\<lambda>e. e \<noteq> []) encs"
  shows "strip_one encs s = None \<longleftrightarrow> (\<forall>e\<in>set encs. \<not> prefix e s)"
proof -
  have "prefix e s \<longleftrightarrow> take (length e) s = e" for e by (metis append_eq_conv_conj prefix_def)
  then have "filter (\<lambda>e. take (length e) s = e) encs = filter (\<lambda>e. prefix e s) encs" by simp
  then have one: "strip_one encs s = (case filter (\<lambda>e. prefix e s) encs of [] \<Rightarrow> None | e # _ \<Rightarrow> if e = [] then None else Some (drop (length e) s))"
    by (simp add: strip_one_def)
  show ?thesis
  proof (cases "filter (\<lambda>e. prefix e s) encs")
    case Nil
    then show ?thesis by (auto simp: one filter_empty_conv)
  next
    case (Cons e es)
    then have "e \<in> set (filter (\<lambda>e. prefix e s) encs)" by simp
    then have "e \<in> set encs" "prefix e s" by simp_all
    with assms Cons show ?thesis by (auto simp: one list_all_iff)
  qed
qed

lemma encodings_nonempty: "list_all (\<lambda>e. e \<noteq> []) space_encodings" "list_all (\<lambda>e. e \<noteq> []) (map rev space_encodings)"
  by code_simp+

lemma TrimSpace_idem [simp]: "TrimSpace (TrimSpace s) = TrimSpace s"
proof -
  define l where "l = strip_all space_encodings s"
  define r where "r = strip_all (map rev space_encodings) (rev l)"
  have l: "strip_one space_encodings l = None" using strip_all_done [OF encodings_nonempty(1)] by (simp add: l_def)
  have r: "strip_one (map rev space_encodings) r = None" "suffix r (rev l)"
    using strip_all_done [OF encodings_nonempty(2)] by (simp_all add: r_def)
  have "prefix (rev r) l" using r(2) by (simp add: suffix_to_prefix)
  then have "strip_one space_encodings (rev r) = None"
    using l unfolding strip_one_None [OF encodings_nonempty(1)] by (meson prefix_order.order_trans)
  then have "strip_all space_encodings (rev r) = rev r" by (rule strip_all_id)
  then have "TrimSpace (rev r) = rev r" using r(1) by (simp add: TrimSpace_def strip_all_id)
  moreover have "TrimSpace s = rev r" by (simp add: TrimSpace_def r_def l_def)
  ultimately show ?thesis by simp
qed

end
