(* ===== verification/Dependency_Condition.thy ===== *)
theory Dependency_Condition
  imports Api_Error Go_Strings
begin

text \<open>
  The dependency edge and what releases it: \<open>internal/domain/task.go\<close>. The rule exists twice, as the Go method
  \<open>Released\<close> and as the SQL text \<open>DependencyReleasedSQL\<close> that every query embeds; the SQL text is
  translated into the three-valued logic it is evaluated in (\<^const>\<open>None\<close> is NULL).
\<close>

section \<open>Edges\<close>

definition Blocks :: string where "Blocks = ''blocks''"
definition RelatesTo :: string where "RelatesTo = ''relates_to''"
definition IsChildOf :: string where "IsChildOf = ''is_child_of''"

definition TaskDone :: string where "TaskDone = ''task_done''"
definition AccessReady :: string where "AccessReady = ''access_ready''"
definition ContractReady :: string where "ContractReady = ''contract_ready''"
definition ArtifactPublished :: string where "ArtifactPublished = ''artifact_published''"
definition Shipped :: string where "Shipped = ''shipped''"
definition Deployed :: string where "Deployed = ''deployed''"
definition Accepted :: string where "Accepted = ''accepted''"

lemmas dependency_names = Blocks_def RelatesTo_def IsChildOf_def TaskDone_def AccessReady_def ContractReady_def
  ArtifactPublished_def Shipped_def Deployed_def Accepted_def

definition condition_Valid :: "string \<Rightarrow> bool" where
  "condition_Valid c \<longleftrightarrow> c \<in> {TaskDone, AccessReady, ContractReady, ArtifactPublished, Shipped, Deployed, Accepted}"

record TaskDependency =
  td_ID :: uuid
  td_TaskID :: uuid
  td_DependsOnTaskID :: uuid
  td_DependencyType :: string
  td_CreatedAt :: gtime
  td_Condition :: string
  td_EvidenceURL :: "string option"
  td_ConditionMetAt :: "gtime option"
  td_ConditionSatisfied :: bool
  td_Warning :: string

definition EvidenceSatisfied :: "TaskDependency \<Rightarrow> bool" where
  "EvidenceSatisfied d \<longleftrightarrow> td_Condition d \<noteq> '''' \<and> td_Condition d \<noteq> TaskDone
     \<and> td_ConditionMetAt d \<noteq> None \<and> (case td_EvidenceURL d of None \<Rightarrow> False | Some u \<Rightarrow> TrimSpace u \<noteq> '''')"

record BlockerState =
  bl_Category :: string
  bl_IsShipped :: bool
  bl_HasDeployment :: bool

definition NeedsDeploymentLookup :: "TaskDependency \<Rightarrow> bool" where
  "NeedsDeploymentLookup d \<longleftrightarrow> td_DependencyType d = Blocks \<and> td_Condition d = Deployed \<and> \<not> EvidenceSatisfied d"

definition dep_released :: "TaskDependency \<Rightarrow> BlockerState \<Rightarrow> bool" where
  "dep_released d b =
     (if td_DependencyType d \<noteq> Blocks then True
      else if EvidenceSatisfied d then True
      else let finished = bl_Category b = ''done'' in
        if td_Condition d = Shipped then bl_IsShipped b \<or> finished
        else if td_Condition d = Deployed then bl_IsShipped b \<or> bl_HasDeployment b
        else if td_Condition d = Accepted then finished
        else finished \<or> bl_Category b = ''cancelled'')"

section \<open>The SQL twin\<close>

text \<open>A stored edge row (\<open>condition\<close> and \<open>dependency_type\<close> are NOT NULL) left-joined with its blocker: the blocker's
  columns and its status category are NULL when the row is missing. The deployment test is an EXISTS.\<close>

record blocker_row =
  br_is_shipped :: "bool option"
  br_category :: "string option"
  br_deployed :: bool

text \<open>\<open>btrim(text)\<close> with one argument removes spaces, and only spaces.\<close>

definition btrim :: "string \<Rightarrow> string" where
  "btrim s = rev (dropWhile (\<lambda>c. c = CHR '' '') (rev (dropWhile (\<lambda>c. c = CHR '' '') s)))"

definition DependencySatisfiedSQL :: "TaskDependency \<Rightarrow> sql_bool" where
  "DependencySatisfiedSQL d =
     sql_and (Some (td_Condition d \<noteq> TaskDone))
       (sql_and (Some (td_ConditionMetAt d \<noteq> None))
                (Some (coalesce '''' (map_option btrim (td_EvidenceURL d)) \<noteq> '''')))"

definition DependencyReleasedSQL :: "TaskDependency \<Rightarrow> blocker_row \<Rightarrow> bool" where
  "DependencyReleasedSQL d b =
     coalesce False
       (sql_or (Some (td_DependencyType d \<noteq> Blocks))
         (sql_or (DependencySatisfiedSQL d)
           (if td_Condition d = Shipped then sql_or (br_is_shipped b) (sql_eq (br_category b) ''done'')
            else if td_Condition d = Deployed then sql_or (br_is_shipped b) (Some (br_deployed b))
            else if td_Condition d = Accepted then sql_eq (br_category b) ''done''
            else sql_or (sql_eq (br_category b) ''done'') (sql_eq (br_category b) ''cancelled''))))"

text \<open>What the Go reader makes of the same blocker: an unknown category is the empty string.\<close>

definition blocker_state :: "blocker_row \<Rightarrow> BlockerState" where
  "blocker_state b = \<lparr>bl_Category = coalesce '''' (br_category b), bl_IsShipped = coalesce False (br_is_shipped b),
                      bl_HasDeployment = br_deployed b\<rparr>"

text \<open>A stored edge: a named condition, and evidence on which the two trimming functions agree. Both writers
  (\<open>Create\<close> and \<open>UpdateCondition\<close>) store no blank evidence.\<close>

definition storable :: "TaskDependency \<Rightarrow> bool" where
  "storable d \<longleftrightarrow> td_Condition d \<noteq> ''''
     \<and> (case td_EvidenceURL d of None \<Rightarrow> True | Some u \<Rightarrow> TrimSpace u \<noteq> '''')"

text \<open>A space is the first encoding that can start with a space character, so leading spaces are stripped.\<close>

lemma space_encodings_start:
  "list_all (\<lambda>e. e \<noteq> [] \<and> (hd e = CHR '' '' \<longrightarrow> e = '' '')) space_encodings"
  "filter (\<lambda>e. e = '' '') space_encodings = ['' '']"
  by code_simp+

lemma strip_all_space: "strip_all space_encodings (CHR '' '' # s) = strip_all space_encodings s"
proof -
  have "take (length e) (CHR '' '' # s) = e \<longleftrightarrow> e = '' ''" if "e \<in> set space_encodings" for e
  proof -
    have "e \<noteq> []" "hd e = CHR '' '' \<longrightarrow> e = '' ''" using that space_encodings_start(1) by (auto simp: list_all_iff)
    then show ?thesis by (cases e rule: list.exhaust) auto
  qed
  then have "filter (\<lambda>e. take (length e) (CHR '' '' # s) = e) space_encodings = filter (\<lambda>e. e = '' '') space_encodings"
    by (rule filter_cong [OF refl])
  then have "filter (\<lambda>e. take (length e) (CHR '' '' # s) = e) space_encodings = ['' '']"
    using space_encodings_start(2) by (rule trans)
  then have "strip_one space_encodings (CHR '' '' # s) = Some s"
    by (simp add: strip_one_def)
  then show ?thesis by (subst strip_all.simps) simp
qed

lemma strip_all_spaces: "\<forall>c \<in> set s. c = CHR '' '' \<Longrightarrow> strip_all space_encodings (s @ t) = strip_all space_encodings t"
  by (induction s) (auto simp: strip_all_space)

lemma strip_all_Nil: "strip_all encs [] = []"
  by (subst strip_all.simps) (auto dest: strip_one_shorter split: option.split)

lemma all_spaces_blank: "\<forall>c \<in> set u. c = CHR '' '' \<Longrightarrow> TrimSpace u = ''''"
  using strip_all_spaces [of u "[]"] by (simp add: TrimSpace_def strip_all_Nil)

lemma all_dropWhile: "(\<forall>x \<in> set (dropWhile P xs). P x) \<longleftrightarrow> (\<forall>x \<in> set xs. P x)"
  by (induction xs) auto

lemma btrim_blank: "btrim u = '''' \<longleftrightarrow> (\<forall>c \<in> set u. c = CHR '' '')"
  using all_dropWhile [of "\<lambda>c. c = CHR '' ''" u] by (simp add: btrim_def dropWhile_eq_Nil_conv)

lemma storable_satisfied: "storable d \<Longrightarrow> DependencySatisfiedSQL d = Some (EvidenceSatisfied d)"
proof (cases "td_EvidenceURL d")
  case (Some u)
  assume "storable d"
  with Some have "TrimSpace u \<noteq> ''''" "td_Condition d \<noteq> ''''" by (auto simp: storable_def)
  then have "btrim u \<noteq> ''''" using all_spaces_blank btrim_blank by blast
  with Some \<open>TrimSpace u \<noteq> ''''\<close> \<open>td_Condition d \<noteq> ''''\<close> show ?thesis
    by (auto simp: DependencySatisfiedSQL_def EvidenceSatisfied_def sql_and_def coalesce_def)
qed (auto simp: DependencySatisfiedSQL_def EvidenceSatisfied_def sql_and_def coalesce_def)

lemma storable_released: "storable d \<Longrightarrow> DependencyReleasedSQL d b \<longleftrightarrow> dep_released d (blocker_state b)"
  unfolding DependencyReleasedSQL_def storable_satisfied dep_released_def blocker_state_def
  by (cases "br_is_shipped b"; cases "br_category b") (auto simp: sql_or_def sql_eq_def coalesce_def Let_def)

text \<open>C32. The two implementations of the release rule agree: on every edge the writers can store, and for every
  blocker (missing blocker, missing status and NULL columns included), the SQL predicate that the queries embed
  has the truth value of \<open>TaskDependency.Released\<close>.\<close>

theorem released_sql_twin:
  assumes "storable d"
  shows "DependencyReleasedSQL d b \<longleftrightarrow> dep_released d (blocker_state b)"
  using assms by (rule storable_released)

definition sample_edge :: "string \<Rightarrow> TaskDependency" where
  "sample_edge u = \<lparr>td_ID = 1, td_TaskID = 2, td_DependsOnTaskID = 3, td_DependencyType = Blocks, td_CreatedAt = 0,
     td_Condition = Deployed, td_EvidenceURL = Some u, td_ConditionMetAt = Some 1, td_ConditionSatisfied = False, td_Warning = ''''\<rparr>"

theorem released_sql_twin_witness:
  "DependencyReleasedSQL (sample_edge ''u'') \<lparr>br_is_shipped = None, br_category = None, br_deployed = False\<rparr>
     \<and> dep_released (sample_edge ''u'') (blocker_state \<lparr>br_is_shipped = None, br_category = None, br_deployed = False\<rparr>)"
proof -
  have "storable (sample_edge ''u'')" by code_simp
  moreover have "dep_released (sample_edge ''u'') (blocker_state \<lparr>br_is_shipped = None, br_category = None, br_deployed = False\<rparr>)"
    by code_simp
  ultimately show ?thesis using released_sql_twin [of "sample_edge ''u''"] by blast
qed

text \<open>The twins are not equivalent on every row: \<open>btrim\<close> removes spaces only, \<open>strings.TrimSpace\<close> every white
  space, so an edge whose evidence is a lone tab is released for the SQL readers and held for the Go readers. No
  writer of the service stores such evidence.\<close>

theorem released_twins_differ_on_tab:
  "DependencyReleasedSQL (sample_edge [byte 9]) \<lparr>br_is_shipped = Some False, br_category = Some ''todo'', br_deployed = False\<rparr>
     \<and> \<not> dep_released (sample_edge [byte 9]) (blocker_state \<lparr>br_is_shipped = Some False, br_category = Some ''todo'', br_deployed = False\<rparr>)
     \<and> \<not> storable (sample_edge [byte 9])"
  by code_simp

end
