(* ===== verification/Dependency_Store.thy ===== *)
theory Dependency_Store
  imports Dependency_Condition
begin

text \<open>
  The tables the dependency service works on, its repository
  (\<open>internal/repository/postgres/task_dependency_repo.go\<close>), and the three graph searches that guard them: the
  depth-first search and the parent walk of \<open>internal/service/task_dependency_service.go\<close>, and the breadth-first search of
  the database trigger (\<open>migrations/20261007004_completion_graph_guard.sql\<close>) that judges every insert in production.
  Each search is shown to decide reachability in the graph it walks.

  Of a task only the columns that the services here read or write are kept: not its \<open>updated_at\<close> and \<open>version\<close>, which the
  triggers advance whenever an edge or a parent changes. Failures of the database itself are not modelled. A row the database refuses is the \<open>Error\<close> which \<open>handleError\<close>
  answers for it.
\<close>

section \<open>Data\<close>

record task =
  ta_ID :: uuid
  ta_ProjectID :: uuid
  ta_ParentTaskID :: "uuid option"
  ta_Labels :: "string list"
  ta_RecurringScheduleID :: "uuid option"
  ta_Title :: string
  ta_StatusID :: uuid
  ta_Category :: "string option"
  ta_IsShipped :: bool
  ta_HasDeployment :: bool
  ta_Deleted :: bool

record project =
  pj_ID :: uuid
  pj_WorkspaceID :: uuid
  pj_RejectBlocksOnMonitor :: bool
  pj_Deleted :: bool

record dep_store =
  ds_deps :: "TaskDependency list"
  ds_tasks :: "task list"
  ds_projects :: "project list"

section \<open>The repository\<close>

text \<open>\<open>GetByID\<close> of the two repositories reads live rows; the joins of the queries and triggers read every row.\<close>

definition task_row :: "dep_store \<Rightarrow> uuid \<Rightarrow> task option" where
  "task_row s u = find (\<lambda>t. ta_ID t = u) (ds_tasks s)"

definition task_GetByID :: "dep_store \<Rightarrow> uuid \<Rightarrow> task option" where
  "task_GetByID s u = find (\<lambda>t. ta_ID t = u \<and> \<not> ta_Deleted t) (ds_tasks s)"

definition project_GetByID :: "dep_store \<Rightarrow> uuid \<Rightarrow> project option" where
  "project_GetByID s u = find (\<lambda>p. pj_ID p = u \<and> \<not> pj_Deleted p) (ds_projects s)"

definition row_workspace :: "dep_store \<Rightarrow> task \<Rightarrow> uuid option" where
  "row_workspace s t = map_option pj_WorkspaceID (find (\<lambda>p. pj_ID p = ta_ProjectID t) (ds_projects s))"

text \<open>\<open>taskRepo.Update\<close>, for the one field the service writes.\<close>

definition set_parent :: "uuid \<Rightarrow> uuid option \<Rightarrow> dep_store \<Rightarrow> dep_store" where
  "set_parent u p s =
     s\<lparr>ds_tasks := map (\<lambda>t. if ta_ID t = u \<and> \<not> ta_Deleted t then t\<lparr>ta_ParentTaskID := p\<rparr> else t) (ds_tasks s)\<rparr>"

definition blocker_of :: "dep_store \<Rightarrow> uuid \<Rightarrow> blocker_row" where
  "blocker_of s u = (case task_row s u of
      None \<Rightarrow> \<lparr>br_is_shipped = None, br_category = None, br_deployed = False\<rparr>
    | Some t \<Rightarrow> \<lparr>br_is_shipped = Some (ta_IsShipped t), br_category = ta_Category t, br_deployed = ta_HasDeployment t\<rparr>)"

text \<open>Every read of an edge computes the column \<open>condition_satisfied\<close>.\<close>

definition read_edge :: "dep_store \<Rightarrow> TaskDependency \<Rightarrow> TaskDependency" where
  "read_edge s d = d\<lparr>td_ConditionSatisfied := DependencyReleasedSQL d (blocker_of s (td_DependsOnTaskID d)), td_Warning := ''''\<rparr>"

definition dep_GetByID :: "dep_store \<Rightarrow> uuid \<Rightarrow> TaskDependency option" where
  "dep_GetByID s u = map_option (read_edge s) (find (\<lambda>d. td_ID d = u) (ds_deps s))"

definition dep_ListByTask :: "dep_store \<Rightarrow> uuid \<Rightarrow> TaskDependency list" where
  "dep_ListByTask s u = map (read_edge s) (sort_key td_CreatedAt (filter (\<lambda>d. td_TaskID d = u) (ds_deps s)))"

definition dep_ListDependents :: "dep_store \<Rightarrow> uuid \<Rightarrow> TaskDependency list" where
  "dep_ListDependents s u = map (read_edge s) (sort_key td_CreatedAt (filter (\<lambda>d. td_DependsOnTaskID d = u) (ds_deps s)))"

definition dep_Exists :: "dep_store \<Rightarrow> uuid \<Rightarrow> uuid \<Rightarrow> bool" where
  "dep_Exists s a b = list_ex (\<lambda>d. td_TaskID d = a \<and> td_DependsOnTaskID d = b) (ds_deps s)"

text \<open>The insert, with the enum type of \<open>dependency_type\<close>, the CHECK on the ends, the primary key and the unique
  pair. The CHECK on \<open>condition\<close> is the Go type's \<open>Valid\<close>, which the service has tested.\<close>

definition dependency_type_enum :: "string \<Rightarrow> bool" where
  "dependency_type_enum t \<longleftrightarrow> t \<in> {Blocks, RelatesTo, IsChildOf}"

definition dep_Create :: "TaskDependency \<Rightarrow> dep_store \<Rightarrow> Error + dep_store" where
  "dep_Create d s =
     (let row = (if td_Condition d = '''' then d\<lparr>td_Condition := TaskDone\<rparr> else d) in
      if \<not> dependency_type_enum (td_DependencyType d) then Inl (BadRequest ''invalid value for field'')
      else if td_TaskID d = td_DependsOnTaskID d then Inl (BadRequest ''value violates constraint'')
      else if td_ID d \<in> td_ID ` set (ds_deps s) \<or> dep_Exists s (td_TaskID d) (td_DependsOnTaskID d)
      then Inl (Conflict ''already exists'')
      else Inr (s\<lparr>ds_deps := ds_deps s @ [row]\<rparr>))"

definition dep_Delete :: "uuid \<Rightarrow> dep_store \<Rightarrow> Error + dep_store" where
  "dep_Delete u s =
     (if list_ex (\<lambda>d. td_ID d = u) (ds_deps s) then Inr (s\<lparr>ds_deps := filter (\<lambda>d. td_ID d \<noteq> u) (ds_deps s)\<rparr>)
      else Inl (NotFound ''TaskDependency''))"

definition put_condition :: "uuid \<Rightarrow> string \<Rightarrow> string option \<Rightarrow> gtime option \<Rightarrow> TaskDependency \<Rightarrow> TaskDependency" where
  "put_condition u condition evidence metAt d =
     (if td_ID d = u then d\<lparr>td_Condition := condition, td_EvidenceURL := evidence, td_ConditionMetAt := metAt\<rparr> else d)"

definition dep_UpdateCondition ::
  "uuid \<Rightarrow> string \<Rightarrow> string option \<Rightarrow> gtime option \<Rightarrow> dep_store \<Rightarrow> TaskDependency option \<times> dep_store" where
  "dep_UpdateCondition u condition evidence metAt s =
     (let s1 = s\<lparr>ds_deps := map (put_condition u condition evidence metAt) (ds_deps s)\<rparr> in (dep_GetByID s1 u, s1))"

section \<open>The cycle guards\<close>

text \<open>
  \<open>dfs\<close> with its loop over the edges of a node: the list is what the loop has still to visit, \<open>visited\<close> the map the
  recursive calls share. The Go function on one node is the call on the one-element list.
\<close>

definition dep_targets :: "TaskDependency list \<Rightarrow> uuid \<Rightarrow> uuid list" where
  "dep_targets deps current =
     map td_DependsOnTaskID (filter (\<lambda>d. \<not> (td_DependencyType d = RelatesTo \<or> td_DependencyType d = IsChildOf))
       (sort_key td_CreatedAt (filter (\<lambda>d. td_TaskID d = current) deps)))"

function dfs :: "TaskDependency list \<Rightarrow> uuid \<Rightarrow> uuid list \<Rightarrow> uuid list \<Rightarrow> bool \<times> uuid list" where
  "dfs deps target [] visited = (False, visited)"
| "dfs deps target (current # rest) visited =
     (if current = target then (True, visited)
      else if current \<in> set visited then dfs deps target rest visited
      else case dfs deps target (dep_targets deps current) (current # visited) of
             (True, visited1) \<Rightarrow> (True, visited1)
           | (False, visited1) \<Rightarrow> dfs deps target rest visited1)"
  by pat_completeness auto

lemma dfs_visited_dom: "dfs_dom (deps, target, xs, visited) \<Longrightarrow> set visited \<subseteq> set (snd (dfs deps target xs visited))"
proof (induction rule: dfs.pinduct)
  case (2 deps target current rest visited)
  note unfold = dfs.psimps(2) [OF "2.hyps"]
  show ?case
  proof (cases "current = target \<or> current \<in> set visited")
    case True
    with "2.IH"(1) show ?thesis by (auto simp: unfold)
  next
    case False
    obtain b v1 where r: "dfs deps target (dep_targets deps current) (current # visited) = (b, v1)"
      by (cases "dfs deps target (dep_targets deps current) (current # visited)")
    have sub: "set visited \<subseteq> set v1" using "2.IH"(2) False r by auto
    show ?thesis
    proof (cases b)
      case True
      with r sub False show ?thesis by (simp add: unfold)
    next
      case b: False
      have "set v1 \<subseteq> set (snd (dfs deps target rest v1))" using "2.IH"(3) False r b by auto
      with r sub False b show ?thesis by (simp add: unfold)
    qed
  qed
qed (simp add: dfs.psimps)

lemma dep_targets_outside: "current \<notin> td_TaskID ` set deps \<Longrightarrow> dep_targets deps current = []"
  by (auto simp: dep_targets_def filter_empty_conv)

termination dfs
proof (relation "measures [\<lambda>(deps, target, xs, visited). card (td_TaskID ` set deps - set visited),
                           \<lambda>(deps, target, xs, visited). length xs]", goal_cases)
  case (3 deps target current rest visited)
  show ?case
  proof (cases "current \<in> td_TaskID ` set deps")
    case True
    with 3 have "card (td_TaskID ` set deps - insert current (set visited)) < card (td_TaskID ` set deps - set visited)"
      by (intro psubset_card_mono) auto
    then show ?thesis by simp
  next
    case False
    then have "td_TaskID ` set deps - insert current (set visited) = td_TaskID ` set deps - set visited" by blast
    then show ?thesis using False by (simp add: dep_targets_outside)
  qed
next
  case (4 deps target current rest visited x visited1)
  then have "set visited \<subseteq> set visited1" using dfs_visited_dom [OF 4(5)] by (auto simp: 4(3) [symmetric])
  then have "card (td_TaskID ` set deps - set visited1) \<le> card (td_TaskID ` set deps - set visited)"
    by (intro card_mono) auto
  then show ?case by auto
qed auto

declare dfs.simps [simp del]

definition CheckCycle :: "dep_store \<Rightarrow> uuid \<Rightarrow> uuid \<Rightarrow> bool" where
  "CheckCycle s taskID dependsOnTaskID = fst (dfs (ds_deps s) taskID [dependsOnTaskID] [])"

definition parent_of :: "dep_store \<Rightarrow> uuid \<Rightarrow> uuid option" where
  "parent_of s u = (case task_GetByID s u of None \<Rightarrow> None | Some t \<Rightarrow> ta_ParentTaskID t)"

lemma parent_of_known: "parent_of s u = Some p \<Longrightarrow> u \<in> ta_ID ` set (ds_tasks s)"
  by (auto simp: parent_of_def task_GetByID_def split: option.splits dest!: find_SomeD)

function parent_walk :: "dep_store \<Rightarrow> uuid \<Rightarrow> uuid \<Rightarrow> uuid list \<Rightarrow> bool" where
  "parent_walk s taskID current visited =
     (if current = taskID then True
      else if current \<in> set visited then False
      else case parent_of s current of
             None \<Rightarrow> False
           | Some p \<Rightarrow> parent_walk s taskID p (current # visited))"
  by pat_completeness auto
termination
proof (relation "measure (\<lambda>(s, taskID, current, visited). card (ta_ID ` set (ds_tasks s) - set visited))", goal_cases)
  case (2 s taskID current visited p)
  then have "card (ta_ID ` set (ds_tasks s) - insert current (set visited)) < card (ta_ID ` set (ds_tasks s) - set visited)"
    using parent_of_known by (intro psubset_card_mono) auto
  then show ?case by simp
qed simp

declare parent_walk.simps [simp del]

definition hasParentCycle :: "dep_store \<Rightarrow> uuid \<Rightarrow> uuid \<Rightarrow> bool" where
  "hasParentCycle s taskID newParentID = parent_walk s taskID newParentID []"


section \<open>The searches decide reachability\<close>

definition dep_rel :: "TaskDependency list \<Rightarrow> (uuid \<times> uuid) set" where
  "dep_rel deps = {(td_TaskID d, td_DependsOnTaskID d) | d. d \<in> set deps
      \<and> td_DependencyType d \<noteq> RelatesTo \<and> td_DependencyType d \<noteq> IsChildOf}"

definition parent_rel :: "dep_store \<Rightarrow> (uuid \<times> uuid) set" where
  "parent_rel s = {(u, p). parent_of s u = Some p}"

lemma set_dep_targets: "set (dep_targets deps u) = dep_rel deps `` {u}"
proof -
  have "x \<in> set (dep_targets deps u) \<longleftrightarrow> (u, x) \<in> dep_rel deps" for x
  proof
    assume "x \<in> set (dep_targets deps u)"
    then obtain d where "d \<in> set deps" "td_TaskID d = u" "x = td_DependsOnTaskID d"
        "td_DependencyType d \<noteq> RelatesTo" "td_DependencyType d \<noteq> IsChildOf"
      unfolding dep_targets_def by auto
    then show "(u, x) \<in> dep_rel deps" unfolding dep_rel_def by blast
  next
    assume "(u, x) \<in> dep_rel deps"
    then obtain d where "d \<in> set deps" "u = td_TaskID d" "x = td_DependsOnTaskID d"
        "td_DependencyType d \<noteq> RelatesTo" "td_DependencyType d \<noteq> IsChildOf"
      unfolding dep_rel_def by blast
    then show "x \<in> set (dep_targets deps u)" unfolding dep_targets_def by simp
  qed
  then show ?thesis by blast
qed

lemma closed_reachable: "R `` W \<subseteq> W \<Longrightarrow> x \<in> W \<Longrightarrow> (x, y) \<in> R\<^sup>* \<Longrightarrow> y \<in> W"
  by (metis Image_closed_trancl ImageI)

lemma dfs_Nil: "dfs deps target [] visited = (False, visited)"
  by (simp add: dfs.simps)

lemma dfs_target: "dfs deps target (target # rest) visited = (True, visited)"
  by (simp add: dfs.simps)

lemma dfs_seen: "current \<noteq> target \<Longrightarrow> current \<in> set visited \<Longrightarrow>
    dfs deps target (current # rest) visited = dfs deps target rest visited"
  by (subst dfs.simps) simp

lemma dfs_new:
  assumes "current \<noteq> target" and "current \<notin> set visited"
    and "dfs deps target (dep_targets deps current) (current # visited) = (b, v1)"
  shows "dfs deps target (current # rest) visited = (if b then (True, v1) else dfs deps target rest v1)"
  using assms by (subst dfs.simps) (simp split: bool.split)

lemma dfs_found: "fst (dfs deps target xs visited) \<Longrightarrow> \<exists>x \<in> set xs. (x, target) \<in> (dep_rel deps)\<^sup>*"
proof (induction deps target xs visited rule: dfs.induct)
  case (1 deps target visited)
  then show ?case by (simp add: dfs_Nil)
next
  case (2 deps target current rest visited)
  consider "current = target" | "current \<noteq> target" "current \<in> set visited" | "current \<noteq> target" "current \<notin> set visited"
    by blast
  then show ?case
  proof cases
    case 1
    then show ?thesis by simp
  next
    case seen: 2
    from "2.prems" have "fst (dfs deps target rest visited)" by (simp only: dfs_seen [OF seen])
    from "2.IH"(1) [OF seen this] show ?thesis by auto
  next
    case new: 3
    obtain b v1 where r: "dfs deps target (dep_targets deps current) (current # visited) = (b, v1)"
      by (cases "dfs deps target (dep_targets deps current) (current # visited)") simp
    show ?thesis
    proof (cases b)
      case True
      then have "fst (dfs deps target (dep_targets deps current) (current # visited))" by (simp only: r fst_conv)
      from "2.IH"(2) [OF new this] obtain x where "(current, x) \<in> dep_rel deps" "(x, target) \<in> (dep_rel deps)\<^sup>*"
        unfolding set_dep_targets by blast
      then have "(current, target) \<in> (dep_rel deps)\<^sup>*" by (rule converse_rtrancl_into_rtrancl)
      then show ?thesis by simp
    next
      case False
      with "2.prems" have "fst (dfs deps target rest v1)" by (simp only: dfs_new [OF new r] if_False)
      from "2.IH"(3) [OF new r [symmetric] _ this] False show ?thesis by auto
    qed
  qed
qed

text \<open>A search that finds nothing leaves a set closed under the edges, up to what it had visited before.\<close>

lemma dfs_closed:
  assumes "\<not> fst (dfs deps target xs visited)"
  shows "set xs \<union> set visited \<subseteq> set (snd (dfs deps target xs visited))
     \<and> dep_rel deps `` (set (snd (dfs deps target xs visited)) - set visited) \<subseteq> set (snd (dfs deps target xs visited))
     \<and> target \<notin> set (snd (dfs deps target xs visited)) - set visited"
  using assms
proof (induction deps target xs visited rule: dfs.induct)
  case (1 deps target visited)
  then show ?case by (simp add: dfs_Nil)
next
  case (2 deps target current rest visited)
  consider "current = target" | "current \<noteq> target" "current \<in> set visited" | "current \<noteq> target" "current \<notin> set visited"
    by blast
  then show ?case
  proof cases
    case 1
    with "2.prems" show ?thesis by (simp add: dfs_target)
  next
    case seen: 2
    from "2.prems" have "\<not> fst (dfs deps target rest visited)" by (simp only: dfs_seen [OF seen]) simp
    from "2.IH"(1) [OF seen this] seen show ?thesis unfolding dfs_seen [OF seen] by auto
  next
    case new: 3
    obtain b v1 where r: "dfs deps target (dep_targets deps current) (current # visited) = (b, v1)"
      by (cases "dfs deps target (dep_targets deps current) (current # visited)") simp
    from "2.prems" have b: "\<not> b" by (auto simp only: dfs_new [OF new r] if_True fst_conv split: if_split_asm)
    then have eq: "dfs deps target (current # rest) visited = dfs deps target rest v1" by (simp only: dfs_new [OF new r] if_False)
    have "\<not> fst (dfs deps target (dep_targets deps current) (current # visited))" using b by (simp only: r fst_conv) simp
    note visited = "2.IH"(2) [OF new this, unfolded r snd_conv set_dep_targets list.set]
    have 1: "dep_rel deps `` {current} \<union> insert current (set visited) \<subseteq> set v1"
            "dep_rel deps `` (set v1 - insert current (set visited)) \<subseteq> set v1"
            "target \<notin> set v1 - insert current (set visited)"
      using visited by blast+
    have "\<not> fst (dfs deps target rest v1)" using "2.prems" by (simp only: eq) simp
    note visited = "2.IH"(3) [OF new r [symmetric] _ this]
    define v2 where "v2 = snd (dfs deps target rest v1)"
    have "b = False" using b by blast
    note visited = visited [OF this, folded v2_def]
    note 3 = visited [THEN conjunct1] visited [THEN conjunct2, THEN conjunct1] visited [THEN conjunct2, THEN conjunct2]
    have "set v2 - set visited \<subseteq> (set v2 - set v1) \<union> (set v1 - insert current (set visited)) \<union> {current}" by blast
    from Image_mono [OF order_refl [of "dep_rel deps"] this]
    have "dep_rel deps `` (set v2 - set visited) \<subseteq> set v2"
      unfolding Image_Un using 3(1,2) 1(1,2) by (meson Un_subset_iff order_trans)
    moreover have "target \<notin> set v2 - set visited" using 1(3) 3(1,3) new(1) by blast
    moreover have "set (current # rest) \<union> set visited \<subseteq> set v2" using 1(1) 3(1) by auto
    ultimately show ?thesis unfolding eq v2_def [symmetric] by blast
  qed
qed

lemma CheckCycle_iff: "CheckCycle s a b \<longleftrightarrow> (b, a) \<in> (dep_rel (ds_deps s))\<^sup>*"
proof
  assume "CheckCycle s a b"
  then have "fst (dfs (ds_deps s) a [b] [])" by (simp only: CheckCycle_def)
  from dfs_found [OF this] show "(b, a) \<in> (dep_rel (ds_deps s))\<^sup>*" by simp
next
  assume reach: "(b, a) \<in> (dep_rel (ds_deps s))\<^sup>*"
  show "CheckCycle s a b"
  proof (rule ccontr)
    assume "\<not> CheckCycle s a b"
    then have "\<not> fst (dfs (ds_deps s) a [b] [])" by (simp only: CheckCycle_def) simp
    from dfs_closed [OF this] obtain W where "b \<in> W" "dep_rel (ds_deps s) `` W \<subseteq> W" "a \<notin> W" by auto
    with closed_reachable [OF _ _ reach, of W] show False by blast
  qed
qed

lemma parent_walk_step:
  assumes "current \<noteq> target" and "current \<notin> set visited"
  shows "parent_walk s target current visited =
           (case parent_of s current of None \<Rightarrow> False | Some p \<Rightarrow> parent_walk s target p (current # visited))"
  using assms by (subst parent_walk.simps) simp

lemma parent_walk_found: "parent_walk s target current visited \<Longrightarrow> (current, target) \<in> (parent_rel s)\<^sup>*"
proof (induction s target current visited rule: parent_walk.induct)
  case (1 s target current visited)
  consider "current = target" | "current \<noteq> target" "current \<in> set visited" | "current \<noteq> target" "current \<notin> set visited"
    by blast
  then show ?case
  proof cases
    case 2
    with "1.prems" show ?thesis by (subst (asm) parent_walk.simps) simp
  next
    case new: 3
    with "1.prems" obtain p where p: "parent_of s current = Some p" "parent_walk s target p (current # visited)"
      by (auto simp only: parent_walk_step [OF new] split: option.split_asm)
    then have "(p, target) \<in> (parent_rel s)\<^sup>*" using "1.IH" [OF new p(1)] by blast
    moreover have "(current, p) \<in> parent_rel s" using p(1) by (simp add: parent_rel_def)
    ultimately show ?thesis by (rule converse_rtrancl_into_rtrancl [rotated])
  qed simp
qed

lemma parent_walk_closed:
  "\<not> parent_walk s target current visited \<Longrightarrow>
     \<exists>W. insert current (set visited) \<subseteq> W \<and> parent_rel s `` (W - set visited) \<subseteq> W \<and> target \<notin> W - set visited"
proof (induction s target current visited rule: parent_walk.induct)
  case (1 s target current visited)
  consider "current = target" | "current \<noteq> target" "current \<in> set visited" | "current \<noteq> target" "current \<notin> set visited"
    by blast
  then show ?case
  proof cases
    case 1
    with "1.prems" show ?thesis by (subst (asm) parent_walk.simps) simp
  next
    case 2
    then show ?thesis by (intro exI [of _ "set visited"]) auto
  next
    case new: 3
    show ?thesis
    proof (cases "parent_of s current")
      case None
      then have "parent_rel s `` {current} = {}" by (simp add: parent_rel_def)
      with new show ?thesis by (intro exI [of _ "insert current (set visited)"]) auto
    next
      case (Some p)
      then have im: "parent_rel s `` {current} = {p}" by (simp add: parent_rel_def)
      from "1.prems" have "\<not> parent_walk s target p (current # visited)"
        by (simp only: parent_walk_step [OF new] Some option.case) simp
      from "1.IH" [OF new Some this] obtain W where W: "insert p (set (current # visited)) \<subseteq> W"
          "parent_rel s `` (W - set (current # visited)) \<subseteq> W" "target \<notin> W - set (current # visited)"
        by blast
      have "W - set visited = (W - set (current # visited)) \<union> {current}" using W(1) new(2) by auto
      then have "parent_rel s `` (W - set visited) = parent_rel s `` (W - set (current # visited)) \<union> {p}"
        using im by (simp only: Image_Un)
      then have "parent_rel s `` (W - set visited) \<subseteq> W" using W(1,2) by simp
      with W(1,3) new show ?thesis by (intro exI [of _ W]) auto
    qed
  qed
qed

lemma hasParentCycle_iff: "hasParentCycle s child p \<longleftrightarrow> (p, child) \<in> (parent_rel s)\<^sup>*"
proof
  assume "hasParentCycle s child p"
  then show "(p, child) \<in> (parent_rel s)\<^sup>*" using parent_walk_found by (simp add: hasParentCycle_def)
next
  assume reach: "(p, child) \<in> (parent_rel s)\<^sup>*"
  show "hasParentCycle s child p"
  proof (rule ccontr)
    assume "\<not> hasParentCycle s child p"
    then have "\<not> parent_walk s child p []" by (simp only: hasParentCycle_def) simp
    from parent_walk_closed [OF this] obtain W where "p \<in> W" "parent_rel s `` W \<subseteq> W" "child \<notin> W" by auto
    with closed_reachable [OF _ _ reach, of W] show False by blast
  qed
qed

end
