(* ===== verification/Completion_Graph.thy ===== *)
theory Completion_Graph
  imports Dependency_Store
begin

text \<open>
  The guards the database keeps on the completion graph (\<open>migrations/20261007004_completion_graph_guard.sql\<close>): the
  PostgreSQL repository reports \<open>AtomicHierarchy\<close>, so in production these triggers, and not the walks of the
  service, refuse a cycle. The graph joins the blocks edges (a task waits on its prerequisite) and the hierarchy (a parent
  waits on its child), over the live tasks of one workspace. The workspace lock makes check and write one step. The
  text of the cycle a refusal reports is left out.
\<close>

section \<open>The graph\<close>

definition in_workspace :: "dep_store \<Rightarrow> uuid \<Rightarrow> uuid \<Rightarrow> bool" where
  "in_workspace s ws u = (case task_GetByID s u of None \<Rightarrow> False | Some t \<Rightarrow> row_workspace s t = Some ws)"

definition waits_edge :: "dep_store \<Rightarrow> uuid \<Rightarrow> uuid option \<Rightarrow> TaskDependency \<Rightarrow> bool" where
  "waits_edge s ws replaced_dependency d \<longleftrightarrow> td_DependencyType d = Blocks \<and> Some (td_ID d) \<noteq> replaced_dependency
     \<and> in_workspace s ws (td_TaskID d) \<and> in_workspace s ws (td_DependsOnTaskID d)"

definition child_edge :: "dep_store \<Rightarrow> uuid \<Rightarrow> uuid option \<Rightarrow> task \<Rightarrow> (uuid \<times> uuid) option" where
  "child_edge s ws replaced_child c =
     (case ta_ParentTaskID c of
        None \<Rightarrow> None
      | Some p \<Rightarrow> if \<not> ta_Deleted c \<and> Some (ta_ID c) \<noteq> replaced_child \<and> row_workspace s c = Some ws \<and> in_workspace s ws p
                  then Some (p, ta_ID c) else None)"

definition completion_edges :: "dep_store \<Rightarrow> uuid \<Rightarrow> uuid option \<Rightarrow> uuid option \<Rightarrow> (uuid \<times> uuid) list" where
  "completion_edges s ws replaced_child replaced_dependency =
     map (\<lambda>d. (td_TaskID d, td_DependsOnTaskID d)) (filter (waits_edge s ws replaced_dependency) (ds_deps s))
     @ List.map_filter (child_edge s ws replaced_child) (ds_tasks s)"

section \<open>The breadth-first search\<close>

definition next_frontier :: "(uuid \<times> uuid) list \<Rightarrow> uuid list \<Rightarrow> uuid list \<Rightarrow> uuid list" where
  "next_frontier edges frontier visited =
     remdups (map snd (filter (\<lambda>(src, dst). src \<in> set frontier \<and> dst \<notin> set visited) edges))"

lemma set_next_frontier: "set (next_frontier edges frontier visited) = set edges `` set frontier - set visited"
  by (force simp: next_frontier_def)

function bfs :: "(uuid \<times> uuid) list \<Rightarrow> uuid \<Rightarrow> uuid list \<Rightarrow> uuid list \<Rightarrow> bool" where
  "bfs edges source frontier visited =
     (if frontier = [] then False
      else let found = next_frontier edges frontier visited in
        if source \<in> set found then True else bfs edges source found (visited @ found))"
  by pat_completeness auto
termination
proof (relation "measures [\<lambda>(edges, source, frontier, visited). card (snd ` set edges - set visited),
                           \<lambda>(edges, source, frontier, visited). length frontier]", goal_cases)
  case (2 edges source frontier visited found)
  show ?case
  proof (cases "found = []")
    case True
    with 2 show ?thesis by simp
  next
    case False
    then obtain x where x: "x \<in> set found" by (cases found) auto
    with 2 have "x \<in> set edges `` set frontier - set visited" by (simp only: set_next_frontier)
    then have "x \<in> snd ` set edges - set visited" by force
    moreover have "x \<notin> snd ` set edges - set (visited @ found)" using x by simp
    ultimately have "snd ` set edges - set (visited @ found) \<subset> snd ` set edges - set visited" by auto
    then have "card (snd ` set edges - set (visited @ found)) < card (snd ` set edges - set visited)"
      by (rule psubset_card_mono [rotated]) simp
    then show ?thesis by simp
  qed
qed simp

declare bfs.simps [simp del]

lemma bfs_found:
  "bfs edges source frontier visited \<Longrightarrow> \<exists>x \<in> set frontier. (x, source) \<in> (set edges)\<^sup>*"
proof (induction edges source frontier visited rule: bfs.induct)
  case (1 edges source frontier visited)
  define found where "found = next_frontier edges frontier visited"
  from "1.prems" have ne: "frontier \<noteq> []" by (auto simp: bfs.simps [of _ _ "[]"])
  have step: "\<exists>x \<in> set frontier. (x, y) \<in> set edges" if "y \<in> set found" for y
    using that unfolding found_def set_next_frontier by blast
  show ?case
  proof (cases "source \<in> set found")
    case True
    with step show ?thesis by blast
  next
    case False
    with "1.prems" ne have "bfs edges source found (visited @ found)"
      by (subst (asm) bfs.simps) (simp add: Let_def found_def)
    from "1.IH" [OF ne found_def False this] obtain y where "y \<in> set found" "(y, source) \<in> (set edges)\<^sup>*" by blast
    with step show ?thesis by (meson converse_rtrancl_into_rtrancl)
  qed
qed

lemma bfs_closed:
  "\<not> bfs edges source frontier visited \<Longrightarrow> set frontier \<subseteq> set visited \<Longrightarrow>
     \<exists>W. set visited \<subseteq> W \<and> set edges `` (W - (set visited - set frontier)) \<subseteq> W \<and> source \<notin> W - set visited"
proof (induction edges source frontier visited rule: bfs.induct)
  case (1 edges source frontier visited)
  define found where "found = next_frontier edges frontier visited"
  show ?case
  proof (cases "frontier = []")
    case True
    then show ?thesis by (intro exI [of _ "set visited"]) auto
  next
    case ne: False
    have unfold: "bfs edges source frontier visited = (source \<in> set found \<or> bfs edges source found (visited @ found))"
      using ne by (subst bfs.simps) (simp add: Let_def found_def)
    with "1.prems"(1) have new: "source \<notin> set found" "\<not> bfs edges source found (visited @ found)" by auto
    have "set found \<subseteq> set (visited @ found)" by simp
    from "1.IH" [OF ne found_def new this] obtain W where W: "set (visited @ found) \<subseteq> W"
        "set edges `` (W - (set (visited @ found) - set found)) \<subseteq> W" "source \<notin> W - set (visited @ found)" by blast
    have front: "set edges `` set frontier \<subseteq> W"
    proof -
      have "set edges `` set frontier \<subseteq> set found \<union> set visited" unfolding found_def set_next_frontier by blast
      with W(1) show ?thesis by auto
    qed
    have disj: "set found \<inter> set visited = {}" unfolding found_def set_next_frontier by blast
    have "W - (set visited - set frontier) \<subseteq> (W - (set (visited @ found) - set found)) \<union> set frontier" by auto
    from Image_mono [OF order_refl [of "set edges"] this] W(2) front
    have "set edges `` (W - (set visited - set frontier)) \<subseteq> W" unfolding Image_Un by (meson Un_subset_iff order_trans)
    moreover have "source \<notin> W - set visited" using W(3) new(1) by auto
    ultimately show ?thesis using W(1) by (intro exI [of _ W]) auto
  qed
qed

text \<open>\<open>completion_graph_assert_edge\<close>: refuses the edge from \<open>source\<close> to \<open>target\<close> when it would close a cycle.\<close>

definition cycle_refusal :: Error where
  "cycle_refusal = BadRequest ''operation would create a completion cycle''"

definition completion_graph_assert_edge :: "(uuid \<times> uuid) list \<Rightarrow> uuid \<Rightarrow> uuid \<Rightarrow> Error option" where
  "completion_graph_assert_edge edges source target =
     refuse_if (source = target \<or> bfs edges source [target] [target]) cycle_refusal"

lemma assert_edge_iff:
  "completion_graph_assert_edge edges source target = None \<longleftrightarrow> (target, source) \<notin> (set edges)\<^sup>*"
proof -
  have "bfs edges source [target] [target]" if "(target, source) \<in> (set edges)\<^sup>*" "source \<noteq> target"
  proof (rule ccontr)
    assume "\<not> ?thesis"
    from bfs_closed [OF this] obtain W where "target \<in> W" "set edges `` W \<subseteq> W" "source \<notin> W - {target}" by auto
    with closed_reachable [OF _ _ that(1), of W] that(2) show False by blast
  qed
  with bfs_found [of edges source "[target]" "[target]"] show ?thesis
    by (auto simp: completion_graph_assert_edge_def)
qed

section \<open>The triggers\<close>

definition scope_refusal :: "string \<Rightarrow> Error" where
  "scope_refusal msg = BadRequest msg"

text \<open>\<open>completion_graph_task_guard\<close>, for the row \<open>t\<close> getting the parent \<open>p\<close>.\<close>

definition completion_task_guard :: "dep_store \<Rightarrow> task \<Rightarrow> uuid \<Rightarrow> Error option" where
  "completion_task_guard s t p =
     (case row_workspace s t of
        None \<Rightarrow> Some (InternalError '''')
      | Some ws \<Rightarrow>
          if p = ta_ID t then Some cycle_refusal
          else if map_option ta_ProjectID (task_GetByID s p) \<noteq> Some (ta_ProjectID t)
          then Some (scope_refusal ''parent must be an available task in the same project'')
          else completion_graph_assert_edge (completion_edges s ws (Some (ta_ID t)) None) p (ta_ID t))"

text \<open>\<open>completion_graph_dependency_guard\<close> before an insert.\<close>

definition completion_insert_guard :: "dep_store \<Rightarrow> TaskDependency \<Rightarrow> Error option" where
  "completion_insert_guard s d =
     (case task_GetByID s (td_TaskID d) of
        None \<Rightarrow> Some (InternalError '''')
      | Some src \<Rightarrow>
        (case row_workspace s src of
           None \<Rightarrow> Some (InternalError '''')
         | Some ws \<Rightarrow>
           if \<not> in_workspace s ws (td_DependsOnTaskID d) \<or> td_TaskID d = td_DependsOnTaskID d
           then Some (scope_refusal ''dependency endpoints must be distinct available tasks in the same workspace'')
           else if td_DependencyType d = Blocks
           then completion_graph_assert_edge (completion_edges s ws None (Some (td_ID d))) (td_TaskID d) (td_DependsOnTaskID d)
           else if td_DependencyType d = IsChildOf
           then (if map_option ta_ProjectID (task_GetByID s (td_DependsOnTaskID d)) \<noteq> Some (ta_ProjectID src)
                 then Some (scope_refusal ''parent must be in the same project'')
                 else if ta_ParentTaskID src \<noteq> None \<and> ta_ParentTaskID src \<noteq> Some (td_DependsOnTaskID d)
                 then Some (scope_refusal ''task already has another parent'')
                 else completion_graph_assert_edge (completion_edges s ws (Some (td_TaskID d)) (Some (td_ID d)))
                        (td_DependsOnTaskID d) (td_TaskID d))
           else None))"

text \<open>\<open>completion_graph_apply_parent\<close> after an insert.\<close>

definition completion_apply_parent :: "TaskDependency \<Rightarrow> dep_store \<Rightarrow> Error + dep_store" where
  "completion_apply_parent d s =
     (if td_DependencyType d \<noteq> IsChildOf then Inr s
      else case task_row s (td_TaskID d) of
             None \<Rightarrow> Inr s
           | Some t \<Rightarrow>
               if ta_ParentTaskID t = Some (td_DependsOnTaskID d) then Inr s
               else guard_res (completion_task_guard s t (td_DependsOnTaskID d))
                      (Inr (set_parent (td_TaskID d) (Some (td_DependsOnTaskID d)) s)))"

definition insert_with_triggers :: "TaskDependency \<Rightarrow> dep_store \<Rightarrow> Error + dep_store" where
  "insert_with_triggers d s =
     (if \<not> dependency_type_enum (td_DependencyType d) then Inl (BadRequest ''invalid value for field'')
      else guard_res (completion_insert_guard s d) (bind_res (dep_Create d s) (completion_apply_parent d)))"

text \<open>The delete trigger gives back the parent the edge set.\<close>

definition release_parent :: "TaskDependency \<Rightarrow> dep_store \<Rightarrow> dep_store" where
  "release_parent d s =
     s\<lparr>ds_tasks := map (\<lambda>t. if ta_ID t = td_TaskID d \<and> ta_ParentTaskID t = Some (td_DependsOnTaskID d) \<and> \<not> ta_Deleted t
                              then t\<lparr>ta_ParentTaskID := None\<rparr> else t) (ds_tasks s)\<rparr>"

definition delete_with_triggers :: "uuid \<Rightarrow> dep_store \<Rightarrow> Error + dep_store" where
  "delete_with_triggers u s =
     bind_res (dep_Delete u s) (\<lambda>s1.
       Inr (case find (\<lambda>d. td_ID d = u) (ds_deps s) of
              None \<Rightarrow> s1
            | Some d \<Rightarrow>
                (case task_row s (td_TaskID d) of
                   None \<Rightarrow> s1
                 | Some t \<Rightarrow> if row_workspace s t \<noteq> None \<and> td_DependencyType d = IsChildOf then release_parent d s1 else s1)))"

end
