(* ===== verification/Task_Dependency.thy ===== *)
theory Task_Dependency
  imports Completion_Graph
begin

text \<open>
  \<open>internal/service/task_dependency_service.go\<close>: creating, updating, deleting and listing dependency edges.

  The service reads and writes \<open>dep_store\<close>. Its collaborators are the record \<open>dep_env\<close>: the clock, the fresh
  identifier, whether a project repository and a resolver are wired, and whether the repository keeps the
  hierarchy itself (\<open>AtomicHierarchy\<close>, which the PostgreSQL repository does with the triggers of
  \<open>Completion_Graph\<close>; a repository without them leaves both cycle checks to the service). The calls of the resolver are
  returned as a list. A read that fails is not modelled.
\<close>

record dep_env =
  en_now :: gtime
  en_fresh :: uuid
  en_atomic :: bool
  en_projects :: bool
  en_resolver :: bool

section \<open>Tenancy\<close>

definition workspaceOf :: "dep_store \<Rightarrow> uuid \<Rightarrow> uuid option" where
  "workspaceOf s projectID = map_option pj_WorkspaceID (project_GetByID s projectID)"

definition assertSameTenancy :: "dep_env \<Rightarrow> dep_store \<Rightarrow> task \<Rightarrow> task \<Rightarrow> Error option" where
  "assertSameTenancy env s task depTask =
     (if ta_ProjectID task = ta_ProjectID depTask then None
      else if \<not> en_projects env
      then Some (BadRequest ''cannot verify that both tasks are in the same workspace (project lookup unavailable); cross-project dependencies are refused until it is'')
      else case (workspaceOf s (ta_ProjectID task), workspaceOf s (ta_ProjectID depTask)) of
             (Some srcWS, Some dstWS) \<Rightarrow>
               refuse_if (srcWS \<noteq> dstWS) (BadRequest ''depends_on_task_id must be a task in the same workspace'')
           | _ \<Rightarrow> Some (BadRequest ''depends_on_task_id must be a task in the same workspace''))"

definition rejectBlocksOnMonitor :: "dep_env \<Rightarrow> dep_store \<Rightarrow> uuid \<Rightarrow> bool" where
  "rejectBlocksOnMonitor env s projectID =
     (if \<not> en_projects env then False
      else case project_GetByID s projectID of None \<Rightarrow> False | Some p \<Rightarrow> pj_RejectBlocksOnMonitor p)"

definition never_done_advice :: string where
  "never_done_advice = '' and normally never reaches done, so this dependency may hold the card forever; set a condition (e.g. access_ready) with evidence_url instead''"

definition blockerWarning :: "task \<Rightarrow> string" where
  "blockerWarning t =
     (case find (\<lambda>l. l = ''kind:monitor'' \<or> l = ''kind:umbrella'') (ta_Labels t) of
        Some l \<Rightarrow> ''blocker is labelled '' @ l @ never_done_advice
      | None \<Rightarrow> if ta_RecurringScheduleID t \<noteq> None then ''blocker belongs to a recurring schedule'' @ never_done_advice else '''')"

section \<open>Create\<close>

text \<open>The normalisation of condition and evidence: what is stored, and the first verdict.\<close>

definition blank_to_nil :: "string option \<Rightarrow> string option" where
  "blank_to_nil u = (case u of None \<Rightarrow> None | Some v \<Rightarrow> if TrimSpace v = '''' then None else Some v)"

definition normalize_edge :: "gtime \<Rightarrow> TaskDependency \<Rightarrow> TaskDependency" where
  "normalize_edge now dep =
     (let dep1 = dep\<lparr>td_EvidenceURL := blank_to_nil (td_EvidenceURL dep), td_ConditionMetAt := None\<rparr>;
          dep2 = (if td_Condition dep1 \<noteq> TaskDone \<and> td_EvidenceURL dep1 \<noteq> None then dep1\<lparr>td_ConditionMetAt := Some now\<rparr>
                  else if td_Condition dep1 = TaskDone then dep1\<lparr>td_EvidenceURL := None\<rparr>
                  else dep1)
      in dep2\<lparr>td_ConditionSatisfied := EvidenceSatisfied dep2, td_Warning := ''''\<rparr>)"

definition warn_edge :: "dep_env \<Rightarrow> dep_store \<Rightarrow> task \<Rightarrow> TaskDependency \<Rightarrow> Error + TaskDependency" where
  "warn_edge env s depTask dep =
     (if td_DependencyType dep = Blocks \<and> td_Condition dep = TaskDone \<and> blockerWarning depTask \<noteq> '''' then
        (if rejectBlocksOnMonitor env s (ta_ProjectID depTask) then Inl (Conflict (blockerWarning depTask))
         else Inr (dep\<lparr>td_Warning := blockerWarning depTask\<rparr>))
      else Inr dep)"

text \<open>The checks of an \<open>is_child_of\<close> edge.\<close>

definition child_checks :: "dep_env \<Rightarrow> dep_store \<Rightarrow> task \<Rightarrow> task \<Rightarrow> TaskDependency \<Rightarrow> Error option" where
  "child_checks env s task depTask dep =
     (if td_DependencyType dep \<noteq> IsChildOf then None
      else if ta_ProjectID depTask \<noteq> ta_ProjectID task
      then Some (BadRequest ''is_child_of must stay within one project: a parent in another project would not appear in the child's project views (use blocks or relates_to for cross-project links)'')
      else if ta_ParentTaskID task \<noteq> None \<and> ta_ParentTaskID task \<noteq> Some (td_DependsOnTaskID dep)
      then Some (Conflict ''task already has a parent; remove the existing parent relationship first'')
      else refuse_if (\<not> en_atomic env \<and> hasParentCycle s (td_TaskID dep) (td_DependsOnTaskID dep))
             (BadRequest ''adding this dependency would create a cycle in the task hierarchy''))"

text \<open>Everything before the insert: the edge to store.\<close>

definition create_checks :: "dep_env \<Rightarrow> dep_store \<Rightarrow> TaskDependency \<Rightarrow> Error + TaskDependency" where
  "create_checks env s dep0 =
     (if td_TaskID dep0 = td_DependsOnTaskID dep0 then Inl (BadRequest ''a task cannot depend on itself'')
      else case task_GetByID s (td_TaskID dep0) of None \<Rightarrow> Inl (NotFound ''Task'')
      | Some task \<Rightarrow>
        (case task_GetByID s (td_DependsOnTaskID dep0) of None \<Rightarrow> Inl (NotFound ''Task'')
         | Some depTask \<Rightarrow>
           guard_res (assertSameTenancy env s task depTask)
             (let dep1 = (if td_Condition dep0 = '''' then dep0\<lparr>td_Condition := TaskDone\<rparr> else dep0) in
              if \<not> condition_Valid (td_Condition dep1) then Inl (BadRequest ''invalid condition'')
              else if td_DependencyType dep1 \<noteq> Blocks \<and> td_Condition dep1 \<noteq> TaskDone
              then Inl (BadRequest ''condition applies to blocks dependencies only'')
              else bind_res (warn_edge env s depTask (normalize_edge (en_now env) dep1)) (\<lambda>dep2.
                if dep_Exists s (td_TaskID dep2) (td_DependsOnTaskID dep2) then Inl (Conflict ''dependency already exists'')
                else if td_DependencyType dep2 = Blocks \<and> \<not> en_atomic env
                        \<and> CheckCycle s (td_TaskID dep2) (td_DependsOnTaskID dep2)
                then Inl (BadRequest ''adding this dependency would create a cycle'')
                else guard_res (child_checks env s task depTask dep2)
                  (Inr (dep2\<lparr>td_ID := (if td_ID dep2 = uuid_Nil then en_fresh env else td_ID dep2),
                             td_CreatedAt := en_now env\<rparr>))))))"

text \<open>The insert. Where the repository keeps the hierarchy its triggers judge it and set the parent in the same
  transaction; otherwise the service sets it.\<close>

definition store_edge :: "dep_env \<Rightarrow> TaskDependency \<Rightarrow> dep_store \<Rightarrow> Error + dep_store" where
  "store_edge env dep s =
     (if en_atomic env then insert_with_triggers dep s
      else bind_res (dep_Create dep s) (\<lambda>s1.
        Inr (if td_DependencyType dep = IsChildOf then set_parent (td_TaskID dep) (Some (td_DependsOnTaskID dep)) s1 else s1)))"

definition dep_service_Create :: "dep_env \<Rightarrow> TaskDependency \<Rightarrow> dep_store \<Rightarrow> (Error + TaskDependency) \<times> dep_store \<times> uuid list" where
  "dep_service_Create env dep0 s =
     (case bind_res (create_checks env s dep0) (\<lambda>dep. bind_res (store_edge env dep s) (\<lambda>s1. Inr (dep, s1))) of
        Inl e \<Rightarrow> (Inl e, s, [])
      | Inr (dep, s1) \<Rightarrow>
          let dep1 = (case dep_GetByID s1 (td_ID dep) of None \<Rightarrow> dep
                      | Some stored \<Rightarrow> dep\<lparr>td_ConditionSatisfied := td_ConditionSatisfied stored\<rparr>);
              bornSatisfied = EvidenceSatisfied dep1 \<or> (td_Condition dep1 \<noteq> TaskDone \<and> td_ConditionSatisfied dep1)
          in (Inr dep1, s1,
              if td_DependencyType dep1 = Blocks \<and> bornSatisfied \<and> en_resolver env then [td_DependsOnTaskID dep1] else []))"

section \<open>Update and delete\<close>

record UpdateDependencyConditionInput =
  uc_Condition :: "string option"
  uc_EvidenceURL :: "string option"

definition dep_service_UpdateCondition ::
  "dep_env \<Rightarrow> uuid \<Rightarrow> UpdateDependencyConditionInput \<Rightarrow> dep_store \<Rightarrow> (Error + TaskDependency) \<times> dep_store \<times> uuid list" where
  "dep_service_UpdateCondition env u inp s =
     (case dep_GetByID s u of
        None \<Rightarrow> (Inl (NotFound ''TaskDependency''), s, [])
      | Some dep \<Rightarrow>
          let condition = (case uc_Condition inp of None \<Rightarrow> td_Condition dep | Some c \<Rightarrow> c);
              evidence = blank_to_nil (case uc_EvidenceURL inp of None \<Rightarrow> td_EvidenceURL dep | Some v \<Rightarrow> Some v)
          in if \<not> condition_Valid condition then (Inl (BadRequest ''invalid condition''), s, [])
             else if td_DependencyType dep \<noteq> Blocks \<and> condition \<noteq> TaskDone
             then (Inl (BadRequest ''condition applies to blocks dependencies only''), s, [])
             else if condition = TaskDone \<and> evidence \<noteq> None
             then (Inl (BadRequest ''evidence_url needs a condition other than task_done''), s, [])
             else let metAt = (case evidence of None \<Rightarrow> None
                        | Some v \<Rightarrow> if td_ConditionMetAt dep \<noteq> None \<and> td_Condition dep = condition \<and> td_EvidenceURL dep = Some v
                                    then td_ConditionMetAt dep else Some (en_now env));
                      (updated, s1) = dep_UpdateCondition u condition evidence metAt s
               in case updated of
                    None \<Rightarrow> (Inl (NotFound ''TaskDependency''), s, [])
                  | Some d \<Rightarrow> (Inr d, s1,
                      if td_ConditionSatisfied d \<and> \<not> td_ConditionSatisfied dep \<and> en_resolver env then [td_DependsOnTaskID d] else []))"

text \<open>\<open>Delete\<close>: the edge goes first; an \<open>is_child_of\<close> edge then gives back the parent it set, unless the task has been
  re-parented since. In the atomic case the trigger has done so inside the delete.\<close>

definition clear_parent :: "TaskDependency \<Rightarrow> dep_store \<Rightarrow> dep_store" where
  "clear_parent dep s =
     (if td_DependencyType dep = IsChildOf \<and> parent_of s (td_TaskID dep) = Some (td_DependsOnTaskID dep)
      then set_parent (td_TaskID dep) None s else s)"

definition dep_service_Delete :: "dep_env \<Rightarrow> uuid \<Rightarrow> dep_store \<Rightarrow> Error option \<times> dep_store" where
  "dep_service_Delete env u s =
     (case (if en_atomic env then delete_with_triggers u s else dep_Delete u s) of
        Inl e \<Rightarrow> (Some e, s)
      | Inr s1 \<Rightarrow>
          (None, case dep_GetByID s u of
                   None \<Rightarrow> s1
                 | Some dep \<Rightarrow> if en_atomic env then s1 else clear_parent dep s1))"

section \<open>Listing\<close>

record EnrichedTaskDependency =
  ed_TaskDependency :: TaskDependency
  ed_RelatedTaskTitle :: "string option"
  ed_RelatedTaskStatusID :: "uuid option"

text \<open>The cache of looked-up tasks only saves queries: nothing writes between them, so a hit is what the query
  would return.\<close>

definition enrichDependencies :: "dep_store \<Rightarrow> (TaskDependency \<Rightarrow> uuid) \<Rightarrow> TaskDependency list \<Rightarrow> EnrichedTaskDependency list" where
  "enrichDependencies s relatedID deps =
     map (\<lambda>d. case task_GetByID s (relatedID d) of
                None \<Rightarrow> \<lparr>ed_TaskDependency = d, ed_RelatedTaskTitle = None, ed_RelatedTaskStatusID = None\<rparr>
              | Some t \<Rightarrow> \<lparr>ed_TaskDependency = d, ed_RelatedTaskTitle = Some (ta_Title t), ed_RelatedTaskStatusID = Some (ta_StatusID t)\<rparr>)
       deps"

definition ListByTaskBothDirections :: "dep_store \<Rightarrow> uuid \<Rightarrow> EnrichedTaskDependency list \<times> EnrichedTaskDependency list" where
  "ListByTaskBothDirections s taskID =
     (enrichDependencies s td_DependsOnTaskID (dep_ListByTask s taskID),
      enrichDependencies s td_TaskID (dep_ListDependents s taskID))"

text \<open>The board's query: the blocks edges that still hold each of the tasks, oldest first.\<close>

definition ListBlockingByTasks :: "dep_store \<Rightarrow> uuid list \<Rightarrow> uuid \<Rightarrow> TaskDependency list" where
  "ListBlockingByTasks s taskIDs u =
     filter (\<lambda>d. td_TaskID d = u \<and> \<not> td_ConditionSatisfied d)
       (map (read_edge s) (sort_key td_CreatedAt
          (filter (\<lambda>d. td_TaskID d \<in> set taskIDs \<and> td_DependencyType d = Blocks) (ds_deps s))))"

end
