(* ===== verification/Dependency_Invariant.thy ===== *)
theory Dependency_Invariant
  imports Task_Dependency
begin

text \<open>
  What the dependency service promises about its tables, whatever sequence of requests it serves: well-formed and
  storable edges, no edge across workspaces, no duplicate, a hierarchy that agrees with its edges, and no cycle. The
  promise about cycles is kept by two different mechanisms, the triggers of the production repository and the walks of the
  service; both provide the interface \<open>edge_writer\<close> under which the rest is proved once.
\<close>

section \<open>The invariant\<close>

definition edge_ok :: "TaskDependency \<Rightarrow> bool" where
  "edge_ok d \<longleftrightarrow> dependency_type_enum (td_DependencyType d) \<and> condition_Valid (td_Condition d)
     \<and> td_TaskID d \<noteq> td_DependsOnTaskID d
     \<and> (td_DependencyType d \<noteq> Blocks \<longrightarrow> td_Condition d = TaskDone)
     \<and> (td_Condition d = TaskDone \<longrightarrow> td_EvidenceURL d = None)
     \<and> (case td_EvidenceURL d of None \<Rightarrow> True | Some u \<Rightarrow> TrimSpace u \<noteq> '''')
     \<and> (td_ConditionMetAt d \<noteq> None \<longleftrightarrow> td_EvidenceURL d \<noteq> None)"

definition same_tenancy :: "dep_store \<Rightarrow> uuid \<Rightarrow> uuid \<Rightarrow> bool" where
  "same_tenancy s a b \<longleftrightarrow> (\<exists>t \<in> set (ds_tasks s). \<exists>u \<in> set (ds_tasks s). ta_ID t = a \<and> ta_ID u = b
     \<and> (ta_ProjectID t = ta_ProjectID u
        \<or> (\<exists>ws. workspaceOf s (ta_ProjectID t) = Some ws \<and> workspaceOf s (ta_ProjectID u) = Some ws)))"

definition hierarchy_ok :: "dep_store \<Rightarrow> TaskDependency \<Rightarrow> bool" where
  "hierarchy_ok s d \<longleftrightarrow> (td_DependencyType d = IsChildOf \<longrightarrow>
     (\<forall>t \<in> set (ds_tasks s). ta_ID t = td_TaskID d \<longrightarrow> ta_ParentTaskID t = Some (td_DependsOnTaskID d)))"

definition pair_of :: "TaskDependency \<Rightarrow> uuid \<times> uuid" where
  "pair_of d = (td_TaskID d, td_DependsOnTaskID d)"

definition deps_ok :: "dep_store \<Rightarrow> bool" where
  "deps_ok s \<longleftrightarrow> distinct (map ta_ID (ds_tasks s)) \<and> distinct (map td_ID (ds_deps s)) \<and> distinct (map pair_of (ds_deps s))
     \<and> (\<forall>d \<in> set (ds_deps s). edge_ok d \<and> same_tenancy s (td_TaskID d) (td_DependsOnTaskID d) \<and> hierarchy_ok s d)"

text \<open>No cycle: in production of the whole completion graph of every workspace, otherwise of each of its two parts.\<close>

definition completion_acyclic :: "dep_store \<Rightarrow> bool" where
  "completion_acyclic s \<longleftrightarrow> (\<forall>ws. acyclic (set (completion_edges s ws None None)))"

definition walks_acyclic :: "dep_store \<Rightarrow> bool" where
  "walks_acyclic s \<longleftrightarrow> acyclic (dep_rel (ds_deps s)) \<and> acyclic (parent_rel s)"

section \<open>How the writes change the tables\<close>

lemma find_map_keep:
  assumes "\<And>x. P (f x) = P x"
  shows "find P (map f xs) = map_option f (find P xs)"
  using assms by (induction xs) auto

lemma find_unique:
  assumes "distinct (map k xs)" and "x \<in> set xs" and "k x = v"
  shows "find (\<lambda>y. k y = v) xs = Some x"
  using assms by (induction xs) (auto simp: image_iff)

lemma task_GetByID_Some: "task_GetByID s u = Some t \<Longrightarrow> t \<in> set (ds_tasks s) \<and> ta_ID t = u \<and> \<not> ta_Deleted t"
  by (auto simp: task_GetByID_def dest: find_SomeD)

lemma task_row_GetByID:
  assumes "distinct (map ta_ID (ds_tasks s))" and "task_GetByID s u = Some t"
  shows "task_row s u = Some t"
  using find_unique [OF assms(1)] task_GetByID_Some [OF assms(2)] by (auto simp: task_row_def)

lemma task_unique:
  assumes "distinct (map ta_ID (ds_tasks s))" and "t \<in> set (ds_tasks s)" and "u \<in> set (ds_tasks s)" and "ta_ID t = ta_ID u"
  shows "t = u"
  using assms by (auto simp: distinct_map inj_on_def)

lemma set_parent_simps [simp]:
  "ds_deps (set_parent u p s) = ds_deps s" "ds_projects (set_parent u p s) = ds_projects s"
  by (simp_all add: set_parent_def)

lemma release_parent_simps [simp]:
  "ds_deps (release_parent d s) = ds_deps s" "ds_projects (release_parent d s) = ds_projects s"
  by (simp_all add: release_parent_def)

lemma dep_Create_Inr:
  assumes "dep_Create d s = Inr t"
  shows "t = s\<lparr>ds_deps := ds_deps s @ [if td_Condition d = '''' then d\<lparr>td_Condition := TaskDone\<rparr> else d]\<rparr>
     \<and> dependency_type_enum (td_DependencyType d) \<and> td_TaskID d \<noteq> td_DependsOnTaskID d \<and> td_ID d \<notin> td_ID ` set (ds_deps s)
     \<and> \<not> dep_Exists s (td_TaskID d) (td_DependsOnTaskID d)"
  using assms by (simp only: dep_Create_def Let_def split: if_split_asm) simp_all

lemma dep_Delete_Inr:
  assumes "dep_Delete u s = Inr t"
  shows "t = s\<lparr>ds_deps := filter (\<lambda>d. td_ID d \<noteq> u) (ds_deps s)\<rparr>"
  using assms by (simp add: dep_Delete_def split: if_split_asm)

lemma workspaceOf_cong: "ds_projects s = ds_projects t \<Longrightarrow> workspaceOf s p = workspaceOf t p"
  by (simp add: workspaceOf_def project_GetByID_def)

lemma row_workspace_cong: "ds_projects s = ds_projects t \<Longrightarrow> ta_ProjectID a = ta_ProjectID b \<Longrightarrow> row_workspace s a = row_workspace t b"
  by (simp add: row_workspace_def)

text \<open>A write of parents: every task keeps everything but its parent.\<close>

definition reparent :: "(task \<Rightarrow> uuid option) \<Rightarrow> dep_store \<Rightarrow> dep_store" where
  "reparent f s = s\<lparr>ds_tasks := map (\<lambda>t. t\<lparr>ta_ParentTaskID := f t\<rparr>) (ds_tasks s)\<rparr>"

lemma reparent_simps [simp]:
  "ds_deps (reparent f s) = ds_deps s" "ds_projects (reparent f s) = ds_projects s"
  "ds_tasks (reparent f s) = map (\<lambda>t. t\<lparr>ta_ParentTaskID := f t\<rparr>) (ds_tasks s)"
  by (simp_all add: reparent_def)

lemma task_keep: "t\<lparr>ta_ParentTaskID := ta_ParentTaskID t\<rparr> = t"
  by simp

lemma set_parent_reparent:
  "set_parent u p s = reparent (\<lambda>t. if ta_ID t = u \<and> \<not> ta_Deleted t then p else ta_ParentTaskID t) s"
  unfolding set_parent_def reparent_def
  by (rule arg_cong [where f = "\<lambda>x. s\<lparr>ds_tasks := x\<rparr>"], rule map_cong) (simp_all split: if_split)

lemma release_parent_reparent:
  "release_parent d s = reparent (\<lambda>t. if ta_ID t = td_TaskID d \<and> ta_ParentTaskID t = Some (td_DependsOnTaskID d) \<and> \<not> ta_Deleted t
     then None else ta_ParentTaskID t) s"
  unfolding release_parent_def reparent_def
  by (rule arg_cong [where f = "\<lambda>x. s\<lparr>ds_tasks := x\<rparr>"], rule map_cong) (simp_all split: if_split)

lemma reparent_GetByID: "task_GetByID (reparent f s) u = map_option (\<lambda>t. t\<lparr>ta_ParentTaskID := f t\<rparr>) (task_GetByID s u)"
  unfolding task_GetByID_def reparent_simps by (rule find_map_keep) simp

lemma reparent_row_workspace: "row_workspace (reparent f s) (t\<lparr>ta_ParentTaskID := p\<rparr>) = row_workspace s t"
  by (simp add: row_workspace_def)

lemma reparent_in_workspace: "in_workspace (reparent f s) ws u = in_workspace s ws u"
  by (simp add: in_workspace_def reparent_GetByID reparent_row_workspace split: option.split)

lemma reparent_same_tenancy: "same_tenancy (reparent f s) a b = same_tenancy s a b"
  by (simp add: same_tenancy_def workspaceOf_def project_GetByID_def)

lemma reparent_ids: "map ta_ID (ds_tasks (reparent f s)) = map ta_ID (ds_tasks s)"
  by simp

lemma reparent_parent_of: "parent_of (reparent f s) u = (case task_GetByID s u of None \<Rightarrow> None | Some t \<Rightarrow> f t)"
  by (simp add: parent_of_def reparent_GetByID split: option.split)

lemma hierarchy_reparent:
  "hierarchy_ok (reparent f s) d \<longleftrightarrow> (td_DependencyType d = IsChildOf \<longrightarrow>
     (\<forall>t \<in> set (ds_tasks s). ta_ID t = td_TaskID d \<longrightarrow> f t = Some (td_DependsOnTaskID d)))"
  by (simp add: hierarchy_ok_def)

section \<open>What a successful request has checked\<close>

lemma normalize_edge_keeps [simp]:
  "td_ID (normalize_edge now d) = td_ID d" "td_TaskID (normalize_edge now d) = td_TaskID d"
  "td_DependsOnTaskID (normalize_edge now d) = td_DependsOnTaskID d" "td_DependencyType (normalize_edge now d) = td_DependencyType d"
  "td_Condition (normalize_edge now d) = td_Condition d"
  by (simp_all add: normalize_edge_def Let_def)

lemma blank_to_nil_Some: "blank_to_nil u = Some v \<Longrightarrow> TrimSpace v \<noteq> ''''"
  by (auto simp: blank_to_nil_def split: option.split_asm if_split_asm)

lemma normalize_edge_evidence:
  "(td_Condition d = TaskDone \<longrightarrow> td_EvidenceURL (normalize_edge now d) = None)
   \<and> (case td_EvidenceURL (normalize_edge now d) of None \<Rightarrow> True | Some u \<Rightarrow> TrimSpace u \<noteq> '''')
   \<and> (td_ConditionMetAt (normalize_edge now d) \<noteq> None \<longleftrightarrow> td_EvidenceURL (normalize_edge now d) \<noteq> None)"
  by (cases "td_Condition d = TaskDone"; cases "blank_to_nil (td_EvidenceURL d)")
    (simp_all add: normalize_edge_def Let_def blank_to_nil_Some)

lemma warn_edge_Inr:
  assumes "warn_edge env s t d = Inr d'"
  shows "\<exists>w. d' = d\<lparr>td_Warning := w\<rparr>"
proof -
  have "d' = d\<lparr>td_Warning := td_Warning d\<rparr> \<or> d' = d\<lparr>td_Warning := blockerWarning t\<rparr>"
    using assms by (auto simp: warn_edge_def split: if_split_asm)
  then show ?thesis by blast
qed

text \<open>The edge \<open>create_checks\<close> lets through.\<close>

definition admitted :: "dep_env \<Rightarrow> dep_store \<Rightarrow> TaskDependency \<Rightarrow> task \<Rightarrow> task \<Rightarrow> bool" where
  "admitted env s d task depTask \<longleftrightarrow>
     task_GetByID s (td_TaskID d) = Some task \<and> task_GetByID s (td_DependsOnTaskID d) = Some depTask
     \<and> td_TaskID d \<noteq> td_DependsOnTaskID d \<and> assertSameTenancy env s task depTask = None
     \<and> condition_Valid (td_Condition d)
     \<and> (td_DependencyType d \<noteq> Blocks \<longrightarrow> td_Condition d = TaskDone)
     \<and> (td_Condition d = TaskDone \<longrightarrow> td_EvidenceURL d = None)
     \<and> (case td_EvidenceURL d of None \<Rightarrow> True | Some u \<Rightarrow> TrimSpace u \<noteq> '''')
     \<and> (td_ConditionMetAt d \<noteq> None \<longleftrightarrow> td_EvidenceURL d \<noteq> None)
     \<and> \<not> dep_Exists s (td_TaskID d) (td_DependsOnTaskID d)
     \<and> (td_DependencyType d = Blocks \<longrightarrow> \<not> en_atomic env \<longrightarrow> \<not> CheckCycle s (td_TaskID d) (td_DependsOnTaskID d))
     \<and> child_checks env s task depTask d = None"

lemma child_checks_cong:
  "td_DependencyType d = td_DependencyType e \<Longrightarrow> td_TaskID d = td_TaskID e \<Longrightarrow> td_DependsOnTaskID d = td_DependsOnTaskID e
     \<Longrightarrow> child_checks env s t u d = child_checks env s t u e"
  by (simp only: child_checks_def)

lemma create_checks_Inr:
  assumes "create_checks env s d0 = Inr d"
  shows "\<exists>task depTask. admitted env s d task depTask \<and> pair_of d = pair_of d0 \<and> td_DependencyType d = td_DependencyType d0"
proof -
  define d1 where "d1 = (if td_Condition d0 = '''' then d0\<lparr>td_Condition := TaskDone\<rparr> else d0)"
  have keep: "td_TaskID d1 = td_TaskID d0" "td_DependsOnTaskID d1 = td_DependsOnTaskID d0" "td_DependencyType d1 = td_DependencyType d0"
    by (simp_all add: d1_def)
  from assms obtain task depTask where t: "td_TaskID d0 \<noteq> td_DependsOnTaskID d0"
      "task_GetByID s (td_TaskID d0) = Some task" "task_GetByID s (td_DependsOnTaskID d0) = Some depTask"
      "assertSameTenancy env s task depTask = None"
    by (auto simp only: create_checks_def guard_res_Inr split: if_split_asm option.split_asm)
  obtain d2 where w: "warn_edge env s depTask (normalize_edge (en_now env) d1) = Inr d2"
    using assms t
    by (cases "warn_edge env s depTask (normalize_edge (en_now env) d1)")
      (simp_all add: create_checks_def Let_def d1_def [symmetric] split: if_split_asm)
  note unfolded = assms [unfolded create_checks_def Let_def d1_def [symmetric], unfolded t(2,3) option.case t(4) guard_res_simps w bind_res_simps]
  have c: "condition_Valid (td_Condition d1)"
      "td_DependencyType d1 \<noteq> Blocks \<longrightarrow> td_Condition d1 = TaskDone"
      "\<not> dep_Exists s (td_TaskID d2) (td_DependsOnTaskID d2)"
      "\<not> (td_DependencyType d2 = Blocks \<and> \<not> en_atomic env \<and> CheckCycle s (td_TaskID d2) (td_DependsOnTaskID d2))"
      "child_checks env s task depTask d2 = None"
      "d2\<lparr>td_ID := (if td_ID d2 = uuid_Nil then en_fresh env else td_ID d2), td_CreatedAt := en_now env\<rparr> = d"
    using unfolded t(1) by (auto simp del: if_split split: if_split_asm)
  from warn_edge_Inr [OF w] obtain w where d2: "d2 = (normalize_edge (en_now env) d1)\<lparr>td_Warning := w\<rparr>" by blast
  have d: "td_TaskID d = td_TaskID d0" "td_DependsOnTaskID d = td_DependsOnTaskID d0" "td_DependencyType d = td_DependencyType d0"
      "td_Condition d = td_Condition d1" "td_EvidenceURL d = td_EvidenceURL (normalize_edge (en_now env) d1)"
      "td_ConditionMetAt d = td_ConditionMetAt (normalize_edge (en_now env) d1)"
    by (simp_all add: c(6) [symmetric] d2 keep)
  have d2_keep: "td_TaskID d2 = td_TaskID d0" "td_DependsOnTaskID d2 = td_DependsOnTaskID d0" "td_DependencyType d2 = td_DependencyType d0"
    by (simp_all add: d2 keep)
  have child: "child_checks env s task depTask d = None"
    using c(5) child_checks_cong [of d d2] d(1-3) d2_keep by simp
  have "admitted env s d task depTask"
    unfolding admitted_def
    using t c(1-4) child normalize_edge_evidence [of d1 "en_now env"] by (simp add: d d2_keep keep) blast
  then show ?thesis using d(1-3) by (auto simp: pair_of_def)
qed

lemma assertSameTenancy_None:
  assumes "assertSameTenancy env s t u = None"
  shows "ta_ProjectID t = ta_ProjectID u
    \<or> (\<exists>ws. workspaceOf s (ta_ProjectID t) = Some ws \<and> workspaceOf s (ta_ProjectID u) = Some ws)"
  using assms by (auto simp: assertSameTenancy_def split: if_split_asm option.split_asm)

lemma admitted_tenancy: "admitted env s d t u \<Longrightarrow> same_tenancy s (td_TaskID d) (td_DependsOnTaskID d)"
  unfolding same_tenancy_def admitted_def
  using task_GetByID_Some [of s] assertSameTenancy_None [of env s t u] by blast

lemma admitted_edge_ok: "admitted env s d t u \<Longrightarrow> dependency_type_enum (td_DependencyType d) \<Longrightarrow> edge_ok d"
  by (simp add: admitted_def edge_ok_def)

lemma condition_Valid_nonempty: "condition_Valid c \<Longrightarrow> c \<noteq> ''''"
  by (auto simp: condition_Valid_def dependency_names)

text \<open>A successful insert, in either mode: the edge appended, and for a child edge its parent set.\<close>

definition with_edge :: "TaskDependency \<Rightarrow> dep_store \<Rightarrow> dep_store" where
  "with_edge d s = s\<lparr>ds_deps := ds_deps s @ [d]\<rparr>"

lemma with_edge_simps [simp]:
  "ds_deps (with_edge d s) = ds_deps s @ [d]" "ds_tasks (with_edge d s) = ds_tasks s" "ds_projects (with_edge d s) = ds_projects s"
  "task_GetByID (with_edge d s) u = task_GetByID s u" "task_row (with_edge d s) u = task_row s u"
  "row_workspace (with_edge d s) t = row_workspace s t" "parent_rel (with_edge d s) = parent_rel s"
  by (simp_all add: with_edge_def task_GetByID_def task_row_def row_workspace_def parent_rel_def parent_of_def)

lemma with_edge_in_workspace [simp]: "in_workspace (with_edge d s) ws u = in_workspace s ws u"
  by (simp add: in_workspace_def split: option.split)

definition stored :: "TaskDependency \<Rightarrow> dep_store \<Rightarrow> dep_store" where
  "stored d s = (if td_DependencyType d = IsChildOf then set_parent (td_TaskID d) (Some (td_DependsOnTaskID d)) (with_edge d s)
                 else with_edge d s)"

lemma set_parent_same:
  assumes "distinct (map ta_ID (ds_tasks s))" and "task_GetByID s u = Some t" and "ta_ParentTaskID t = p"
  shows "set_parent u p s = s"
proof -
  have "map (\<lambda>x. if ta_ID x = u \<and> \<not> ta_Deleted x then x\<lparr>ta_ParentTaskID := p\<rparr> else x) (ds_tasks s) = ds_tasks s"
  proof (rule map_idI)
    fix x assume x: "x \<in> set (ds_tasks s)"
    show "(if ta_ID x = u \<and> \<not> ta_Deleted x then x\<lparr>ta_ParentTaskID := p\<rparr> else x) = x"
    proof (cases "ta_ID x = u")
      case True
      then have "x = t" using task_unique [OF assms(1) x] task_GetByID_Some [OF assms(2)] by simp
      with assms(3) show ?thesis by auto
    qed simp
  qed
  then show ?thesis by (simp add: set_parent_def)
qed

lemma create_with_edge:
  assumes "admitted env s d task depTask" and "dep_Create d s = Inr t"
  shows "t = with_edge d s \<and> dependency_type_enum (td_DependencyType d) \<and> td_ID d \<notin> td_ID ` set (ds_deps s)"
proof -
  have "td_Condition d \<noteq> ''''" using assms(1) condition_Valid_nonempty by (simp add: admitted_def)
  with dep_Create_Inr [OF assms(2)] show ?thesis by (simp add: with_edge_def)
qed

lemma store_edge_Inr:
  assumes "admitted env s d task depTask" and "store_edge env d s = Inr t" and "distinct (map ta_ID (ds_tasks s))"
  shows "t = stored d s \<and> dependency_type_enum (td_DependencyType d) \<and> td_ID d \<notin> td_ID ` set (ds_deps s)
     \<and> (en_atomic env \<longrightarrow> completion_insert_guard s d = None)"
proof (cases "en_atomic env")
  case False
  with assms(2) obtain s1 where c: "dep_Create d s = Inr s1"
      and t: "t = (if td_DependencyType d = IsChildOf then set_parent (td_TaskID d) (Some (td_DependsOnTaskID d)) s1 else s1)"
    by (auto simp: store_edge_def)
  from create_with_edge [OF assms(1) c] t False show ?thesis by (simp add: stored_def)
next
  case True
  with assms(2) obtain s1 where g: "completion_insert_guard s d = None" and c: "dep_Create d s = Inr s1"
      and a: "completion_apply_parent d s1 = Inr t"
    by (auto simp: store_edge_def insert_with_triggers_def split: if_split_asm)
  note w = create_with_edge [OF assms(1) c]
  have live: "task_GetByID s (td_TaskID d) = Some task" using assms(1) by (simp add: admitted_def)
  have live1: "task_GetByID s1 (td_TaskID d) = Some task" "distinct (map ta_ID (ds_tasks s1))"
    using live assms(3) w by simp_all
  have "t = stored d s"
  proof (cases "td_DependencyType d = IsChildOf \<and> ta_ParentTaskID task \<noteq> Some (td_DependsOnTaskID d)")
    case True
    with a task_row_GetByID [OF live1(2,1)] w show ?thesis
      by (simp add: completion_apply_parent_def stored_def)
  next
    case False
    with a task_row_GetByID [OF live1(2,1)] have "t = s1" by (auto simp: completion_apply_parent_def split: if_split_asm)
    with False w set_parent_same [OF live1(2,1)] show ?thesis by (auto simp: stored_def)
  qed
  with w g show ?thesis by simp
qed

section \<open>Every request keeps the tables well-formed\<close>

lemma deps_ok_edge: "deps_ok s \<Longrightarrow> d \<in> set (ds_deps s) \<Longrightarrow>
    edge_ok d \<and> same_tenancy s (td_TaskID d) (td_DependsOnTaskID d) \<and> hierarchy_ok s d"
  by (simp add: deps_ok_def)

lemma dep_Exists_pair: "dep_Exists s a b \<longleftrightarrow> (a, b) \<in> pair_of ` set (ds_deps s)"
  by (auto simp: dep_Exists_def list_ex_iff pair_of_def)

lemma child_checks_None:
  assumes "child_checks env s t u d = None" and "td_DependencyType d = IsChildOf"
  shows "ta_ProjectID u = ta_ProjectID t \<and> (ta_ParentTaskID t = None \<or> ta_ParentTaskID t = Some (td_DependsOnTaskID d))
     \<and> (\<not> en_atomic env \<longrightarrow> \<not> hasParentCycle s (td_TaskID d) (td_DependsOnTaskID d))"
  using assms by (simp add: child_checks_def split: if_split_asm) blast

lemma same_tenancy_cong:
  "ds_tasks s = ds_tasks t \<Longrightarrow> ds_projects s = ds_projects t \<Longrightarrow> same_tenancy s a b = same_tenancy t a b"
  by (simp only: same_tenancy_def workspaceOf_def project_GetByID_def)

lemma hierarchy_ok_cong: "ds_tasks s = ds_tasks t \<Longrightarrow> hierarchy_ok s d = hierarchy_ok t d"
  by (simp only: hierarchy_ok_def)

lemma with_edge_ok:
  assumes "deps_ok s" and "edge_ok d" and "same_tenancy s (td_TaskID d) (td_DependsOnTaskID d)"
    and "td_ID d \<notin> td_ID ` set (ds_deps s)" and "\<not> dep_Exists s (td_TaskID d) (td_DependsOnTaskID d)"
    and "td_DependencyType d \<noteq> IsChildOf"
  shows "deps_ok (with_edge d s)"
  using assms same_tenancy_cong [of "with_edge d s" s] hierarchy_ok_cong [of "with_edge d s" s]
  by (auto simp: deps_ok_def dep_Exists_pair pair_of_def hierarchy_ok_def)

lemma with_child_ok:
  assumes ok: "deps_ok s" and d: "edge_ok d" "same_tenancy s (td_TaskID d) (td_DependsOnTaskID d)"
    and fresh: "td_ID d \<notin> td_ID ` set (ds_deps s)" "\<not> dep_Exists s (td_TaskID d) (td_DependsOnTaskID d)"
    and live: "task_GetByID s (td_TaskID d) = Some task"
    and free: "ta_ParentTaskID task = None \<or> ta_ParentTaskID task = Some (td_DependsOnTaskID d)"
  shows "deps_ok (set_parent (td_TaskID d) (Some (td_DependsOnTaskID d)) (with_edge d s))"
proof -
  define f :: "task \<Rightarrow> uuid option" where "f = (\<lambda>t. if ta_ID t = td_TaskID d \<and> \<not> ta_Deleted t then Some (td_DependsOnTaskID d) else ta_ParentTaskID t)"
  have ids: "distinct (map ta_ID (ds_tasks s))" using ok by (simp add: deps_ok_def)
  have only: "t = task" if "t \<in> set (ds_tasks s)" "ta_ID t = td_TaskID d" for t
    using task_unique [OF ids that(1)] task_GetByID_Some [OF live] that(2) by simp
  have "hierarchy_ok (reparent f (with_edge d s)) d"
    using only task_GetByID_Some [OF live] by (auto simp: hierarchy_reparent f_def)
  moreover have "hierarchy_ok (reparent f (with_edge d s)) e" if e: "e \<in> set (ds_deps s)" for e
    unfolding hierarchy_reparent
  proof (intro impI ballI)
    fix t assume h: "td_DependencyType e = IsChildOf" "t \<in> set (ds_tasks (with_edge d s))" "ta_ID t = td_TaskID e"
    then have p: "ta_ParentTaskID t = Some (td_DependsOnTaskID e)"
      using deps_ok_edge [OF ok e] by (simp add: hierarchy_ok_def)
    show "f t = Some (td_DependsOnTaskID e)"
    proof (cases "td_TaskID e = td_TaskID d")
      case True
      with h only have "t = task" by simp
      with p free True have "pair_of e = (td_TaskID d, td_DependsOnTaskID d)" by (simp add: pair_of_def)
      with e fresh(2) show ?thesis unfolding dep_Exists_pair by (metis imageI)
    next
      case False
      with h p show ?thesis by (simp add: f_def)
    qed
  qed
  moreover have "same_tenancy (reparent f (with_edge d s)) a b = same_tenancy s a b" for a b
    using reparent_same_tenancy same_tenancy_cong [of "with_edge d s" s] by simp
  ultimately have "deps_ok (reparent f (with_edge d s))"
    using ok d fresh unfolding deps_ok_def reparent_ids
    by (auto simp: dep_Exists_pair pair_of_def)
  then show ?thesis unfolding set_parent_reparent f_def .
qed

lemma stored_ok:
  assumes "deps_ok s" and "admitted env s d task depTask" and "dependency_type_enum (td_DependencyType d)"
    and "td_ID d \<notin> td_ID ` set (ds_deps s)"
  shows "deps_ok (stored d s)"
proof -
  have a: "\<not> dep_Exists s (td_TaskID d) (td_DependsOnTaskID d)" "task_GetByID s (td_TaskID d) = Some task"
      "child_checks env s task depTask d = None"
    using assms(2) by (simp_all add: admitted_def)
  note b = admitted_edge_ok [OF assms(2,3)] admitted_tenancy [OF assms(2)]
  show ?thesis
  proof (cases "td_DependencyType d = IsChildOf")
    case True
    from child_checks_None [OF a(3) True] with_child_ok [OF assms(1) b assms(4) a(1,2)] True
    show ?thesis by (simp add: stored_def)
  next
    case False
    with with_edge_ok [OF assms(1) b assms(4) a(1)] show ?thesis by (simp add: stored_def)
  qed
qed

text \<open>A delete, in either mode: the row goes, and the parent that row had set is given back.\<close>

definition without_edge :: "uuid \<Rightarrow> dep_store \<Rightarrow> dep_store" where
  "without_edge u s = s\<lparr>ds_deps := filter (\<lambda>d. td_ID d \<noteq> u) (ds_deps s)\<rparr>"

lemma without_edge_simps [simp]:
  "ds_deps (without_edge u s) = filter (\<lambda>d. td_ID d \<noteq> u) (ds_deps s)" "ds_tasks (without_edge u s) = ds_tasks s"
  "ds_projects (without_edge u s) = ds_projects s"
  "task_GetByID (without_edge u s) v = task_GetByID s v" "parent_of (without_edge u s) v = parent_of s v"
  "parent_rel (without_edge u s) = parent_rel s" "row_workspace (without_edge u s) t = row_workspace s t"
  by (simp_all add: without_edge_def task_GetByID_def parent_of_def parent_rel_def row_workspace_def)

lemma without_edge_in_workspace [simp]: "in_workspace (without_edge u s) ws v = in_workspace s ws v"
  by (simp add: in_workspace_def split: option.split)

lemma without_edge_ok:
  assumes "deps_ok s"
  shows "deps_ok (without_edge u s)"
  using assms same_tenancy_cong [of "without_edge u s" s] hierarchy_ok_cong [of "without_edge u s" s]
  unfolding deps_ok_def by (simp add: distinct_map_filter)

lemma release_parent_ok:
  assumes ok: "deps_ok s" and d: "d \<in> set (ds_deps s)" "td_DependencyType d = IsChildOf"
  shows "deps_ok (release_parent d (without_edge (td_ID d) s))"
proof -
  define f :: "task \<Rightarrow> uuid option" where
    "f = (\<lambda>t. if ta_ID t = td_TaskID d \<and> ta_ParentTaskID t = Some (td_DependsOnTaskID d) \<and> \<not> ta_Deleted t then None else ta_ParentTaskID t)"
  have inj: "inj_on pair_of (set (ds_deps s))" using ok by (simp add: deps_ok_def distinct_map)
  have w: "deps_ok (without_edge (td_ID d) s)" using ok by (rule without_edge_ok)
  have "hierarchy_ok (reparent f (without_edge (td_ID d) s)) e" if e: "e \<in> set (ds_deps s)" "td_ID e \<noteq> td_ID d" for e
    unfolding hierarchy_reparent
  proof (intro impI ballI)
    fix t assume h: "td_DependencyType e = IsChildOf" "t \<in> set (ds_tasks (without_edge (td_ID d) s))" "ta_ID t = td_TaskID e"
    then have p: "ta_ParentTaskID t = Some (td_DependsOnTaskID e)"
      using deps_ok_edge [OF ok e(1)] by (simp add: hierarchy_ok_def)
    show "f t = Some (td_DependsOnTaskID e)"
    proof (cases "td_TaskID e = td_TaskID d \<and> td_DependsOnTaskID e = td_DependsOnTaskID d")
      case True
      then have "e = d" using inj_onD [OF inj _ e(1) d(1)] by (simp add: pair_of_def)
      with e(2) show ?thesis by simp
    next
      case False
      with h p show ?thesis by (auto simp: f_def)
    qed
  qed
  then have "deps_ok (reparent f (without_edge (td_ID d) s))"
    using w unfolding deps_ok_def reparent_ids by (auto simp: reparent_same_tenancy)
  then show ?thesis unfolding release_parent_reparent f_def .
qed

text \<open>The service's own way of giving back the parent is the trigger's.\<close>

lemma clear_parent_release:
  assumes "distinct (map ta_ID (ds_tasks s))"
  shows "clear_parent (read_edge r d) s = (if td_DependencyType d = IsChildOf then release_parent d s else s)"
proof -
  have parents: "parent_of s (td_TaskID d) = Some p \<longleftrightarrow>
      (\<exists>t \<in> set (ds_tasks s). ta_ID t = td_TaskID d \<and> \<not> ta_Deleted t \<and> ta_ParentTaskID t = Some p)" for p
  proof
    assume "parent_of s (td_TaskID d) = Some p"
    then obtain t where "task_GetByID s (td_TaskID d) = Some t" "ta_ParentTaskID t = Some p"
      by (auto simp: parent_of_def split: option.split_asm)
    with task_GetByID_Some show "\<exists>t \<in> set (ds_tasks s). ta_ID t = td_TaskID d \<and> \<not> ta_Deleted t \<and> ta_ParentTaskID t = Some p" by blast
  next
    assume "\<exists>t \<in> set (ds_tasks s). ta_ID t = td_TaskID d \<and> \<not> ta_Deleted t \<and> ta_ParentTaskID t = Some p"
    then obtain t where t: "t \<in> set (ds_tasks s)" "ta_ID t = td_TaskID d" "\<not> ta_Deleted t" "ta_ParentTaskID t = Some p" by blast
    then have "task_GetByID s (td_TaskID d) \<noteq> None" by (auto simp: task_GetByID_def find_None_iff)
    then obtain t' where t': "task_GetByID s (td_TaskID d) = Some t'" by blast
    with task_GetByID_Some [OF t'] task_unique [OF assms t(1)] t(2) have "t' = t" by metis
    with t' t(4) show "parent_of s (td_TaskID d) = Some p" by (simp add: parent_of_def)
  qed
  show ?thesis
  proof (cases "td_DependencyType d = IsChildOf \<and> parent_of s (td_TaskID d) = Some (td_DependsOnTaskID d)")
    case True
    then have "ta_ParentTaskID t = Some (td_DependsOnTaskID d)"
      if "t \<in> set (ds_tasks s)" "ta_ID t = td_TaskID d" "\<not> ta_Deleted t" for t
      using parents task_unique [OF assms] that by metis
    then have "set_parent (td_TaskID d) None s = release_parent d s"
      unfolding set_parent_def release_parent_def
      by (intro arg_cong [where f = "\<lambda>x. s\<lparr>ds_tasks := x\<rparr>"] map_cong) auto
    with True show ?thesis by (simp add: clear_parent_def read_edge_def)
  next
    case False
    have "release_parent d s = s" if c: "td_DependencyType d = IsChildOf"
    proof -
      have "map (\<lambda>t. if ta_ID t = td_TaskID d \<and> ta_ParentTaskID t = Some (td_DependsOnTaskID d) \<and> \<not> ta_Deleted t
                 then t\<lparr>ta_ParentTaskID := None\<rparr> else t) (ds_tasks s) = ds_tasks s"
        by (rule map_idI) (use False c parents in auto)
      then show ?thesis by (simp add: release_parent_def)
    qed
    with False show ?thesis by (simp add: clear_parent_def read_edge_def)
  qed
qed

definition removed :: "TaskDependency \<Rightarrow> dep_store \<Rightarrow> dep_store" where
  "removed d s = (if td_DependencyType d = IsChildOf then release_parent d (without_edge (td_ID d) s) else without_edge (td_ID d) s)"

lemma removed_ok: "deps_ok s \<Longrightarrow> d \<in> set (ds_deps s) \<Longrightarrow> deps_ok (removed d s)"
  by (simp add: removed_def release_parent_ok without_edge_ok)

lemma dep_GetByID_Some:
  assumes "dep_GetByID s u = Some e"
  shows "\<exists>d \<in> set (ds_deps s). td_ID d = u \<and> e = read_edge s d"
  using assms by (auto simp: dep_GetByID_def dest: find_SomeD)

lemma dep_Delete_found:
  assumes "dep_Delete u s = Inr t"
  shows "\<exists>d. find (\<lambda>d. td_ID d = u) (ds_deps s) = Some d"
proof -
  have "\<exists>x \<in> set (ds_deps s). td_ID x = u" using assms by (auto simp: dep_Delete_def list_ex_iff split: if_split_asm)
  then have "find (\<lambda>d. td_ID d = u) (ds_deps s) \<noteq> None" unfolding find_None_iff by blast
  then show ?thesis by blast
qed

lemma dep_service_Delete_cases:
  assumes "deps_ok s" and "dep_service_Delete env u s = (r, t)"
  shows "t = s \<or> (\<exists>d \<in> set (ds_deps s). td_ID d = u \<and> (t = removed d s \<or> t = without_edge u s))"
proof (cases "en_atomic env")
  case True
  show ?thesis
  proof (cases "delete_with_triggers u s")
    case (Inl e)
    with assms(2) True show ?thesis by (simp add: dep_service_Delete_def)
  next
    case (Inr s2)
    with assms(2) True have t: "t = s2" by (auto simp: dep_service_Delete_def split: option.split_asm)
    from Inr obtain s1 where s1: "dep_Delete u s = Inr s1"
      and s2: "s2 = (case find (\<lambda>d. td_ID d = u) (ds_deps s) of None \<Rightarrow> s1
         | Some d \<Rightarrow> (case task_row s (td_TaskID d) of None \<Rightarrow> s1
           | Some t \<Rightarrow> if row_workspace s t \<noteq> None \<and> td_DependencyType d = IsChildOf then release_parent d s1 else s1))"
      by (auto simp: delete_with_triggers_def)
    have w: "s1 = without_edge u s" using dep_Delete_Inr [OF s1] by (simp add: without_edge_def)
    from dep_Delete_found [OF s1] obtain d where d: "find (\<lambda>d. td_ID d = u) (ds_deps s) = Some d" by blast
    with find_SomeD [OF d] show ?thesis
      by (intro disjI2 bexI [of _ d]) (auto simp: t s2 w removed_def split: option.split)
  qed
next
  case False
  show ?thesis
  proof (cases "dep_Delete u s")
    case (Inl e)
    with assms(2) False show ?thesis by (simp add: dep_service_Delete_def)
  next
    case (Inr s1)
    then have w: "s1 = without_edge u s" using dep_Delete_Inr by (simp add: without_edge_def)
    from dep_Delete_found [OF Inr] obtain e where e: "dep_GetByID s u = Some e" by (auto simp: dep_GetByID_def)
    from dep_GetByID_Some [OF e] obtain d where d: "d \<in> set (ds_deps s)" "td_ID d = u" "e = read_edge s d" by blast
    have ids: "distinct (map ta_ID (ds_tasks (without_edge u s)))" using assms(1) by (simp add: deps_ok_def)
    have "t = clear_parent (read_edge s d) (without_edge u s)"
      using assms(2) False Inr e d by (simp add: dep_service_Delete_def w)
    then have "t = removed d s" using d(2) clear_parent_release [OF ids, of s d] by (simp add: removed_def)
    with d show ?thesis by blast
  qed
qed

definition reconditioned :: "uuid \<Rightarrow> string \<Rightarrow> string option \<Rightarrow> gtime option \<Rightarrow> dep_store \<Rightarrow> dep_store" where
  "reconditioned u c v m s = s\<lparr>ds_deps := map (put_condition u c v m) (ds_deps s)\<rparr>"

lemma reconditioned_simps [simp]:
  "ds_deps (reconditioned u c v m s) = map (put_condition u c v m) (ds_deps s)"
  "ds_tasks (reconditioned u c v m s) = ds_tasks s" "ds_projects (reconditioned u c v m s) = ds_projects s"
  by (simp_all add: reconditioned_def)

lemma put_condition_keeps [simp]:
  "td_ID (put_condition u c v m d) = td_ID d" "td_TaskID (put_condition u c v m d) = td_TaskID d"
  "td_DependsOnTaskID (put_condition u c v m d) = td_DependsOnTaskID d"
  "td_DependencyType (put_condition u c v m d) = td_DependencyType d" "pair_of (put_condition u c v m d) = pair_of d"
  by (simp_all add: put_condition_def pair_of_def)

text \<open>What the update checks of the condition and the evidence it stores.\<close>

definition condition_ok :: "TaskDependency \<Rightarrow> string \<Rightarrow> string option \<Rightarrow> gtime option \<Rightarrow> bool" where
  "condition_ok d c v m \<longleftrightarrow> condition_Valid c \<and> (td_DependencyType d \<noteq> Blocks \<longrightarrow> c = TaskDone) \<and> (c = TaskDone \<longrightarrow> v = None)
     \<and> (case v of None \<Rightarrow> True | Some x \<Rightarrow> TrimSpace x \<noteq> '''') \<and> (m \<noteq> None \<longleftrightarrow> v \<noteq> None)"

lemma put_condition_edge_ok:
  "edge_ok d \<Longrightarrow> (td_ID d = u \<Longrightarrow> condition_ok d c v m) \<Longrightarrow> edge_ok (put_condition u c v m d)"
  by (auto simp: edge_ok_def put_condition_def condition_ok_def)

lemma dep_service_UpdateCondition_cases:
  assumes "dep_service_UpdateCondition env u inp s = (r, t, n)"
  shows "t = s \<or> (\<exists>d c v m. d \<in> set (ds_deps s) \<and> td_ID d = u \<and> condition_ok d c v m \<and> t = reconditioned u c v m s)"
proof (cases "dep_GetByID s u")
  case None
  with assms show ?thesis by (simp add: dep_service_UpdateCondition_def)
next
  case (Some e)
  from dep_GetByID_Some [OF Some] obtain d where d: "d \<in> set (ds_deps s)" "td_ID d = u" "e = read_edge s d" by blast
  have type: "td_DependencyType e = td_DependencyType d" by (simp add: d(3) read_edge_def)
  define c where "c = (case uc_Condition inp of None \<Rightarrow> td_Condition e | Some c \<Rightarrow> c)"
  define v where "v = blank_to_nil (case uc_EvidenceURL inp of None \<Rightarrow> td_EvidenceURL e | Some v \<Rightarrow> Some v)"
  define m where "m = (case v of None \<Rightarrow> None
     | Some x \<Rightarrow> if td_ConditionMetAt e \<noteq> None \<and> td_Condition e = c \<and> td_EvidenceURL e = Some x then td_ConditionMetAt e else Some (en_now env))"
  note unfolded = assms [unfolded dep_service_UpdateCondition_def Some option.case Let_def c_def [symmetric] v_def [symmetric] m_def [symmetric]]
  show ?thesis
  proof (cases "condition_Valid c \<and> \<not> (td_DependencyType e \<noteq> Blocks \<and> c \<noteq> TaskDone) \<and> \<not> (c = TaskDone \<and> v \<noteq> None)")
    case False
    with unfolded have "t = s" by (auto split: if_split_asm)
    then show ?thesis by simp
  next
    case True
    have "condition_ok d c v m"
      using True type blank_to_nil_Some by (auto simp: condition_ok_def v_def m_def split: option.split)
    moreover have "t = s \<or> t = reconditioned u c v m s"
      using unfolded True by (auto simp: dep_UpdateCondition_def reconditioned_def Let_def split: option.split_asm)
    ultimately show ?thesis using d(1,2) by blast
  qed
qed

lemma reconditioned_ok:
  assumes ok: "deps_ok s" and d: "d \<in> set (ds_deps s)" "td_ID d = u" "condition_ok d c v m"
  shows "deps_ok (reconditioned u c v m s)"
proof -
  have "inj_on td_ID (set (ds_deps s))" using ok by (simp add: deps_ok_def distinct_map)
  then have "e = d" if "e \<in> set (ds_deps s)" "td_ID e = u" for e using that d by (auto dest: inj_onD)
  then have "edge_ok (put_condition u c v m e)" if "e \<in> set (ds_deps s)" for e
    using put_condition_edge_ok [of e u c v m] deps_ok_edge [OF ok that] d(3) that by blast
  moreover have "hierarchy_ok (reconditioned u c v m s) (put_condition u c v m e) = hierarchy_ok s e" for e
    by (simp add: hierarchy_ok_def)
  moreover have "td_ID \<circ> put_condition u c v m = td_ID" "pair_of \<circ> put_condition u c v m = pair_of"
    by (simp_all add: fun_eq_iff)
  ultimately show ?thesis
    using ok same_tenancy_cong [of "reconditioned u c v m s" s] unfolding deps_ok_def by simp
qed

section \<open>Creating\<close>

lemma dep_service_Create_cases:
  assumes "dep_service_Create env d0 s = (r, t, n)" and "deps_ok s"
  shows "t = s \<or> (\<exists>d task depTask. admitted env s d task depTask \<and> t = stored d s \<and> dependency_type_enum (td_DependencyType d)
     \<and> td_ID d \<notin> td_ID ` set (ds_deps s) \<and> (en_atomic env \<longrightarrow> completion_insert_guard s d = None))"
proof (cases "bind_res (create_checks env s d0) (\<lambda>dep. bind_res (store_edge env dep s) (\<lambda>s1. Inr (dep, s1)))")
  case (Inl e)
  with assms(1) show ?thesis by (simp add: dep_service_Create_def)
next
  case (Inr p)
  then obtain d s1 where c: "create_checks env s d0 = Inr d" and st: "store_edge env d s = Inr s1" and p: "p = (d, s1)" by auto
  from create_checks_Inr [OF c] obtain task depTask where a: "admitted env s d task depTask" by blast
  have "t = s1" using assms(1) Inr p by (simp add: dep_service_Create_def Let_def)
  moreover have "distinct (map ta_ID (ds_tasks s))" using assms(2) by (simp add: deps_ok_def)
  ultimately show ?thesis using store_edge_Inr [OF a st] a by blast
qed

section \<open>No request closes a cycle\<close>

lemma set_map_filter: "set (List.map_filter f xs) = {y. \<exists>x \<in> set xs. f x = Some y}"
  by (force simp: List.map_filter_def)

lemma set_completion_edges:
  "set (completion_edges s ws rc rd) =
     {pair_of d | d. d \<in> set (ds_deps s) \<and> waits_edge s ws rd d} \<union> {e. \<exists>c \<in> set (ds_tasks s). child_edge s ws rc c = Some e}"
  by (auto simp: completion_edges_def set_map_filter pair_of_def)

lemma completion_edges_fresh:
  assumes "u \<notin> td_ID ` set (ds_deps s)"
  shows "completion_edges s ws rc (Some u) = completion_edges s ws rc None"
proof -
  have "filter (waits_edge s ws (Some u)) (ds_deps s) = filter (waits_edge s ws None) (ds_deps s)"
    using assms by (intro filter_cong) (auto simp: waits_edge_def)
  then show ?thesis by (simp add: completion_edges_def)
qed

lemma child_edge_replaced: "child_edge s ws (Some c) t = Some e \<Longrightarrow> child_edge s ws None t = Some e"
  by (auto simp: child_edge_def split: option.split_asm if_split_asm)

lemma completion_edges_replaced: "set (completion_edges s ws (Some c) rd) \<subseteq> set (completion_edges s ws None rd)"
  unfolding set_completion_edges using child_edge_replaced by blast

lemma in_workspace_unique: "in_workspace s ws u \<Longrightarrow> in_workspace s ws' u \<Longrightarrow> ws = ws'"
  by (auto simp: in_workspace_def split: option.split_asm)

lemma waits_with_edge: "waits_edge (with_edge d s) ws rd e = waits_edge s ws rd e"
  by (simp add: waits_edge_def)

lemma child_with_edge: "child_edge (with_edge d s) ws rc c = child_edge s ws rc c"
  by (simp only: child_edge_def with_edge_simps with_edge_in_workspace)

lemma completion_edges_with_edge:
  "set (completion_edges (with_edge d s) ws rc None)
     = (if waits_edge s ws None d then {pair_of d} else {}) \<union> set (completion_edges s ws rc None)"
  by (auto simp: set_completion_edges waits_with_edge child_with_edge)

lemma waits_reparent: "waits_edge (reparent f s) ws rd d = waits_edge s ws rd d"
  by (simp add: waits_edge_def reparent_in_workspace)

lemma child_reparent:
  "child_edge (reparent f s) ws rc (t\<lparr>ta_ParentTaskID := p\<rparr>) = child_edge s ws rc (t\<lparr>ta_ParentTaskID := p\<rparr>)"
  by (cases p) (simp_all add: child_edge_def reparent_in_workspace row_workspace_def)

lemma completion_edges_reparent:
  "set (completion_edges (reparent f s) ws rc rd) =
     {pair_of d | d. d \<in> set (ds_deps s) \<and> waits_edge s ws rd d}
     \<union> {e. \<exists>c \<in> set (ds_tasks s). child_edge s ws rc (c\<lparr>ta_ParentTaskID := f c\<rparr>) = Some e}"
  by (simp add: set_completion_edges waits_reparent child_reparent)

text \<open>Giving a task a parent adds at most that edge, in the task's own workspace.\<close>

lemma completion_edges_set_parent:
  assumes "task_GetByID s c = Some task" and "distinct (map ta_ID (ds_tasks s))"
  shows "set (completion_edges (set_parent c (Some p) s) ws None None)
     \<subseteq> (if row_workspace s task = Some ws then {(p, c)} else {}) \<union> set (completion_edges s ws (Some c) None)"
proof
  fix e assume "e \<in> set (completion_edges (set_parent c (Some p) s) ws None None)"
  then consider d where "d \<in> set (ds_deps s)" "waits_edge s ws None d" "e = pair_of d"
    | t where "t \<in> set (ds_tasks s)"
        "child_edge s ws None (t\<lparr>ta_ParentTaskID := (if ta_ID t = c \<and> \<not> ta_Deleted t then Some p else ta_ParentTaskID t)\<rparr>) = Some e"
    unfolding set_parent_reparent completion_edges_reparent by blast
  then show "e \<in> (if row_workspace s task = Some ws then {(p, c)} else {}) \<union> set (completion_edges s ws (Some c) None)"
  proof cases
    case 1
    then show ?thesis by (auto simp: set_completion_edges)
  next
    case 2
    show ?thesis
    proof (cases "ta_ID t = c \<and> \<not> ta_Deleted t")
      case True
      then have "t = task" using task_unique [OF assms(2) 2(1)] task_GetByID_Some [OF assms(1)] by simp
      with 2(2) True show ?thesis
        by (auto simp: child_edge_def row_workspace_def split: if_split_asm)
    next
      case False
      with 2(2) have "child_edge s ws (Some c) t = Some e"
        by (auto simp: child_edge_def row_workspace_def split: option.split_asm if_split_asm)
      with 2(1) show ?thesis by (auto simp: set_completion_edges)
    qed
  qed
qed

lemma completion_acyclic_with_edge:
  assumes ac: "completion_acyclic s" and g: "completion_insert_guard s d = None" and fresh: "td_ID d \<notin> td_ID ` set (ds_deps s)"
  shows "completion_acyclic (with_edge d s)"
  unfolding completion_acyclic_def
proof
  fix ws
  show "acyclic (set (completion_edges (with_edge d s) ws None None))"
  proof (cases "waits_edge s ws None d")
    case True
    then have b: "td_DependencyType d = Blocks" and ws: "in_workspace s ws (td_TaskID d)" by (auto simp: waits_edge_def)
    from g obtain t w where t: "task_GetByID s (td_TaskID d) = Some t" "row_workspace s t = Some w"
      and a: "completion_graph_assert_edge (completion_edges s w None (Some (td_ID d))) (td_TaskID d) (td_DependsOnTaskID d) = None"
      using b by (auto simp: completion_insert_guard_def split: option.split_asm if_split_asm)
    with ws have "w = ws" by (simp add: in_workspace_def)
    with a have "(td_DependsOnTaskID d, td_TaskID d) \<notin> (set (completion_edges s ws None None))\<^sup>*"
      unfolding assert_edge_iff completion_edges_fresh [OF fresh] by simp
    with ac True show ?thesis unfolding completion_edges_with_edge by (simp add: pair_of_def acyclic_insert completion_acyclic_def)
  next
    case False
    with ac show ?thesis unfolding completion_edges_with_edge by (simp add: completion_acyclic_def)
  qed
qed

lemma completion_acyclic_child:
  assumes ac: "completion_acyclic s" and g: "completion_insert_guard s d = None" and fresh: "td_ID d \<notin> td_ID ` set (ds_deps s)"
    and c: "td_DependencyType d = IsChildOf" and ids: "distinct (map ta_ID (ds_tasks s))"
  shows "completion_acyclic (set_parent (td_TaskID d) (Some (td_DependsOnTaskID d)) (with_edge d s))"
  unfolding completion_acyclic_def
proof
  fix ws
  have nb: "\<not> waits_edge s ws None d" "td_DependencyType d \<noteq> Blocks" using c by (auto simp: waits_edge_def dependency_names)
  from g obtain t w where t: "task_GetByID s (td_TaskID d) = Some t" "row_workspace s t = Some w"
    and a: "completion_graph_assert_edge (completion_edges s w (Some (td_TaskID d)) (Some (td_ID d))) (td_DependsOnTaskID d) (td_TaskID d) = None"
    using c nb(2) by (auto simp: completion_insert_guard_def split: option.split_asm if_split_asm)
  from a have no_path: "(td_TaskID d, td_DependsOnTaskID d) \<notin> (set (completion_edges s w (Some (td_TaskID d)) None))\<^sup>*"
    unfolding assert_edge_iff completion_edges_fresh [OF fresh] .
  have old: "acyclic (set (completion_edges s ws (Some (td_TaskID d)) None))"
    by (rule acyclic_subset [OF _ completion_edges_replaced]) (use ac in \<open>simp add: completion_acyclic_def\<close>)
  have "set (completion_edges (set_parent (td_TaskID d) (Some (td_DependsOnTaskID d)) (with_edge d s)) ws None None)
     \<subseteq> (if w = ws then {(td_DependsOnTaskID d, td_TaskID d)} else {}) \<union> set (completion_edges s ws (Some (td_TaskID d)) None)"
    using completion_edges_set_parent [of "with_edge d s" "td_TaskID d" t "td_DependsOnTaskID d" ws] t ids nb(1)
    by (simp add: completion_edges_with_edge)
  then show "acyclic (set (completion_edges (set_parent (td_TaskID d) (Some (td_DependsOnTaskID d)) (with_edge d s)) ws None None))"
    by (rule acyclic_subset [rotated]) (use old no_path in \<open>auto simp: acyclic_insert\<close>)
qed

lemma completion_acyclic_mono:
  "completion_acyclic s \<Longrightarrow> (\<And>ws. set (completion_edges t ws None None) \<subseteq> set (completion_edges s ws None None)) \<Longrightarrow> completion_acyclic t"
  unfolding completion_acyclic_def by (blast intro: acyclic_subset)

lemma completion_acyclic_stored:
  assumes "completion_acyclic s" and "completion_insert_guard s d = None" and "td_ID d \<notin> td_ID ` set (ds_deps s)"
    and "distinct (map ta_ID (ds_tasks s))"
  shows "completion_acyclic (stored d s)"
  using completion_acyclic_with_edge [OF assms(1-3)] completion_acyclic_child [OF assms(1-3) _ assms(4)] by (simp add: stored_def)

lemma waits_without_edge: "waits_edge (without_edge u s) ws rd d = waits_edge s ws rd d"
  by (simp add: waits_edge_def)

lemma child_without_edge: "child_edge (without_edge u s) ws rc c = child_edge s ws rc c"
  by (simp only: child_edge_def without_edge_simps without_edge_in_workspace)

lemma completion_edges_without_edge: "set (completion_edges (without_edge u s) ws rc rd) \<subseteq> set (completion_edges s ws rc rd)"
  by (auto simp: set_completion_edges waits_without_edge child_without_edge)

lemma completion_edges_release: "set (completion_edges (release_parent d s) ws rc rd) \<subseteq> set (completion_edges s ws rc rd)"
proof -
  have "child_edge s ws rc c = Some e"
    if "child_edge s ws rc (c\<lparr>ta_ParentTaskID := (if b then None else ta_ParentTaskID c)\<rparr>) = Some e" for c e b
    using that by (cases b) (simp_all add: child_edge_def)
  then show ?thesis
    unfolding release_parent_reparent completion_edges_reparent unfolding set_completion_edges by blast
qed

lemma completion_acyclic_removed: "completion_acyclic s \<Longrightarrow> completion_acyclic (removed d s)"
  unfolding removed_def
  by (rule completion_acyclic_mono, assumption)
    (auto dest: subsetD [OF completion_edges_release] subsetD [OF completion_edges_without_edge])

lemma completion_acyclic_reconditioned: "completion_acyclic s \<Longrightarrow> completion_acyclic (reconditioned u c v m s)"
proof (rule completion_acyclic_mono, assumption)
  fix ws
  have "in_workspace (reconditioned u c v m s) ws x = in_workspace s ws x" for x
    by (simp add: in_workspace_def task_GetByID_def row_workspace_def split: option.split)
  moreover have "child_edge (reconditioned u c v m s) ws None e = child_edge s ws None e" for e
    unfolding child_edge_def row_workspace_def in_workspace_def task_GetByID_def reconditioned_simps ..
  ultimately show "set (completion_edges (reconditioned u c v m s) ws None None) \<subseteq> set (completion_edges s ws None None)"
    by (fastforce simp: set_completion_edges waits_edge_def)
qed

text \<open>Without triggers the service's walks guard the two parts.\<close>

lemma parent_rel_set_parent:
  assumes "task_GetByID s u = Some t"
  shows "parent_rel (set_parent u (Some p) s) \<subseteq> insert (u, p) (parent_rel s)"
proof -
  have "parent_of (set_parent u (Some p) s) v = (if v = u then Some p else parent_of s v)" for v
    using assms task_GetByID_Some [of s v] unfolding set_parent_reparent reparent_parent_of
    by (auto simp: parent_of_def split: option.split)
  then show ?thesis by (auto simp: parent_rel_def split: if_split_asm)
qed

lemma parent_rel_release: "parent_rel (release_parent d s) \<subseteq> parent_rel s"
proof -
  have "parent_of s v = Some p" if "parent_of (release_parent d s) v = Some p" for v p
    using that unfolding release_parent_reparent reparent_parent_of
    by (auto simp: parent_of_def split: option.split_asm if_split_asm)
  then show ?thesis by (auto simp: parent_rel_def)
qed

lemma dep_rel_append: "dep_rel (ds @ [d]) =
    (if td_DependencyType d \<noteq> RelatesTo \<and> td_DependencyType d \<noteq> IsChildOf then {pair_of d} else {}) \<union> dep_rel ds"
  by (auto simp: dep_rel_def pair_of_def)

lemma dep_rel_mono: "set ds \<subseteq> set es \<Longrightarrow> dep_rel ds \<subseteq> dep_rel es"
  unfolding dep_rel_def by blast

lemma walks_acyclic_stored:
  assumes ac: "walks_acyclic s" and a: "admitted env s d task depTask" and plain: "\<not> en_atomic env"
    and enum: "dependency_type_enum (td_DependencyType d)"
  shows "walks_acyclic (stored d s)"
proof (cases "td_DependencyType d = IsChildOf")
  case True
  have live: "task_GetByID s (td_TaskID d) = Some task" and "child_checks env s task depTask d = None"
    using a by (simp_all add: admitted_def)
  from child_checks_None [OF this(2) True] plain have "(td_DependsOnTaskID d, td_TaskID d) \<notin> (parent_rel s)\<^sup>*"
    by (simp add: hasParentCycle_iff)
  with ac have "acyclic (insert (td_TaskID d, td_DependsOnTaskID d) (parent_rel s))"
    by (simp add: acyclic_insert walks_acyclic_def)
  then have "acyclic (parent_rel (set_parent (td_TaskID d) (Some (td_DependsOnTaskID d)) (with_edge d s)))"
    by (rule acyclic_subset) (use parent_rel_set_parent [of "with_edge d s" "td_TaskID d" task] live in simp)
  with ac True show ?thesis by (simp add: walks_acyclic_def stored_def dep_rel_append)
next
  case False
  have "acyclic (dep_rel (ds_deps s @ [d]))"
  proof (cases "td_DependencyType d = Blocks")
    case True
    then have "(td_DependsOnTaskID d, td_TaskID d) \<notin> (dep_rel (ds_deps s))\<^sup>*"
      using a plain CheckCycle_iff by (simp add: admitted_def)
    with ac True show ?thesis by (simp add: walks_acyclic_def dep_rel_append pair_of_def acyclic_insert dependency_names)
  next
    case False
    with enum \<open>td_DependencyType d \<noteq> IsChildOf\<close> have "td_DependencyType d = RelatesTo" by (auto simp: dependency_type_enum_def)
    with ac show ?thesis by (simp add: walks_acyclic_def dep_rel_append)
  qed
  with ac False show ?thesis by (simp add: walks_acyclic_def stored_def)
qed

lemma walks_acyclic_without_edge: "walks_acyclic s \<Longrightarrow> walks_acyclic (without_edge u s)"
  using dep_rel_mono [of "filter (\<lambda>d. td_ID d \<noteq> u) (ds_deps s)" "ds_deps s"]
  by (auto simp: walks_acyclic_def intro: acyclic_subset)

lemma walks_acyclic_removed: "walks_acyclic s \<Longrightarrow> walks_acyclic (removed d s)"
  using walks_acyclic_without_edge [of s "td_ID d"]
  by (auto simp: removed_def walks_acyclic_def intro: acyclic_subset [OF _ parent_rel_release])

lemma walks_acyclic_reconditioned: "walks_acyclic s \<Longrightarrow> walks_acyclic (reconditioned u c v m s)"
proof -
  have "parent_rel (reconditioned u c v m s) = parent_rel s" by (simp add: parent_rel_def parent_of_def task_GetByID_def)
  moreover have "dep_rel (map (put_condition u c v m) (ds_deps s)) \<subseteq> dep_rel (ds_deps s)" by (force simp: dep_rel_def)
  ultimately show "walks_acyclic s \<Longrightarrow> ?thesis" by (auto simp: walks_acyclic_def intro: acyclic_subset)
qed

section \<open>Runs of requests\<close>

datatype dep_request =
    CreateReq dep_env TaskDependency
  | UpdateReq dep_env uuid UpdateDependencyConditionInput
  | DeleteReq dep_env uuid

definition dep_exec :: "bool \<Rightarrow> dep_request \<Rightarrow> dep_store \<Rightarrow> dep_store" where
  "dep_exec atomic r s = (case r of
      CreateReq env d \<Rightarrow> fst (snd (dep_service_Create (env\<lparr>en_atomic := atomic\<rparr>) d s))
    | UpdateReq env u inp \<Rightarrow> fst (snd (dep_service_UpdateCondition (env\<lparr>en_atomic := atomic\<rparr>) u inp s))
    | DeleteReq env u \<Rightarrow> snd (dep_service_Delete (env\<lparr>en_atomic := atomic\<rparr>) u s))"

text \<open>
  What the service needs of whatever keeps the graph free of cycles: an admitted insert, a delete and an update keep it
  so. The triggers and the walks both provide it.
\<close>

locale edge_writer =
  fixes atomic :: bool and no_cycle :: "dep_store \<Rightarrow> bool"
  assumes insert_no_cycle: "admitted env s d task depTask \<Longrightarrow> en_atomic env = atomic \<Longrightarrow>
      (en_atomic env \<longrightarrow> completion_insert_guard s d = None) \<Longrightarrow> dependency_type_enum (td_DependencyType d) \<Longrightarrow>
      td_ID d \<notin> td_ID ` set (ds_deps s) \<Longrightarrow> deps_ok s \<Longrightarrow> no_cycle s \<Longrightarrow> no_cycle (stored d s)"
    and remove_no_cycle: "no_cycle s \<Longrightarrow> no_cycle (removed d s)"
    and drop_no_cycle: "no_cycle s \<Longrightarrow> no_cycle (without_edge u s)"
    and update_no_cycle: "no_cycle s \<Longrightarrow> no_cycle (reconditioned u c v m s)"
begin

definition sound :: "dep_store \<Rightarrow> bool" where
  "sound s \<longleftrightarrow> deps_ok s \<and> no_cycle s"

lemma create_sound:
  assumes "sound s" and "dep_service_Create env d0 s = (r, t, n)" and "en_atomic env = atomic"
  shows "sound t"
  using dep_service_Create_cases [OF assms(2)] assms(1,3) stored_ok [of s env] insert_no_cycle [of env s]
  unfolding sound_def by blast

lemma update_sound:
  assumes "sound s" and "dep_service_UpdateCondition env u inp s = (r, t, n)"
  shows "sound t"
  using dep_service_UpdateCondition_cases [OF assms(2)] assms(1) reconditioned_ok [of s] update_no_cycle [of s]
  unfolding sound_def by blast

lemma delete_sound:
  assumes "sound s" and "dep_service_Delete env u s = (r, t)"
  shows "sound t"
  using dep_service_Delete_cases [OF _ assms(2)] assms(1) removed_ok [of s] without_edge_ok [of s]
    remove_no_cycle [of s] drop_no_cycle [of s]
  unfolding sound_def by blast

lemma exec_sound: "sound s \<Longrightarrow> sound (dep_exec atomic r s)"
  unfolding dep_exec_def
  by (cases r; simp)
    (metis create_sound update_sound delete_sound prod.collapse dep_env.select_convs(3) dep_env.surjective dep_env.update_convs(3))+

end

sublocale edge_writer \<subseteq> served: state_machine sound "\<lambda>s r t. t = dep_exec atomic r s" sound
  by unfold_locales (auto intro: exec_sound)

interpretation production: edge_writer True completion_acyclic
proof (unfold_locales, goal_cases)
  case (1 env s d task depTask)
  then show ?case by (intro completion_acyclic_stored) (auto simp: deps_ok_def)
next
  case (3 s u)
  then show ?case by (rule completion_acyclic_mono) (rule completion_edges_without_edge)
qed (simp_all add: completion_acyclic_removed completion_acyclic_reconditioned)

interpretation standalone: edge_writer False walks_acyclic
proof (unfold_locales, goal_cases)
  case (1 env s d task depTask)
  then show ?case by (intro walks_acyclic_stored) auto
qed (simp_all add: walks_acyclic_removed walks_acyclic_without_edge walks_acyclic_reconditioned)

text \<open>C4. In production the dependency tables stay sound whatever requests arrive in whatever order: from a
  well-formed state without completion cycle, every run of creations, updates and deletions ends in a state where each edge has a
  valid type, condition and evidence, no task depends on itself or twice on the same task, both ends share a workspace, each
  child edge agrees with its task's parent, and no workspace's completion graph (blocks edges and hierarchy together)
  has a cycle.\<close>

theorem dependencies_stay_sound:
  assumes "production.served.run s rs t" and "deps_ok s" and "completion_acyclic s"
  shows "deps_ok t \<and> completion_acyclic t"
  using production.served.run_invariant [OF assms(1)] assms(2,3) by (simp add: production.sound_def)

text \<open>Over a repository without triggers, and with requests served one after another, the service's own walks keep the promise for
  each part: every such run keeps the tables well-formed, the dependency graph and the parent chains free of cycles. The source
  takes no lock around the walk, the check and the write, so this says nothing of requests that overlap; the triggers are what
  protects those.\<close>

theorem walks_keep_acyclic:
  assumes "standalone.served.run s rs t" and "deps_ok s" and "walks_acyclic s"
  shows "deps_ok t \<and> acyclic (dep_rel (ds_deps t)) \<and> acyclic (parent_rel t)"
  using standalone.served.run_invariant [OF assms(1)] assms(2,3) by (simp add: standalone.sound_def walks_acyclic_def)

text \<open>C31. The three cycle searches are exact, for any edges: each ends, and answers whether the new edge would close a
  cycle in the graph it walks (whatever cycles that graph already holds).\<close>

theorem cycle_searches_exact:
  "(CheckCycle s a b \<longleftrightarrow> (b, a) \<in> (dep_rel (ds_deps s))\<^sup>*)
   \<and> (hasParentCycle s a b \<longleftrightarrow> (b, a) \<in> (parent_rel s)\<^sup>*)
   \<and> (completion_graph_assert_edge edges a b \<noteq> None \<longleftrightarrow> (b, a) \<in> (set edges)\<^sup>*)"
  by (simp only: CheckCycle_iff hasParentCycle_iff assert_edge_iff not_not simp_thms)

lemma create_refused:
  assumes "dep_service_Create env d s = (Inl e, t, n)"
  shows "t = s \<and> n = []"
proof (cases "bind_res (create_checks env s d) (\<lambda>dep. bind_res (store_edge env dep s) (\<lambda>s1. Inr (dep, s1)))")
  case (Inl e')
  with assms show ?thesis unfolding dep_service_Create_def by simp
next
  case (Inr p)
  with assms show ?thesis unfolding dep_service_Create_def Inr by (simp add: Let_def split: prod.split_asm)
qed

lemma update_refused: "dep_service_UpdateCondition env u inp s = (Inl e, t, n) \<Longrightarrow> t = s \<and> n = []"
  unfolding dep_service_UpdateCondition_def Let_def dep_UpdateCondition_def
  by (simp split: option.split_asm if_split_asm prod.split_asm)

lemma delete_refused: "dep_service_Delete env u s = (Some e, t) \<Longrightarrow> t = s"
  by (simp add: dep_service_Delete_def split: sum.split_asm)

text \<open>A refused request leaves no trace: when creating, updating or deleting an edge answers an error, the tables
  are untouched and the resolver is not called.\<close>

theorem refusals_change_nothing:
  "(case dep_service_Create env d s of (Inl e, t, n) \<Rightarrow> t = s \<and> n = [] | _ \<Rightarrow> True)
   \<and> (case dep_service_UpdateCondition env u inp s of (Inl e, t, n) \<Rightarrow> t = s \<and> n = [] | _ \<Rightarrow> True)
   \<and> (case dep_service_Delete env u s of (Some e, t) \<Rightarrow> t = s | _ \<Rightarrow> True)"
  by (auto split: sum.split prod.split option.split dest: create_refused update_refused delete_refused)

section \<open>Creating and deleting are inverse\<close>

lemma row_exists:
  assumes "same_tenancy s a b"
  shows "\<exists>t. task_row s a = Some t \<and> t \<in> set (ds_tasks s)"
proof -
  obtain t where "t \<in> set (ds_tasks s)" "ta_ID t = a" using assms by (auto simp: same_tenancy_def)
  then have "task_row s a \<noteq> None" by (auto simp: task_row_def find_None_iff)
  then show ?thesis by (auto simp: task_row_def dest: find_SomeD)
qed

definition projects_exist :: "dep_store \<Rightarrow> bool" where
  "projects_exist s \<longleftrightarrow> list_all (\<lambda>t. row_workspace s t \<noteq> None) (ds_tasks s)"

lemma delete_exact:
  assumes ok: "deps_ok s" and d: "d \<in> set (ds_deps s)" and fk: "projects_exist s"
  shows "dep_service_Delete env (td_ID d) s = (None, removed d s)"
proof -
  have f: "find (\<lambda>e. td_ID e = td_ID d) (ds_deps s) = Some d"
    using find_unique [of td_ID "ds_deps s" d] ok d by (simp add: deps_ok_def)
  have del: "dep_Delete (td_ID d) s = Inr (without_edge (td_ID d) s)"
    using d by (auto simp: dep_Delete_def without_edge_def list_ex_iff)
  have ids: "distinct (map ta_ID (ds_tasks (without_edge (td_ID d) s)))" using ok by (simp add: deps_ok_def)
  show ?thesis
  proof (cases "en_atomic env")
    case True
    from row_exists deps_ok_edge [OF ok d] obtain t where t: "task_row s (td_TaskID d) = Some t" "t \<in> set (ds_tasks s)" by blast
    with fk have "row_workspace s t \<noteq> None" by (simp add: projects_exist_def list_all_iff)
    with True f del t show ?thesis
      by (simp add: dep_service_Delete_def delete_with_triggers_def removed_def dep_GetByID_def)
  next
    case False
    have "clear_parent (read_edge s d) (without_edge (td_ID d) s) = removed d s"
      using clear_parent_release [OF ids, of s d] by (simp add: removed_def)
    with False f del show ?thesis by (simp add: dep_service_Delete_def dep_GetByID_def)
  qed
qed

lemma without_with_edge: "td_ID d \<notin> td_ID ` set (ds_deps s) \<Longrightarrow> without_edge (td_ID d) (with_edge d s) = s"
proof -
  assume "td_ID d \<notin> td_ID ` set (ds_deps s)"
  then have "filter (\<lambda>e. td_ID e \<noteq> td_ID d) (ds_deps s) = ds_deps s" by (intro filter_True) (force simp: image_iff)
  then show ?thesis by (simp add: without_edge_def with_edge_def)
qed

lemma removed_stored:
  assumes ids: "distinct (map ta_ID (ds_tasks s))" and fresh: "td_ID d \<notin> td_ID ` set (ds_deps s)"
    and free: "td_DependencyType d = IsChildOf \<Longrightarrow> parent_of s (td_TaskID d) = None"
    and live: "task_GetByID s (td_TaskID d) = Some task"
  shows "removed d (stored d s) = s"
proof (cases "td_DependencyType d = IsChildOf")
  case False
  with without_with_edge [OF fresh] show ?thesis by (simp add: removed_def stored_def)
next
  case True
  then have p: "ta_ParentTaskID task = None" using free live by (simp add: parent_of_def)
  define f :: "task \<Rightarrow> task" where "f = (\<lambda>t. if ta_ID t = td_TaskID d \<and> \<not> ta_Deleted t then t\<lparr>ta_ParentTaskID := Some (td_DependsOnTaskID d)\<rparr> else t)"
  define g :: "task \<Rightarrow> task" where "g = (\<lambda>t. if ta_ID t = td_TaskID d \<and> ta_ParentTaskID t = Some (td_DependsOnTaskID d) \<and> \<not> ta_Deleted t then t\<lparr>ta_ParentTaskID := None\<rparr> else t)"
  have gf: "g (f t) = t" if "t \<in> set (ds_tasks s)" for t
  proof (cases "ta_ID t = td_TaskID d")
    case True
    then have "t = task" using task_unique [OF ids that] task_GetByID_Some [OF live] by simp
    with p task_GetByID_Some [OF live] show ?thesis by (simp add: f_def g_def)
  next
    case False
    then show ?thesis by (simp add: f_def g_def)
  qed
  have "filter (\<lambda>e. td_ID e \<noteq> td_ID d) (ds_deps s) = ds_deps s" using fresh by (intro filter_True) (force simp: image_iff)
  moreover have "map g (map f (ds_tasks s)) = ds_tasks s" unfolding map_map by (rule map_idI) (simp add: gf)
  ultimately show ?thesis
    using True unfolding removed_def stored_def release_parent_def without_edge_def set_parent_def with_edge_def
    unfolding f_def [symmetric] g_def [symmetric] by simp
qed

text \<open>The edge a successful create answers is the one it stored, up to the recomputed verdict.\<close>

lemma create_answers:
  assumes "dep_service_Create env d0 s = (Inr d, t, n)" and "deps_ok s"
  shows "\<exists>d1 task depTask. admitted env s d1 task depTask \<and> t = stored d1 s \<and> td_ID d1 \<notin> td_ID ` set (ds_deps s)
     \<and> dependency_type_enum (td_DependencyType d1) \<and> pair_of d1 = pair_of d0 \<and> td_DependencyType d1 = td_DependencyType d0
     \<and> d = d1\<lparr>td_ConditionSatisfied := DependencyReleasedSQL d1 (blocker_of t (td_DependsOnTaskID d1))\<rparr>
     \<and> n = (if td_DependencyType d = Blocks \<and> (EvidenceSatisfied d \<or> (td_Condition d \<noteq> TaskDone \<and> td_ConditionSatisfied d)) \<and> en_resolver env
            then [td_DependsOnTaskID d] else [])"
proof -
  obtain d1 s1 where c: "create_checks env s d0 = Inr d1" and st: "store_edge env d1 s = Inr s1"
  proof (cases "bind_res (create_checks env s d0) (\<lambda>dep. bind_res (store_edge env dep s) (\<lambda>s1. Inr (dep, s1)))")
    case (Inl e)
    with assms(1) have False unfolding dep_service_Create_def by simp
    then show thesis ..
  next
    case (Inr p)
    then show thesis using that by auto
  qed
  from create_checks_Inr [OF c] obtain task depTask where a: "admitted env s d1 task depTask"
    and keep: "pair_of d1 = pair_of d0" "td_DependencyType d1 = td_DependencyType d0" by blast
  have "distinct (map ta_ID (ds_tasks s))" using assms(2) by (simp add: deps_ok_def)
  note se = store_edge_Inr [OF a st this]
  have "deps_ok s1" using stored_ok [OF assms(2) a] se by simp
  moreover have "d1 \<in> set (ds_deps s1)" using se by (simp add: stored_def)
  ultimately have "find (\<lambda>e. td_ID e = td_ID d1) (ds_deps s1) = Some d1"
    using find_unique [of td_ID "ds_deps s1" d1] by (simp add: deps_ok_def)
  then have g: "dep_GetByID s1 (td_ID d1) = Some (read_edge s1 d1)" by (simp add: dep_GetByID_def)
  have "t = s1" using assms(1) c st by (simp add: dep_service_Create_def Let_def)
  moreover have "d = d1\<lparr>td_ConditionSatisfied := DependencyReleasedSQL d1 (blocker_of s1 (td_DependsOnTaskID d1))\<rparr>"
    using assms(1) c st g by (auto simp: dep_service_Create_def Let_def read_edge_def)
  moreover have "n = (if td_DependencyType d = Blocks \<and> (EvidenceSatisfied d \<or> (td_Condition d \<noteq> TaskDone \<and> td_ConditionSatisfied d)) \<and> en_resolver env
            then [td_DependsOnTaskID d] else [])"
    using assms(1) c st g by (auto simp: dep_service_Create_def Let_def)
  ultimately show ?thesis using a keep se by blast
qed

text \<open>C35. Deleting an edge undoes its creation, the parent that a child edge set included: on well-formed tables, and for a child
  edge when the task had no parent before, deleting the created edge succeeds, the edges are those before, and every task has the
  parent it had before.\<close>

theorem create_delete_roundtrip:
  assumes "deps_ok s" and "projects_exist s" and "dep_service_Create env d0 s = (Inr d, t, n)"
    and "td_DependencyType d0 = IsChildOf \<Longrightarrow> parent_of s (td_TaskID d0) = None"
  shows "\<exists>s'. dep_service_Delete env' (td_ID d) t = (None, s') \<and> ds_deps s' = ds_deps s \<and> (\<forall>u. parent_of s' u = parent_of s u)"
proof -
  from create_answers [OF assms(3,1)] obtain d1 task depTask where a: "admitted env s d1 task depTask" "t = stored d1 s"
      "td_ID d1 \<notin> td_ID ` set (ds_deps s)" "dependency_type_enum (td_DependencyType d1)"
      "pair_of d1 = pair_of d0" "td_DependencyType d1 = td_DependencyType d0" "td_ID d = td_ID d1" by auto
  have live: "task_GetByID s (td_TaskID d1) = Some task" using a(1) by (simp add: admitted_def)
  have "projects_exist t"
    using assms(2) by (simp add: a(2) stored_def projects_exist_def list_all_iff set_parent_reparent reparent_row_workspace)
  moreover have "d1 \<in> set (ds_deps t)" by (simp add: a(2) stored_def)
  moreover have "deps_ok t" using stored_ok [OF assms(1) a(1,4,3)] a(2) by simp
  ultimately have "dep_service_Delete env' (td_ID d1) t = (None, removed d1 t)" by (intro delete_exact)
  moreover have "removed d1 t = s"
    unfolding a(2) using removed_stored [OF _ a(3) _ live] assms(1,4) a(5,6) by (simp add: deps_ok_def pair_of_def)
  ultimately show ?thesis using a(7) by simp
qed

text \<open>A created edge carries the true verdict, and one that is born released is announced: the answer says
  satisfied exactly when the Go rule \<open>Released\<close> holds of the stored edge and its blocker, and the resolver is called, once and for
  the blocker, exactly when a blocks edge with a typed condition is already released.\<close>

theorem create_verdict_announced:
  assumes "dep_service_Create env d0 s = (Inr d, t, n)" and "deps_ok s"
  shows "(td_ConditionSatisfied d \<longleftrightarrow> dep_released d (blocker_state (blocker_of t (td_DependsOnTaskID d))))
    \<and> n = (if td_DependencyType d = Blocks \<and> td_Condition d \<noteq> TaskDone \<and> en_resolver env
              \<and> dep_released d (blocker_state (blocker_of t (td_DependsOnTaskID d)))
           then [td_DependsOnTaskID d] else [])"
proof -
  from create_answers [OF assms] obtain d1 task depTask where a: "admitted env s d1 task depTask"
    and d: "d = d1\<lparr>td_ConditionSatisfied := DependencyReleasedSQL d1 (blocker_of t (td_DependsOnTaskID d1))\<rparr>"
    and n: "n = (if td_DependencyType d = Blocks \<and> (EvidenceSatisfied d \<or> (td_Condition d \<noteq> TaskDone \<and> td_ConditionSatisfied d)) \<and> en_resolver env
            then [td_DependsOnTaskID d] else [])" by blast
  have "storable d1" using a condition_Valid_nonempty by (auto simp: admitted_def storable_def split: option.split)
  from storable_released [OF this] have v: "td_ConditionSatisfied d \<longleftrightarrow> dep_released d (blocker_state (blocker_of t (td_DependsOnTaskID d)))"
    by (simp add: d dep_released_def EvidenceSatisfied_def)
  have "EvidenceSatisfied d \<Longrightarrow> td_DependencyType d = Blocks \<Longrightarrow> td_Condition d \<noteq> TaskDone \<and> dep_released d b" for b
    by (auto simp: EvidenceSatisfied_def dep_released_def)
  with v n show ?thesis by auto
qed

section \<open>A run\<close>

context edge_writer
begin

lemma run_fold: "served.run s rs (fold (dep_exec atomic) rs s)"
  by (induction rs arbitrary: s) (auto intro: served.run_Nil served.run_Cons)

end

definition sample_task :: "uuid \<Rightarrow> task" where
  "sample_task u = \<lparr>ta_ID = u, ta_ProjectID = 100, ta_ParentTaskID = None, ta_Labels = [], ta_RecurringScheduleID = None,
     ta_Title = ''t'', ta_StatusID = 7, ta_Category = Some ''todo'', ta_IsShipped = True, ta_HasDeployment = False, ta_Deleted = False\<rparr>"

definition sample_deps :: dep_store where
  "sample_deps = \<lparr>ds_deps = [], ds_tasks = map sample_task [1, 2, 3],
     ds_projects = [\<lparr>pj_ID = 100, pj_WorkspaceID = 200, pj_RejectBlocksOnMonitor = False, pj_Deleted = False\<rparr>]\<rparr>"

definition sample_env :: "uuid \<Rightarrow> dep_env" where
  "sample_env u = \<lparr>en_now = 5, en_fresh = u, en_atomic = True, en_projects = True, en_resolver = True\<rparr>"

definition sample_dep :: "string \<Rightarrow> string \<Rightarrow> uuid \<Rightarrow> uuid \<Rightarrow> TaskDependency" where
  "sample_dep type condition a b = \<lparr>td_ID = 0, td_TaskID = a, td_DependsOnTaskID = b, td_DependencyType = type, td_CreatedAt = 0,
     td_Condition = condition, td_EvidenceURL = None, td_ConditionMetAt = None, td_ConditionSatisfied = False, td_Warning = ''''\<rparr>"

text \<open>Task 1 waits on 2, and 2 gets the child 3. Then 3 may not wait on 1 in production: 1 waits on 2, 2 on its child 3.
  The service's own walks see no cycle there.\<close>

definition sample_requests :: "dep_request list" where
  "sample_requests = [CreateReq (sample_env 11) (sample_dep Blocks '''' 1 2), CreateReq (sample_env 12) (sample_dep IsChildOf '''' 3 2),
     CreateReq (sample_env 13) (sample_dep Blocks '''' 3 1)]"

lemma sample_deps_ok: "deps_ok sample_deps \<and> completion_acyclic sample_deps \<and> walks_acyclic sample_deps \<and> projects_exist sample_deps"
proof -
  have "parent_rel sample_deps = {}"
    by (auto simp: parent_rel_def parent_of_def task_GetByID_def sample_deps_def sample_task_def)
  moreover have "completion_edges sample_deps ws None None = []" for ws
    by (simp add: completion_edges_def sample_deps_def child_edge_def sample_task_def List.map_filter_def)
  moreover have "projects_exist sample_deps" by code_simp
  moreover have "acyclic ({} :: (uuid \<times> uuid) set)" by (simp add: acyclic_def)
  moreover have "ds_deps sample_deps = []" "distinct (map ta_ID (ds_tasks sample_deps))" by code_simp+
  ultimately show ?thesis by (simp add: deps_ok_def completion_acyclic_def walks_acyclic_def dep_rel_def)
qed

theorem dependencies_stay_sound_witness:
  "map td_ID (ds_deps (fold (dep_exec True) sample_requests sample_deps)) = [11, 12]
   \<and> deps_ok (fold (dep_exec True) sample_requests sample_deps)
   \<and> completion_acyclic (fold (dep_exec True) sample_requests sample_deps)"
proof -
  have "map td_ID (ds_deps (fold (dep_exec True) sample_requests sample_deps)) = [11, 12]" by code_simp
  with dependencies_stay_sound [OF production.run_fold] sample_deps_ok show ?thesis by blast
qed

theorem walks_keep_acyclic_witness:
  "map td_ID (ds_deps (fold (dep_exec False) sample_requests sample_deps)) = [11, 12, 13]
   \<and> acyclic (parent_rel (fold (dep_exec False) sample_requests sample_deps))"
proof -
  have "map td_ID (ds_deps (fold (dep_exec False) sample_requests sample_deps)) = [11, 12, 13]" by code_simp
  with walks_keep_acyclic [OF standalone.run_fold] sample_deps_ok show ?thesis by blast
qed

definition sample_child_created :: "(Error + TaskDependency) \<times> dep_store \<times> uuid list" where
  "sample_child_created = dep_service_Create (sample_env 11) (sample_dep IsChildOf '''' 3 2) sample_deps"

theorem create_delete_roundtrip_witness:
  "parent_of (fst (snd sample_child_created)) 3 = Some 2
   \<and> (\<exists>s'. dep_service_Delete (sample_env 12) 11 (fst (snd sample_child_created)) = (None, s') \<and> ds_deps s' = ds_deps sample_deps
        \<and> parent_of s' 3 = None)"
proof -
  have p: "parent_of (fst (snd sample_child_created)) 3 = Some 2" by code_simp
  have "case fst sample_child_created of Inl e \<Rightarrow> False | Inr d \<Rightarrow> td_ID d = 11" by code_simp
  then obtain d where d: "dep_service_Create (sample_env 11) (sample_dep IsChildOf '''' 3 2) sample_deps
      = (Inr d, fst (snd sample_child_created), snd (snd sample_child_created))" "td_ID d = 11"
    unfolding sample_child_created_def by (auto split: sum.split_asm) (metis prod.collapse)
  have "parent_of sample_deps (td_TaskID (sample_dep IsChildOf '''' 3 2)) = None" "parent_of sample_deps 3 = None" by code_simp+
  with create_delete_roundtrip [OF _ _ d(1), of "sample_env 12"] sample_deps_ok p d(2) show ?thesis by auto
qed

definition sample_shipped :: "(Error + TaskDependency) \<times> dep_store \<times> uuid list" where
  "sample_shipped = dep_service_Create (sample_env 11) (sample_dep Blocks Shipped 1 2) sample_deps"

theorem create_verdict_announced_witness: "snd (snd sample_shipped) = [2]"
proof -
  have "case fst sample_shipped of Inl e \<Rightarrow> False
     | Inr d \<Rightarrow> td_DependencyType d = Blocks \<and> td_Condition d \<noteq> TaskDone \<and> en_resolver (sample_env 11) \<and> td_DependsOnTaskID d = 2
                \<and> td_ConditionSatisfied d" by code_simp
  then obtain d where d: "dep_service_Create (sample_env 11) (sample_dep Blocks Shipped 1 2) sample_deps
      = (Inr d, fst (snd sample_shipped), snd (snd sample_shipped))"
      "td_DependencyType d = Blocks" "td_Condition d \<noteq> TaskDone" "en_resolver (sample_env 11)" "td_DependsOnTaskID d = 2" "td_ConditionSatisfied d"
    unfolding sample_shipped_def by (auto split: sum.split_asm) (metis prod.collapse)
  with create_verdict_announced [OF d(1)] sample_deps_ok show ?thesis by simp
qed

end
