(* ===== verification/Cycle_Components.thy ===== *)
theory Cycle_Components
  imports Dependency_Condition
begin

text \<open>
  The cycle components of the dependency graph, \<open>internal/domain/dependency_graph_cycles.go\<close>: Tarjan's search over the
  blocking edges, prerequisite to dependent. The closure \<open>visit\<close> and the variables it shares are a function on a record.
\<close>

section \<open>The search\<close>

text \<open>The maps \<open>index\<close>, \<open>low\<close>, \<open>on\<close> and \<open>result\<close> with their zero values; the stack has its top first.\<close>

record tarjan =
  tj_index :: "uuid \<Rightarrow> nat"
  tj_low :: "uuid \<Rightarrow> nat"
  tj_on :: "uuid \<Rightarrow> bool"
  tj_stack :: "uuid list"
  tj_next :: nat
  tj_result :: "uuid \<Rightarrow> uuid list option"

definition tarjan_start :: tarjan where
  "tarjan_start = \<lparr>tj_index = (\<lambda>_. 0), tj_low = (\<lambda>_. 0), tj_on = (\<lambda>_. False), tj_stack = [], tj_next = 0, tj_result = (\<lambda>_. None)\<rparr>"

text \<open>The adjacency map of the blocking edges; every end is a key.\<close>

definition add_adjacent :: "TaskDependency \<Rightarrow> (uuid, uuid list) gomap \<Rightarrow> (uuid, uuid list) gomap" where
  "add_adjacent d adj =
     (if td_DependencyType d \<noteq> Blocks then adj
      else let adj1 = AList.update (td_DependsOnTaskID d) (go_get [] adj (td_DependsOnTaskID d) @ [td_TaskID d]) adj
           in if has_key adj1 (td_TaskID d) then adj1 else AList.update (td_TaskID d) [] adj1)"

definition adjacency :: "TaskDependency list \<Rightarrow> (uuid, uuid list) gomap" where
  "adjacency edges = fold add_adjacent edges []"

definition self_edge :: "TaskDependency list \<Rightarrow> uuid \<Rightarrow> bool" where
  "self_edge edges u \<longleftrightarrow> list_ex (\<lambda>d. td_DependencyType d = Blocks \<and> td_TaskID d = td_DependsOnTaskID d \<and> td_TaskID d = u) edges"

definition enter :: "uuid \<Rightarrow> tarjan \<Rightarrow> tarjan" where
  "enter v s = s\<lparr>tj_next := tj_next s + 1, tj_index := (tj_index s)(v := tj_next s + 1), tj_low := (tj_low s)(v := tj_next s + 1),
     tj_stack := v # tj_stack s, tj_on := (tj_on s)(v := True)\<rparr>"

definition lower :: "uuid \<Rightarrow> nat \<Rightarrow> tarjan \<Rightarrow> tarjan" where
  "lower v k s = (if k < tj_low s v then s\<lparr>tj_low := (tj_low s)(v := k)\<rparr> else s)"

text \<open>The pop loop takes the stack down to and including the root.\<close>

fun pop_to :: "uuid \<Rightarrow> uuid list \<Rightarrow> uuid list \<times> uuid list" where
  "pop_to v [] = ([], [])"
| "pop_to v (w # ws) = (if w = v then ([w], ws) else let (c, rest) = pop_to v ws in (w # c, rest))"

definition leave :: "(uuid \<Rightarrow> bool) \<Rightarrow> uuid \<Rightarrow> tarjan \<Rightarrow> tarjan" where
  "leave self v s =
     (if tj_low s v \<noteq> tj_index s v then s
      else let (component, rest) = pop_to v (tj_stack s);
               s1 = s\<lparr>tj_stack := rest, tj_on := fold (\<lambda>w on. on(w := False)) component (tj_on s)\<rparr>
           in if length component > 1 \<or> self v
              then s1\<lparr>tj_result := fold (\<lambda>w result. result(w := Some (sort component))) component (tj_result s1)\<rparr>
              else s1)"

text \<open>The loop over the successors of \<open>v\<close>, for a given visit of an unvisited successor.\<close>

definition follow :: "(uuid \<Rightarrow> tarjan \<Rightarrow> tarjan) \<Rightarrow> uuid \<Rightarrow> tarjan \<Rightarrow> uuid \<Rightarrow> tarjan" where
  "follow visit_w v t w =
     (if tj_index t w = 0 then let t1 = visit_w w t in lower v (tj_low t1 w) t1
      else if tj_on t w then lower v (tj_index t w) t else t)"

text \<open>\<open>visit\<close> calls itself on unvisited nodes only, so the number of nodes bounds the depth; the first argument is that
  bound.\<close>

primrec visit :: "nat \<Rightarrow> (uuid, uuid list) gomap \<Rightarrow> (uuid \<Rightarrow> bool) \<Rightarrow> uuid \<Rightarrow> tarjan \<Rightarrow> tarjan" where
  "visit 0 adj self v s = s"
| "visit (Suc n) adj self v s = leave self v (foldl (follow (visit n adj self) v) (enter v s) (go_get [] adj v))"

definition visit_unseen :: "nat \<Rightarrow> (uuid, uuid list) gomap \<Rightarrow> (uuid \<Rightarrow> bool) \<Rightarrow> tarjan \<Rightarrow> uuid \<Rightarrow> tarjan" where
  "visit_unseen n adj self s v = (if tj_index s v = 0 then visit n adj self v s else s)"

text \<open>The runtime may walk a map in any order, each key once.\<close>

definition map_order :: "(uuid list \<Rightarrow> uuid list) \<Rightarrow> bool" where
  "map_order order \<longleftrightarrow> (\<forall>ks. distinct ks \<longrightarrow> distinct (order ks) \<and> set (order ks) = set ks)"

lemma map_orderD:
  "map_order order \<Longrightarrow> distinct ks \<Longrightarrow> distinct (order ks)"
  "map_order order \<Longrightarrow> distinct ks \<Longrightarrow> set (order ks) = set ks"
  by (auto simp: map_order_def)

text \<open>The outer loop ranges over the map in any order: \<open>order\<close> lists its keys.\<close>

definition GraphCycleComponents :: "(uuid list \<Rightarrow> uuid list) \<Rightarrow> TaskDependency list \<Rightarrow> uuid \<Rightarrow> uuid list option" where
  "GraphCycleComponents order edges =
     (let adj = adjacency edges in
      tj_result (foldl (visit_unseen (length adj) adj (self_edge edges)) tarjan_start (order (go_keys adj))))"

section \<open>The graph\<close>

definition block_rel :: "TaskDependency list \<Rightarrow> (uuid \<times> uuid) set" where
  "block_rel edges = {(td_DependsOnTaskID d, td_TaskID d) | d. d \<in> set edges \<and> td_DependencyType d = Blocks}"

lemma add_adjacent_props:
  assumes "gomap_ok adj"
  shows "gomap_ok (add_adjacent d adj)
    \<and> (\<forall>u. set (go_get [] (add_adjacent d adj) u) = set (go_get [] adj u) \<union> block_rel [d] `` {u})
    \<and> set (go_keys (add_adjacent d adj)) = set (go_keys adj) \<union> fst ` block_rel [d] \<union> snd ` block_rel [d]"
proof (cases "td_DependencyType d = Blocks")
  case False
  with assms show ?thesis by (auto simp: add_adjacent_def block_rel_def)
next
  case True
  then have r: "block_rel [d] = {(td_DependsOnTaskID d, td_TaskID d)}" by (auto simp: block_rel_def)
  have g: "go_get [] (AList.update k v m) u = (if u = k then v else go_get [] m u)" for k u :: uuid and v :: "uuid list" and m
    by (simp add: go_get_def update_conv)
  have k: "set (go_keys (AList.update k v m)) = insert k (set (go_keys m))" for k :: uuid and v :: "uuid list" and m
    by (simp add: go_keys_def dom_update)
  have h: "has_key m u \<longleftrightarrow> u \<in> set (go_keys m)" for m :: "(uuid, uuid list) gomap" and u by (simp add: has_key_iff)
  have empty: "go_get [] m u = []" if "\<not> has_key m u" for m :: "(uuid, uuid list) gomap" and u
    using that by (simp add: has_key_def go_get_def)
  show ?thesis unfolding add_adjacent_def r Let_def using True assms empty
    by (auto simp: g k h split: if_split_asm)
qed

lemma adjacency_fold:
  assumes "gomap_ok adj"
  shows "gomap_ok (fold add_adjacent edges adj)
    \<and> (\<forall>u. set (go_get [] (fold add_adjacent edges adj) u) = set (go_get [] adj u) \<union> block_rel edges `` {u})
    \<and> set (go_keys (fold add_adjacent edges adj)) = set (go_keys adj) \<union> fst ` block_rel edges \<union> snd ` block_rel edges"
  using assms
proof (induction edges arbitrary: adj)
  case Nil
  then show ?case by (simp add: block_rel_def)
next
  case (Cons d ds)
  note step = add_adjacent_props [OF Cons.prems, of d]
  have r: "block_rel (d # ds) = block_rel [d] \<union> block_rel ds" by (auto simp: block_rel_def)
  from Cons.IH [OF step [THEN conjunct1]] step show ?case unfolding r by auto
qed

lemma adjacency_props:
  "gomap_ok (adjacency edges)"
  "set (go_get [] (adjacency edges) u) = block_rel edges `` {u}"
  "set (go_keys (adjacency edges)) = fst ` block_rel edges \<union> snd ` block_rel edges"
  using adjacency_fold [of "[]" edges] by (simp_all add: adjacency_def go_get_def go_keys_def)


text \<open>The nodes on a cycle with a node, and what the search returns for it.\<close>

definition cycle_component :: "(uuid \<times> uuid) set \<Rightarrow> uuid \<Rightarrow> uuid list option" where
  "cycle_component E x = (if (x, x) \<in> E\<^sup>+ then Some (sorted_list_of_set {y. (x, y) \<in> E\<^sup>+ \<and> (y, x) \<in> E\<^sup>+}) else None)"

section \<open>The invariant of the search\<close>

text \<open>
  The set \<open>G\<close> holds the nodes whose visit has begun and not ended. The numbers name the visited nodes; the stack has
  the newest first and is closed under reaching back; an ended node has visited successors, and a node off the stack has
  its result and only such successors.
\<close>

definition search_inv :: "(uuid \<times> uuid) set \<Rightarrow> uuid set \<Rightarrow> tarjan \<Rightarrow> bool" where
  "search_inv E G s \<longleftrightarrow>
     (\<forall>v. tj_index s v \<le> tj_next s)
   \<and> (\<forall>u v. tj_index s u = tj_index s v \<and> tj_index s u \<noteq> 0 \<longrightarrow> u = v)
   \<and> (\<forall>v. tj_on s v \<longleftrightarrow> v \<in> set (tj_stack s))
   \<and> sorted_wrt (\<lambda>a b. tj_index s b < tj_index s a) (tj_stack s)
   \<and> (\<forall>v\<in>set (tj_stack s). tj_index s v \<noteq> 0)
   \<and> G \<subseteq> set (tj_stack s)
   \<and> (\<forall>u w. tj_index s u \<noteq> 0 \<and> u \<notin> G \<and> (u, w) \<in> E \<longrightarrow> tj_index s w \<noteq> 0)
   \<and> (\<forall>u w. tj_index s u \<noteq> 0 \<and> u \<notin> set (tj_stack s) \<and> (u, w) \<in> E \<longrightarrow> w \<notin> set (tj_stack s))
   \<and> (\<forall>x\<in>set (tj_stack s). \<exists>g\<in>G. tj_index s g \<le> tj_index s x \<and> (x, g) \<in> E\<^sup>*)
   \<and> (\<forall>x\<in>set (tj_stack s). \<forall>y\<in>set (tj_stack s). tj_index s x \<le> tj_index s y \<longrightarrow> (x, y) \<in> E\<^sup>*)
   \<and> (\<forall>x. tj_result s x = (if tj_index s x \<noteq> 0 \<and> x \<notin> set (tj_stack s) then cycle_component E x else None))"

lemma search_invI:
  assumes "\<And>v. tj_index s v \<le> tj_next s"
    and "\<And>u v. tj_index s u = tj_index s v \<Longrightarrow> tj_index s u \<noteq> 0 \<Longrightarrow> u = v"
    and "\<And>v. tj_on s v \<longleftrightarrow> v \<in> set (tj_stack s)"
    and "sorted_wrt (\<lambda>a b. tj_index s b < tj_index s a) (tj_stack s)"
    and "\<And>v. v \<in> set (tj_stack s) \<Longrightarrow> tj_index s v \<noteq> 0"
    and "G \<subseteq> set (tj_stack s)"
    and "\<And>u w. tj_index s u \<noteq> 0 \<Longrightarrow> u \<notin> G \<Longrightarrow> (u, w) \<in> E \<Longrightarrow> tj_index s w \<noteq> 0"
    and "\<And>u w. tj_index s u \<noteq> 0 \<Longrightarrow> u \<notin> set (tj_stack s) \<Longrightarrow> (u, w) \<in> E \<Longrightarrow> w \<notin> set (tj_stack s)"
    and "\<And>x. x \<in> set (tj_stack s) \<Longrightarrow> \<exists>g\<in>G. tj_index s g \<le> tj_index s x \<and> (x, g) \<in> E\<^sup>*"
    and "\<And>x y. x \<in> set (tj_stack s) \<Longrightarrow> y \<in> set (tj_stack s) \<Longrightarrow> tj_index s x \<le> tj_index s y \<Longrightarrow> (x, y) \<in> E\<^sup>*"
    and "\<And>x. tj_result s x = (if tj_index s x \<noteq> 0 \<and> x \<notin> set (tj_stack s) then cycle_component E x else None)"
  shows "search_inv E G s"
  unfolding search_inv_def by (intro conjI allI impI ballI; (elim conjE)?; (rule assms; assumption))

lemma search_invD:
  assumes "search_inv E G s"
  shows index_le: "tj_index s v \<le> tj_next s"
    and index_inj: "tj_index s u = tj_index s v \<Longrightarrow> tj_index s u \<noteq> 0 \<Longrightarrow> u = v"
    and on_stack: "tj_on s v \<longleftrightarrow> v \<in> set (tj_stack s)"
    and stack_sorted: "sorted_wrt (\<lambda>a b. tj_index s b < tj_index s a) (tj_stack s)"
    and stack_seen: "v \<in> set (tj_stack s) \<Longrightarrow> tj_index s v \<noteq> 0"
    and open_on_stack: "G \<subseteq> set (tj_stack s)"
    and ended_succs: "tj_index s u \<noteq> 0 \<Longrightarrow> u \<notin> G \<Longrightarrow> (u, w) \<in> E \<Longrightarrow> tj_index s w \<noteq> 0"
    and done_succs: "tj_index s u \<noteq> 0 \<Longrightarrow> u \<notin> set (tj_stack s) \<Longrightarrow> (u, w) \<in> E \<Longrightarrow> w \<notin> set (tj_stack s)"
    and reaches_open: "x \<in> set (tj_stack s) \<Longrightarrow> \<exists>g\<in>G. tj_index s g \<le> tj_index s x \<and> (x, g) \<in> E\<^sup>*"
    and stack_path: "x \<in> set (tj_stack s) \<Longrightarrow> y \<in> set (tj_stack s) \<Longrightarrow> tj_index s x \<le> tj_index s y \<Longrightarrow> (x, y) \<in> E\<^sup>*"
    and results: "tj_result s x = (if tj_index s x \<noteq> 0 \<and> x \<notin> set (tj_stack s) then cycle_component E x else None)"
  using assms unfolding search_inv_def by blast+

lemma search_inv_start: "search_inv E {} tarjan_start"
  by (rule search_invI) (simp_all add: tarjan_start_def)

lemma lower_selectors [simp]:
  "tj_index (lower v k s) = tj_index s" "tj_on (lower v k s) = tj_on s" "tj_stack (lower v k s) = tj_stack s"
  "tj_next (lower v k s) = tj_next s" "tj_result (lower v k s) = tj_result s"
  "tj_low (lower v k s) u = (if u = v then min (tj_low s v) k else tj_low s u)"
  by (auto simp: lower_def)

lemma search_inv_lower [simp]: "search_inv E G (lower v k s) \<longleftrightarrow> search_inv E G s"
  by (simp add: search_inv_def)

lemma enter_selectors [simp]:
  "tj_index (enter v s) = (tj_index s)(v := tj_next s + 1)" "tj_low (enter v s) = (tj_low s)(v := tj_next s + 1)"
  "tj_on (enter v s) = (tj_on s)(v := True)" "tj_stack (enter v s) = v # tj_stack s"
  "tj_next (enter v s) = tj_next s + 1" "tj_result (enter v s) = tj_result s"
  by (simp_all add: enter_def)

lemma search_inv_enter:
  assumes inv: "search_inv E G s" and v: "tj_index s v = 0" and path: "\<And>g. g \<in> G \<Longrightarrow> (g, v) \<in> E\<^sup>*"
  shows "search_inv E (insert v G) (enter v s)"
proof (rule search_invI)
  note old = search_invD [OF inv]
  have off: "v \<notin> set (tj_stack s)" using old(5) v by blast
  have new: "tj_index s u \<noteq> Suc (tj_next s)" "tj_index s u < Suc (tj_next s)" for u using old(1) [of u] by linarith+
  have neq: "u \<noteq> v" if "u \<in> set (tj_stack s)" for u using off that by blast
  show "tj_index (enter v s) u \<le> tj_next (enter v s)" for u using old(1) [of u] by simp
  show "u = w" if "tj_index (enter v s) u = tj_index (enter v s) w" "tj_index (enter v s) u \<noteq> 0" for u w
    using that new old(2) by (auto split: if_splits)
  show "tj_on (enter v s) u \<longleftrightarrow> u \<in> set (tj_stack (enter v s))" for u using old(3) by auto
  show "sorted_wrt (\<lambda>a b. tj_index (enter v s) b < tj_index (enter v s) a) (tj_stack (enter v s))"
  proof -
    have "sorted_wrt (\<lambda>a b. tj_index (enter v s) b < tj_index (enter v s) a) (tj_stack s)"
      by (rule sorted_wrt_mono_rel [OF _ old(4)]) (simp add: neq)
    then show ?thesis using new neq by auto
  qed
  show "tj_index (enter v s) u \<noteq> 0" if "u \<in> set (tj_stack (enter v s))" for u using that old(5) by auto
  show "insert v G \<subseteq> set (tj_stack (enter v s))" using old(6) by auto
  show "tj_index (enter v s) w \<noteq> 0" if "tj_index (enter v s) u \<noteq> 0" "u \<notin> insert v G" "(u, w) \<in> E" for u w
    using that old(7) by auto
  show "w \<notin> set (tj_stack (enter v s))" if "tj_index (enter v s) u \<noteq> 0" "u \<notin> set (tj_stack (enter v s))" "(u, w) \<in> E" for u w
  proof -
    from that have u: "tj_index s u \<noteq> 0" "u \<notin> set (tj_stack s)" by auto
    with old(6) have "u \<notin> G" by blast
    from old(7) [OF u(1) this that(3)] old(8) [OF u that(3)] v show ?thesis by auto
  qed
  show "\<exists>g\<in>insert v G. tj_index (enter v s) g \<le> tj_index (enter v s) x \<and> (x, g) \<in> E\<^sup>*" if "x \<in> set (tj_stack (enter v s))" for x
  proof (cases "x = v")
    case False
    with that obtain g where "g \<in> G" "tj_index s g \<le> tj_index s x" "(x, g) \<in> E\<^sup>*" using old(9) by auto
    moreover with old(6) neq have "g \<noteq> v" by blast
    ultimately show ?thesis using False by auto
  qed auto
  show "(x, y) \<in> E\<^sup>*" if xy: "x \<in> set (tj_stack (enter v s))" "y \<in> set (tj_stack (enter v s))"
    "tj_index (enter v s) x \<le> tj_index (enter v s) y" for x y
  proof (cases "y = v")
    case True
    show ?thesis
    proof (cases "x = v")
      case False
      with xy obtain g where "g \<in> G" "(x, g) \<in> E\<^sup>*" using old(9) by auto
      with path True show ?thesis by (meson rtrancl_trans)
    qed (simp add: True)
  next
    case False
    have "x \<noteq> v" using xy new False by (metis enter_selectors(1) fun_upd_apply leD Suc_eq_plus1)
    with False xy old(10) show ?thesis by auto
  qed
  show "tj_result (enter v s) x = (if tj_index (enter v s) x \<noteq> 0 \<and> x \<notin> set (tj_stack (enter v s)) then cycle_component E x else None)" for x
    using old(11) [of x] v by auto
qed


section \<open>A visit\<close>

text \<open>The pop loop at a node of the stack, and a map with one value for a list of keys.\<close>

lemma fold_update: "fold (\<lambda>w f. f(w := c)) ws f u = (if u \<in> set ws then c else f u)"
  by (induction ws arbitrary: f) auto

lemma pop_to_split: "v \<notin> set a \<Longrightarrow> pop_to v (a @ v # b) = (a @ [v], b)"
  by (induction a) auto

text \<open>
  What a visit of \<open>v\<close> from \<open>s\<close> leaves: it numbers \<open>v\<close>, keeps what was numbered, and pushes new nodes only. Its low
  link is the number of a node of the stack that \<open>v\<close> reaches, at most that of every older node its new nodes point
  at; when \<open>v\<close> was taken off again nothing new is left and the low link exceeds every older number.
\<close>

definition visited_from :: "(uuid \<times> uuid) set \<Rightarrow> uuid \<Rightarrow> tarjan \<Rightarrow> tarjan \<Rightarrow> bool" where
  "visited_from E v s t \<longleftrightarrow>
     tj_index t v \<noteq> 0
   \<and> (\<forall>u. tj_index s u \<noteq> 0 \<longrightarrow> tj_index t u = tj_index s u \<and> tj_low t u = tj_low s u)
   \<and> (\<exists>new. tj_stack t = new @ tj_stack s \<and> (\<forall>x\<in>set new. tj_index s x = 0)
        \<and> (\<forall>x\<in>set new. \<forall>y\<in>set (tj_stack s). (x, y) \<in> E \<longrightarrow> tj_low t v \<le> tj_index s y))
   \<and> ((\<exists>y\<in>set (tj_stack s). tj_index s y = tj_low t v \<and> (v, y) \<in> E\<^sup>*) \<or> tj_next s < tj_low t v)"

text \<open>What holds in the loop of a visit after the successors \<open>ws\<close>.\<close>

definition visiting :: "(uuid \<times> uuid) set \<Rightarrow> uuid set \<Rightarrow> uuid \<Rightarrow> tarjan \<Rightarrow> uuid list \<Rightarrow> tarjan \<Rightarrow> bool" where
  "visiting E G v s ws t \<longleftrightarrow>
     search_inv E G s \<and> tj_index s v = 0
   \<and> search_inv E (insert v G) t
   \<and> tj_index t v = tj_next s + 1
   \<and> (\<forall>u. tj_index s u \<noteq> 0 \<longrightarrow> tj_index t u = tj_index s u \<and> tj_low t u = tj_low s u)
   \<and> (\<exists>new. tj_stack t = new @ v # tj_stack s \<and> (\<forall>x\<in>set new. tj_index s x = 0)
        \<and> (\<forall>x\<in>set new. \<forall>y\<in>set (tj_stack s). (x, y) \<in> E \<longrightarrow> tj_low t v \<le> tj_index s y))
   \<and> tj_low t v \<le> tj_index t v
   \<and> (\<exists>y\<in>set (tj_stack t). tj_index t y = tj_low t v \<and> (v, y) \<in> E\<^sup>*)
   \<and> (\<forall>w\<in>set ws. tj_index t w \<noteq> 0 \<and> (w \<in> set (tj_stack s) \<longrightarrow> tj_low t v \<le> tj_index s w))"

lemma visitingD:
  assumes "visiting E G v s ws t"
  shows visiting_start: "search_inv E G s" "tj_index s v = 0"
    and visiting_inv: "search_inv E (insert v G) t"
    and visiting_number: "tj_index t v = tj_next s + 1"
    and visiting_keeps: "tj_index s u \<noteq> 0 \<Longrightarrow> tj_index t u = tj_index s u \<and> tj_low t u = tj_low s u"
    and visiting_stack: "\<exists>new. tj_stack t = new @ v # tj_stack s \<and> (\<forall>x\<in>set new. tj_index s x = 0)
        \<and> (\<forall>x\<in>set new. \<forall>y\<in>set (tj_stack s). (x, y) \<in> E \<longrightarrow> tj_low t v \<le> tj_index s y)"
    and visiting_low: "tj_low t v \<le> tj_index t v"
    and visiting_link: "\<exists>y\<in>set (tj_stack t). tj_index t y = tj_low t v \<and> (v, y) \<in> E\<^sup>*"
    and visiting_done: "w \<in> set ws \<Longrightarrow> tj_index t w \<noteq> 0 \<and> (w \<in> set (tj_stack s) \<longrightarrow> tj_low t v \<le> tj_index s w)"
  using assms unfolding visiting_def by blast+

lemma visiting_enter:
  assumes "search_inv E G s" "tj_index s v = 0" "\<And>g. g \<in> G \<Longrightarrow> (g, v) \<in> E\<^sup>*"
  shows "visiting E G v s [] (enter v s)"
  unfolding visiting_def using search_inv_enter [OF assms] assms(1,2) by auto

lemma visiting_more:
  "visiting E G v s ws t \<Longrightarrow> tj_index t w \<noteq> 0 \<Longrightarrow> (w \<in> set (tj_stack s) \<Longrightarrow> tj_low t v \<le> tj_index s w)
    \<Longrightarrow> visiting E G v s (ws @ [w]) t"
  unfolding visiting_def by auto

lemma visiting_lower:
  assumes v: "visiting E G v s ws t" and y: "y \<in> set (tj_stack t)" "(v, y) \<in> E\<^sup>*"
  shows "visiting E G v s ws (lower v (tj_index t y) t)"
proof -
  note old = visitingD [OF v]
  obtain new where new: "tj_stack t = new @ v # tj_stack s" "\<forall>x\<in>set new. tj_index s x = 0"
    "\<forall>x\<in>set new. \<forall>y\<in>set (tj_stack s). (x, y) \<in> E \<longrightarrow> tj_low t v \<le> tj_index s y" using old(6) by blast
  obtain z where z: "z \<in> set (tj_stack t)" "tj_index t z = tj_low t v" "(v, z) \<in> E\<^sup>*" using old(8) by blast
  have stack: "\<exists>n. tj_stack t = n @ v # tj_stack s \<and> (\<forall>x\<in>set n. tj_index s x = 0)
      \<and> (\<forall>x\<in>set n. \<forall>u\<in>set (tj_stack s). (x, u) \<in> E \<longrightarrow> min (tj_low t v) (tj_index t y) \<le> tj_index s u)"
    using new by (auto intro: min.coboundedI1)
  have link: "\<exists>u\<in>set (tj_stack t). tj_index t u = min (tj_low t v) (tj_index t y) \<and> (v, u) \<in> E\<^sup>*"
    using y z by (metis min_def)
  show ?thesis unfolding visiting_def using old(1-5,7,9) stack link by (auto intro: min.coboundedI1)
qed

lemma visiting_seen:
  assumes v: "visiting E G v s ws t" and w: "tj_index t w \<noteq> 0" "(v, w) \<in> E"
  shows "visiting E G v s (ws @ [w]) (if tj_on t w then lower v (tj_index t w) t else t)"
proof (cases "tj_on t w")
  case False
  then have "w \<notin> set (tj_stack s)" using on_stack [OF visiting_inv [OF v]] visiting_stack [OF v] by auto
  with False visiting_more [OF v w(1)] show ?thesis by simp
next
  case True
  then have "w \<in> set (tj_stack t)" using on_stack [OF visiting_inv [OF v]] by simp
  from visiting_lower [OF v this] w have l: "visiting E G v s ws (lower v (tj_index t w) t)" by blast
  have "tj_index t w = tj_index s w" if "w \<in> set (tj_stack s)"
    using visiting_keeps [OF v] stack_seen [OF visiting_start(1) [OF v] that] by blast
  then have "visiting E G v s (ws @ [w]) (lower v (tj_index t w) t)" using w by (intro visiting_more [OF l]) auto
  with True show ?thesis by simp
qed

lemma visiting_child:
  assumes v: "visiting E G v s ws t" and w: "tj_index t w = 0" "(v, w) \<in> E"
    and inv: "search_inv E (insert v G) t'" and from_t: "visited_from E w t t'"
  shows "visiting E G v s (ws @ [w]) (lower v (tj_low t' w) t')"
proof -
  note old = visitingD [OF v]
  obtain new where new: "tj_stack t = new @ v # tj_stack s" "\<forall>x\<in>set new. tj_index s x = 0"
    "\<forall>x\<in>set new. \<forall>y\<in>set (tj_stack s). (x, y) \<in> E \<longrightarrow> tj_low t v \<le> tj_index s y" using old(6) by blast
  obtain z where z: "z \<in> set (tj_stack t)" "tj_index t z = tj_low t v" "(v, z) \<in> E\<^sup>*" using old(8) by blast
  obtain more where more: "tj_stack t' = more @ tj_stack t" "\<forall>x\<in>set more. tj_index t x = 0"
    "\<forall>x\<in>set more. \<forall>y\<in>set (tj_stack t). (x, y) \<in> E \<longrightarrow> tj_low t' w \<le> tj_index t y" using from_t unfolding visited_from_def by blast
  have keep: "tj_index t u \<noteq> 0 \<Longrightarrow> tj_index t' u = tj_index t u \<and> tj_low t' u = tj_low t u" for u
    using from_t unfolding visited_from_def by blast
  have link: "(\<exists>y\<in>set (tj_stack t). tj_index t y = tj_low t' w \<and> (w, y) \<in> E\<^sup>*) \<or> tj_next t < tj_low t' w"
    and seen: "tj_index t' w \<noteq> 0" using from_t unfolding visited_from_def by blast+
  have v': "tj_index t' v = tj_index t v" "tj_low t' v = tj_low t v" using keep [of v] old(4) by simp_all
  have older: "tj_index t y = tj_index s y" "y \<in> set (tj_stack t)" if "y \<in> set (tj_stack s)" for y
    using old(5) stack_seen [OF old(1) that] new(1) that by auto
  have s': "\<exists>n. tj_stack t' = n @ v # tj_stack s \<and> (\<forall>x\<in>set n. tj_index s x = 0)
      \<and> (\<forall>x\<in>set n. \<forall>u\<in>set (tj_stack s). (x, u) \<in> E \<longrightarrow> min (tj_low t v) (tj_low t' w) \<le> tj_index s u)"
  proof (intro exI conjI ballI impI)
    show "tj_stack t' = (more @ new) @ v # tj_stack s" using more(1) new(1) by simp
    show "tj_index s x = 0" if "x \<in> set (more @ new)" for x
      using that more(2) new(2) old(5) [of x] by (metis UnE set_append)
    show "min (tj_low t v) (tj_low t' w) \<le> tj_index s u" if "x \<in> set (more @ new)" "u \<in> set (tj_stack s)" "(x, u) \<in> E" for x u
    proof (cases "x \<in> set more")
      case True
      then have "tj_low t' w \<le> tj_index t u" using more(3) older(2) that by blast
      then show ?thesis using older(1) that by simp
    next
      case False
      then have "tj_low t v \<le> tj_index s u" using new(3) that by auto
      then show ?thesis by simp
    qed
  qed
  have link': "\<exists>y\<in>set (tj_stack t'). tj_index t' y = min (tj_low t v) (tj_low t' w) \<and> (v, y) \<in> E\<^sup>*"
  proof (cases "tj_low t' w < tj_low t v")
    case True
    have "tj_low t v \<le> tj_next t" using old(7) index_le [OF old(3), of v] by simp
    with True link obtain y where y: "y \<in> set (tj_stack t)" "tj_index t y = tj_low t' w" "(w, y) \<in> E\<^sup>*" by auto
    have "tj_index t' y = tj_index t y" using keep stack_seen [OF old(3) y(1)] by blast
    with y True w(2) more(1) show ?thesis by (auto intro!: bexI [of _ y])
  next
    case False
    have "tj_index t' z = tj_index t z" using keep stack_seen [OF old(3) z(1)] by blast
    with z False more(1) show ?thesis by (auto intro!: bexI [of _ z])
  qed
  have keeps: "tj_index t' u = tj_index s u \<and> tj_low t' u = tj_low s u \<and> u \<noteq> v" if "tj_index s u \<noteq> 0" for u
    using keep [of u] old(5) [OF that] that old(2) by auto
  have ws: "tj_index t' u \<noteq> 0 \<and> (u \<in> set (tj_stack s) \<longrightarrow> tj_low t v \<le> tj_index s u)" if "u \<in> set ws" for u
    using old(9) [OF that] keep [of u] by simp
  have w': "w \<notin> set (tj_stack s)" using older w(1) stack_seen [OF old(1)] by metis
  show ?thesis unfolding visiting_def lower_selectors
    using old(1,2,4,7) inv s' link' keeps v' ws w' seen by (auto intro: min.coboundedI1)
qed


text \<open>At the end of a visit: the nodes above \<open>v\<close> are on a cycle with it exactly when its low link is its own number.\<close>

lemma leave_keeps:
  assumes low: "tj_low t v \<noteq> tj_index t v" and v: "visiting E G v s ws t" and ws: "set ws = E `` {v}"
  shows "search_inv E G t \<and> visited_from E v s t"
proof -
  note old = visitingD [OF v]
  obtain new where new: "tj_stack t = new @ v # tj_stack s" "\<forall>x\<in>set new. tj_index s x = 0"
    "\<forall>x\<in>set new. \<forall>y\<in>set (tj_stack s). (x, y) \<in> E \<longrightarrow> tj_low t v \<le> tj_index s y" using old(6) by blast
  obtain z where z: "z \<in> set (tj_stack t)" "tj_index t z = tj_low t v" "(v, z) \<in> E\<^sup>*" using old(8) by blast
  have less: "tj_index t z < tj_index t v" using z(2) low old(7) by simp
  note inv = search_invD [OF old(3)]
  have "tj_index t v < tj_index t x" if "x \<in> set new" for x using inv(4) new(1) that by (auto simp: sorted_wrt_append)
  with z(1) less new(1) have zs: "z \<in> set (tj_stack s)" by (auto dest: less_asym)
  have open_v: "\<exists>g\<in>G. tj_index t g \<le> tj_index t v \<and> (v, g) \<in> E\<^sup>*"
  proof -
    obtain g where "g \<in> insert v G" "tj_index t g \<le> tj_index t z" "(z, g) \<in> E\<^sup>*" using inv(9) [OF z(1)] by blast
    with less z(3) show ?thesis by (intro bexI [of _ g]) auto
  qed
  have i: "search_inv E G t"
  proof (rule search_invI)
    show "tj_index t w \<noteq> 0" if "tj_index t u \<noteq> 0" "u \<notin> G" "(u, w) \<in> E" for u w
      using that inv(7) [of u w] old(9) [of w] ws by (cases "u = v") auto
    show "\<exists>g\<in>G. tj_index t g \<le> tj_index t x \<and> (x, g) \<in> E\<^sup>*" if x: "x \<in> set (tj_stack t)" for x
    proof -
      obtain g where g: "g \<in> insert v G" "tj_index t g \<le> tj_index t x" "(x, g) \<in> E\<^sup>*" using inv(9) [OF x] by blast
      obtain h where h: "h \<in> G" "tj_index t h \<le> tj_index t v" "(v, h) \<in> E\<^sup>*" using open_v by blast
      show ?thesis
      proof (cases "g = v")
        case True
        with g h show ?thesis by (intro bexI [of _ h]) auto
      qed (use g in auto)
    qed
    show "G \<subseteq> set (tj_stack t)" using inv(6) by simp
  qed (fact inv(1) inv(2) inv(3) inv(4) inv(5) inv(8) inv(10) inv(11))+
  have "tj_index s z = tj_low t v" using z(2) old(5) stack_seen [OF old(1) zs] by simp
  with zs z(3) have link: "\<exists>y\<in>set (tj_stack s). tj_index s y = tj_low t v \<and> (v, y) \<in> E\<^sup>*" by blast
  have stack: "\<exists>n. tj_stack t = n @ tj_stack s \<and> (\<forall>x\<in>set n. tj_index s x = 0)
      \<and> (\<forall>x\<in>set n. \<forall>y\<in>set (tj_stack s). (x, y) \<in> E \<longrightarrow> tj_low t v \<le> tj_index s y)"
    using new old(2,9) ws by (intro exI [of _ "new @ [v]"]) auto
  show ?thesis unfolding visited_from_def using i old(4,5) link stack by auto
qed

lemma above_root_cycle:
  assumes low: "tj_low t v = tj_index t v" and v: "visiting E G v s ws t" and ws: "set ws = E `` {v}"
    and stack: "tj_stack t = new @ v # tj_stack s"
  shows "y \<in> insert v (set new) \<longleftrightarrow> (v, y) \<in> E\<^sup>* \<and> (y, v) \<in> E\<^sup>*"
    and "x \<in> insert v (set new) \<Longrightarrow> (x, w) \<in> E \<Longrightarrow> tj_index t w \<noteq> 0 \<and> w \<notin> set (tj_stack s)"
proof -
  note old = visitingD [OF v]
  note inv = search_invD [OF old(3)]
  have edges: "\<forall>x\<in>set new. \<forall>y\<in>set (tj_stack s). (x, y) \<in> E \<longrightarrow> tj_low t v \<le> tj_index s y" using old(6) stack by auto
  have older: "tj_index s y < tj_index t v" for y using index_le [OF old(1), of y] old(4) by simp
  have gs: "G \<subseteq> set (tj_stack s)" using open_on_stack [OF old(1)] .
  have nz: "tj_index s x = 0" if "x \<in> set new" for x using old(6) stack that by auto
  have fresh: "x \<notin> G" if "x \<in> set new" for x using nz [OF that] gs stack_seen [OF old(1), of x] by blast
  show out: "tj_index t w \<noteq> 0 \<and> w \<notin> set (tj_stack s)" if "x \<in> insert v (set new)" "(x, w) \<in> E" for x w
  proof (cases "x = v")
    case True
    then have "w \<in> set ws" using ws that by auto
    then show ?thesis using old(9) [of w] older [of w] low by auto
  next
    case False
    then have x: "x \<in> set new" using that by simp
    then have "tj_index t x \<noteq> 0" using inv(5) stack by auto
    then have "tj_index t w \<noteq> 0" using inv(7) [of x w] fresh [OF x] False that(2) by blast
    with edges x that(2) older [of w] low show ?thesis by (metis leD)
  qed
  show "y \<in> insert v (set new) \<longleftrightarrow> (v, y) \<in> E\<^sup>* \<and> (y, v) \<in> E\<^sup>*"
  proof
    assume y: "y \<in> insert v (set new)"
    then have ys: "y \<in> set (tj_stack t)" "v \<in> set (tj_stack t)" using stack by auto
    have "tj_index t v \<le> tj_index t y" using inv(4) y stack by (auto simp: sorted_wrt_append)
    then have vy: "(v, y) \<in> E\<^sup>*" using inv(10) ys by blast
    obtain g where g: "g \<in> insert v G" "(y, g) \<in> E\<^sup>*" using inv(9) [OF ys(1)] by blast
    have "(g, v) \<in> E\<^sup>*"
    proof (cases "g = v")
      case False
      with g gs have "g \<in> set (tj_stack s)" by blast
      then have "tj_index t g = tj_index s g" "g \<in> set (tj_stack t)" using old(5) stack_seen [OF old(1)] stack by auto
      with older [of g] inv(10) ys(2) show ?thesis by (metis less_imp_le)
    qed simp
    with vy g(2) show "(v, y) \<in> E\<^sup>* \<and> (y, v) \<in> E\<^sup>*" by (meson rtrancl_trans)
  next
    assume y: "(v, y) \<in> E\<^sup>* \<and> (y, v) \<in> E\<^sup>*"
    have "u \<in> insert v (set new) \<or> (tj_index t u \<noteq> 0 \<and> u \<notin> set (tj_stack t))" if "(v, u) \<in> E\<^sup>*" for u
      using that
    proof (induction rule: rtrancl_induct)
      case (step a b)
      show ?case
      proof (cases "a \<in> insert v (set new)")
        case True
        with out [OF True step.hyps(2)] stack show ?thesis by auto
      next
        case False
        with step.IH have a: "tj_index t a \<noteq> 0" "a \<notin> set (tj_stack t)" by auto
        then have "a \<notin> insert v G" using inv(6) by blast
        with inv(7) [OF a(1)] inv(8) [OF a] step.hyps(2) show ?thesis by blast
      qed
    qed simp
    with y have "y \<in> insert v (set new) \<or> (tj_index t y \<noteq> 0 \<and> y \<notin> set (tj_stack t))" by blast
    moreover have "tj_index t u \<noteq> 0 \<and> u \<notin> set (tj_stack t)" if "tj_index t y \<noteq> 0 \<and> y \<notin> set (tj_stack t)" "(y, u) \<in> E\<^sup>*" for u
      using that(2)
    proof (induction rule: rtrancl_induct)
      case (step a b)
      then have "a \<notin> insert v G" using inv(6) by blast
      with inv(7) [of a b] inv(8) [of a b] step show ?case by blast
    qed (rule that(1))
    moreover have "v \<in> set (tj_stack t)" using stack by simp
    ultimately show "y \<in> insert v (set new)" using y by blast
  qed
qed


lemma class_cycle:
  assumes c: "\<And>y. y \<in> C \<longleftrightarrow> (v, y) \<in> E\<^sup>* \<and> (y, v) \<in> E\<^sup>*" and x: "x \<in> C"
  shows "cycle_component E x = (if C \<noteq> {v} \<or> (v, v) \<in> E then Some (sorted_list_of_set C) else None)"
proof -
  have vx: "(v, x) \<in> E\<^sup>*" "(x, v) \<in> E\<^sup>*" using c x by blast+
  have on_cycle: "(x, x) \<in> E\<^sup>+ \<longleftrightarrow> C \<noteq> {v} \<or> (v, v) \<in> E"
  proof
    assume p: "(x, x) \<in> E\<^sup>+"
    show "C \<noteq> {v} \<or> (v, v) \<in> E"
    proof (rule ccontr)
      assume n: "\<not> (C \<noteq> {v} \<or> (v, v) \<in> E)"
      with x have "x = v" by blast
      with p obtain w where w: "(v, w) \<in> E" "(w, v) \<in> E\<^sup>*" by (metis tranclD)
      then have "w \<in> C" using c by (meson r_into_rtrancl)
      with n w(1) show False by blast
    qed
  next
    assume a: "C \<noteq> {v} \<or> (v, v) \<in> E"
    have "(v, v) \<in> E\<^sup>+"
    proof (cases "(v, v) \<in> E")
      case False
      moreover have "v \<in> C" using c by blast
      ultimately obtain y where y: "y \<in> C" "y \<noteq> v" using a by blast
      with c have "(v, y) \<in> E\<^sup>+" "(y, v) \<in> E\<^sup>*" by (metis rtranclD)+
      then show ?thesis by (rule trancl_rtrancl_trancl)
    qed auto
    then show "(x, x) \<in> E\<^sup>+" using vx by (meson rtrancl_trancl_trancl trancl_rtrancl_trancl)
  qed
  have "{y. (x, y) \<in> E\<^sup>+ \<and> (y, x) \<in> E\<^sup>+} = C" if p: "(x, x) \<in> E\<^sup>+"
  proof (intro set_eqI iffI)
    show "y \<in> C" if "y \<in> {y. (x, y) \<in> E\<^sup>+ \<and> (y, x) \<in> E\<^sup>+}" for y
      using that vx c by (auto dest: trancl_into_rtrancl intro: rtrancl_trans)
    show "y \<in> {y. (x, y) \<in> E\<^sup>+ \<and> (y, x) \<in> E\<^sup>+}" if "y \<in> C" for y
    proof -
      have "(x, y) \<in> E\<^sup>*" "(y, x) \<in> E\<^sup>*" using that vx c by (meson rtrancl_trans)+
      with p show ?thesis by (auto intro: trancl_rtrancl_trancl rtrancl_trancl_trancl)
    qed
  qed
  with on_cycle show ?thesis by (auto simp: cycle_component_def)
qed

lemma leave_pops:
  assumes low: "tj_low t v = tj_index t v" and v: "visiting E G v s ws t" and ws: "set ws = E `` {v}"
    and self: "self v \<longleftrightarrow> (v, v) \<in> E"
  shows "search_inv E G (leave self v t) \<and> visited_from E v s (leave self v t)"
proof -
  note old = visitingD [OF v]
  note inv = search_invD [OF old(3)]
  obtain new where new: "tj_stack t = new @ v # tj_stack s" "\<forall>x\<in>set new. tj_index s x = 0" using old(6) by blast
  note above = above_root_cycle [OF low v ws new(1)]
  define C where "C = insert v (set new)"
  have dist: "distinct (tj_stack t)"
    using inv(4) by (simp add: distinct_conv_nth sorted_wrt_iff_nth_less) (metis less_irrefl linorder_neqE_nat)
  then have nv: "v \<notin> set new" "set new \<inter> set (tj_stack s) = {}" "v \<notin> set (tj_stack s)" "distinct (new @ [v])" using new(1) by auto
  have pop: "pop_to v (tj_stack t) = (new @ [v], tj_stack s)" using new(1) pop_to_split [OF nv(1)] by simp
  have single: "length (new @ [v]) > 1 \<longleftrightarrow> C \<noteq> {v}"
    using nv(1) by (cases new) (auto simp: C_def)
  have "sort (new @ [v]) = sorted_list_of_set (set (new @ [v]))"
    using nv(4) by (simp only: sorted_list_of_set_sort_remdups distinct_remdups_id)
  then have sorted: "sort (new @ [v]) = sorted_list_of_set C" by (simp add: C_def)
  define r where "r = leave self v t"
  have sel: "tj_index r = tj_index t" "tj_low r = tj_low t" "tj_stack r = tj_stack s" "tj_next r = tj_next t"
    "tj_on r w \<longleftrightarrow> tj_on t w \<and> w \<notin> C"
    "tj_result r w = (if w \<in> C \<and> (C \<noteq> {v} \<or> self v) then Some (sorted_list_of_set C) else tj_result t w)" for w
    unfolding r_def leave_def Let_def pop prod.case single sorted using low by (auto simp: C_def fold_update)
  have gs: "G \<subseteq> set (tj_stack s)" using open_on_stack [OF old(1)] .
  have sub: "x \<in> set (tj_stack t)" if "x \<in> set (tj_stack s)" for x using that new(1) by simp
  have split: "x \<in> set (tj_stack t) \<longleftrightarrow> x \<in> C \<or> x \<in> set (tj_stack s)" for x using new(1) by (auto simp: C_def)
  have disj: "x \<in> C \<Longrightarrow> x \<notin> set (tj_stack s)" for x using nv by (auto simp: C_def)
  have out: "tj_index t w \<noteq> 0 \<and> w \<notin> set (tj_stack s)" if "x \<in> C" "(x, w) \<in> E" for x w
    using above(2) that unfolding C_def by blast
  have "search_inv E G r"
  proof (rule search_invI, unfold sel)
    show "tj_index t u \<le> tj_next t" for u using inv(1) .
    show "u = w" if "tj_index t u = tj_index t w" "tj_index t u \<noteq> 0" for u w using inv(2) that .
    show "(tj_on t u \<and> u \<notin> C) \<longleftrightarrow> u \<in> set (tj_stack s)" for u using inv(3) split disj by blast
    show "sorted_wrt (\<lambda>a b. tj_index t b < tj_index t a) (tj_stack s)" using inv(4) new(1) by (auto simp: sorted_wrt_append)
    show "tj_index t u \<noteq> 0" if "u \<in> set (tj_stack s)" for u using inv(5) sub that by blast
    show "G \<subseteq> set (tj_stack s)" by (rule gs)
    show "tj_index t w \<noteq> 0" if "tj_index t u \<noteq> 0" "u \<notin> G" "(u, w) \<in> E" for u w
      using that inv(7) [of u w] out [of v w] by (cases "u = v") (auto simp: C_def)
    show "w \<notin> set (tj_stack s)" if "tj_index t u \<noteq> 0" "u \<notin> set (tj_stack s)" "(u, w) \<in> E" for u w
      using that inv(8) [of u w] out [of u w] split sub by blast
    show "\<exists>g\<in>G. tj_index t g \<le> tj_index t x \<and> (x, g) \<in> E\<^sup>*" if x: "x \<in> set (tj_stack s)" for x
    proof -
      obtain g where g: "g \<in> insert v G" "tj_index t g \<le> tj_index t x" "(x, g) \<in> E\<^sup>*" using inv(9) [OF sub [OF x]] by blast
      have "tj_index t x < tj_index t v" using inv(4) new(1) x by (auto simp: sorted_wrt_append)
      with g show ?thesis by auto
    qed
    show "(x, y) \<in> E\<^sup>*" if "x \<in> set (tj_stack s)" "y \<in> set (tj_stack s)" "tj_index t x \<le> tj_index t y" for x y
      using inv(10) sub that by blast
    show "(if x \<in> C \<and> (C \<noteq> {v} \<or> self v) then Some (sorted_list_of_set C) else tj_result t x)
        = (if tj_index t x \<noteq> 0 \<and> x \<notin> set (tj_stack s) then cycle_component E x else None)" for x
    proof (cases "x \<in> C")
      case True
      have "cycle_component E x = (if C \<noteq> {v} \<or> (v, v) \<in> E then Some (sorted_list_of_set C) else None)"
        by (rule class_cycle [OF _ True]) (use above(1) in \<open>simp add: C_def\<close>)
      moreover have "x \<in> set (tj_stack t)" using split True by blast
      ultimately show ?thesis using True disj [OF True] inv(5) [of x] inv(11) [of x] self by simp
    next
      case False
      with inv(11) [of x] split [of x] show ?thesis by simp
    qed
  qed
  moreover have "visited_from E v s r"
    unfolding visited_from_def sel using old(4,5) low by auto
  ultimately show ?thesis by (simp add: r_def)
qed

lemma leave_visited:
  assumes "visiting E G v s ws t" "set ws = E `` {v}" "self v \<longleftrightarrow> (v, v) \<in> E"
  shows "search_inv E G (leave self v t) \<and> visited_from E v s (leave self v t)"
proof (cases "tj_low t v = tj_index t v")
  case True
  then show ?thesis using leave_pops assms by blast
next
  case False
  then show ?thesis using leave_keeps assms by (simp add: leave_def)
qed

section \<open>The whole search\<close>

text \<open>What the search relies on of the maps that \<open>GraphCycleComponents\<close> builds before it starts.\<close>

locale adjacency_lists =
  fixes adj :: "(uuid, uuid list) gomap" and self :: "uuid \<Rightarrow> bool" and E :: "(uuid \<times> uuid) set" and K :: "uuid set"
  assumes succs: "set (go_get [] adj v) = E `` {v}"
    and self_iff: "self v \<longleftrightarrow> (v, v) \<in> E"
    and nodes: "E \<subseteq> K \<times> K"
    and finite_nodes: "finite K"
begin

lemma unseen_less:
  assumes "v \<in> K" "tj_index s v = 0" "tj_index t v \<noteq> 0" "\<And>u. tj_index s u \<noteq> 0 \<Longrightarrow> tj_index t u \<noteq> 0"
  shows "card {u \<in> K. tj_index t u = 0} < card {u \<in> K. tj_index s u = 0}"
proof (rule psubset_card_mono)
  show "finite {u \<in> K. tj_index s u = 0}" using finite_nodes by simp
  show "{u \<in> K. tj_index t u = 0} \<subset> {u \<in> K. tj_index s u = 0}"
  proof (rule psubsetI)
    show "{u \<in> K. tj_index t u = 0} \<subseteq> {u \<in> K. tj_index s u = 0}" using assms(4) by blast
    have "v \<in> {u \<in> K. tj_index s u = 0}" "v \<notin> {u \<in> K. tj_index t u = 0}" using assms(1-3) by simp_all
    then show "{u \<in> K. tj_index t u = 0} \<noteq> {u \<in> K. tj_index s u = 0}" by blast
  qed
qed

lemma visit_spec:
  assumes "search_inv E G s" "tj_index s v = 0" "v \<in> K" "\<And>g. g \<in> G \<Longrightarrow> (g, v) \<in> E\<^sup>*"
    and "card {u \<in> K. tj_index s u = 0} \<le> n"
  shows "search_inv E G (visit n adj self v s) \<and> visited_from E v s (visit n adj self v s)"
  using assms
proof (induction n arbitrary: G s v)
  case 0
  then have "{u \<in> K. tj_index s u = 0} = {}" using finite_nodes by simp
  with 0 show ?case by blast
next
  case (Suc n)
  let ?step = "follow (visit n adj self) v"
  have loop: "visiting E G v s ws (foldl ?step (enter v s) ws)" if "set ws \<subseteq> E `` {v}" for ws
    using that
  proof (induction ws rule: rev_induct)
    case Nil
    show ?case using visiting_enter [OF Suc.prems(1,2,4)] by simp
  next
    case (snoc w ws)
    define t where "t = foldl ?step (enter v s) ws"
    have t: "visiting E G v s ws t" using snoc by (simp add: t_def)
    have w: "(v, w) \<in> E" using snoc.prems by simp
    have "visiting E G v s (ws @ [w]) (?step t w)"
    proof (cases "tj_index t w = 0")
      case True
      have "card {u \<in> K. tj_index t u = 0} < card {u \<in> K. tj_index s u = 0}"
      proof (rule unseen_less [OF Suc.prems(3,2)])
        show "tj_index t v \<noteq> 0" using visiting_number [OF t] by simp
        show "tj_index t u \<noteq> 0" if "tj_index s u \<noteq> 0" for u using visiting_keeps [OF t that] that by simp
      qed
      then have fuel: "card {u \<in> K. tj_index t u = 0} \<le> n" using Suc.prems(5) by simp
      have path: "(g, w) \<in> E\<^sup>*" if "g \<in> insert v G" for g
        using that Suc.prems(4) w by (auto intro: rtrancl_into_rtrancl)
      have "w \<in> K" using w nodes by blast
      from Suc.IH [OF visiting_inv [OF t] True this path fuel] visiting_child [OF t True w] True
      show ?thesis by (simp add: follow_def Let_def)
    next
      case False
      with visiting_seen [OF t False w] show ?thesis by (simp add: follow_def)
    qed
    then show ?case by (simp only: foldl_append foldl_Cons foldl_Nil t_def)
  qed
  have "visiting E G v s (go_get [] adj v) (foldl ?step (enter v s) (go_get [] adj v))" using loop succs by blast
  from leave_visited [where self = self, OF this succs [of v] self_iff [of v]] show ?case by simp
qed

lemma visit_unseen_spec:
  assumes "search_inv E {} s" "v \<in> K" "card K \<le> n"
  defines "t \<equiv> visit_unseen n adj self s v"
  shows "search_inv E {} t" "tj_index t v \<noteq> 0" "tj_index s u \<noteq> 0 \<Longrightarrow> tj_index t u \<noteq> 0"
proof -
  have "card {u \<in> K. tj_index s u = 0} \<le> n"
    using card_mono [OF finite_nodes, of "{u \<in> K. tj_index s u = 0}"] assms(3) by simp
  then have "tj_index s v = 0 \<Longrightarrow> search_inv E {} (visit n adj self v s) \<and> visited_from E v s (visit n adj self v s)"
    using visit_spec assms by blast
  then show "search_inv E {} t" "tj_index t v \<noteq> 0" "tj_index s u \<noteq> 0 \<Longrightarrow> tj_index t u \<noteq> 0"
    using assms(1) unfolding t_def visit_unseen_def visited_from_def by auto
qed

lemma search_result:
  assumes vs: "set vs = K" and n: "card K \<le> n"
  shows "tj_result (foldl (visit_unseen n adj self) tarjan_start vs) x = cycle_component E x"
proof -
  have "search_inv E {} (foldl (visit_unseen n adj self) tarjan_start us)
      \<and> (\<forall>v\<in>set us. tj_index (foldl (visit_unseen n adj self) tarjan_start us) v \<noteq> 0)" if "set us \<subseteq> K" for us
    using that
  proof (induction us rule: rev_induct)
    case Nil
    show ?case by (simp add: search_inv_start)
  next
    case (snoc v us)
    then have "search_inv E {} (foldl (visit_unseen n adj self) tarjan_start us)" "v \<in> K" by simp_all
    note step = visit_unseen_spec [OF this n]
    from snoc step show ?case by auto
  qed
  note whole = this [of vs]
  let ?s = "foldl (visit_unseen n adj self) tarjan_start vs"
  have inv: "search_inv E {} ?s" and seen: "\<And>v. v \<in> K \<Longrightarrow> tj_index ?s v \<noteq> 0" using whole vs by auto
  have "tj_stack ?s = []" using reaches_open [OF inv] by (cases "tj_stack ?s") auto
  moreover have "cycle_component E x = None" if "x \<notin> K"
  proof -
    have "(x, x) \<notin> E\<^sup>+" using that nodes by (meson SigmaD1 subsetD tranclD)
    then show ?thesis by (simp add: cycle_component_def)
  qed
  ultimately show ?thesis using results [OF inv, of x] seen [of x] by (cases "x \<in> K") auto
qed

end

lemma self_edge_iff: "self_edge edges u \<longleftrightarrow> (u, u) \<in> block_rel edges"
  by (auto simp: self_edge_def block_rel_def list_ex_iff)

lemma finite_block_rel: "finite (block_rel edges)"
  by (rule finite_subset [of _ "(\<lambda>d. (td_DependsOnTaskID d, td_TaskID d)) ` set edges"]) (auto simp: block_rel_def)

interpretation dag: adjacency_lists "adjacency edges" "self_edge edges" "block_rel edges" "set (go_keys (adjacency edges))"
  for edges
proof
  show "block_rel edges \<subseteq> set (go_keys (adjacency edges)) \<times> set (go_keys (adjacency edges))"
    unfolding adjacency_props(3) by force
qed (simp_all add: adjacency_props(2) self_edge_iff)

lemma components_value:
  assumes "map_order order"
  shows "GraphCycleComponents order edges x = cycle_component (block_rel edges) x"
proof -
  have "distinct (go_keys (adjacency edges))" using adjacency_props(1) [of edges] by (simp add: gomap_ok_def go_keys_def)
  then have "set (order (go_keys (adjacency edges))) = set (go_keys (adjacency edges))" by (rule map_orderD(2) [OF assms])
  moreover have "card (set (go_keys (adjacency edges))) \<le> length (adjacency edges)"
    by (metis card_length go_keys_def length_map)
  ultimately show ?thesis unfolding GraphCycleComponents_def Let_def by (rule dag.search_result)
qed

text \<open>C14. \<open>GraphCycleComponents\<close>, in whatever order the runtime walks the adjacency map, gives a task its component exactly
  when blocking edges lead from it back to itself; the component is the set of tasks on a cycle with it, sorted.\<close>

theorem cycle_components_exact:
  assumes "map_order order"
  shows "GraphCycleComponents order edges x =
    (if (x, x) \<in> (block_rel edges)\<^sup>+
     then Some (sorted_list_of_set {y. (x, y) \<in> (block_rel edges)\<^sup>+ \<and> (y, x) \<in> (block_rel edges)\<^sup>+}) else None)"
  by (simp only: components_value [OF assms] cycle_component_def)

text \<open>Two tasks that block each other, a third that waits for one of them, and a fourth that blocks itself.\<close>

definition blocks_edge :: "uuid \<Rightarrow> uuid \<Rightarrow> TaskDependency" where
  "blocks_edge a b = (sample_edge '''')\<lparr>td_TaskID := a, td_DependsOnTaskID := b\<rparr>"

definition ring_edges :: "TaskDependency list" where
  "ring_edges = [blocks_edge 2 1, blocks_edge 1 2, blocks_edge 3 2, blocks_edge 4 4, blocks_edge 4 3]"

lemma ring_found:
  "GraphCycleComponents rev ring_edges 1 = Some [1, 2]" "GraphCycleComponents rev ring_edges 3 = None"
  "GraphCycleComponents rev ring_edges 4 = Some [4]"
proof -
  have adj: "adjacency ring_edges = [(1, [2]), (2, [1, 3]), (3, [4]), (4, [4])]"
    by (simp add: ring_edges_def blocks_edge_def sample_edge_def adjacency_def add_adjacent_def go_get_def has_key_def)
  have self: "self_edge ring_edges u \<longleftrightarrow> u = 4" for u
    by (auto simp: self_edge_def ring_edges_def blocks_edge_def sample_edge_def)
  show "GraphCycleComponents rev ring_edges 1 = Some [1, 2]" "GraphCycleComponents rev ring_edges 3 = None"
  "GraphCycleComponents rev ring_edges 4 = Some [4]"
   by (simp_all add: GraphCycleComponents_def adj visit_unseen_def follow_def enter_def lower_def leave_def go_get_def self go_keys_def tarjan_start_def)
qed

theorem cycle_components_exact_witness:
  "sorted_list_of_set {y. (1, y) \<in> (block_rel ring_edges)\<^sup>+ \<and> (y, 1) \<in> (block_rel ring_edges)\<^sup>+} = [1, 2]
   \<and> (3, 3) \<notin> (block_rel ring_edges)\<^sup>+ \<and> (4, 4) \<in> (block_rel ring_edges)\<^sup>+"
proof -
  have r: "map_order rev" by (simp add: map_order_def)
  note exact = cycle_components_exact [where order = rev, OF r, of ring_edges]
  show ?thesis using exact [of 1] exact [of 3] exact [of 4] unfolding ring_found by (auto split: if_splits)
qed

end
