(* ===== verification/Graph_Read.thy ===== *)
theory Graph_Read
  imports Cycle_Components
begin

text \<open>
  The reader behind the dependency graph view: \<open>ReadGraph\<close> in \<open>internal/repository/postgres/dependency_graph_repo.go\<close>
  with the types of \<open>internal/domain/dependency_graph.go\<close>. The queries run in one read-only repeatable-read transaction, so
  they are functions of one state of the tables they read. The main result is that the actor learns nothing about tasks and
  projects outside its membership beyond identity and direct connectivity.
\<close>

section \<open>The tables\<close>

record graph_task =
  gt_id :: uuid
  gt_project_id :: uuid
  gt_deleted_at :: "gtime option"
  gt_title :: string
  gt_status_id :: uuid
  gt_priority :: string
  gt_assignee_id :: "uuid option"
  gt_assignee_type :: string
  gt_parent_task_id :: "uuid option"
  gt_human_gate :: bool
  gt_start_after :: "gtime option"
  gt_is_shipped :: bool
  gt_updated_at :: gtime

record graph_project =
  gp_id :: uuid
  gp_workspace_id :: uuid
  gp_name :: string
  gp_slug :: string
  gp_deleted_at :: "gtime option"

record graph_status =
  gs_id :: uuid
  gs_name :: string
  gs_category :: string

record graph_member =
  gm_project_id :: uuid
  gm_user_id :: "uuid option"
  gm_agent_id :: "uuid option"

text \<open>\<open>db_deployed\<close> holds the tasks with a pr link that records a deploy, the only thing the queries ask of \<open>vcs_links\<close>;
  of agents and users they read the name under an identifier.\<close>

record graph_db =
  db_tasks :: "graph_task list"
  db_projects :: "graph_project list"
  db_statuses :: "graph_status list"
  db_members :: "graph_member list"
  db_agents :: "(uuid, string) gomap"
  db_users :: "(uuid, string) gomap"
  db_edges :: "TaskDependency list"
  db_deployed :: "uuid list"

definition task_row :: "graph_db \<Rightarrow> uuid \<Rightarrow> graph_task option" where
  "task_row db u = find (\<lambda>t. gt_id t = u) (db_tasks db)"

definition project_row :: "graph_db \<Rightarrow> uuid \<Rightarrow> graph_project option" where
  "project_row db u = find (\<lambda>p. gp_id p = u) (db_projects db)"

definition status_row :: "graph_db \<Rightarrow> uuid \<Rightarrow> graph_status option" where
  "status_row db u = find (\<lambda>s. gs_id s = u) (db_statuses db)"

section \<open>What is read\<close>

record GraphNode =
  gn_ID :: uuid
  gn_ProjectID :: "uuid option"
  gn_ProjectName :: string
  gn_ProjectSlug :: string
  gn_Title :: string
  gn_StatusID :: "uuid option"
  gn_StatusName :: string
  gn_Category :: string
  gn_Priority :: string
  gn_AssigneeName :: string
  gn_ParentTaskID :: "uuid option"
  gn_HumanGate :: bool
  gn_StartAfter :: "gtime option"
  gn_Availability :: string
  gn_Blockers :: int
  gn_UnfinishedBlockers :: int
  gn_UnknownBlockers :: int
  gn_Dependents :: int
  gn_Cycle :: bool
  gn_UpdatedAt :: gtime

definition Terminal :: "GraphNode \<Rightarrow> bool" where
  "Terminal n \<longleftrightarrow> gn_Category n = ''done'' \<or> gn_Category n = ''cancelled''"

record GraphScope =
  sc_WorkspaceID :: uuid
  sc_ActorID :: uuid
  sc_Agent :: bool
  sc_Admin :: bool

record GraphSnapshot =
  sn_Nodes :: "GraphNode list"
  sn_Dependencies :: "TaskDependency list"
  sn_Topology :: "TaskDependency list"
  sn_Revision :: string

section \<open>The queries\<close>

text \<open>The membership condition every query repeats: a project of the workspace that is not deleted, and an admin (of the
  human kind) or a member row for the actor.\<close>

definition is_member :: "graph_db \<Rightarrow> GraphScope \<Rightarrow> uuid \<Rightarrow> bool" where
  "is_member db scope pid \<longleftrightarrow>
     list_ex (\<lambda>m. gm_project_id m = pid \<and> (if sc_Agent scope then gm_agent_id m = Some (sc_ActorID scope)
                                           else gm_user_id m = Some (sc_ActorID scope))) (db_members db)"

definition sees_project :: "graph_db \<Rightarrow> GraphScope \<Rightarrow> uuid \<Rightarrow> graph_project \<Rightarrow> bool" where
  "sees_project db scope ws p \<longleftrightarrow> gp_workspace_id p = ws \<and> gp_deleted_at p = None
     \<and> (sc_Admin scope \<and> \<not> sc_Agent scope \<or> is_member db scope (gp_id p))"

definition allowed_project :: "graph_db \<Rightarrow> GraphScope \<Rightarrow> uuid \<Rightarrow> uuid \<Rightarrow> bool" where
  "allowed_project db scope ws pid \<longleftrightarrow> (case project_row db pid of None \<Rightarrow> False | Some p \<Rightarrow> sees_project db scope ws p)"

definition allowed_task :: "graph_db \<Rightarrow> GraphScope \<Rightarrow> uuid \<Rightarrow> uuid \<Rightarrow> bool" where
  "allowed_task db scope ws u \<longleftrightarrow>
     (case task_row db u of None \<Rightarrow> False | Some t \<Rightarrow> gt_deleted_at t = None \<and> allowed_project db scope ws (gt_project_id t))"

text \<open>\<open>ws_edges\<close>: the edges with no end in another workspace, with the two verdicts.\<close>

definition foreign_task :: "graph_db \<Rightarrow> uuid \<Rightarrow> uuid \<Rightarrow> bool" where
  "foreign_task db ws u \<longleftrightarrow>
     (case task_row db u of None \<Rightarrow> False
      | Some t \<Rightarrow> (case project_row db (gt_project_id t) of None \<Rightarrow> False | Some p \<Rightarrow> gp_workspace_id p \<noteq> ws))"

definition ws_edges :: "graph_db \<Rightarrow> uuid \<Rightarrow> TaskDependency list" where
  "ws_edges db ws = filter (\<lambda>d. \<not> foreign_task db ws (td_TaskID d) \<and> \<not> foreign_task db ws (td_DependsOnTaskID d)) (db_edges db)"

definition edge_satisfied :: "TaskDependency \<Rightarrow> bool" where
  "edge_satisfied d \<longleftrightarrow> sql_true (DependencySatisfiedSQL d)"

definition category_of :: "graph_db \<Rightarrow> uuid \<Rightarrow> string option" where
  "category_of db u = Option.bind (task_row db u) (\<lambda>t. map_option gs_category (status_row db (gt_status_id t)))"

definition blocker_columns :: "graph_db \<Rightarrow> uuid \<Rightarrow> blocker_row" where
  "blocker_columns db u =
     \<lparr>br_is_shipped = map_option gt_is_shipped (task_row db u), br_category = category_of db u,
      br_deployed = (task_row db u \<noteq> None \<and> u \<in> set (db_deployed db))\<rparr>"

definition edge_released :: "graph_db \<Rightarrow> TaskDependency \<Rightarrow> bool" where
  "edge_released db d \<longleftrightarrow> DependencyReleasedSQL d (blocker_columns db (td_DependsOnTaskID d))"

definition local_tasks :: "graph_db \<Rightarrow> uuid \<Rightarrow> uuid \<Rightarrow> uuid list" where
  "local_tasks db pid focus =
     map gt_id (filter (\<lambda>t. gt_deleted_at t = None \<and> (focus = uuid_Nil \<and> gt_project_id t = pid \<or> gt_id t = focus)) (db_tasks db))"

definition local_edges :: "graph_db \<Rightarrow> uuid \<Rightarrow> uuid \<Rightarrow> uuid \<Rightarrow> TaskDependency list" where
  "local_edges db ws pid focus =
     filter (\<lambda>d. td_TaskID d \<in> set (local_tasks db pid focus) \<or> td_DependsOnTaskID d \<in> set (local_tasks db pid focus)) (ws_edges db ws)"

text \<open>The edges the client gets: the full verdict only for a blocker the actor may see.\<close>

definition graph_dependencies :: "graph_db \<Rightarrow> GraphScope \<Rightarrow> uuid \<Rightarrow> uuid \<Rightarrow> uuid \<Rightarrow> TaskDependency list" where
  "graph_dependencies db scope ws pid focus =
     sort_key td_ID (map (\<lambda>d. d\<lparr>td_ConditionSatisfied := if allowed_task db scope ws (td_DependsOnTaskID d) then edge_released db d
                                                         else edge_satisfied d, td_Warning := ''''\<rparr>)
                       (local_edges db ws pid focus))"

definition graph_topology :: "graph_db \<Rightarrow> GraphScope \<Rightarrow> uuid \<Rightarrow> TaskDependency list" where
  "graph_topology db scope ws =
     sort_key td_ID (map (\<lambda>d. d\<lparr>td_ConditionSatisfied := edge_satisfied d, td_Warning := ''''\<rparr>)
       (filter (\<lambda>d. allowed_task db scope ws (td_TaskID d) \<and> allowed_task db scope ws (td_DependsOnTaskID d)
                  \<and> td_DependencyType d = Blocks) (db_edges db)))"

text \<open>The nodes: local tasks, the ends of their edges, their parents and the children of the focus.\<close>

definition graph_ids :: "graph_db \<Rightarrow> uuid \<Rightarrow> uuid \<Rightarrow> uuid \<Rightarrow> uuid list" where
  "graph_ids db ws pid focus =
     sort (remdups (local_tasks db pid focus
       @ map td_TaskID (local_edges db ws pid focus) @ map td_DependsOnTaskID (local_edges db ws pid focus)
       @ List.map_filter gt_parent_task_id (filter (\<lambda>t. gt_id t \<in> set (local_tasks db pid focus)) (db_tasks db))
       @ map gt_id (filter (\<lambda>t. gt_parent_task_id t = Some focus \<and> gt_deleted_at t = None) (db_tasks db))))"

definition blocker_edges :: "graph_db \<Rightarrow> uuid \<Rightarrow> uuid \<Rightarrow> TaskDependency list" where
  "blocker_edges db ws u = filter (\<lambda>d. td_DependencyType d = Blocks \<and> td_TaskID d = u) (ws_edges db ws)"

definition count_unfinished :: "graph_db \<Rightarrow> GraphScope \<Rightarrow> uuid \<Rightarrow> uuid \<Rightarrow> int" where
  "count_unfinished db scope ws u =
     int (length (filter (\<lambda>d. \<not> edge_satisfied d
        \<and> (\<not> allowed_task db scope ws (td_DependsOnTaskID d) \<or> category_of db (td_DependsOnTaskID d) = None
           \<or> \<not> edge_released db d)) (blocker_edges db ws u)))"

definition count_unknown :: "graph_db \<Rightarrow> GraphScope \<Rightarrow> uuid \<Rightarrow> uuid \<Rightarrow> int" where
  "count_unknown db scope ws u =
     int (length (filter (\<lambda>d. \<not> allowed_task db scope ws (td_DependsOnTaskID d)) (blocker_edges db ws u)))"

definition count_dependents :: "graph_db \<Rightarrow> uuid \<Rightarrow> uuid \<Rightarrow> int" where
  "count_dependents db ws u =
     int (length (filter (\<lambda>d. td_DependencyType d = Blocks \<and> td_DependsOnTaskID d = u) (ws_edges db ws)))"

definition assignee_name :: "graph_db \<Rightarrow> graph_task \<Rightarrow> string" where
  "assignee_name db t =
     (case gt_assignee_id t of None \<Rightarrow> ''''
      | Some a \<Rightarrow> if gt_assignee_type t = ''agent'' then go_get '''' (db_agents db) a
                 else if gt_assignee_type t = ''user'' then go_get '''' (db_users db) a else '''')"

definition availability :: "graph_db \<Rightarrow> uuid \<Rightarrow> string" where
  "availability db u =
     (case task_row db u of None \<Rightarrow> ''missing''
      | Some t \<Rightarrow> if gt_deleted_at t \<noteq> None then ''missing''
                 else (case project_row db (gt_project_id t) of None \<Rightarrow> ''missing''
                       | Some p \<Rightarrow> if gp_deleted_at p \<noteq> None then ''missing'' else ''restricted''))"

text \<open>The instant \<open>'epoch'\<close>, 1970, in nanoseconds since year 1.\<close>

definition epoch :: gtime where "epoch = 62135596800 * 1000000000"

definition hidden_node :: "graph_db \<Rightarrow> uuid \<Rightarrow> GraphNode" where
  "hidden_node db u =
     \<lparr>gn_ID = u, gn_ProjectID = None, gn_ProjectName = '''', gn_ProjectSlug = '''', gn_Title = '''', gn_StatusID = None,
      gn_StatusName = '''', gn_Category = '''', gn_Priority = '''', gn_AssigneeName = '''', gn_ParentTaskID = None,
      gn_HumanGate = False, gn_StartAfter = None, gn_Availability = availability db u, gn_Blockers = 0,
      gn_UnfinishedBlockers = 0, gn_UnknownBlockers = 0, gn_Dependents = 0, gn_Cycle = False, gn_UpdatedAt = epoch\<rparr>"

definition shown_node :: "graph_db \<Rightarrow> GraphScope \<Rightarrow> uuid \<Rightarrow> graph_task \<Rightarrow> graph_project \<Rightarrow> GraphNode" where
  "shown_node db scope ws t p =
     \<lparr>gn_ID = gt_id t, gn_ProjectID = Some (gt_project_id t), gn_ProjectName = gp_name p, gn_ProjectSlug = gp_slug p,
      gn_Title = gt_title t, gn_StatusID = Some (gt_status_id t),
      gn_StatusName = (case status_row db (gt_status_id t) of None \<Rightarrow> '''' | Some s \<Rightarrow> gs_name s),
      gn_Category = coalesce '''' (category_of db (gt_id t)), gn_Priority = gt_priority t, gn_AssigneeName = assignee_name db t,
      gn_ParentTaskID = gt_parent_task_id t, gn_HumanGate = gt_human_gate t, gn_StartAfter = gt_start_after t,
      gn_Availability = ''available'', gn_Blockers = int (length (blocker_edges db ws (gt_id t))),
      gn_UnfinishedBlockers = count_unfinished db scope ws (gt_id t), gn_UnknownBlockers = count_unknown db scope ws (gt_id t),
      gn_Dependents = count_dependents db ws (gt_id t), gn_Cycle = False, gn_UpdatedAt = gt_updated_at t\<rparr>"

definition graph_node :: "graph_db \<Rightarrow> GraphScope \<Rightarrow> uuid \<Rightarrow> uuid \<Rightarrow> GraphNode" where
  "graph_node db scope ws u =
     (case task_row db u of None \<Rightarrow> hidden_node db u
      | Some t \<Rightarrow> (case project_row db (gt_project_id t) of None \<Rightarrow> hidden_node db u
                 | Some p \<Rightarrow> if allowed_task db scope ws u then shown_node db scope ws t p else hidden_node db u))"


section \<open>The revision\<close>

text \<open>\<open>json.Marshal\<close> of a node and the hexadecimal SHA-256 digest of a byte string are parameters; the first may fail.\<close>

datatype read_error = Refuse Error | Marshal_failed

definition component_of :: "(uuid list \<Rightarrow> uuid list) \<Rightarrow> TaskDependency list \<Rightarrow> uuid \<Rightarrow> uuid list" where
  "component_of order edges u = coalesce [] (GraphCycleComponents order edges u)"

definition node_visible :: "GraphNode list \<Rightarrow> uuid \<Rightarrow> bool" where
  "node_visible nodes u \<longleftrightarrow> list_ex (\<lambda>n. gn_ID n = u \<and> gn_Availability n = ''available'') nodes"

definition mark_cycle :: "bool \<Rightarrow> (uuid \<Rightarrow> uuid list) \<Rightarrow> GraphNode \<Rightarrow> GraphNode" where
  "mark_cycle visible components n = n\<lparr>gn_Cycle := visible \<and> length (components (gn_ID n)) > 0\<rparr>"

definition hash_component :: "GraphNode list \<Rightarrow> uuid list \<Rightarrow> string" where
  "hash_component nodes c = ''/'' @ FormatInt (int (length c)) @ ''/''
     @ concat (map (\<lambda>u. uuid_String u @ '';'') (filter (node_visible nodes) c))"

fun hash_nodes :: "(GraphNode \<Rightarrow> string option) \<Rightarrow> (uuid \<Rightarrow> uuid list) \<Rightarrow> GraphNode list \<Rightarrow> GraphNode list \<Rightarrow> string option" where
  "hash_nodes marshal components nodes [] = Some ''''"
| "hash_nodes marshal components nodes (n # ns) =
     (case marshal (mark_cycle (node_visible nodes (gn_ID n)) components n) of None \<Rightarrow> None
      | Some data \<Rightarrow> map_option (\<lambda>rest. data @ (if node_visible nodes (gn_ID n) then hash_component nodes (components (gn_ID n)) else '''') @ rest)
                       (hash_nodes marshal components nodes ns))"

definition hash_edges :: "TaskDependency list \<Rightarrow> string" where
  "hash_edges ds = concat (map (\<lambda>d. Join [uuid_String (td_ID d), uuid_String (td_TaskID d), uuid_String (td_DependsOnTaskID d),
                                          td_DependencyType d] ''/'' @ '';'') ds)"

section \<open>ReadGraph\<close>

definition read_guard :: "graph_db \<Rightarrow> uuid \<Rightarrow> uuid \<Rightarrow> GraphScope \<Rightarrow> Error option" where
  "read_guard db pid focus scope =
     (case project_row db pid of None \<Rightarrow> Some (NotFound ''Project'')
      | Some p \<Rightarrow> if gp_deleted_at p \<noteq> None then Some (NotFound ''Project'')
                 else if sc_WorkspaceID scope \<noteq> gp_workspace_id p then Some (Forbidden ''workspace context mismatch'')
                 else if \<not> allowed_project db scope (gp_workspace_id p) pid then Some (Forbidden ''not a member of this project'')
                 else if focus \<noteq> uuid_Nil \<and> \<not> allowed_task db scope (gp_workspace_id p) focus then Some (NotFound ''Task'')
                 else None)"

definition ReadGraph ::
  "(uuid list \<Rightarrow> uuid list) \<Rightarrow> (GraphNode \<Rightarrow> string option) \<Rightarrow> (string \<Rightarrow> string)
    \<Rightarrow> graph_db \<Rightarrow> uuid \<Rightarrow> uuid \<Rightarrow> GraphScope \<Rightarrow> read_error + GraphSnapshot" where
  "ReadGraph order marshal sha_hex db pid focus scope =
     (case read_guard db pid focus scope of Some e \<Rightarrow> Inl (Refuse e)
      | None \<Rightarrow>
          let ws = sc_WorkspaceID scope;
              topology = graph_topology db scope ws;
              dependencies = graph_dependencies db scope ws pid focus;
              nodes = map (graph_node db scope ws) (graph_ids db ws pid focus)
          in case hash_nodes marshal (component_of order topology) nodes nodes of None \<Rightarrow> Inl Marshal_failed
             | Some h \<Rightarrow> Inr \<lparr>sn_Nodes = nodes, sn_Dependencies = dependencies, sn_Topology = topology,
                              sn_Revision = sha_hex (h @ hash_edges dependencies)\<rparr>)"


section \<open>What an actor can tell apart\<close>

text \<open>The primary keys; no task is stored under the nil identifier.\<close>

definition db_keys :: "graph_db \<Rightarrow> bool" where
  "db_keys db \<longleftrightarrow> distinct (map gt_id (db_tasks db)) \<and> distinct (map gp_id (db_projects db)) \<and> distinct (map td_ID (db_edges db))
     \<and> uuid_Nil \<notin> gt_id ` set (db_tasks db)"

definition visible_row :: "graph_db \<Rightarrow> GraphScope \<Rightarrow> graph_task \<Rightarrow> bool" where
  "visible_row db scope t \<longleftrightarrow> gt_deleted_at t = None \<and> allowed_project db scope (sc_WorkspaceID scope) (gt_project_id t)"

definition touches_visible :: "graph_db \<Rightarrow> GraphScope \<Rightarrow> TaskDependency \<Rightarrow> bool" where
  "touches_visible db scope d \<longleftrightarrow> allowed_task db scope (sc_WorkspaceID scope) (td_TaskID d)
     \<or> allowed_task db scope (sc_WorkspaceID scope) (td_DependsOnTaskID d)"

text \<open>
  Two states of the tables that look alike to an actor: the same memberships of the actor; projects and tasks that agree in
  identity, place and deletion, and in everything when the actor may see them; tasks that point at the same visible parents;
  the same edges at visible tasks; and the same statuses, names and deploys for visible tasks. Everything else about hidden
  tasks and projects, and the edges among hidden tasks, may differ.
\<close>

definition project_alike :: "graph_db \<Rightarrow> GraphScope \<Rightarrow> graph_project \<Rightarrow> graph_project \<Rightarrow> bool" where
  "project_alike db scope p q \<longleftrightarrow> gp_id p = gp_id q \<and> gp_workspace_id p = gp_workspace_id q \<and> gp_deleted_at p = gp_deleted_at q
     \<and> (sees_project db scope (sc_WorkspaceID scope) p \<longrightarrow> p = q)"

definition task_alike :: "graph_db \<Rightarrow> GraphScope \<Rightarrow> graph_task \<Rightarrow> graph_task \<Rightarrow> bool" where
  "task_alike db scope t u \<longleftrightarrow> gt_id t = gt_id u \<and> gt_project_id t = gt_project_id u \<and> gt_deleted_at t = gt_deleted_at u
     \<and> (visible_row db scope t \<longrightarrow> t = u)
     \<and> (\<forall>v. v = uuid_Nil \<or> allowed_task db scope (sc_WorkspaceID scope) v
            \<longrightarrow> (gt_parent_task_id t = Some v \<longleftrightarrow> gt_parent_task_id u = Some v))"

definition looks_alike :: "GraphScope \<Rightarrow> graph_db \<Rightarrow> graph_db \<Rightarrow> bool" where
  "looks_alike scope db db' \<longleftrightarrow>
     (\<forall>pid. is_member db scope pid = is_member db' scope pid)
   \<and> list_all2 (project_alike db scope) (db_projects db) (db_projects db')
   \<and> list_all2 (task_alike db scope) (db_tasks db) (db_tasks db')
   \<and> filter (touches_visible db scope) (db_edges db) = filter (touches_visible db scope) (db_edges db')
   \<and> (\<forall>t\<in>set (db_tasks db). visible_row db scope t \<longrightarrow>
        status_row db (gt_status_id t) = status_row db' (gt_status_id t) \<and> assignee_name db t = assignee_name db' t
      \<and> (gt_id t \<in> set (db_deployed db) \<longleftrightarrow> gt_id t \<in> set (db_deployed db')))"

lemma task_alikeD:
  assumes "task_alike db scope t u"
  shows "gt_id u = gt_id t" "gt_project_id u = gt_project_id t" "gt_deleted_at u = gt_deleted_at t"
    and "visible_row db scope t \<Longrightarrow> u = t"
    and "v = uuid_Nil \<or> allowed_task db scope (sc_WorkspaceID scope) v \<Longrightarrow> gt_parent_task_id u = Some v \<longleftrightarrow> gt_parent_task_id t = Some v"
proof -
  note a = assms [unfolded task_alike_def]
  show "gt_id u = gt_id t" "gt_project_id u = gt_project_id t" "gt_deleted_at u = gt_deleted_at t" using a by simp_all
  show "visible_row db scope t \<Longrightarrow> u = t"
    using a [THEN conjunct2, THEN conjunct2, THEN conjunct2, THEN conjunct1] by simp
  show "v = uuid_Nil \<or> allowed_task db scope (sc_WorkspaceID scope) v \<Longrightarrow> gt_parent_task_id u = Some v \<longleftrightarrow> gt_parent_task_id t = Some v"
    using a [THEN conjunct2, THEN conjunct2, THEN conjunct2, THEN conjunct2, THEN spec, THEN mp] by (rule sym)
qed

lemma find_all2:
  assumes "list_all2 R xs ys" "\<And>x y. R x y \<Longrightarrow> P x = Q y"
  shows "rel_option R (find P xs) (find Q ys)"
  using assms(1) by (induction rule: list_all2_induct) (auto dest: assms(2))

lemma filter_all2:
  assumes "list_all2 R xs ys" "\<And>x y. R x y \<Longrightarrow> P x = Q y" "\<And>x y. R x y \<Longrightarrow> P x \<Longrightarrow> f x = g y"
  shows "map f (filter P xs) = map g (filter Q ys)"
  using assms(1) by (induction rule: list_all2_induct) (auto dest: assms(2,3))

lemma filter_of_filter:
  assumes "filter P xs = filter P ys" "\<And>x. Q x \<Longrightarrow> P x"
  shows "filter Q xs = filter Q ys"
proof -
  have "filter Q zs = filter Q (filter P zs)" for zs using assms(2) by (auto intro: filter_cong)
  with assms(1) show ?thesis by metis
qed

lemma find_key: "distinct (map f xs) \<Longrightarrow> x \<in> set xs \<Longrightarrow> find (\<lambda>y. f y = f x) xs = Some x"
  by (induction xs) (auto simp: image_iff)

lemma alike_projects:
  assumes v: "looks_alike scope db db'"
  shows "rel_option (project_alike db scope) (project_row db pid) (project_row db' pid)"
    and "allowed_project db' scope (sc_WorkspaceID scope) pid \<longleftrightarrow> allowed_project db scope (sc_WorkspaceID scope) pid"
proof -
  have "list_all2 (project_alike db scope) (db_projects db) (db_projects db')" using v by (simp add: looks_alike_def)
  then show r: "rel_option (project_alike db scope) (project_row db pid) (project_row db' pid)"
    unfolding project_row_def by (rule find_all2) (simp add: project_alike_def)
  have m: "is_member db scope x = is_member db' scope x" for x using v by (simp add: looks_alike_def)
  from r show "allowed_project db' scope (sc_WorkspaceID scope) pid \<longleftrightarrow> allowed_project db scope (sc_WorkspaceID scope) pid"
  proof (cases rule: option.rel_cases)
    case (Some p q)
    then have "gp_id q = gp_id p" "gp_workspace_id q = gp_workspace_id p" "gp_deleted_at q = gp_deleted_at p"
      by (simp_all add: project_alike_def)
    then have "sees_project db' scope ws q \<longleftrightarrow> sees_project db scope ws p" for ws by (simp only: sees_project_def m)
    then show ?thesis by (simp add: allowed_project_def Some)
  qed (simp add: allowed_project_def)
qed

lemma alike_tasks:
  assumes v: "looks_alike scope db db'"
  shows "rel_option (task_alike db scope) (task_row db u) (task_row db' u)"
    and "allowed_task db' scope (sc_WorkspaceID scope) u \<longleftrightarrow> allowed_task db scope (sc_WorkspaceID scope) u"
    and "foreign_task db' ws u \<longleftrightarrow> foreign_task db ws u"
    and "availability db' u = availability db u"
proof -
  have "list_all2 (task_alike db scope) (db_tasks db) (db_tasks db')" using v by (simp add: looks_alike_def)
  then show r: "rel_option (task_alike db scope) (task_row db u) (task_row db' u)"
    unfolding task_row_def by (rule find_all2) (simp add: task_alike_def)
  note p = alike_projects [OF v]
  from r show "allowed_task db' scope (sc_WorkspaceID scope) u \<longleftrightarrow> allowed_task db scope (sc_WorkspaceID scope) u"
    by (cases rule: option.rel_cases) (auto simp: allowed_task_def task_alike_def p(2))
  from r show "foreign_task db' ws u \<longleftrightarrow> foreign_task db ws u"
  proof (cases rule: option.rel_cases)
    case (Some t t')
    then have e: "gt_project_id t' = gt_project_id t" by (simp add: task_alike_def)
    from p(1) [of "gt_project_id t"] show ?thesis
      by (cases rule: option.rel_cases) (auto simp: foreign_task_def Some e project_alike_def)
  qed (simp add: foreign_task_def)
  from r show "availability db' u = availability db u"
  proof (cases rule: option.rel_cases)
    case (Some t t')
    then have e: "gt_project_id t' = gt_project_id t" "gt_deleted_at t' = gt_deleted_at t" by (simp_all add: task_alike_def)
    from p(1) [of "gt_project_id t"] show ?thesis
      by (cases rule: option.rel_cases) (auto simp: availability_def Some e project_alike_def)
  qed (simp add: availability_def)
qed

lemma alike_visible:
  assumes v: "looks_alike scope db db'" and a: "allowed_task db scope (sc_WorkspaceID scope) u"
  shows "task_row db' u = task_row db u" "category_of db' u = category_of db u" "blocker_columns db' u = blocker_columns db u"
    and "t = the (task_row db u) \<Longrightarrow> status_row db' (gt_status_id t) = status_row db (gt_status_id t)"
    and "t = the (task_row db u) \<Longrightarrow> assignee_name db' t = assignee_name db t"
    and "t = the (task_row db u) \<Longrightarrow> project_row db' (gt_project_id t) = project_row db (gt_project_id t)"
proof -
  obtain t0 where t0: "task_row db u = Some t0" "visible_row db scope t0"
    using a by (auto simp: allowed_task_def visible_row_def split: option.splits)
  then have mem: "t0 \<in> set (db_tasks db)" "gt_id t0 = u" by (auto simp: task_row_def find_Some_iff)
  from alike_tasks(1) [OF v, of u] t0 show row: "task_row db' u = task_row db u"
    by (auto simp: option_rel_Some1 task_alike_def)
  have all: "\<forall>t\<in>set (db_tasks db). visible_row db scope t \<longrightarrow>
        status_row db (gt_status_id t) = status_row db' (gt_status_id t) \<and> assignee_name db t = assignee_name db' t
      \<and> (gt_id t \<in> set (db_deployed db) \<longleftrightarrow> gt_id t \<in> set (db_deployed db'))"
    using v unfolding looks_alike_def by (elim conjE)
  have same: "status_row db' (gt_status_id t0) = status_row db (gt_status_id t0)" "assignee_name db' t0 = assignee_name db t0"
    "u \<in> set (db_deployed db') \<longleftrightarrow> u \<in> set (db_deployed db)"
    using bspec [OF all mem(1)] t0(2) mem(2) by simp_all
  show cat: "category_of db' u = category_of db u" by (simp add: category_of_def row t0 same)
  show "blocker_columns db' u = blocker_columns db u" by (simp add: blocker_columns_def row cat same)
  show "t = the (task_row db u) \<Longrightarrow> status_row db' (gt_status_id t) = status_row db (gt_status_id t)" by (simp add: t0 same)
  show "t = the (task_row db u) \<Longrightarrow> assignee_name db' t = assignee_name db t" by (simp add: t0 same)
  have "allowed_project db scope (sc_WorkspaceID scope) (gt_project_id t0)" using t0(2) by (simp add: visible_row_def)
  with alike_projects(1) [OF v, of "gt_project_id t0"]
  have "project_row db' (gt_project_id t0) = project_row db (gt_project_id t0)"
    by (auto simp: allowed_project_def option_rel_Some1 project_alike_def split: option.splits)
  then show "t = the (task_row db u) \<Longrightarrow> project_row db' (gt_project_id t) = project_row db (gt_project_id t)" by (simp add: t0)
qed


lemma read_guard_None:
  assumes "read_guard db pid focus scope = None"
  shows "allowed_project db scope (sc_WorkspaceID scope) pid"
    and "focus = uuid_Nil \<or> allowed_task db scope (sc_WorkspaceID scope) focus"
  using assms by (auto simp: read_guard_def split: option.splits if_splits)

lemma alike_guard:
  assumes v: "looks_alike scope db db'"
  shows "read_guard db' pid focus scope = read_guard db pid focus scope"
  using alike_projects(1) [OF v, of pid]
proof (cases rule: option.rel_cases)
  case (Some p q)
  then have "gp_workspace_id q = gp_workspace_id p" "gp_deleted_at q = gp_deleted_at p" by (simp_all add: project_alike_def)
  moreover have "sc_WorkspaceID scope = gp_workspace_id p \<Longrightarrow>
      allowed_project db' scope (gp_workspace_id p) pid = allowed_project db scope (gp_workspace_id p) pid
    \<and> allowed_task db' scope (gp_workspace_id p) focus = allowed_task db scope (gp_workspace_id p) focus"
    using alike_projects(2) [OF v, of pid] alike_tasks(2) [OF v, of focus] by simp
  ultimately show ?thesis by (cases "sc_WorkspaceID scope = gp_workspace_id p") (simp_all add: read_guard_def Some)
qed (simp add: read_guard_def)

lemma local_visible:
  assumes "db_keys db" "read_guard db pid focus scope = None" "t \<in> set (db_tasks db)" "gt_id t \<in> set (local_tasks db pid focus)"
  shows "visible_row db scope t \<and> allowed_task db scope (sc_WorkspaceID scope) (gt_id t)"
proof -
  obtain u where u: "u \<in> set (db_tasks db)" "gt_id u = gt_id t" "gt_deleted_at u = None"
      "focus = uuid_Nil \<and> gt_project_id u = pid \<or> gt_id u = focus"
    using assms(4) unfolding local_tasks_def by auto
  have dist: "distinct (map gt_id (db_tasks db))" using assms(1) by (simp add: db_keys_def)
  have row: "task_row db (gt_id t) = Some t" "task_row db (gt_id u) = Some u" unfolding task_row_def
    using find_key [OF dist] assms(3) u(1) by simp_all
  then have t: "u = t" using u(2) by simp
  note g = read_guard_None [OF assms(2)]
  have nonnil: "gt_id t \<noteq> uuid_Nil" using assms(1,3) unfolding db_keys_def by force
  have "allowed_project db scope (sc_WorkspaceID scope) (gt_project_id t)"
  proof (cases "gt_id t = focus")
    case True
    with g(2) nonnil row(1) show ?thesis by (simp add: allowed_task_def)
  next
    case False
    with u(4) t g(1) show ?thesis by simp
  qed
  with u(3) t row(1) show ?thesis by (simp add: visible_row_def allowed_task_def)
qed


lemma locals_visible:
  assumes "db_keys db" "read_guard db pid focus scope = None" "u \<in> set (local_tasks db pid focus)"
  shows "allowed_task db scope (sc_WorkspaceID scope) u"
proof -
  obtain t where "t \<in> set (db_tasks db)" "gt_id t = u" using assms(3) unfolding local_tasks_def by auto
  with local_visible [OF assms(1,2)] assms(3) show ?thesis by blast
qed

lemma alike_edges:
  assumes v: "looks_alike scope db db'" and Q: "\<And>d. Q d \<Longrightarrow> touches_visible db scope d"
  shows "filter Q (db_edges db') = filter Q (db_edges db)" "filter Q (ws_edges db' ws) = filter Q (ws_edges db ws)"
proof -
  have e: "filter (touches_visible db scope) (db_edges db') = filter (touches_visible db scope) (db_edges db)"
    using v unfolding looks_alike_def by (elim conjE) (rule sym)
  then show "filter Q (db_edges db') = filter Q (db_edges db)" by (rule filter_of_filter) (rule Q)
  define F :: "TaskDependency \<Rightarrow> bool"
    where "F = (\<lambda>d. \<not> foreign_task db ws (td_TaskID d) \<and> \<not> foreign_task db ws (td_DependsOnTaskID d))"
  have ws: "ws_edges db' ws = filter F (db_edges db')" "ws_edges db ws = filter F (db_edges db)"
    by (simp_all add: ws_edges_def F_def alike_tasks(3) [OF v])
  have "filter (\<lambda>d. F d \<and> Q d) (db_edges db') = filter (\<lambda>d. F d \<and> Q d) (db_edges db)"
    by (rule filter_of_filter [OF e]) (use Q in blast)
  then show "filter Q (ws_edges db' ws) = filter Q (ws_edges db ws)" by (simp add: ws conj_commute)
qed

lemma alike_local:
  assumes v: "looks_alike scope db db'"
  shows "local_tasks db' pid focus = local_tasks db pid focus"
proof -
  have "list_all2 (task_alike db scope) (db_tasks db) (db_tasks db')" using v by (simp add: looks_alike_def)
  then have "local_tasks db pid focus = local_tasks db' pid focus"
    unfolding local_tasks_def by (rule filter_all2) (simp_all add: task_alike_def)
  then show ?thesis by simp
qed

lemma alike_local_edges:
  assumes v: "looks_alike scope db db'" and ok: "db_keys db" "read_guard db pid focus scope = None"
  shows "local_edges db' ws pid focus = local_edges db ws pid focus"
  unfolding local_edges_def alike_local [OF v]
  by (rule alike_edges(2) [OF v]) (use locals_visible [OF ok] in \<open>auto simp: touches_visible_def\<close>)

lemma alike_released:
  assumes v: "looks_alike scope db db'" and a: "allowed_task db scope (sc_WorkspaceID scope) (td_DependsOnTaskID d)"
  shows "edge_released db' d = edge_released db d"
  by (simp add: edge_released_def alike_visible(3) [OF v a])

lemma alike_dependencies:
  assumes v: "looks_alike scope db db'" and ok: "db_keys db" "read_guard db pid focus scope = None"
  shows "graph_dependencies db' scope (sc_WorkspaceID scope) pid focus = graph_dependencies db scope (sc_WorkspaceID scope) pid focus"
  unfolding graph_dependencies_def alike_local_edges [OF v ok] alike_tasks(2) [OF v]
  by (rule arg_cong [where f = "sort_key td_ID"], rule map_cong) (auto simp: alike_released [OF v])

lemma alike_topology:
  assumes v: "looks_alike scope db db'"
  shows "graph_topology db' scope (sc_WorkspaceID scope) = graph_topology db scope (sc_WorkspaceID scope)"
  unfolding graph_topology_def alike_tasks(2) [OF v]
  by (subst alike_edges(1) [OF v]) (auto simp: touches_visible_def)

lemma map_filter_map: "List.map_filter f xs = map the (filter (\<lambda>x. x \<noteq> None) (map f xs))"
  by (induction xs) (auto simp: List.map_filter_simps split: option.splits)

lemma alike_ids:
  assumes v: "looks_alike scope db db'" and ok: "db_keys db" "read_guard db pid focus scope = None"
  shows "graph_ids db' ws pid focus = graph_ids db ws pid focus"
proof -
  let ?local = "\<lambda>t. gt_id t \<in> set (local_tasks db pid focus)"
  have all2: "list_all2 (\<lambda>t t'. t \<in> set (db_tasks db) \<and> task_alike db scope t t') (db_tasks db) (db_tasks db')"
    using v by (auto simp: looks_alike_def list_all2_conv_all_nth)
  have parents: "map gt_parent_task_id (filter ?local (db_tasks db)) = map gt_parent_task_id (filter ?local (db_tasks db'))"
  proof (rule filter_all2 [OF all2])
    fix t t' assume h: "t \<in> set (db_tasks db) \<and> task_alike db scope t t'"
    note a = task_alikeD [OF h [THEN conjunct2]]
    show "?local t = ?local t'" by (simp add: a(1))
    show "gt_parent_task_id t = gt_parent_task_id t'" if "?local t"
      using a(4) local_visible [OF ok h [THEN conjunct1] that] by simp
  qed
  have children: "map gt_id (filter (\<lambda>t. gt_parent_task_id t = Some focus \<and> gt_deleted_at t = None) (db_tasks db))
      = map gt_id (filter (\<lambda>t. gt_parent_task_id t = Some focus \<and> gt_deleted_at t = None) (db_tasks db'))"
  proof (rule filter_all2 [OF all2])
    fix t t' assume h: "t \<in> set (db_tasks db) \<and> task_alike db scope t t'"
    note a = task_alikeD [OF h [THEN conjunct2]]
    show "(gt_parent_task_id t = Some focus \<and> gt_deleted_at t = None) = (gt_parent_task_id t' = Some focus \<and> gt_deleted_at t' = None)"
      by (simp add: a(3) a(5) [OF read_guard_None(2) [OF ok(2)]])
    show "gt_id t = gt_id t'" by (simp add: a(1))
  qed
  show ?thesis
    unfolding graph_ids_def alike_local [OF v] alike_local_edges [OF v ok] map_filter_map parents children ..
qed

lemma alike_node:
  assumes v: "looks_alike scope db db'" and k: "db_keys db"
  shows "graph_node db' scope (sc_WorkspaceID scope) u = graph_node db scope (sc_WorkspaceID scope) u"
proof (cases "allowed_task db scope (sc_WorkspaceID scope) u")
  case False
  then have "graph_node db scope (sc_WorkspaceID scope) u = hidden_node db u" "graph_node db' scope (sc_WorkspaceID scope) u = hidden_node db' u"
    by (simp_all add: graph_node_def alike_tasks(2) [OF v] split: option.splits)
  then show ?thesis by (simp add: hidden_node_def alike_tasks(4) [OF v])
next
  case True
  let ?ws = "sc_WorkspaceID scope"
  note same = alike_visible [OF v True]
  have edges: "blocker_edges db' ?ws u = blocker_edges db ?ws u" unfolding blocker_edges_def
    by (rule alike_edges(2) [OF v]) (use True in \<open>simp add: touches_visible_def\<close>)
  have dependents: "count_dependents db' ?ws u = count_dependents db ?ws u" unfolding count_dependents_def
    by (subst alike_edges(2) [OF v]) (use True in \<open>simp_all add: touches_visible_def\<close>)
  have unknown: "count_unknown db' scope ?ws u = count_unknown db scope ?ws u"
    by (simp add: count_unknown_def edges alike_tasks(2) [OF v])
  have "(\<not> allowed_task db scope ?ws w \<or> category_of db' w = None \<or> \<not> edge_released db' d)
     \<longleftrightarrow> (\<not> allowed_task db scope ?ws w \<or> category_of db w = None \<or> \<not> edge_released db d)" if "w = td_DependsOnTaskID d" for w d
    using alike_visible(2) [OF v, of w] alike_released [OF v, of d] that by (cases "allowed_task db scope ?ws w") simp_all
  then have unfinished: "count_unfinished db' scope ?ws u = count_unfinished db scope ?ws u"
    by (simp add: count_unfinished_def edges alike_tasks(2) [OF v])
  obtain t where t: "task_row db u = Some t" using True by (auto simp: allowed_task_def split: option.splits)
  then have "gt_id t = u" by (auto simp: task_row_def find_Some_iff)
  with same(2,4-6) t edges dependents unknown unfinished
  have "shown_node db' scope ?ws t p = shown_node db scope ?ws t p" "project_row db' (gt_project_id t) = project_row db (gt_project_id t)" for p
    by (simp_all add: shown_node_def)
  with t same(1) True show ?thesis
    by (simp add: graph_node_def alike_tasks(2) [OF v] hidden_node_def alike_tasks(4) [OF v] split: option.splits)
qed

text \<open>C3. An actor's view of the dependency graph shows nothing of hidden tasks: two states of the tables that differ only in
  what hidden tasks and projects contain, or in the edges among hidden tasks, give the same answer, refusals, cycle marks,
  counts and revision included.\<close>

theorem ReadGraph_hides:
  assumes "db_keys db" "looks_alike scope db db'"
  shows "ReadGraph order marshal sha_hex db' pid focus scope = ReadGraph order marshal sha_hex db pid focus scope"
proof (cases "read_guard db pid focus scope")
  case None
  note a = assms(2)
  have node: "graph_node db' scope (sc_WorkspaceID scope) = graph_node db scope (sc_WorkspaceID scope)"
    by (rule ext) (rule alike_node [OF a assms(1)])
  show ?thesis
    unfolding ReadGraph_def Let_def alike_guard [OF a] alike_topology [OF a] alike_dependencies [OF a assms(1) None]
      alike_ids [OF a assms(1) None] node ..
next
  case (Some e)
  then show ?thesis by (simp add: ReadGraph_def alike_guard [OF assms(2)])
qed


text \<open>A task of project 10 waits for a task of project 20, which the actor does not see and which differs between the two
  states.\<close>

definition graph_sample_task :: "uuid \<Rightarrow> uuid \<Rightarrow> string \<Rightarrow> graph_task" where
  "graph_sample_task u p title =
     \<lparr>gt_id = u, gt_project_id = p, gt_deleted_at = None, gt_title = title, gt_status_id = 30, gt_priority = ''high'',
      gt_assignee_id = Some 50, gt_assignee_type = ''agent'', gt_parent_task_id = None, gt_human_gate = False,
      gt_start_after = None, gt_is_shipped = False, gt_updated_at = 7\<rparr>"

definition graph_sample :: "string \<Rightarrow> graph_db" where
  "graph_sample title =
     \<lparr>db_tasks = [graph_sample_task 1 10 ''a'', graph_sample_task 2 20 title],
      db_projects = [\<lparr>gp_id = 10, gp_workspace_id = 9, gp_name = ''P'', gp_slug = ''p'', gp_deleted_at = None\<rparr>,
                     \<lparr>gp_id = 20, gp_workspace_id = 9, gp_name = ''Q'', gp_slug = ''q'', gp_deleted_at = None\<rparr>],
      db_statuses = [\<lparr>gs_id = 30, gs_name = ''To do'', gs_category = ''todo''\<rparr>],
      db_members = [\<lparr>gm_project_id = 10, gm_user_id = None, gm_agent_id = Some 40\<rparr>],
      db_agents = [(50, ''bot'')], db_users = [], db_edges = [blocks_edge 1 2], db_deployed = []\<rparr>"

definition graph_sample_scope :: GraphScope where
  "graph_sample_scope = \<lparr>sc_WorkspaceID = 9, sc_ActorID = 40, sc_Agent = True, sc_Admin = False\<rparr>"

lemma graph_sample_facts:
  "db_keys (graph_sample x)"
  "allowed_project (graph_sample x) graph_sample_scope 9 20 \<longleftrightarrow> False"
  "looks_alike graph_sample_scope (graph_sample x) (graph_sample y)"
proof -
  show "db_keys (graph_sample x)" by (simp add: db_keys_def graph_sample_def graph_sample_task_def)
  have member: "is_member (graph_sample z) graph_sample_scope p \<longleftrightarrow> p = 10" for z p
    by (auto simp: is_member_def graph_sample_def graph_sample_scope_def)
  show hidden: "allowed_project (graph_sample x) graph_sample_scope 9 20 \<longleftrightarrow> False"
    by (simp add: allowed_project_def project_row_def graph_sample_def graph_sample_scope_def sees_project_def)
       (simp add: is_member_def)
  have ws: "sc_WorkspaceID graph_sample_scope = 9" by (simp add: graph_sample_scope_def)
  have "\<not> visible_row (graph_sample x) graph_sample_scope (graph_sample_task 2 20 x)"
    by (simp add: visible_row_def ws hidden graph_sample_task_def)
  then have "task_alike (graph_sample x) graph_sample_scope (graph_sample_task 2 20 x) (graph_sample_task 2 20 y)"
    by (simp add: task_alike_def graph_sample_task_def)
  moreover have "task_alike (graph_sample x) graph_sample_scope t t" for t by (simp add: task_alike_def)
  moreover have "project_alike (graph_sample x) graph_sample_scope p p" for p by (simp add: project_alike_def)
  moreover have sel: "db_tasks (graph_sample z) = [graph_sample_task 1 10 ''a'', graph_sample_task 2 20 z]"
    "db_projects (graph_sample z) = db_projects (graph_sample x)" "db_edges (graph_sample z) = db_edges (graph_sample x)"
    "db_deployed (graph_sample z) = []" for z
    by (simp_all add: graph_sample_def)
  moreover have rows: "status_row (graph_sample z) u = status_row (graph_sample x) u"
    "assignee_name (graph_sample z) t = assignee_name (graph_sample x) t" for z u t
  proof -
    have sel: "db_agents (graph_sample v) = [(50, ''bot'')]" "db_users (graph_sample v) = []"
      "db_statuses (graph_sample v) = [\<lparr>gs_id = 30, gs_name = ''To do'', gs_category = ''todo''\<rparr>]" for v
      by (simp_all add: graph_sample_def)
    show "status_row (graph_sample z) u = status_row (graph_sample x) u"
      "assignee_name (graph_sample z) t = assignee_name (graph_sample x) t"
      unfolding status_row_def assignee_name_def sel by (rule refl)+
  qed
  ultimately show "looks_alike graph_sample_scope (graph_sample x) (graph_sample y)"
    unfolding looks_alike_def by (simp add: member sel [of y] sel(1) [of x] sel(4) [of x] rows [of y] list_all2_same)
qed

lemma graph_sample_reads:
  "ReadGraph rev (\<lambda>n. Some (gn_Title n)) id (graph_sample ''secret'') 10 0 graph_sample_scope \<noteq> Inl Marshal_failed"
  "read_guard (graph_sample ''secret'') 10 0 graph_sample_scope = None"
  by (code_simp)+

theorem ReadGraph_hides_witness:
  "ReadGraph rev (\<lambda>n. Some (gn_Title n)) id (graph_sample ''secret'') 10 0 graph_sample_scope
     = ReadGraph rev (\<lambda>n. Some (gn_Title n)) id (graph_sample ''other'') 10 0 graph_sample_scope
   \<and> read_guard (graph_sample ''secret'') 10 0 graph_sample_scope = None \<and> graph_sample ''secret'' \<noteq> graph_sample ''other''"
  using ReadGraph_hides [OF graph_sample_facts(1) graph_sample_facts(3) [of "''secret''" "''other''"], of rev "\<lambda>n. Some (gn_Title n)" id 10 0]
    graph_sample_reads
  by (simp add: graph_sample_def graph_sample_task_def)

end
