(* ===== verification/Dependency_Graph.thy ===== *)
theory Dependency_Graph
  imports Graph_Read "HOL-Library.Product_Lexorder"
begin

text \<open>
  The dependency graph view: \<open>internal/service/dependency_graph.go\<close> projects a snapshot onto pages (an overview of a project,
  the neighbourhood of one task, or everything for old clients), and the handler \<open>DependencyGraph\<close> parses the request around
  it. A panic is \<^const>\<open>None\<close>: Go slices panic on bounds that are negative or out of order, and page arithmetic wraps.
  The iteration order of Go's maps is the parameter \<open>order\<close>; \<open>strings.ToLower\<close> depends on Unicode's tables and is the
  parameter \<open>to_lower\<close>.
\<close>

section \<open>Options and responses\<close>

record GraphOptions =
  op_Legacy :: bool
  op_Focus :: uuid
  op_Page :: int
  op_PageSize :: int
  op_BeforePage :: int
  op_AfterPage :: int
  op_RelationsPage :: int
  op_Completed :: bool
  op_Search :: string
  op_Revision :: string

record GraphBranch =
  gb_IDs :: "uuid list"
  gb_Total :: int
  gb_Completed :: int
  gb_Unknown :: int
  gb_Page :: int
  gb_HasMore :: bool

record GraphResponse =
  re_Mode :: string
  re_Tasks :: "GraphNode list"
  re_Dependencies :: "TaskDependency list"
  re_Focus :: "uuid option"
  re_Before :: GraphBranch
  re_After :: GraphBranch
  re_Relations :: GraphBranch
  re_Total :: int
  re_ScopeTotal :: int
  re_Completed :: int
  re_Unknown :: int
  re_Page :: int
  re_PageSize :: int
  re_HasMore :: bool
  re_Complete :: bool
  re_VisibilityComplete :: bool
  re_Revision :: string
  re_CycleIDs :: "uuid list"
  re_CycleCount :: int

section \<open>Ordering and pages\<close>

text \<open>An unlisted priority has the zero rank of a missing map key.\<close>

definition priority_rank :: "string \<Rightarrow> nat" where
  "priority_rank p = go_get 0 [(''urgent'', 0), (''high'', 1), (''medium'', 2), (''low'', 3), (''none'', 4), ('''', 5)] p"

definition graphLess :: "GraphNode \<Rightarrow> GraphNode \<Rightarrow> bool" where
  "graphLess a b \<longleftrightarrow>
     (if priority_rank (gn_Priority a) \<noteq> priority_rank (gn_Priority b)
      then priority_rank (gn_Priority a) < priority_rank (gn_Priority b) else gn_ID a < gn_ID b)"

text \<open>\<open>sort.Slice\<close> with \<open>graphLess\<close>: nodes of a map have distinct identifiers, so the order is total.\<close>

definition graph_sort :: "GraphNode list \<Rightarrow> GraphNode list" where
  "graph_sort ns = sort_key (\<lambda>n. (priority_rank (gn_Priority n), gn_ID n)) ns"

definition go_slice :: "'a list \<Rightarrow> int \<Rightarrow> int \<Rightarrow> 'a list option" where
  "go_slice xs a b = (if 0 \<le> a \<and> a \<le> b \<and> b \<le> int (length xs) then Some (take (nat (b - a)) (drop (nat a) xs)) else None)"

text \<open>The page arithmetic of both views: the slice, and whether more follows.\<close>

definition page_window :: "int \<Rightarrow> int \<Rightarrow> 'a list \<Rightarrow> ('a list \<times> bool) option" where
  "page_window page limit eligible =
     (let n = int (length eligible);
          start0 = wrap64 (wrap64 (page - 1) * limit);
          start = (if start0 > n then n else start0);
          end0 = wrap64 (start + limit);
          end' = (if end0 > n then n else end0)
      in map_option (\<lambda>xs. (xs, end' < n)) (go_slice eligible start end'))"

definition graphBranch :: "GraphNode list \<Rightarrow> int \<Rightarrow> bool \<Rightarrow> (GraphBranch \<times> GraphNode list) option" where
  "graphBranch ns page completed =
     (let nodes = graph_sort ns;
          eligible = filter (\<lambda>n. completed \<or> \<not> Terminal n) nodes;
          page1 = (if page < 1 then 1 else page)
      in map_option (\<lambda>(xs, more).
           (\<lparr>gb_IDs = map gn_ID xs, gb_Total = int (length nodes),
             gb_Completed = int (length (filter Terminal nodes)),
             gb_Unknown = int (length (filter (\<lambda>n. gn_Availability n \<noteq> ''available'') nodes)),
             gb_Page = page1, gb_HasMore = more\<rparr>, xs))
         (page_window page1 10 eligible))"

section \<open>ProjectGraph\<close>

definition empty_branch :: GraphBranch where
  "empty_branch = \<lparr>gb_IDs = [], gb_Total = 0, gb_Completed = 0, gb_Unknown = 0, gb_Page = 0, gb_HasMore = False\<rparr>"

definition start_response :: "GraphSnapshot \<Rightarrow> GraphOptions \<Rightarrow> GraphResponse" where
  "start_response snap opts =
     \<lparr>re_Mode = '''', re_Tasks = [], re_Dependencies = [], re_Focus = None, re_Before = empty_branch, re_After = empty_branch,
      re_Relations = empty_branch, re_Total = 0, re_ScopeTotal = 0, re_Completed = 0, re_Unknown = 0, re_Page = op_Page opts,
      re_PageSize = op_PageSize opts, re_HasMore = False, re_Complete = False, re_VisibilityComplete = True,
      re_Revision = sn_Revision snap, re_CycleIDs = [], re_CycleCount = 0\<rparr>"

definition zero_node :: GraphNode where
  "zero_node =
     \<lparr>gn_ID = uuid_Nil, gn_ProjectID = None, gn_ProjectName = '''', gn_ProjectSlug = '''', gn_Title = '''', gn_StatusID = None,
      gn_StatusName = '''', gn_Category = '''', gn_Priority = '''', gn_AssigneeName = '''', gn_ParentTaskID = None,
      gn_HumanGate = False, gn_StartAfter = None, gn_Availability = '''', gn_Blockers = 0, gn_UnfinishedBlockers = 0,
      gn_UnknownBlockers = 0, gn_Dependents = 0, gn_Cycle = False, gn_UpdatedAt = 0\<rparr>"

text \<open>The map of nodes, with their cycle marks.\<close>

definition available :: "GraphNode \<Rightarrow> bool" where
  "available n \<longleftrightarrow> gn_Availability n = ''available''"

definition node_map :: "(uuid \<Rightarrow> uuid list) \<Rightarrow> GraphNode list \<Rightarrow> (uuid, GraphNode) gomap" where
  "node_map components ns = fold (\<lambda>n m. AList.update (gn_ID n) (mark_cycle (available n) components n) m) ns []"

definition node_at :: "(uuid, GraphNode) gomap \<Rightarrow> uuid \<Rightarrow> GraphNode" where
  "node_at nodes u = go_get zero_node nodes u"

definition in_project :: "uuid \<Rightarrow> GraphNode \<Rightarrow> bool" where
  "in_project pid n \<longleftrightarrow> gn_ProjectID n = Some pid"

definition legacy_graph :: "GraphSnapshot \<Rightarrow> uuid \<Rightarrow> (uuid, GraphNode) gomap \<Rightarrow> GraphResponse \<Rightarrow> GraphResponse" where
  "legacy_graph snap pid nodes r =
     (let tasks = map (\<lambda>n. node_at nodes (gn_ID n)) (sn_Nodes snap);
          unknown = int (length (filter (\<lambda>n. \<not> available n) (sn_Nodes snap)));
          scope = filter (in_project pid) (sn_Nodes snap)
      in r\<lparr>re_Mode := ''legacy'', re_Tasks := tasks, re_Unknown := unknown, re_ScopeTotal := int (length scope),
           re_Completed := int (length (filter Terminal scope)), re_Dependencies := sn_Dependencies snap,
           re_Total := int (length tasks), re_PageSize := int (length tasks), re_VisibilityComplete := unknown = 0,
           re_Complete := unknown = 0\<rparr>)"

definition Contains :: "string \<Rightarrow> string \<Rightarrow> bool" where
  "Contains s p \<longleftrightarrow> list_ex (\<lambda>i. HasPrefix (drop i s) p) [0..<Suc (length s)]"

definition found :: "(string \<Rightarrow> string) \<Rightarrow> string \<Rightarrow> GraphNode \<Rightarrow> bool" where
  "found to_lower search n \<longleftrightarrow> search = '''' \<or> Contains (to_lower (gn_Title n)) search \<or> Contains (uuid_String (gn_ID n)) search"

definition scope_unknown :: "(uuid, GraphNode) gomap \<Rightarrow> TaskDependency list \<Rightarrow> uuid list \<Rightarrow> uuid list" where
  "scope_unknown nodes deps ids =
     remdups (concat (map (\<lambda>d.
         (if td_TaskID d \<in> set ids \<and> \<not> available (node_at nodes (td_DependsOnTaskID d)) then [td_DependsOnTaskID d] else [])
       @ (if td_DependsOnTaskID d \<in> set ids \<and> \<not> available (node_at nodes (td_TaskID d)) then [td_TaskID d] else [])) deps)
     @ filter (\<lambda>p. \<not> available (node_at nodes p)) (List.map_filter (\<lambda>u. gn_ParentTaskID (node_at nodes u)) ids))"

definition overview_graph ::
  "(uuid list \<Rightarrow> uuid list) \<Rightarrow> (string \<Rightarrow> string) \<Rightarrow> GraphSnapshot \<Rightarrow> uuid \<Rightarrow> GraphOptions \<Rightarrow> (uuid, GraphNode) gomap
    \<Rightarrow> GraphResponse \<Rightarrow> GraphResponse option" where
  "overview_graph order to_lower snap pid opts nodes r =
     (let search = to_lower (TrimSpace (op_Search opts));
          scope = filter (\<lambda>n. in_project pid n \<and> found to_lower search n) (map (node_at nodes) (order (go_keys nodes)));
          eligible = graph_sort (filter (\<lambda>n. op_Completed opts \<or> \<not> Terminal n) scope);
          unknown = scope_unknown nodes (sn_Dependencies snap) (map gn_ID scope);
          visibility = (list_all (\<lambda>n. \<not> gn_UnknownBlockers n > 0) scope \<and> unknown = [])
      in map_option (\<lambda>(tasks, more).
           r\<lparr>re_Mode := ''overview'', re_ScopeTotal := int (length scope), re_Completed := int (length (filter Terminal scope)),
             re_Unknown := int (length unknown), re_VisibilityComplete := visibility, re_Total := int (length eligible),
             re_Tasks := tasks, re_HasMore := more, re_Complete := \<not> more \<and> visibility\<rparr>)
         (page_window (op_Page opts) (op_PageSize opts) eligible))"


text \<open>A node the snapshot does not hold keeps its identifier.\<close>

definition missing_node :: "uuid \<Rightarrow> GraphNode" where
  "missing_node u = zero_node\<lparr>gn_ID := u, gn_Availability := ''missing''\<rparr>"

definition focus_node :: "(uuid, GraphNode) gomap \<Rightarrow> uuid \<Rightarrow> GraphNode" where
  "focus_node nodes u = (if has_key nodes u then node_at nodes u else missing_node u)"

text \<open>The maps \<open>before\<close>, \<open>after\<close> and \<open>relations\<close> hold \<^const>\<open>focus_node\<close> at each key, so they are their keys.\<close>

definition before_ids :: "TaskDependency list \<Rightarrow> uuid \<Rightarrow> uuid list" where
  "before_ids deps focus =
     remdups (map td_DependsOnTaskID (filter (\<lambda>d. td_DependencyType d = Blocks \<and> td_TaskID d = focus) deps))"

definition after_ids :: "TaskDependency list \<Rightarrow> uuid \<Rightarrow> uuid list" where
  "after_ids deps focus =
     remdups (map td_TaskID (filter (\<lambda>d. td_DependencyType d = Blocks \<and> td_DependsOnTaskID d = focus) deps))"

definition relation_ids :: "(uuid, GraphNode) gomap \<Rightarrow> TaskDependency list \<Rightarrow> uuid \<Rightarrow> uuid option \<Rightarrow> uuid list" where
  "relation_ids nodes deps focus parent =
     remdups (map td_DependsOnTaskID (filter (\<lambda>d. td_DependencyType d \<noteq> Blocks \<and> td_TaskID d = focus) deps)
       @ map td_TaskID (filter (\<lambda>d. td_DependencyType d \<noteq> Blocks \<and> td_DependsOnTaskID d = focus) deps)
       @ (case parent of None \<Rightarrow> [] | Some p \<Rightarrow> [p])
       @ filter (\<lambda>u. gn_ParentTaskID (node_at nodes u) = Some focus) (go_keys nodes))"

definition include_new :: "GraphNode list \<Rightarrow> GraphNode list \<Rightarrow> GraphNode list" where
  "include_new shown ns = foldl (\<lambda>ts n. if gn_ID n \<in> gn_ID ` set ts then ts else ts @ [n]) shown ns"

text \<open>Relations are opt-in: without a page of them the branch is counted and not listed.\<close>

definition hide_relations :: "GraphOptions \<Rightarrow> GraphBranch \<Rightarrow> GraphBranch" where
  "hide_relations opts b = (if op_RelationsPage opts < 1 then b\<lparr>gb_IDs := [], gb_HasMore := gb_Total b > 0\<rparr> else b)"

definition focus_response ::
  "GraphSnapshot \<Rightarrow> (uuid \<Rightarrow> uuid list) \<Rightarrow> GraphOptions \<Rightarrow> (uuid, GraphNode) gomap \<Rightarrow> uuid list
    \<Rightarrow> GraphBranch \<Rightarrow> GraphBranch \<Rightarrow> GraphBranch \<Rightarrow> GraphNode list \<Rightarrow> GraphResponse \<Rightarrow> GraphResponse" where
  "focus_response snap components opts nodes everyone before after relations tasks r =
     (let focus = op_Focus opts;
          included = (\<lambda>u. u \<in> gn_ID ` set tasks);
          unknown = int (length (filter (\<lambda>u. \<not> available (focus_node nodes u)) everyone));
          more = gb_HasMore before \<or> gb_HasMore after \<or> gb_HasMore relations
      in r\<lparr>re_Focus := Some focus, re_Mode := ''focus'', re_Tasks := tasks, re_Before := before, re_After := after,
           re_Relations := relations,
           re_Dependencies := filter (\<lambda>d. (td_TaskID d = focus \<or> td_DependsOnTaskID d = focus)
                                        \<and> included (td_TaskID d) \<and> included (td_DependsOnTaskID d)) (sn_Dependencies snap),
           re_Total := int (length everyone), re_ScopeTotal := int (length everyone),
           re_Completed := int (length (filter (\<lambda>u. Terminal (focus_node nodes u)) everyone)), re_Unknown := unknown,
           re_VisibilityComplete := unknown = 0, re_HasMore := more,
           re_Complete := \<not> more \<and> unknown = 0 \<and> (op_Completed opts \<or> gb_Completed before + gb_Completed after = 0),
           re_CycleCount := int (length (components focus)),
           re_CycleIDs := filter (\<lambda>u. included u \<and> available (node_at nodes u)) (components focus)\<rparr>)"

definition focus_graph ::
  "(uuid list \<Rightarrow> uuid list) \<Rightarrow> GraphSnapshot \<Rightarrow> (uuid \<Rightarrow> uuid list) \<Rightarrow> GraphOptions \<Rightarrow> (uuid, GraphNode) gomap
    \<Rightarrow> GraphResponse \<Rightarrow> (Error + GraphResponse) option" where
  "focus_graph order snap components opts nodes r =
     (let focus = op_Focus opts; deps = sn_Dependencies snap; center = node_at nodes focus in
      if \<not> has_key nodes focus \<or> \<not> available center then Some (Inl (NotFound ''Task''))
      else let before = before_ids deps focus;
               after = after_ids deps focus;
               relations = relation_ids nodes deps focus (gn_ParentTaskID center);
               values = (\<lambda>us. map (focus_node nodes) (order us))
           in case graphBranch (values before) (op_BeforePage opts) (op_Completed opts) of None \<Rightarrow> None
              | Some (bb, bn) \<Rightarrow>
             (case graphBranch (values after) (op_AfterPage opts) (op_Completed opts) of None \<Rightarrow> None
              | Some (ab, an) \<Rightarrow>
             (case graphBranch (values relations) (op_RelationsPage opts) True of None \<Rightarrow> None
              | Some (rb, rn) \<Rightarrow>
                 Some (Inr (focus_response snap components opts nodes (remdups (gn_ID center # before @ after @ relations))
                   bb ab (hide_relations opts rb)
                   (include_new [center] (bn @ an @ (if op_RelationsPage opts < 1 then [] else rn))) r)))))"

definition default_pages :: "GraphOptions \<Rightarrow> GraphOptions" where
  "default_pages opts = opts\<lparr>op_Page := (if op_Page opts < 1 then 1 else op_Page opts),
                            op_PageSize := (if op_PageSize opts < 1 then 50 else op_PageSize opts)\<rparr>"

definition ProjectGraph ::
  "(uuid list \<Rightarrow> uuid list) \<Rightarrow> (string \<Rightarrow> string) \<Rightarrow> GraphSnapshot \<Rightarrow> uuid \<Rightarrow> GraphOptions \<Rightarrow> (Error + GraphResponse) option" where
  "ProjectGraph order to_lower snap pid opts0 =
     (let opts = default_pages opts0 in
      if op_Revision opts \<noteq> '''' \<and> op_Revision opts \<noteq> sn_Revision snap
      then Some (Inl (Conflict ''dependency graph changed; restart pagination''))
      else if op_PageSize opts > 200 then Some (Inl (BadRequest ''page_size must be between 1 and 200''))
      else let components = component_of order (sn_Topology snap);
               nodes = node_map components (sn_Nodes snap);
               r = start_response snap opts
           in if op_Legacy opts then Some (Inr (legacy_graph snap pid nodes r))
              else if op_Focus opts = uuid_Nil then map_option Inr (overview_graph order to_lower snap pid opts nodes r)
              else focus_graph order snap components opts nodes r)"


section \<open>The handler\<close>

text \<open>What the handler reads of the request and of the middleware's context; a query holds the first value of each name.
  \<open>uuid.Parse\<close> is the parameter \<open>parse_uuid\<close>, and \<open>names\<close> is the order in which the map of page parameters is walked.\<close>

record graph_request =
  rq_proj_id :: string
  rq_query :: "(string, string) gomap"
  rq_WorkspaceID :: "uuid option"
  rq_agent :: bool
  rq_AgentID :: "uuid option"
  rq_UserID :: "uuid option"
  rq_role :: string

definition Atoi :: "string \<Rightarrow> int option" where
  "Atoi s =
     (let (neg, digits) = (case s of [] \<Rightarrow> (False, []) | c # cs \<Rightarrow> if c = CHR ''-'' then (True, cs)
                                                            else if c = CHR ''+'' then (False, cs) else (False, s));
          k = (if neg then - int (digits_value digits) else int (digits_value digits))
      in if digits = [] \<or> \<not> list_all is_digit digits \<or> k < - (2 ^ 63) \<or> k \<ge> 2 ^ 63 then None else Some k)"

definition page_names :: "string list" where
  "page_names = [''page'', ''page_size'', ''before_page'', ''after_page'', ''relations_page'']"

definition set_page :: "string \<Rightarrow> int \<Rightarrow> GraphOptions \<Rightarrow> GraphOptions" where
  "set_page name k opts =
     (if name = ''page'' then opts\<lparr>op_Page := k\<rparr>
      else if name = ''page_size'' then opts\<lparr>op_PageSize := k\<rparr>
      else if name = ''before_page'' then opts\<lparr>op_BeforePage := k\<rparr>
      else if name = ''after_page'' then opts\<lparr>op_AfterPage := k\<rparr>
      else if name = ''relations_page'' then opts\<lparr>op_RelationsPage := k\<rparr> else opts)"

fun parse_pages :: "(string, string) gomap \<Rightarrow> string list \<Rightarrow> GraphOptions \<Rightarrow> Error + GraphOptions" where
  "parse_pages q [] opts = Inr opts"
| "parse_pages q (name # names) opts =
     (let raw = go_get '''' q name in
      if raw = '''' then parse_pages q names opts
      else case Atoi raw of None \<Rightarrow> Inl (BadRequest (''invalid '' @ name))
           | Some k \<Rightarrow> if k < 1 \<or> k > 1000000 then Inl (BadRequest (''invalid '' @ name))
                       else parse_pages q names (set_page name k opts))"

definition zero_options :: GraphOptions where
  "zero_options = \<lparr>op_Legacy = False, op_Focus = uuid_Nil, op_Page = 0, op_PageSize = 0, op_BeforePage = 0, op_AfterPage = 0,
     op_RelationsPage = 0, op_Completed = False, op_Search = '''', op_Revision = ''''\<rparr>"

definition parse_options :: "(string \<Rightarrow> uuid option) \<Rightarrow> (string list \<Rightarrow> string list) \<Rightarrow> (string, string) gomap \<Rightarrow> Error + GraphOptions" where
  "parse_options parse_uuid names q =
     (let mode = go_get '''' q ''mode''; focus = go_get '''' q ''focus''; completed = go_get '''' q ''completed'';
          opts0 = zero_options\<lparr>op_Legacy := q = []\<rparr>
      in if mode \<noteq> '''' \<and> mode \<noteq> ''overview'' then Inl (BadRequest ''invalid mode'')
         else bind_res (if focus = '''' then Inr opts0
                        else case parse_uuid focus of None \<Rightarrow> Inl (BadRequest ''invalid focus'') | Some u \<Rightarrow> Inr (opts0\<lparr>op_Focus := u\<rparr>))
              (\<lambda>opts1. bind_res (parse_pages q (names page_names) opts1)
                (\<lambda>opts2. if completed \<noteq> '''' \<and> completed \<noteq> ''true'' \<and> completed \<noteq> ''false'' then Inl (BadRequest ''invalid completed'')
                         else Inr (opts2\<lparr>op_Completed := completed = ''true'', op_Search := go_get '''' q ''search'',
                                         op_Revision := go_get '''' q ''revision''\<rparr>))))"

definition request_scope :: "graph_request \<Rightarrow> Error + GraphScope" where
  "request_scope rq =
     (case rq_WorkspaceID rq of None \<Rightarrow> Inl (Forbidden ''workspace context required'')
      | Some ws \<Rightarrow> (case if rq_agent rq then rq_AgentID rq else rq_UserID rq of None \<Rightarrow> Inl (Forbidden ''actor context required'')
         | Some a \<Rightarrow> Inr \<lparr>sc_WorkspaceID = ws, sc_ActorID = a, sc_Agent = rq_agent rq,
                          sc_Admin = (\<not> rq_agent rq \<and> (rq_role rq = ''admin'' \<or> rq_role rq = ''owner''))\<rparr>))"

datatype graph_answer = Answered GraphResponse | Failed read_error | Panicked

text \<open>\<open>reader\<close> is \<^const>\<open>None\<close> when no graph reader was wired.\<close>

definition DependencyGraph ::
  "(uuid list \<Rightarrow> uuid list) \<Rightarrow> (string list \<Rightarrow> string list) \<Rightarrow> (string \<Rightarrow> string) \<Rightarrow> (string \<Rightarrow> uuid option)
    \<Rightarrow> (uuid \<Rightarrow> uuid \<Rightarrow> GraphScope \<Rightarrow> read_error + GraphSnapshot) option \<Rightarrow> graph_request \<Rightarrow> graph_answer" where
  "DependencyGraph order names to_lower parse_uuid reader rq =
     (case parse_uuid (rq_proj_id rq) of None \<Rightarrow> Failed (Refuse (BadRequest ''invalid proj_id''))
      | Some pid \<Rightarrow>
     (case reader of None \<Rightarrow> Failed (Refuse (InternalError ''dependency graph reader unavailable''))
      | Some read \<Rightarrow>
     (case bind_res (parse_options parse_uuid names (rq_query rq)) (\<lambda>opts. map_sum id (Pair opts) (request_scope rq)) of
        Inl e \<Rightarrow> Failed (Refuse e)
      | Inr (opts, scope) \<Rightarrow>
     (case read pid (op_Focus opts) scope of Inl e \<Rightarrow> Failed e
      | Inr snap \<Rightarrow>
     (case ProjectGraph order to_lower snap pid opts of None \<Rightarrow> Panicked
      | Some (Inl e) \<Rightarrow> Failed (Refuse e)
      | Some (Inr r) \<Rightarrow> Answered r)))))"


section \<open>Pages\<close>

lemma page_window_exact:
  assumes p: "1 \<le> p" "p \<le> 1000000" and l: "1 \<le> limit" "limit \<le> 200"
  shows "page_window p limit xs =
    Some (take (nat limit) (drop (nat ((p - 1) * limit)) xs), p * limit < int (length xs))"
proof -
  define s where "s = (p - 1) * limit"
  have "(p - 1) * limit \<le> 999999 * 200" by (rule mult_mono) (use p l in auto)
  then have s: "0 \<le> s" "s \<le> 999999 * 200" "p * limit = s + limit" using p l by (simp_all add: s_def algebra_simps)
  have w: "wrap64 (p - 1) = p - 1" "wrap64 s = s" using p s by (simp_all add: wrap64_id)
  let ?n = "int (length xs)" and ?start = "if s > int (length xs) then int (length xs) else s"
  have st: "0 \<le> ?start" "?start \<le> 999999 * 200" "?start \<le> ?n" using s by auto
  have "- (2 ^ 63) \<le> k + limit \<and> k + limit < 2 ^ 63" if "0 \<le> k" "k \<le> 999999 * 200" for k using that l by simp
  from this [OF st(1,2)] have w2: "wrap64 (?start + limit) = ?start + limit" by (intro wrap64_id) blast+
  have more: "(if ?start + limit > ?n then ?n else ?start + limit) < ?n \<longleftrightarrow> p * limit < ?n" using s l by auto
  have slice: "go_slice xs ?start (if ?start + limit > ?n then ?n else ?start + limit) = Some (take (nat limit) (drop (nat s) xs))"
  proof (cases "s > ?n")
    case True
    then show ?thesis using l s by (simp add: go_slice_def)
  next
    case False
    then show ?thesis using l s by (auto simp: go_slice_def nat_diff_distrib intro!: arg_cong [where f = "\<lambda>k. take k _"] take_all)
  qed
  show ?thesis unfolding page_window_def Let_def w(1) s_def [symmetric] w(2) w2 slice more by simp
qed

lemma window_pages:
  assumes l: "1 \<le> limit" "limit \<le> 200"
  shows "k \<le> 1000000 \<Longrightarrow>
    concat (map (\<lambda>i. fst (the (page_window (int i) limit xs))) [1..<Suc k]) = take (k * nat limit) xs"
proof (induction k)
  case (Suc k)
  have "int (Suc k) \<le> 1000000" using Suc.prems by simp
  then have "fst (the (page_window (int (Suc k)) limit xs)) = take (nat limit) (drop (k * nat limit) xs)"
    using page_window_exact [of "int (Suc k)" limit xs] l by (simp add: nat_mult_distrib)
  moreover have "[1..<Suc (Suc k)] = [1..<Suc k] @ [Suc k]" by simp
  moreover have "Suc k * nat limit = k * nat limit + nat limit" by simp
  moreover have "k \<le> 1000000" using Suc.prems by simp
  ultimately show ?case using Suc.IH by (simp only: map_append concat_append take_add list.map concat.simps append_Nil2)
qed simp

lemma graph_sort_set [simp]: "set (graph_sort ns) = set ns" "length (graph_sort ns) = length ns"
  by (simp_all add: graph_sort_def)

lemma graph_sort_distinct: "distinct (map gn_ID ns) \<Longrightarrow> distinct (map gn_ID (graph_sort ns))"
  by (simp add: distinct_map graph_sort_def)

lemma graph_sort_sorted:
  assumes "distinct (map gn_ID ns)"
  shows "sorted_wrt graphLess (graph_sort ns)"
proof (unfold sorted_wrt_iff_nth_less, intro allI impI)
  fix i j assume ij: "i < j" "j < length (graph_sort ns)"
  let ?key = "\<lambda>n. (priority_rank (gn_Priority n), gn_ID n)"
  have "sorted (map ?key (graph_sort ns))" by (simp add: graph_sort_def)
  then have "?key (graph_sort ns ! i) \<le> ?key (graph_sort ns ! j)" using ij sorted_nth_mono [of "map ?key (graph_sort ns)" i j] by simp
  moreover have "gn_ID (graph_sort ns ! i) \<noteq> gn_ID (graph_sort ns ! j)"
    using graph_sort_distinct [OF assms] ij nth_eq_iff_index_eq [of "map gn_ID (graph_sort ns)" i j] by simp
  ultimately show "graphLess (graph_sort ns ! i) (graph_sort ns ! j)" by (auto simp: graphLess_def less_eq_prod_def)
qed

section \<open>The node map\<close>

lemma mark_cycle_selectors [simp]:
  "gn_ID (mark_cycle b c n) = gn_ID n" "available (mark_cycle b c n) = available n" "Terminal (mark_cycle b c n) = Terminal n"
  "gn_ParentTaskID (mark_cycle b c n) = gn_ParentTaskID n" "gn_Category (mark_cycle b c n) = gn_Category n"
  "in_project pid (mark_cycle b c n) = in_project pid n" "found l s (mark_cycle b c n) = found l s n"
  "gn_UnknownBlockers (mark_cycle b c n) = gn_UnknownBlockers n"
  by (simp_all add: mark_cycle_def available_def Terminal_def in_project_def found_def)

definition marked :: "(uuid \<Rightarrow> uuid list) \<Rightarrow> GraphNode \<Rightarrow> GraphNode" where
  "marked c n = mark_cycle (available n) c n"

lemma marked_selectors [simp]:
  "gn_ID (marked c n) = gn_ID n" "available (marked c n) = available n" "Terminal (marked c n) = Terminal n"
  "gn_ParentTaskID (marked c n) = gn_ParentTaskID n" "in_project pid (marked c n) = in_project pid n"
  "found l s (marked c n) = found l s n"
  by (simp_all add: marked_def)

lemma node_map_snoc: "node_map c (ns @ [n]) = AList.update (gn_ID n) (marked c n) (node_map c ns)"
  by (simp add: node_map_def marked_def)

lemma node_map_ok: "gomap_ok (node_map c ns)"
  by (induction ns rule: rev_induct) (simp add: node_map_def, simp add: node_map_snoc)

lemma node_map_keys: "set (go_keys (node_map c ns)) = gn_ID ` set ns"
proof (induction ns rule: rev_induct)
  case Nil
  then show ?case by (simp add: node_map_def go_keys_def)
next
  case (snoc n ns)
  then show ?case by (simp add: node_map_snoc go_keys_def dom_update)
qed

lemma node_map_has: "has_key (node_map c ns) u \<longleftrightarrow> u \<in> gn_ID ` set ns"
  by (simp add: has_key_iff node_map_keys)

lemma node_at_node:
  "distinct (map gn_ID ns) \<Longrightarrow> n \<in> set ns \<Longrightarrow> node_at (node_map c ns) (gn_ID n) = marked c n"
proof (induction ns rule: rev_induct)
  case (snoc m ns)
  show ?case
  proof (cases "n = m")
    case True
    then show ?thesis by (simp add: node_map_snoc node_at_def go_get_def update_conv)
  next
    case False
    with snoc.prems have n: "n \<in> set ns" "distinct (map gn_ID ns)" by auto
    moreover have "gn_ID n \<noteq> gn_ID m" using snoc.prems(1) imageI [OF n(1), of gn_ID] by auto
    ultimately have "n \<in> set ns" "gn_ID n \<noteq> gn_ID m" "distinct (map gn_ID ns)" by blast+
    with snoc.IH show ?thesis by (simp add: node_map_snoc node_at_def go_get_def update_conv)
  qed
qed simp

lemma node_values:
  fixes c :: "uuid \<Rightarrow> uuid list"
  assumes "map_order order" "distinct (map gn_ID ns)"
  defines "vals \<equiv> map (node_at (node_map c ns)) (order (go_keys (node_map c ns)))"
  shows "set vals = marked c ` set ns" "distinct (map gn_ID vals)"
proof -
  let ?ks = "order (go_keys (node_map c ns))"
  have "distinct (go_keys (node_map c ns))" using node_map_ok [of c ns] by (simp add: gomap_ok_def go_keys_def)
  from map_orderD [OF assms(1) this] have k: "distinct ?ks" "set ?ks = gn_ID ` set ns" by (simp_all add: node_map_keys)
  show "set vals = marked c ` set ns" using k(2) node_at_node [OF assms(2)] by (auto simp: vals_def image_image)
  have "map gn_ID vals = ?ks" unfolding vals_def map_map
    by (rule map_idI) (use k(2) node_at_node [OF assms(2)] in auto)
  with k(1) show "distinct (map gn_ID vals)" by simp
qed


section \<open>Snapshots\<close>

text \<open>What \<open>ReadGraph\<close> gives \<open>ProjectGraph\<close>: one node per identifier, and both ends of every edge among the nodes.\<close>

lemma graph_node_ID [simp]: "gn_ID (graph_node db scope ws u) = u"
proof (cases "task_row db u")
  case (Some t)
  then have "gt_id t = u" by (auto simp: task_row_def find_Some_iff)
  then show ?thesis by (simp add: graph_node_def Some hidden_node_def shown_node_def split: option.split)
qed (simp add: graph_node_def hidden_node_def)

lemma ReadGraph_fields:
  assumes "ReadGraph order marshal sha_hex db pid focus scope = Inr snap"
  shows "read_guard db pid focus scope = None"
    and "sn_Nodes snap = map (graph_node db scope (sc_WorkspaceID scope)) (graph_ids db (sc_WorkspaceID scope) pid focus)"
    and "sn_Dependencies snap = graph_dependencies db scope (sc_WorkspaceID scope) pid focus"
    and "sn_Topology snap = graph_topology db scope (sc_WorkspaceID scope)"
  using assms by (auto simp: ReadGraph_def Let_def split: option.splits)

lemma ReadGraph_distinct:
  assumes "ReadGraph order marshal sha_hex db pid focus scope = Inr snap"
  shows "distinct (map gn_ID (sn_Nodes snap))"
proof -
  have "map gn_ID (sn_Nodes snap) = graph_ids db (sc_WorkspaceID scope) pid focus"
    unfolding ReadGraph_fields(2) [OF assms] map_map by (rule map_idI) simp
  then show ?thesis by (simp add: graph_ids_def)
qed

section \<open>The overview\<close>

text \<open>What an overview lists of a snapshot.\<close>

definition overview_nodes ::
  "(uuid list \<Rightarrow> uuid list) \<Rightarrow> (string \<Rightarrow> string) \<Rightarrow> GraphSnapshot \<Rightarrow> uuid \<Rightarrow> GraphOptions \<Rightarrow> GraphNode set" where
  "overview_nodes order to_lower snap pid opts =
     marked (component_of order (sn_Topology snap))
       ` {n \<in> set (sn_Nodes snap). in_project pid n \<and> found to_lower (to_lower (TrimSpace (op_Search opts))) n
            \<and> (op_Completed opts \<or> \<not> Terminal n)}"

definition shown_tasks :: "(Error + GraphResponse) option \<Rightarrow> GraphNode list" where
  "shown_tasks a = (case a of Some (Inr r) \<Rightarrow> re_Tasks r | _ \<Rightarrow> [])"

definition overview_options :: "GraphSnapshot \<Rightarrow> GraphOptions \<Rightarrow> bool" where
  "overview_options snap opts \<longleftrightarrow> \<not> op_Legacy opts \<and> op_Focus opts = uuid_Nil
     \<and> (op_Revision opts = '''' \<or> op_Revision opts = sn_Revision snap) \<and> 1 \<le> op_PageSize opts \<and> op_PageSize opts \<le> 200"

lemma overview_list:
  assumes order: "map_order order" and dist: "distinct (map gn_ID (sn_Nodes snap))" and opts: "overview_options snap opts"
  shows "\<exists>full. sorted_wrt graphLess full \<and> distinct (map gn_ID full) \<and> set full = overview_nodes order to_lower snap pid opts
    \<and> (\<forall>p\<in>{1..1000000}. \<exists>r. ProjectGraph order to_lower snap pid (opts\<lparr>op_Page := p\<rparr>) = Some (Inr r)
         \<and> re_Tasks r = fst (the (page_window p (op_PageSize opts) full))
         \<and> (re_HasMore r \<longleftrightarrow> p * op_PageSize opts < int (length full)) \<and> re_Total r = int (length full))"
proof -
  define c where "c = component_of order (sn_Topology snap)"
  define search where "search = to_lower (TrimSpace (op_Search opts))"
  define scope where "scope = filter (\<lambda>n. in_project pid n \<and> found to_lower search n)
    (map (node_at (node_map c (sn_Nodes snap))) (order (go_keys (node_map c (sn_Nodes snap)))))"
  define full where "full = graph_sort (filter (\<lambda>n. op_Completed opts \<or> \<not> Terminal n) scope)"
  note vals = node_values [OF order dist, of c]
  have d: "distinct (map gn_ID (filter (\<lambda>n. op_Completed opts \<or> \<not> Terminal n) scope))"
    unfolding scope_def by (intro distinct_map_filter vals(2))
  have s: "set full = overview_nodes order to_lower snap pid opts"
    unfolding full_def overview_nodes_def graph_sort_set scope_def set_filter vals(1) c_def [symmetric] search_def by auto
  have "\<exists>r. ProjectGraph order to_lower snap pid (opts\<lparr>op_Page := p\<rparr>) = Some (Inr r)
         \<and> re_Tasks r = fst (the (page_window p (op_PageSize opts) full))
         \<and> (re_HasMore r \<longleftrightarrow> p * op_PageSize opts < int (length full)) \<and> re_Total r = int (length full)"
    if p: "p \<in> {1..1000000}" for p
  proof -
    have w: "page_window p (op_PageSize opts) full =
        Some (take (nat (op_PageSize opts)) (drop (nat ((p - 1) * op_PageSize opts)) full), p * op_PageSize opts < int (length full))"
      using page_window_exact [of p "op_PageSize opts" full] p opts by (simp add: overview_options_def)
    have dflt: "default_pages (opts\<lparr>op_Page := p\<rparr>) = opts\<lparr>op_Page := p\<rparr>"
      using p opts by (simp add: default_pages_def overview_options_def)
    have g: "ProjectGraph order to_lower snap pid (opts\<lparr>op_Page := p\<rparr>)
        = map_option Inr (overview_graph order to_lower snap pid (opts\<lparr>op_Page := p\<rparr>) (node_map c (sn_Nodes snap)) (start_response snap (opts\<lparr>op_Page := p\<rparr>)))"
      using opts by (auto simp: ProjectGraph_def dflt overview_options_def Let_def c_def)
    show ?thesis unfolding g overview_graph_def Let_def
      by (simp add: search_def [symmetric] scope_def [symmetric] full_def [symmetric] w)
  qed
  then show ?thesis using graph_sort_sorted [OF d] graph_sort_distinct [OF d] s by (intro exI [of _ full]) (simp add: full_def [symmetric])
qed

text \<open>C23. The pages of an overview are exactly the project: whatever order the maps are walked in, the pages 1 to k of one
  revision list, one after the other and without gap or repetition, the first k pages' worth of the matching unfinished
  (or all) tasks of the project in \<open>graphLess\<close> order; \<open>has_more\<close> says whether tasks are left, and no page panics.\<close>

theorem overview_pages:
  assumes "ReadGraph order0 marshal sha_hex db pid uuid_Nil scope = Inr snap" "map_order order" "overview_options snap opts"
  shows "\<exists>full. sorted_wrt graphLess full \<and> distinct (map gn_ID full) \<and> set full = overview_nodes order to_lower snap pid opts
    \<and> (\<forall>k\<le>1000000. concat (map (\<lambda>i. shown_tasks (ProjectGraph order to_lower snap pid (opts\<lparr>op_Page := int i\<rparr>))) [1..<Suc k])
         = take (k * nat (op_PageSize opts)) full)
    \<and> (\<forall>p\<in>{1..1000000}. \<exists>r. ProjectGraph order to_lower snap pid (opts\<lparr>op_Page := p\<rparr>) = Some (Inr r)
         \<and> (re_HasMore r \<longleftrightarrow> p * op_PageSize opts < int (length full)) \<and> re_Total r = int (length full))"
proof -
  from overview_list [OF assms(2) ReadGraph_distinct [OF assms(1)] assms(3)] obtain full where full:
    "sorted_wrt graphLess full" "distinct (map gn_ID full)" "set full = overview_nodes order to_lower snap pid opts"
    "\<forall>p\<in>{1..1000000}. \<exists>r. ProjectGraph order to_lower snap pid (opts\<lparr>op_Page := p\<rparr>) = Some (Inr r)
       \<and> re_Tasks r = fst (the (page_window p (op_PageSize opts) full))
       \<and> (re_HasMore r \<longleftrightarrow> p * op_PageSize opts < int (length full)) \<and> re_Total r = int (length full)" by blast
  have limit: "1 \<le> op_PageSize opts" "op_PageSize opts \<le> 200" using assms(3) by (simp_all add: overview_options_def)
  have "concat (map (\<lambda>i. shown_tasks (ProjectGraph order to_lower snap pid (opts\<lparr>op_Page := int i\<rparr>))) [1..<Suc k])
      = take (k * nat (op_PageSize opts)) full" if k: "k \<le> 1000000" for k
  proof -
    have "shown_tasks (ProjectGraph order to_lower snap pid (opts\<lparr>op_Page := int i\<rparr>)) = fst (the (page_window (int i) (op_PageSize opts) full))"
      if "i \<in> set [1..<Suc k]" for i
    proof -
      have "int i \<in> {1..1000000}" using that k by auto
      with full(4) obtain r where "ProjectGraph order to_lower snap pid (opts\<lparr>op_Page := int i\<rparr>) = Some (Inr r)"
        "re_Tasks r = fst (the (page_window (int i) (op_PageSize opts) full))" by blast
      then show ?thesis by (simp add: shown_tasks_def)
    qed
    then show ?thesis unfolding window_pages [OF limit k, symmetric] by (intro arg_cong [where f = concat] map_cong) auto
  qed
  with full show ?thesis by blast
qed


section \<open>The focus view\<close>

lemma include_new_step:
  "include_new ts (n # ns) = (if gn_ID n \<in> gn_ID ` set ts then include_new ts ns else include_new (ts @ [n]) ns)"
  by (simp add: include_new_def)

lemma include_new_props:
  "distinct (map gn_ID ts) \<Longrightarrow> distinct (map gn_ID (include_new ts ns))
   \<and> gn_ID ` set (include_new ts ns) = gn_ID ` set ts \<union> gn_ID ` set ns
   \<and> set (include_new ts ns) \<subseteq> set ts \<union> set ns
   \<and> length (include_new ts ns) \<le> length ts + length ns \<and> take (length ts) (include_new ts ns) = ts"
proof (induction ns arbitrary: ts)
  case Nil
  then show ?case by (simp add: include_new_def)
next
  case (Cons n ns)
  show ?case
  proof (cases "gn_ID n \<in> gn_ID ` set ts")
    case True
    with Cons.IH [OF Cons.prems] show ?thesis by (auto simp: include_new_step)
  next
    case False
    then have "distinct (map gn_ID (ts @ [n]))" using Cons.prems by simp
    note ih = Cons.IH [OF this]
    have "take (length ts) (include_new (ts @ [n]) ns) = take (length ts) (take (length (ts @ [n])) (include_new (ts @ [n]) ns))"
      by simp
    also have "\<dots> = ts" using ih by simp
    finally show ?thesis using ih False by (simp only: include_new_step if_False) auto
  qed
qed

lemma graphBranch_exact:
  assumes "page \<le> 1000000"
  defines "first \<equiv> max 1 page"
  shows "graphBranch ns page completed =
    Some (\<lparr>gb_IDs = map gn_ID (take 10 (drop (nat ((first - 1) * 10)) (filter (\<lambda>n. completed \<or> \<not> Terminal n) (graph_sort ns)))),
           gb_Total = int (length ns), gb_Completed = int (length (filter Terminal (graph_sort ns))),
           gb_Unknown = int (length (filter (\<lambda>n. gn_Availability n \<noteq> ''available'') (graph_sort ns))), gb_Page = first,
           gb_HasMore = (first * 10 < int (length (filter (\<lambda>n. completed \<or> \<not> Terminal n) (graph_sort ns))))\<rparr>,
          take 10 (drop (nat ((first - 1) * 10)) (filter (\<lambda>n. completed \<or> \<not> Terminal n) (graph_sort ns))))"
proof -
  have f: "(if page < 1 then 1 else page) = first" by (simp add: first_def)
  have "page_window first 10 xs = Some (take 10 (drop (nat ((first - 1) * 10)) xs), first * 10 < int (length xs))" for xs :: "GraphNode list"
    using page_window_exact [of first 10 xs] assms(1) by (simp add: first_def)
  then show ?thesis by (simp add: graphBranch_def Let_def f)
qed

text \<open>The branch that a page up to the first one lists completely.\<close>

lemma graphBranch_first:
  assumes "graphBranch ns page completed = Some (b, xs)" "page \<le> 1" "\<not> gb_HasMore b" "completed \<or> gb_Completed b = 0"
  shows "set xs = set ns"
proof -
  have m: "max 1 page = 1" "page \<le> 1000000" using assms(2) by simp_all
  note e = graphBranch_exact [OF m(2), of ns completed, unfolded m(1) assms(1) option.inject prod.inject]
  let ?el = "filter (\<lambda>n. completed \<or> \<not> Terminal n) (graph_sort ns)"
  have "xs = take 10 ?el" "length ?el \<le> 10" using e assms(3) by auto
  then have xs: "xs = ?el" by simp
  have "gb_Completed b = int (length (filter Terminal (graph_sort ns)))" using e by simp
  with assms(4) have "completed \<or> (\<forall>n\<in>set ns. \<not> Terminal n)" by (auto simp: filter_empty_conv)
  with xs show ?thesis by auto
qed

lemma graphBranch_sub:
  assumes "graphBranch ns page completed = Some (b, xs)" "page \<le> 1000000"
  shows "set xs \<subseteq> set ns" "length xs \<le> 10" "gb_Total b = int (length ns)"
  using graphBranch_exact [OF assms(2), of ns completed] assms(1)
  by (auto dest!: in_set_takeD in_set_dropD)

lemma focus_node_ID [simp]:
  assumes "distinct (map gn_ID ns)"
  shows "gn_ID (focus_node (node_map c ns) u) = u"
proof (cases "u \<in> gn_ID ` set ns")
  case True
  then obtain n where "n \<in> set ns" "gn_ID n = u" by blast
  with node_at_node [OF assms] True show ?thesis by (auto simp: focus_node_def node_map_has)
next
  case False
  then show ?thesis by (simp add: focus_node_def node_map_has missing_node_def)
qed

text \<open>What the reader gives for a focus: the focus itself, available, and only its own edges.\<close>

lemma ReadGraph_focus:
  assumes r: "ReadGraph order marshal sha_hex db pid focus scope = Inr snap" and f: "focus \<noteq> uuid_Nil"
  shows "\<exists>n\<in>set (sn_Nodes snap). gn_ID n = focus \<and> available n"
    and "d \<in> set (sn_Dependencies snap) \<Longrightarrow> td_TaskID d = focus \<or> td_DependsOnTaskID d = focus"
proof -
  have a: "allowed_task db scope (sc_WorkspaceID scope) focus"
    using read_guard_None(2) [OF ReadGraph_fields(1) [OF r]] f by simp
  then obtain t where t: "task_row db focus = Some t" "gt_deleted_at t = None" "allowed_project db scope (sc_WorkspaceID scope) (gt_project_id t)"
    by (auto simp: allowed_task_def split: option.splits)
  then have mem: "t \<in> set (db_tasks db)" "gt_id t = focus" by (auto simp: task_row_def find_Some_iff)
  have loc: "u \<in> set (local_tasks db pid focus) \<Longrightarrow> u = focus" for u using f by (auto simp: local_tasks_def)
  have "focus \<in> set (local_tasks db pid focus)" using mem t(2) by (force simp: local_tasks_def)
  then have ids: "focus \<in> set (graph_ids db (sc_WorkspaceID scope) pid focus)" by (simp add: graph_ids_def)
  obtain p where "project_row db (gt_project_id t) = Some p" using t(3) by (auto simp: allowed_project_def split: option.splits)
  with t(1) a have "available (graph_node db scope (sc_WorkspaceID scope) focus)"
    by (simp add: graph_node_def shown_node_def available_def)
  with ids show "\<exists>n\<in>set (sn_Nodes snap). gn_ID n = focus \<and> available n"
    unfolding ReadGraph_fields(2) [OF r] by (auto intro!: bexI [of _ focus])
  show "d \<in> set (sn_Dependencies snap) \<Longrightarrow> td_TaskID d = focus \<or> td_DependsOnTaskID d = focus"
    unfolding ReadGraph_fields(3) [OF r] by (auto simp: graph_dependencies_def local_edges_def dest: loc)
qed


definition focus_options :: "GraphSnapshot \<Rightarrow> uuid \<Rightarrow> GraphOptions \<Rightarrow> bool" where
  "focus_options snap focus opts \<longleftrightarrow> \<not> op_Legacy opts \<and> op_Focus opts = focus \<and> focus \<noteq> uuid_Nil
     \<and> (op_Revision opts = '''' \<or> op_Revision opts = sn_Revision snap) \<and> op_PageSize opts \<le> 200
     \<and> op_BeforePage opts \<le> 1000000 \<and> op_AfterPage opts \<le> 1000000 \<and> op_RelationsPage opts \<le> 1000000"

lemma default_pages_selectors [simp]:
  "op_Legacy (default_pages o') = op_Legacy o'" "op_Focus (default_pages o') = op_Focus o'" "op_Revision (default_pages o') = op_Revision o'"
  "op_BeforePage (default_pages o') = op_BeforePage o'" "op_AfterPage (default_pages o') = op_AfterPage o'"
  "op_RelationsPage (default_pages o') = op_RelationsPage o'" "op_Completed (default_pages o') = op_Completed o'"
  "op_PageSize o' \<le> 200 \<Longrightarrow> op_PageSize (default_pages o') \<le> 200"
  by (simp_all add: default_pages_def)

text \<open>A focus request on what the reader gave: the three branches, and the answer they make.\<close>

lemma focus_answer:
  fixes order :: "uuid list \<Rightarrow> uuid list"
  assumes r: "ReadGraph order0 marshal sha_hex db pid focus scope = Inr snap" and opts: "focus_options snap focus opts"
  defines "c \<equiv> component_of order (sn_Topology snap)"
  defines "nodes \<equiv> node_map c (sn_Nodes snap)"
  defines "before \<equiv> before_ids (sn_Dependencies snap) focus"
  defines "after \<equiv> after_ids (sn_Dependencies snap) focus"
  defines "relations \<equiv> relation_ids nodes (sn_Dependencies snap) focus (gn_ParentTaskID (node_at nodes focus))"
  obtains bb bn ab an rb rn tasks where
    "graphBranch (map (focus_node nodes) (order before)) (op_BeforePage opts) (op_Completed opts) = Some (bb, bn)"
    "graphBranch (map (focus_node nodes) (order after)) (op_AfterPage opts) (op_Completed opts) = Some (ab, an)"
    "graphBranch (map (focus_node nodes) (order relations)) (op_RelationsPage opts) True = Some (rb, rn)"
    "tasks = include_new [node_at nodes focus] (bn @ an @ (if op_RelationsPage opts < 1 then [] else rn))"
    "ProjectGraph order to_lower snap pid opts =
      Some (Inr (focus_response snap c (default_pages opts) nodes (remdups (focus # before @ after @ relations)) bb ab
        (hide_relations (default_pages opts) rb) tasks (start_response snap (default_pages opts))))"
    "gn_ID (node_at nodes focus) = focus" "node_at nodes focus = focus_node nodes focus" "available (node_at nodes focus)"
proof -
  have dist: "distinct (map gn_ID (sn_Nodes snap))" by (rule ReadGraph_distinct [OF r])
  have o: "\<not> op_Legacy opts" "op_Focus opts = focus" "focus \<noteq> uuid_Nil"
    "op_Revision opts = '''' \<or> op_Revision opts = sn_Revision snap" "op_PageSize opts \<le> 200"
    and pages: "op_BeforePage opts \<le> 1000000" "op_AfterPage opts \<le> 1000000" "op_RelationsPage opts \<le> 1000000"
    using opts by (simp_all add: focus_options_def)
  from ReadGraph_focus(1) [OF r o(3)] obtain n where n: "n \<in> set (sn_Nodes snap)" "gn_ID n = focus" "available n" by blast
  have at: "node_at nodes focus = marked c n" using node_at_node [OF dist n(1)] n(2) by (simp add: nodes_def)
  have key: "has_key nodes focus" using n(1,2) by (auto simp: nodes_def node_map_has)
  note b = graphBranch_exact [OF pages(1), of "map (focus_node nodes) (order before)" "op_Completed opts"]
  note a = graphBranch_exact [OF pages(2), of "map (focus_node nodes) (order after)" "op_Completed opts"]
  note rl = graphBranch_exact [OF pages(3), of "map (focus_node nodes) (order relations)" True]
  have len: "\<not> 200 < op_PageSize (default_pages opts)" using default_pages_selectors(8) [OF o(5)] by simp
  have rev: "\<not> (op_Revision opts \<noteq> '''' \<and> op_Revision opts \<noteq> sn_Revision snap)" using o(4) by blast
  have center: "\<not> (\<not> has_key nodes focus \<or> \<not> available (node_at nodes focus))" using key at n(3) by simp
  have id: "gn_ID (node_at nodes focus) = focus" using at n(2) by simp
  have "ProjectGraph order to_lower snap pid opts
      = focus_graph order snap c (default_pages opts) nodes (start_response snap (default_pages opts))"
    unfolding ProjectGraph_def Let_def default_pages_selectors c_def nodes_def if_not_P [OF rev] if_not_P [OF len]
    using o(1-3) by simp
  also have "\<dots> = Some (Inr (focus_response snap c (default_pages opts) nodes (remdups (focus # before @ after @ relations))
      (fst (the (graphBranch (map (focus_node nodes) (order before)) (op_BeforePage opts) (op_Completed opts))))
      (fst (the (graphBranch (map (focus_node nodes) (order after)) (op_AfterPage opts) (op_Completed opts))))
      (hide_relations (default_pages opts) (fst (the (graphBranch (map (focus_node nodes) (order relations)) (op_RelationsPage opts) True))))
      (include_new [node_at nodes focus]
        (snd (the (graphBranch (map (focus_node nodes) (order before)) (op_BeforePage opts) (op_Completed opts)))
         @ snd (the (graphBranch (map (focus_node nodes) (order after)) (op_AfterPage opts) (op_Completed opts)))
         @ (if op_RelationsPage opts < 1 then [] else snd (the (graphBranch (map (focus_node nodes) (order relations)) (op_RelationsPage opts) True)))))
      (start_response snap (default_pages opts))))"
    unfolding focus_graph_def Let_def default_pages_selectors o(2) before_def [symmetric] after_def [symmetric] relations_def [symmetric]
      if_not_P [OF center] id b a rl option.case prod.case option.sel fst_conv snd_conv ..
  finally have answer: "ProjectGraph order to_lower snap pid opts = \<dots>" .
  have node: "node_at nodes focus = focus_node nodes focus" using key by (simp add: focus_node_def)
  have av: "available (node_at nodes focus)" using at n(3) by simp
  show thesis by (rule that [OF b a rl refl answer [unfolded b a rl option.sel fst_conv snd_conv] id node av])
qed

lemma order_values:
  assumes "map_order order" "distinct us" "distinct (map gn_ID ns)"
  shows "gn_ID ` set (map (focus_node (node_map c ns)) (order us)) = set us"
  using map_orderD(2) [OF assms(1,2)] assms(3) by (simp add: image_image)

text \<open>C29. A focus view is small and closed: it starts with the focus, repeats no task, lists at most ten blockers, ten
  dependents and (on request) ten relations around it; every edge in it touches the focus and has both ends listed; and the
  cycle it names consists of the listed, visible tasks on a blocking cycle with the focus, out of the true cycle size.\<close>

theorem focus_view:
  assumes "ReadGraph order0 marshal sha_hex db pid focus scope = Inr snap" "focus_options snap focus opts" "map_order order"
  shows "\<exists>r. ProjectGraph order to_lower snap pid opts = Some (Inr r) \<and> gn_ID (hd (re_Tasks r)) = focus
    \<and> distinct (map gn_ID (re_Tasks r)) \<and> length (re_Tasks r) \<le> (if op_RelationsPage opts < 1 then 21 else 31)
    \<and> (\<forall>d\<in>set (re_Dependencies r). d \<in> set (sn_Dependencies snap) \<and> (td_TaskID d = focus \<or> td_DependsOnTaskID d = focus)
         \<and> td_TaskID d \<in> gn_ID ` set (re_Tasks r) \<and> td_DependsOnTaskID d \<in> gn_ID ` set (re_Tasks r))
    \<and> (\<forall>u\<in>set (re_CycleIDs r). u \<in> gn_ID ` set (re_Tasks r)
         \<and> (focus, u) \<in> (block_rel (sn_Topology snap))\<^sup>+ \<and> (u, focus) \<in> (block_rel (sn_Topology snap))\<^sup>+)
    \<and> re_CycleCount r = int (card {u. (focus, u) \<in> (block_rel (sn_Topology snap))\<^sup>+ \<and> (u, focus) \<in> (block_rel (sn_Topology snap))\<^sup>+})"
proof -
  have dist: "distinct (map gn_ID (sn_Nodes snap))" by (rule ReadGraph_distinct [OF assms(1)])
  define c where "c = component_of order (sn_Topology snap)"
  define nodes where "nodes = node_map c (sn_Nodes snap)"
  obtain bb bn ab an rb rn tasks where v:
    "graphBranch (map (focus_node nodes) (order (before_ids (sn_Dependencies snap) focus))) (op_BeforePage opts) (op_Completed opts) = Some (bb, bn)"
    "graphBranch (map (focus_node nodes) (order (after_ids (sn_Dependencies snap) focus))) (op_AfterPage opts) (op_Completed opts) = Some (ab, an)"
    "graphBranch (map (focus_node nodes) (order (relation_ids nodes (sn_Dependencies snap) focus (gn_ParentTaskID (node_at nodes focus)))))
       (op_RelationsPage opts) True = Some (rb, rn)"
    "tasks = include_new [node_at nodes focus] (bn @ an @ (if op_RelationsPage opts < 1 then [] else rn))"
    "ProjectGraph order to_lower snap pid opts =
      Some (Inr (focus_response snap c (default_pages opts) nodes (remdups (focus # before_ids (sn_Dependencies snap) focus
          @ after_ids (sn_Dependencies snap) focus
          @ relation_ids nodes (sn_Dependencies snap) focus (gn_ParentTaskID (node_at nodes focus)))) bb ab
        (hide_relations (default_pages opts) rb) tasks (start_response snap (default_pages opts))))"
    "gn_ID (node_at nodes focus) = focus"
    unfolding c_def nodes_def by (rule focus_answer [OF assms(1,2)])
  have o: "op_Focus opts = focus" "op_BeforePage opts \<le> 1000000" "op_AfterPage opts \<le> 1000000" "op_RelationsPage opts \<le> 1000000"
    using assms(2) by (simp_all add: focus_options_def)
  note inc = include_new_props [of "[node_at nodes focus]" "bn @ an @ (if op_RelationsPage opts < 1 then [] else rn)", folded v(4)]
  have few: "length tasks \<le> (if op_RelationsPage opts < 1 then 21 else 31)"
    using inc graphBranch_sub(2) [OF v(1) o(2)] graphBranch_sub(2) [OF v(2) o(3)] graphBranch_sub(2) [OF v(3) o(4)] by auto
  have "take 1 tasks = [node_at nodes focus]" using inc by simp
  then have first: "gn_ID (hd tasks) = focus" using v(6) by (cases tasks) auto
  have comp: "c focus = coalesce [] (cycle_component (block_rel (sn_Topology snap)) focus)"
    by (simp add: c_def component_of_def components_value [OF assms(3)])
  let ?C = "{u. (focus, u) \<in> (block_rel (sn_Topology snap))\<^sup>+ \<and> (u, focus) \<in> (block_rel (sn_Topology snap))\<^sup>+}"
  have "finite ((block_rel (sn_Topology snap))\<^sup>+)" by (rule finite_trancl [THEN iffD2]) (rule finite_block_rel)
  then have "finite (snd ` (block_rel (sn_Topology snap))\<^sup>+)" by (rule finite_imageI)
  then have fin: "finite ?C" by (rule rev_finite_subset) force
  have C: "set (c focus) = ?C" "length (c focus) = card ?C"
  proof -
    have "?C = {}" if "(focus, focus) \<notin> (block_rel (sn_Topology snap))\<^sup>+" using that by (auto dest: trancl_trans)
    then show "set (c focus) = ?C" "length (c focus) = card ?C"
      using fin by (auto simp: comp cycle_component_def coalesce_def)
  qed
  show ?thesis
    by (rule exI, rule conjI [OF v(5)])
       (use few first inc C in \<open>auto simp: focus_response_def Let_def o(1)\<close>)
qed

text \<open>C28. A complete focus view is complete: when the first pages answer \<open>complete\<close>, the view lists every neighbour of the
  focus that the snapshot knows, all of them visible to the actor, and every edge of the snapshot.\<close>

theorem focus_complete:
  assumes "ReadGraph order0 marshal sha_hex db pid focus scope = Inr snap" "focus_options snap focus opts" "map_order order"
    and "op_BeforePage opts \<le> 1" "op_AfterPage opts \<le> 1" "op_RelationsPage opts \<le> 1"
    and "ProjectGraph order to_lower snap pid opts = Some (Inr r)" "re_Complete r"
  shows "re_Dependencies r = sn_Dependencies snap \<and> re_Total r = int (length (re_Tasks r)) \<and> (\<forall>n\<in>set (re_Tasks r). available n)
    \<and> (\<forall>n\<in>set (sn_Nodes snap). gn_ParentTaskID n = Some focus \<longrightarrow> gn_ID n \<in> gn_ID ` set (re_Tasks r))"
proof -
  have dist: "distinct (map gn_ID (sn_Nodes snap))" by (rule ReadGraph_distinct [OF assms(1)])
  define c where "c = component_of order (sn_Topology snap)"
  define nodes where "nodes = node_map c (sn_Nodes snap)"
  define bi ai ri where "bi = before_ids (sn_Dependencies snap) focus" and "ai = after_ids (sn_Dependencies snap) focus"
    and "ri = relation_ids nodes (sn_Dependencies snap) focus (gn_ParentTaskID (node_at nodes focus))"
  obtain bb bn ab an rb rn tasks where v:
    "graphBranch (map (focus_node nodes) (order bi)) (op_BeforePage opts) (op_Completed opts) = Some (bb, bn)"
    "graphBranch (map (focus_node nodes) (order ai)) (op_AfterPage opts) (op_Completed opts) = Some (ab, an)"
    "graphBranch (map (focus_node nodes) (order ri)) (op_RelationsPage opts) True = Some (rb, rn)"
    "tasks = include_new [node_at nodes focus] (bn @ an @ (if op_RelationsPage opts < 1 then [] else rn))"
    "ProjectGraph order to_lower snap pid opts =
      Some (Inr (focus_response snap c (default_pages opts) nodes (remdups (focus # bi @ ai @ ri)) bb ab
        (hide_relations (default_pages opts) rb) tasks (start_response snap (default_pages opts))))"
    "gn_ID (node_at nodes focus) = focus" "node_at nodes focus = focus_node nodes focus"
    unfolding c_def nodes_def bi_def ai_def ri_def by (rule focus_answer [OF assms(1,2)])
  have o: "op_Focus opts = focus" using assms(2) by (simp add: focus_options_def)
  have r: "r = focus_response snap c (default_pages opts) nodes (remdups (focus # bi @ ai @ ri)) bb ab
      (hide_relations (default_pages opts) rb) tasks (start_response snap (default_pages opts))" using v(5) assms(7) by simp
  have cmp: "\<not> gb_HasMore bb" "\<not> gb_HasMore ab" "\<not> gb_HasMore (hide_relations (default_pages opts) rb)"
      "op_Completed opts \<or> gb_Completed bb + gb_Completed ab = 0"
      "\<forall>u\<in>set (remdups (focus # bi @ ai @ ri)). available (focus_node nodes u)"
    using assms(8) unfolding r focus_response_def Let_def by (simp_all add: filter_empty_conv del: remdups.simps)
  have nonneg: "0 \<le> gb_Completed bb" "0 \<le> gb_Completed ab"
    using graphBranch_exact [of "op_BeforePage opts"] graphBranch_exact [of "op_AfterPage opts"] v(1,2) assms(4,5) by auto
  have d: "distinct bi" "distinct ai" "distinct ri" by (simp_all add: bi_def ai_def ri_def before_ids_def after_ids_def relation_ids_def)
  have ids: "gn_ID ` set (map (focus_node nodes) (order us)) = set us" if "distinct us" for us
    unfolding nodes_def by (rule order_values [OF assms(3) that dist])
  have b: "gn_ID ` set bn = set bi" using graphBranch_first [OF v(1) assms(4) cmp(1)] cmp(4) nonneg ids [OF d(1)] by auto
  have a: "gn_ID ` set an = set ai" using graphBranch_first [OF v(2) assms(5) cmp(2)] cmp(4) nonneg ids [OF d(2)] by auto
  have rl: "gn_ID ` set (if op_RelationsPage opts < 1 then [] else rn) = set ri"
  proof (cases "op_RelationsPage opts < 1")
    case True
    then have "gb_Total rb = 0" using cmp(3) graphBranch_exact [of "op_RelationsPage opts"] v(3) assms(6) by (auto simp: hide_relations_def)
    then have "order ri = []" using graphBranch_sub(3) [OF v(3)] assms(6) by simp
    with ids [OF d(3)] True show ?thesis by simp
  next
    case False
    then show ?thesis using graphBranch_first [OF v(3) assms(6)] cmp(3) ids [OF d(3)] by (simp add: hide_relations_def)
  qed
  note inc = include_new_props [of "[node_at nodes focus]" "bn @ an @ (if op_RelationsPage opts < 1 then [] else rn)", folded v(4)]
  have tasks: "gn_ID ` set tasks = set (focus # bi @ ai @ ri)" "distinct (map gn_ID tasks)"
  proof -
    have "gn_ID ` set tasks = gn_ID ` {node_at nodes focus} \<union> gn_ID ` set bn \<union> gn_ID ` set an
        \<union> gn_ID ` set (if op_RelationsPage opts < 1 then [] else rn)"
      using inc by (simp add: image_Un Un_assoc)
    then show "gn_ID ` set tasks = set (focus # bi @ ai @ ri)" unfolding b a rl using v(6) by auto
    show "distinct (map gn_ID tasks)" using inc by simp
  qed
  have total: "length (remdups (focus # bi @ ai @ ri)) = length tasks"
    using tasks by (metis distinct_card length_map list.set_map length_remdups_card_conv)
  have sub: "set bn \<subseteq> range (focus_node nodes)" "set an \<subseteq> range (focus_node nodes)" "set rn \<subseteq> range (focus_node nodes)"
    using graphBranch_sub(1) [OF v(1)] graphBranch_sub(1) [OF v(2)] graphBranch_sub(1) [OF v(3)] assms(4-6) by auto
  have avail: "available n" if n: "n \<in> set tasks" for n
  proof -
    have "n \<in> range (focus_node nodes)" using n inc sub v(7) by (auto split: if_splits)
    then obtain u where u: "n = focus_node nodes u" by blast
    then have "gn_ID n = u" unfolding nodes_def using focus_node_ID [OF dist] by simp
    with tasks(1) n have "u \<in> set (focus # bi @ ai @ ri)" by blast
    with cmp(5) u show ?thesis by (simp only: set_remdups)
  qed
  have edge: "(td_TaskID d = focus \<or> td_DependsOnTaskID d = focus) \<and> td_TaskID d \<in> set (focus # bi @ ai @ ri)
      \<and> td_DependsOnTaskID d \<in> set (focus # bi @ ai @ ri)" if d: "d \<in> set (sn_Dependencies snap)" for d
  proof -
    have "focus \<noteq> uuid_Nil" using assms(2) by (simp add: focus_options_def)
    from ReadGraph_focus(2) [OF assms(1) this d] have "td_TaskID d = focus \<or> td_DependsOnTaskID d = focus" .
    then show ?thesis using d
      by (cases "td_DependencyType d = Blocks") (auto simp: bi_def ai_def ri_def before_ids_def after_ids_def relation_ids_def)
  qed
  have child: "gn_ID n \<in> set ri" if n: "n \<in> set (sn_Nodes snap)" "gn_ParentTaskID n = Some focus" for n
  proof -
    have "gn_ParentTaskID (node_at nodes (gn_ID n)) = Some focus" using node_at_node [OF dist n(1)] n(2) by (simp add: nodes_def)
    moreover have "gn_ID n \<in> set (go_keys nodes)" using n(1) by (simp add: nodes_def node_map_keys)
    ultimately show ?thesis by (simp add: ri_def relation_ids_def)
  qed
  have deps: "re_Dependencies r = sn_Dependencies snap"
    unfolding r focus_response_def Let_def using edge by (simp add: o tasks(1) filter_id_conv)
  have fields: "re_Tasks r = tasks" "re_Total r = int (length (remdups (focus # bi @ ai @ ri)))"
    by (simp_all add: r focus_response_def Let_def)
  show ?thesis unfolding fields total tasks(1) using deps avail child by auto
qed


section \<open>Well-formed answers\<close>

definition response_ok :: "GraphResponse \<Rightarrow> bool" where
  "response_ok r \<longleftrightarrow> re_Mode r \<in> {''legacy'', ''overview'', ''focus''} \<and> distinct (map gn_ID (re_Tasks r))
     \<and> int (length (re_Tasks r)) \<le> re_Total r \<and> 0 \<le> re_Completed r
     \<and> re_Completed r \<le> re_ScopeTotal r \<and> 0 \<le> re_Unknown r \<and> 1 \<le> re_Page r
     \<and> (re_VisibilityComplete r \<longrightarrow> re_Unknown r = 0) \<and> (re_Complete r \<longrightarrow> re_VisibilityComplete r \<and> \<not> re_HasMore r)"

definition pages_ok :: "GraphOptions \<Rightarrow> bool" where
  "pages_ok o' \<longleftrightarrow> (\<forall>k\<in>{op_Page o', op_PageSize o', op_BeforePage o', op_AfterPage o', op_RelationsPage o'}. 0 \<le> k \<and> k \<le> 1000000)"

lemma parse_pages_ok: "parse_pages q names o' = Inr o'' \<Longrightarrow> pages_ok o' \<Longrightarrow> pages_ok o''"
proof (induction names arbitrary: o')
  case (Cons name names)
  show ?case
  proof (cases "go_get '''' q name = ''''")
    case False
    with Cons.prems(1) obtain k where k: "1 \<le> k" "k \<le> 1000000" "parse_pages q names (set_page name k o') = Inr o''"
      by (auto simp: Let_def not_less split: option.splits if_splits)
    have "pages_ok (set_page name k o')" using Cons.prems(2) k(1,2) by (auto simp: pages_ok_def set_page_def)
    with Cons.IH k(3) show ?thesis by blast
  qed (use Cons in simp)
qed simp

lemma parse_options_ok:
  assumes "parse_options parse_uuid names q = Inr opts"
  shows "pages_ok opts"
proof -
  obtain o1 o2 where o: "o1 = zero_options\<lparr>op_Legacy := q = []\<rparr> \<or> (\<exists>u. o1 = zero_options\<lparr>op_Legacy := q = [], op_Focus := u\<rparr>)"
    "parse_pages q (names page_names) o1 = Inr o2"
    "opts = o2\<lparr>op_Completed := go_get '''' q ''completed'' = ''true'', op_Search := go_get '''' q ''search'', op_Revision := go_get '''' q ''revision''\<rparr>"
    using assms by (auto simp: parse_options_def Let_def bind_res_def split: if_splits sum.splits option.splits)
  have "pages_ok o1" using o(1) by (auto simp: pages_ok_def zero_options_def)
  with parse_pages_ok [OF o(2)] have "pages_ok o2" .
  then show ?thesis by (simp add: o(3) pages_ok_def)
qed

lemma default_page: "pages_ok o' \<Longrightarrow> 1 \<le> op_Page (default_pages o') \<and> op_Page (default_pages o') \<le> 1000000 \<and> 1 \<le> op_PageSize (default_pages o')"
  by (auto simp: pages_ok_def default_pages_def)

lemma legacy_response_ok:
  assumes "distinct (map gn_ID (sn_Nodes snap))" "1 \<le> op_Page opts"
  shows "response_ok (legacy_graph snap pid (node_map c (sn_Nodes snap)) (start_response snap opts))"
proof -
  let ?ns = "sn_Nodes snap"
  have ids: "map gn_ID (map (\<lambda>n. node_at (node_map c ?ns) (gn_ID n)) ?ns) = map gn_ID ?ns"
    using node_at_node [OF assms(1)] by simp
  have d: "distinct (map gn_ID (map (\<lambda>n. node_at (node_map c ?ns) (gn_ID n)) ?ns))" unfolding ids by (rule assms(1))
  moreover have "length (filter Terminal (filter (in_project pid) ?ns)) \<le> length (filter (in_project pid) ?ns)" by (rule length_filter_le)
  ultimately show ?thesis using assms(2)
    by (simp del: filter_filter add: response_ok_def legacy_graph_def start_response_def Let_def comp_def)
qed


lemma overview_response_ok:
  assumes order: "map_order order" and dist: "distinct (map gn_ID (sn_Nodes snap))"
    and page: "1 \<le> op_Page opts" "op_Page opts \<le> 1000000" "1 \<le> op_PageSize opts" "op_PageSize opts \<le> 200"
  shows "\<exists>r. overview_graph order to_lower snap pid opts (node_map c (sn_Nodes snap)) (start_response snap opts) = Some r \<and> response_ok r"
proof -
  define search where "search = to_lower (TrimSpace (op_Search opts))"
  define scope where "scope = filter (\<lambda>n. in_project pid n \<and> found to_lower search n)
    (map (node_at (node_map c (sn_Nodes snap))) (order (go_keys (node_map c (sn_Nodes snap)))))"
  define full where "full = graph_sort (filter (\<lambda>n. op_Completed opts \<or> \<not> Terminal n) scope)"
  define k where "k = nat ((op_Page opts - 1) * op_PageSize opts)"
  have w: "page_window (op_Page opts) (op_PageSize opts) full =
      Some (take (nat (op_PageSize opts)) (drop k full), op_Page opts * op_PageSize opts < int (length full))"
    unfolding k_def by (rule page_window_exact) (use page in auto)
  have "distinct (map gn_ID full)" unfolding full_def scope_def
    by (intro graph_sort_distinct distinct_map_filter node_values(2) [OF order dist])
  then have d: "distinct (map gn_ID (take n (drop k full)))" for n by (simp add: take_map [symmetric] drop_map [symmetric])
  have counts: "length (filter Terminal scope) \<le> length scope" "length (take n (drop k full)) \<le> length full" for n by simp_all
  show ?thesis unfolding overview_graph_def Let_def search_def [symmetric] scope_def [symmetric] full_def [symmetric] w
    using d counts page(1) by (auto simp: response_ok_def start_response_def)
qed

lemma focus_response_ok:
  assumes r: "ReadGraph order0 marshal sha_hex db pid focus scope = Inr snap" and opts: "focus_options snap focus opts"
    and order: "map_order order" and page: "pages_ok opts"
  shows "\<exists>r. ProjectGraph order to_lower snap pid opts = Some (Inr r) \<and> response_ok r"
proof -
  have dist: "distinct (map gn_ID (sn_Nodes snap))" by (rule ReadGraph_distinct [OF r])
  define c where "c = component_of order (sn_Topology snap)"
  define nodes where "nodes = node_map c (sn_Nodes snap)"
  define bi ai ri where "bi = before_ids (sn_Dependencies snap) focus" and "ai = after_ids (sn_Dependencies snap) focus"
    and "ri = relation_ids nodes (sn_Dependencies snap) focus (gn_ParentTaskID (node_at nodes focus))"
  obtain bb bn ab an rb rn tasks where v:
    "graphBranch (map (focus_node nodes) (order bi)) (op_BeforePage opts) (op_Completed opts) = Some (bb, bn)"
    "graphBranch (map (focus_node nodes) (order ai)) (op_AfterPage opts) (op_Completed opts) = Some (ab, an)"
    "graphBranch (map (focus_node nodes) (order ri)) (op_RelationsPage opts) True = Some (rb, rn)"
    "tasks = include_new [node_at nodes focus] (bn @ an @ (if op_RelationsPage opts < 1 then [] else rn))"
    "ProjectGraph order to_lower snap pid opts =
      Some (Inr (focus_response snap c (default_pages opts) nodes (remdups (focus # bi @ ai @ ri)) bb ab
        (hide_relations (default_pages opts) rb) tasks (start_response snap (default_pages opts))))"
    "gn_ID (node_at nodes focus) = focus"
    unfolding c_def nodes_def bi_def ai_def ri_def by (rule focus_answer [OF r opts])
  have o: "op_BeforePage opts \<le> 1000000" "op_AfterPage opts \<le> 1000000" "op_RelationsPage opts \<le> 1000000"
    using opts by (simp_all add: focus_options_def)
  have d: "distinct bi" "distinct ai" "distinct ri" by (simp_all add: bi_def ai_def ri_def before_ids_def after_ids_def relation_ids_def)
  have ids: "gn_ID ` set (map (focus_node nodes) (order us)) = set us" if "distinct us" for us
    unfolding nodes_def by (rule order_values [OF order that dist])
  have sub: "gn_ID ` set bn \<subseteq> set bi" "gn_ID ` set an \<subseteq> set ai" "gn_ID ` set rn \<subseteq> set ri"
    using image_mono [OF graphBranch_sub(1) [OF v(1) o(1)], of gn_ID] image_mono [OF graphBranch_sub(1) [OF v(2) o(2)], of gn_ID]
      image_mono [OF graphBranch_sub(1) [OF v(3) o(3)], of gn_ID] unfolding ids [OF d(1)] ids [OF d(2)] ids [OF d(3)] .
  note inc = include_new_props [of "[node_at nodes focus]" "bn @ an @ (if op_RelationsPage opts < 1 then [] else rn)", folded v(4)]
  define everyone where "everyone = remdups (focus # bi @ ai @ ri)"
  have "gn_ID ` set tasks = gn_ID ` {node_at nodes focus} \<union> gn_ID ` set bn \<union> gn_ID ` set an
        \<union> gn_ID ` set (if op_RelationsPage opts < 1 then [] else rn)"
    using inc by (simp add: image_Un Un_assoc)
  also have "\<dots> \<subseteq> set (focus # bi @ ai @ ri)" using sub v(6) by auto
  finally have all: "set (map gn_ID tasks) \<subseteq> set everyone" unfolding everyone_def set_remdups list.set_map .
  have dt: "distinct (map gn_ID tasks)" using inc by simp
  have "length tasks \<le> length everyone"
    using card_mono [OF _ all] distinct_card [OF dt] distinct_card [of everyone] by (simp add: everyone_def del: remdups.simps)
  then have "response_ok (focus_response snap c (default_pages opts) nodes everyone bb ab
        (hide_relations (default_pages opts) rb) tasks (start_response snap (default_pages opts)))"
    using dt default_page [OF page] by (auto simp: response_ok_def focus_response_def start_response_def Let_def)
  with v(5) show ?thesis by (simp add: everyone_def)
qed

lemma ProjectGraph_answers:
  assumes r: "ReadGraph order0 marshal sha_hex db pid (op_Focus opts) scope = Inr snap"
    and order: "map_order order" and page: "pages_ok opts"
  shows "\<exists>a. ProjectGraph order to_lower snap pid opts = Some a \<and> (\<forall>r. a = Inr r \<longrightarrow> response_ok r)"
proof -
  have dist: "distinct (map gn_ID (sn_Nodes snap))" by (rule ReadGraph_distinct [OF r])
  note dp = default_page [OF page]
  consider (refused) "op_Revision opts \<noteq> '''' \<and> op_Revision opts \<noteq> sn_Revision snap \<or> op_PageSize (default_pages opts) > 200"
    | (legacy) "op_Legacy opts" "op_Revision opts = '''' \<or> op_Revision opts = sn_Revision snap" "op_PageSize (default_pages opts) \<le> 200"
    | (overview) "\<not> op_Legacy opts" "op_Focus opts = uuid_Nil" "op_Revision opts = '''' \<or> op_Revision opts = sn_Revision snap"
        "op_PageSize (default_pages opts) \<le> 200"
    | (focus) "\<not> op_Legacy opts" "op_Focus opts \<noteq> uuid_Nil" "op_Revision opts = '''' \<or> op_Revision opts = sn_Revision snap"
        "op_PageSize (default_pages opts) \<le> 200" by linarith
  then show ?thesis
  proof cases
    case refused
    then show ?thesis by (auto simp: ProjectGraph_def Let_def)
  next
    case legacy
    then have "ProjectGraph order to_lower snap pid opts = Some (Inr (legacy_graph snap pid
        (node_map (component_of order (sn_Topology snap)) (sn_Nodes snap)) (start_response snap (default_pages opts))))"
      by (auto simp: ProjectGraph_def Let_def)
    with legacy_response_ok [OF dist] dp show ?thesis by simp
  next
    case overview
    then have "ProjectGraph order to_lower snap pid opts = map_option Inr (overview_graph order to_lower snap pid (default_pages opts)
        (node_map (component_of order (sn_Topology snap)) (sn_Nodes snap)) (start_response snap (default_pages opts)))"
      by (auto simp: ProjectGraph_def Let_def)
    with overview_response_ok [OF order dist, of "default_pages opts"] dp overview(4) show ?thesis by (metis option.simps(9) sum.inject(2))
  next
    case focus
    then have "op_PageSize opts \<le> 200" by (auto simp: default_pages_def split: if_splits)
    then have "focus_options snap (op_Focus opts) opts" using focus page by (simp add: focus_options_def pages_ok_def)
    from focus_response_ok [OF r this order page] show ?thesis by fastforce
  qed
qed

text \<open>C38. The graph endpoint always answers, and what it answers is well-formed: for every request and every state of the
  tables the handler refuses or returns, never panicking on page arithmetic; a response repeats no task, lists no more than it
  counts, counts no more completed tasks than tasks, and calls itself complete only when nothing is left or hidden.\<close>

theorem DependencyGraph_well_typed:
  assumes "map_order order"
  shows "DependencyGraph order names to_lower parse_uuid (Some (ReadGraph order marshal sha_hex db)) rq \<noteq> Panicked
    \<and> (\<forall>r. DependencyGraph order names to_lower parse_uuid (Some (ReadGraph order marshal sha_hex db)) rq = Answered r \<longrightarrow> response_ok r)"
proof (cases "parse_uuid (rq_proj_id rq)")
  case None
  then show ?thesis by (simp add: DependencyGraph_def)
next
  case (Some pid)
  show ?thesis
  proof (cases "bind_res (parse_options parse_uuid names (rq_query rq)) (\<lambda>opts. map_sum id (Pair opts) (request_scope rq))")
    case (Inl e)
    then show ?thesis by (simp add: DependencyGraph_def Some)
  next
    case (Inr os)
    obtain opts scope where os: "os = (opts, scope)" by fastforce
    with Inr have "parse_options parse_uuid names (rq_query rq) = Inr opts"
      by (auto simp: bind_res_def split: sum.splits) (metis map_sum.simps sum.exhaust sum.sel(2) sum.distinct(1) prod.inject)
    then have page: "pages_ok opts" by (rule parse_options_ok)
    show ?thesis
    proof (cases "ReadGraph order marshal sha_hex db pid (op_Focus opts) scope")
      case (Inr snap)
      note read = this
      from ProjectGraph_answers [OF this assms page] obtain a where
        a: "ProjectGraph order to_lower snap pid opts = Some a" "\<forall>r. a = Inr r \<longrightarrow> response_ok r" by blast
      have "DependencyGraph order names to_lower parse_uuid (Some (ReadGraph order marshal sha_hex db)) rq
          = (case a of Inl e \<Rightarrow> Failed (Refuse e) | Inr r \<Rightarrow> Answered r)"
        by (simp add: DependencyGraph_def Some \<open>bind_res _ _ = Inr os\<close> os read a(1) split: sum.split)
      with a(2) show ?thesis by (auto split: sum.splits)
    qed (simp add: DependencyGraph_def Some Inr os)
  qed
qed


section \<open>Witnesses\<close>

definition sample_read :: "uuid \<Rightarrow> uuid \<Rightarrow> read_error + GraphSnapshot" where
  "sample_read focus p2 = ReadGraph rev (\<lambda>n. Some (gn_Title n)) id
     ((graph_sample ''x'')\<lparr>db_tasks := [graph_sample_task 1 10 ''a'', graph_sample_task 2 p2 ''b'']\<rparr>) 10 focus graph_sample_scope"

definition sample_snap :: "uuid \<Rightarrow> uuid \<Rightarrow> GraphSnapshot" where
  "sample_snap focus p2 = (case sample_read focus p2 of Inr s \<Rightarrow> s | Inl e \<Rightarrow> undefined)"

definition sample_options :: "uuid \<Rightarrow> GraphOptions" where
  "sample_options focus = zero_options\<lparr>op_Focus := focus, op_PageSize := 1, op_Completed := True\<rparr>"

lemma sample_snaps:
  "ReadGraph rev (\<lambda>n. Some (gn_Title n)) id ((graph_sample ''x'')\<lparr>db_tasks := [graph_sample_task 1 10 ''a'', graph_sample_task 2 20 ''b'']\<rparr>)
     10 uuid_Nil graph_sample_scope = Inr (sample_snap uuid_Nil 20)"
  "ReadGraph rev (\<lambda>n. Some (gn_Title n)) id ((graph_sample ''x'')\<lparr>db_tasks := [graph_sample_task 1 10 ''a'', graph_sample_task 2 10 ''b'']\<rparr>)
     10 1 graph_sample_scope = Inr (sample_snap 1 10)"
proof -
  have "\<not> isl (sample_read uuid_Nil 20)" "\<not> isl (sample_read 1 10)" by code_simp+
  then show "ReadGraph rev (\<lambda>n. Some (gn_Title n)) id ((graph_sample ''x'')\<lparr>db_tasks := [graph_sample_task 1 10 ''a'', graph_sample_task 2 20 ''b'']\<rparr>)
     10 uuid_Nil graph_sample_scope = Inr (sample_snap uuid_Nil 20)"
    "ReadGraph rev (\<lambda>n. Some (gn_Title n)) id ((graph_sample ''x'')\<lparr>db_tasks := [graph_sample_task 1 10 ''a'', graph_sample_task 2 10 ''b'']\<rparr>)
     10 1 graph_sample_scope = Inr (sample_snap 1 10)"
    unfolding sample_snap_def sample_read_def by (auto split: sum.splits simp: isl_def)
qed

lemma map_order_rev: "map_order rev"
  by (simp add: map_order_def)

lemma sample_focus_complete:
  "case ProjectGraph rev id (sample_snap 1 10) 10 (sample_options 1) of Some (Inr r) \<Rightarrow> re_Complete r | _ \<Rightarrow> False"
  by code_simp

lemma sample_options_ok:
  "overview_options (sample_snap uuid_Nil 20) (sample_options uuid_Nil)" "focus_options (sample_snap 1 10) 1 (sample_options 1)"
  by (simp_all add: overview_options_def focus_options_def sample_options_def zero_options_def)

theorem overview_pages_witness:
  "\<exists>full. sorted_wrt graphLess full \<and> distinct (map gn_ID full)
    \<and> set full = overview_nodes rev id (sample_snap uuid_Nil 20) 10 (sample_options uuid_Nil)
    \<and> concat (map (\<lambda>i. shown_tasks (ProjectGraph rev id (sample_snap uuid_Nil 20) 10 ((sample_options uuid_Nil)\<lparr>op_Page := int i\<rparr>))) [1..<Suc 3])
        = take (3 * nat (op_PageSize (sample_options uuid_Nil))) full"
  using overview_pages [OF sample_snaps(1) map_order_rev sample_options_ok(1), where to_lower = id]
  by (elim exE conjE) (rule exI, intro conjI, assumption, assumption, assumption, erule allE [of _ 3], simp)

theorem focus_view_witness:
  "\<exists>r. ProjectGraph rev id (sample_snap 1 10) 10 (sample_options 1) = Some (Inr r) \<and> gn_ID (hd (re_Tasks r)) = 1 \<and> length (re_Tasks r) \<le> 21"
  using focus_view [OF sample_snaps(2) sample_options_ok(2) map_order_rev, of id]
  by (elim exE conjE) (rule exI, intro conjI, assumption, assumption, simp add: sample_options_def zero_options_def)

theorem focus_complete_witness:
  "\<exists>r. ProjectGraph rev id (sample_snap 1 10) 10 (sample_options 1) = Some (Inr r)
    \<and> re_Dependencies r = sn_Dependencies (sample_snap 1 10) \<and> (\<forall>n\<in>set (re_Tasks r). available n)"
proof -
  from sample_focus_complete obtain r where r: "ProjectGraph rev id (sample_snap 1 10) 10 (sample_options 1) = Some (Inr r)" "re_Complete r"
    by (auto split: option.splits sum.splits)
  have pages: "op_BeforePage (sample_options 1) \<le> 1" "op_AfterPage (sample_options 1) \<le> 1" "op_RelationsPage (sample_options 1) \<le> 1"
    by (simp_all add: sample_options_def zero_options_def)
  from focus_complete [OF sample_snaps(2) sample_options_ok(2) map_order_rev pages r] r(1) show ?thesis by blast
qed

definition sample_graph_request :: graph_request where
  "sample_graph_request = \<lparr>rq_proj_id = ''p'', rq_query = [(''mode'', ''overview''), (''page_size'', ''2'')], rq_WorkspaceID = Some 9,
     rq_agent = True, rq_AgentID = Some 40, rq_UserID = None, rq_role = ''''\<rparr>"

lemma sample_answered:
  "case DependencyGraph rev id id (\<lambda>_. Some 10) (Some (ReadGraph rev (\<lambda>n. Some (gn_Title n)) id (graph_sample ''x''))) sample_graph_request
   of Answered r \<Rightarrow> True | _ \<Rightarrow> False"
  by code_simp

theorem DependencyGraph_well_typed_witness:
  "\<exists>r. DependencyGraph rev id id (\<lambda>_. Some 10) (Some (ReadGraph rev (\<lambda>n. Some (gn_Title n)) id (graph_sample ''x''))) sample_graph_request
      = Answered r \<and> response_ok r"
proof -
  note ok = DependencyGraph_well_typed [OF map_order_rev, THEN conjunct2, THEN spec, THEN mp]
  from sample_answered obtain r where r: "DependencyGraph rev id id (\<lambda>_. Some 10)
      (Some (ReadGraph rev (\<lambda>n. Some (gn_Title n)) id (graph_sample ''x''))) sample_graph_request = Answered r"
    by (auto split: graph_answer.splits)
  with ok [OF r] show ?thesis by blast
qed

end
