(* ===== verification/Task_Checkout.thy ===== *)
theory Task_Checkout
  imports Api_Error
begin

text \<open>
  The checkout lease of a task: the conditional writes of \<open>internal/repository/postgres/checkout_generation.go\<close>, the
  sweep and heartbeat of \<open>task_repo.go\<close>, the guarded status write of \<open>task_transition.go\<close>, and the checkout
  operations of \<open>internal/service/task_service.go\<close>.

  A conditional UPDATE is one step on the locked row; its WHERE is in SQL's three-valued logic. Every UPDATE runs the two
  triggers of the table: \<open>advance_task_version\<close> and \<open>tasks_checkout_stage_guard\<close>. The status write is modelled without
  an audit record and without \<open>finish_task\<close>'s extra writes, and without the float column \<open>position\<close>.
\<close>

section \<open>Leases\<close>

record CheckoutScope =
  sc_SessionID :: "uuid option"
  sc_RequestID :: "uuid option"

record CheckoutExpectation =
  cx_Token :: "uuid option"
  cx_Holder :: "uuid option"
  cx_SessionID :: "uuid option"
  cx_Generation :: int
  cx_Legacy :: bool
  cx_Reason :: string

text \<open>The lease columns; the answer's \<open>Changed\<close> is returned beside them.\<close>

record CheckoutLease =
  cl_Holder :: "uuid option"
  cl_Token :: "uuid option"
  cl_ExpiresAt :: "gtime option"
  cl_AcquiredAt :: "gtime option"
  cl_SessionID :: "uuid option"
  cl_RequestID :: "uuid option"
  cl_Generation :: int

text \<open>The columns of a task; of \<open>dod_checks\<close> the status under each name.\<close>

record checkout_task =
  ct_ID :: uuid
  ct_ProjectID :: uuid
  ct_StatusID :: uuid
  ct_Deleted :: bool
  ct_Version :: int
  ct_UpdatedAt :: gtime
  ct_CompletedAt :: "gtime option"
  ct_StatusChangedAt :: "gtime option"
  ct_AssigneeID :: "uuid option"
  ct_AssigneeType :: string
  ct_AssignedBy :: string
  ct_PreReviewAssigneeID :: "uuid option"
  ct_PreReviewAssigneeType :: "string option"
  ct_PreReviewRestore :: bool
  ct_DueDate :: "gtime option"
  ct_Labels :: "string list"
  ct_DelegationLevel :: string
  ct_HumanGate :: bool
  ct_IsShipped :: bool
  ct_StageStatusID :: "uuid option"
  ct_ParentTaskID :: "uuid option"
  ct_CreatedBy :: uuid
  ct_CreatedByType :: string
  ct_ReviewerID :: "uuid option"
  ct_GateAuthor :: "uuid option"
  ct_GateAuthorType :: "string option"
  ct_HumanGateClass :: string
  ct_DodChecks :: "(string, string) gomap"
  ct_Lease :: CheckoutLease

record checkout_status =
  cu_ID :: uuid
  cu_ProjectID :: uuid
  cu_Name :: string
  cu_Slug :: string
  cu_Category :: string

text \<open>A project's workflow rule row, as the heartbeat reads its \<open>mid_pipeline\<close> block.\<close>

record heartbeat_rule =
  hr_ProjectID :: uuid
  hr_Extends :: "bool option"
  hr_Minutes :: "int option"

text \<open>\<open>co_Waits\<close> are the tasks with a registered, unreleased parked wait; \<open>co_Activity\<close> the times of the comments,
  artifacts and VCS links of each task; \<open>co_Log\<close> the activity entries written.\<close>

record checkout_store =
  co_Tasks :: "checkout_task list"
  co_Statuses :: "checkout_status list"
  co_Rules :: "heartbeat_rule list"
  co_Waits :: "uuid list"
  co_Activity :: "(uuid \<times> gtime) list"
  co_Agents :: "(uuid \<times> string) list"
  co_Log :: "(uuid \<times> string) list"

definition checkout_GetByID :: "checkout_store \<Rightarrow> uuid \<Rightarrow> checkout_task option" where
  "checkout_GetByID s u = find (\<lambda>t. ct_ID t = u \<and> \<not> ct_Deleted t) (co_Tasks s)"

definition status_GetByID :: "checkout_store \<Rightarrow> uuid \<Rightarrow> checkout_status option" where
  "status_GetByID s u = find (\<lambda>x. cu_ID x = u) (co_Statuses s)"

text \<open>The triggers of an UPDATE: the version advances, and the stage marker goes when it is not the status.\<close>

definition advance_task_version :: "checkout_task \<Rightarrow> checkout_task" where
  "advance_task_version t = t\<lparr>ct_Version := ct_Version t + 1\<rparr>"

definition tasks_checkout_stage_guard :: "checkout_task \<Rightarrow> checkout_task" where
  "tasks_checkout_stage_guard t =
     (if ct_StageStatusID t \<noteq> Some (ct_StatusID t) then t\<lparr>ct_StageStatusID := None\<rparr> else t)"

definition update_tasks :: "(checkout_task \<Rightarrow> bool) \<Rightarrow> (checkout_task \<Rightarrow> checkout_task) \<Rightarrow> checkout_store \<Rightarrow> checkout_store" where
  "update_tasks where_clause f s =
     s\<lparr>co_Tasks := map (\<lambda>t. if \<not> ct_Deleted t \<and> where_clause t
                            then tasks_checkout_stage_guard (advance_task_version (f t)) else t) (co_Tasks s)\<rparr>"

section \<open>Acquiring\<close>

definition retry :: "uuid \<Rightarrow> CheckoutScope \<Rightarrow> gtime \<Rightarrow> CheckoutLease \<Rightarrow> sql_bool" where
  "retry holder scope now p =
     sql_and (sql_eq (cl_Holder p) holder)
       (sql_and (Some (cl_SessionID p = sc_SessionID scope))
         (sql_and (Some (cl_RequestID p = sc_RequestID scope))
           (sql_or (Some (cl_ExpiresAt p = None)) (sql_less (Some now) (cl_ExpiresAt p)))))"

definition acquirable :: "uuid \<Rightarrow> CheckoutScope \<Rightarrow> gtime \<Rightarrow> CheckoutLease \<Rightarrow> sql_bool" where
  "acquirable holder scope now p =
     sql_or (retry holder scope now p)
       (sql_and (sql_or (Some (cl_Holder p = None)) (map_option (\<lambda>e. e \<le> now) (cl_ExpiresAt p)))
         (Some (\<not> coalesce False (sql_and (Some (sc_RequestID scope \<noteq> None))
                   (sql_and (sql_equal (cl_RequestID p) (sc_RequestID scope)) (sql_equal (cl_SessionID p) (sc_SessionID scope)))))))"

definition open_status :: "checkout_store \<Rightarrow> uuid \<Rightarrow> bool" where
  "open_status s u \<longleftrightarrow> list_ex (\<lambda>x. cu_ID x = u \<and> cu_Category x \<notin> {''done'', ''cancelled''}) (co_Statuses s)"

definition acquired_lease :: "uuid \<Rightarrow> uuid \<Rightarrow> gtime \<Rightarrow> CheckoutScope \<Rightarrow> gtime \<Rightarrow> CheckoutLease \<Rightarrow> CheckoutLease" where
  "acquired_lease holder token expires scope now p =
     (let again = sql_true (retry holder scope now p) in
      \<lparr>cl_Holder = Some holder, cl_Token = if again then cl_Token p else Some token,
       cl_ExpiresAt = if again \<and> sc_RequestID scope \<noteq> None then cl_ExpiresAt p else Some expires,
       cl_AcquiredAt = if again then cl_AcquiredAt p else Some now,
       cl_SessionID = sc_SessionID scope, cl_RequestID = sc_RequestID scope,
       cl_Generation = if again then cl_Generation p else cl_Generation p + 1\<rparr>)"

text \<open>\<^const>\<open>None\<close> is \<open>ErrCheckoutConflict\<close>.\<close>

definition AcquireCheckout ::
  "gtime \<Rightarrow> uuid \<Rightarrow> uuid \<Rightarrow> uuid \<Rightarrow> gtime \<Rightarrow> CheckoutScope \<Rightarrow> checkout_store \<Rightarrow> (CheckoutLease \<times> bool) option \<times> checkout_store" where
  "AcquireCheckout now u holder token expires scope s =
     (case checkout_GetByID s u of
        None \<Rightarrow> (None, s)
      | Some t \<Rightarrow>
          let p = ct_Lease t; again = sql_true (retry holder scope now p) in
          if \<not> (sql_true (acquirable holder scope now p) \<and> open_status s (ct_StatusID t)) then (None, s)
          else let lease = acquired_lease holder token expires scope now p in
            (Some (lease, \<not> again),
             update_tasks (\<lambda>t'. ct_ID t' = u)
               (\<lambda>t'. t'\<lparr>ct_Lease := lease,
                        ct_UpdatedAt := if again \<and> sc_RequestID scope \<noteq> None then ct_UpdatedAt t' else now\<rparr>) s))"

section \<open>Releasing and extending\<close>

definition release_allowed :: "CheckoutExpectation \<Rightarrow> CheckoutLease \<Rightarrow> sql_bool" where
  "release_allowed x p =
     sql_and (Some (cl_Holder p \<noteq> None))
       (sql_or (sql_and (Some (cx_Token x \<noteq> None)) (sql_equal (cl_Token p) (cx_Token x)))
         (sql_and (Some (cx_Token x = None)) (sql_and (sql_equal (cl_Holder p) (cx_Holder x))
           (sql_or (sql_and (Some (cx_Generation x > 0))
                      (sql_and (Some (cl_Generation p = cx_Generation x)) (Some (cl_SessionID p = cx_SessionID x))))
             (sql_and (Some (cx_Legacy x)) (sql_and (Some (cx_Generation x = 0))
                (sql_and (Some (cx_SessionID x = None)) (Some (cl_SessionID p = None)))))))))"

definition released_lease :: "CheckoutLease \<Rightarrow> CheckoutLease" where
  "released_lease p = p\<lparr>cl_Holder := None, cl_Token := None, cl_ExpiresAt := None, cl_AcquiredAt := None\<rparr>"

text \<open>\<^term>\<open>Inl ()\<close> is \<open>ErrInvalidCheckoutToken\<close>; the released lease is the previous row.\<close>

definition CompareReleaseCheckout ::
  "gtime \<Rightarrow> uuid \<Rightarrow> CheckoutExpectation \<Rightarrow> checkout_store \<Rightarrow> (unit + CheckoutLease option) \<times> checkout_store" where
  "CompareReleaseCheckout now u x s =
     (case checkout_GetByID s u of
        None \<Rightarrow> (Inr None, s)
      | Some t \<Rightarrow>
          let p = ct_Lease t in
          if sql_true (release_allowed x p)
          then (Inr (Some p), update_tasks (\<lambda>t'. ct_ID t' = u)
                  (\<lambda>t'. t'\<lparr>ct_Lease := released_lease p, ct_UpdatedAt := now\<rparr>) s)
          else if cl_Holder p \<noteq> None then (Inl (), s) else (Inr None, s))"

definition extend_allowed :: "gtime \<Rightarrow> CheckoutExpectation \<Rightarrow> CheckoutLease \<Rightarrow> sql_bool" where
  "extend_allowed now x p =
     sql_and (Some (cl_Holder p \<noteq> None)) (sql_and (sql_less (Some now) (cl_ExpiresAt p))
       (sql_or (sql_and (Some (cx_Token x \<noteq> None)) (sql_equal (cl_Token p) (cx_Token x)))
         (sql_and (Some (cx_Token x = None)) (sql_and (Some (cl_Generation p = cx_Generation x)) (sql_and (Some (cx_Generation x > 0))
            (sql_and (sql_equal (cl_Holder p) (cx_Holder x)) (Some (cl_SessionID p = cx_SessionID x))))))))"

definition ExtendScopedCheckout ::
  "gtime \<Rightarrow> uuid \<Rightarrow> CheckoutExpectation \<Rightarrow> gtime \<Rightarrow> checkout_store \<Rightarrow> CheckoutLease option \<times> checkout_store" where
  "ExtendScopedCheckout now u x expires s =
     (case checkout_GetByID s u of
        None \<Rightarrow> (None, s)
      | Some t \<Rightarrow>
          if sql_true (extend_allowed now x (ct_Lease t))
          then let lease = (ct_Lease t)\<lparr>cl_ExpiresAt := Some expires\<rparr> in
            (Some lease, update_tasks (\<lambda>t'. ct_ID t' = u) (\<lambda>t'. t'\<lparr>ct_Lease := lease, ct_UpdatedAt := now\<rparr>) s)
          else (None, s))"

section \<open>Sweeps\<close>

definition in_progress :: "checkout_store \<Rightarrow> uuid \<Rightarrow> bool" where
  "in_progress s u \<longleftrightarrow> list_ex (\<lambda>x. cu_ID x = u \<and> cu_Category x = ''in_progress'') (co_Statuses s)"

definition expired_lease :: "gtime \<Rightarrow> checkout_task \<Rightarrow> bool" where
  "expired_lease now t \<longleftrightarrow> sql_true (sql_less (cl_ExpiresAt (ct_Lease t)) (Some now))"

definition sweepable :: "gtime \<Rightarrow> checkout_store \<Rightarrow> checkout_task \<Rightarrow> bool" where
  "sweepable now s t \<longleftrightarrow> \<not> ct_Deleted t \<and> expired_lease now t
     \<and> \<not> (ct_StageStatusID t = Some (ct_StatusID t) \<and> in_progress s (ct_StatusID t))"

definition ReleaseExpiredCheckouts :: "gtime \<Rightarrow> checkout_store \<Rightarrow> nat \<times> checkout_store" where
  "ReleaseExpiredCheckouts now s =
     (length (filter (sweepable now s) (co_Tasks s)),
      update_tasks (sweepable now s) (\<lambda>t. t\<lparr>ct_Lease := released_lease (ct_Lease t), ct_UpdatedAt := now\<rparr>) s)"

definition FindExpiredInProgressCheckouts :: "gtime \<Rightarrow> checkout_store \<Rightarrow> checkout_task list" where
  "FindExpiredInProgressCheckouts now s =
     filter (\<lambda>t. expired_lease now t \<and> \<not> ct_Deleted t \<and> ct_StageStatusID t = Some (ct_StatusID t) \<and> in_progress s (ct_StatusID t)) (co_Tasks s)"

definition heartbeat_deadline :: "gtime \<Rightarrow> checkout_store \<Rightarrow> checkout_task \<Rightarrow> gtime option" where
  "heartbeat_deadline now s t =
     (case find (\<lambda>r. hr_ProjectID r = ct_ProjectID t) (co_Rules s) of
        None \<Rightarrow> None
      | Some r \<Rightarrow> if coalesce False (hr_Extends r) then Some (now + coalesce 30 (hr_Minutes r) * 60000000000) else None)"

definition heartbeat_due :: "gtime \<Rightarrow> uuid \<Rightarrow> checkout_store \<Rightarrow> checkout_task \<Rightarrow> bool" where
  "heartbeat_due now agent s t \<longleftrightarrow> \<not> ct_Deleted t \<and> cl_Holder (ct_Lease t) = Some agent \<and> cl_SessionID (ct_Lease t) = None
     \<and> cl_ExpiresAt (ct_Lease t) \<noteq> None \<and> heartbeat_deadline now s t \<noteq> None"

definition ExtendCheckoutsOnHeartbeat :: "gtime \<Rightarrow> uuid \<Rightarrow> checkout_store \<Rightarrow> nat \<times> checkout_store" where
  "ExtendCheckoutsOnHeartbeat now agent s =
     (length (filter (heartbeat_due now agent s) (co_Tasks s)),
      update_tasks (heartbeat_due now agent s)
        (\<lambda>t. t\<lparr>ct_Lease := (ct_Lease t)\<lparr>cl_ExpiresAt := heartbeat_deadline now s t\<rparr>, ct_UpdatedAt := now\<rparr>) s)"

section \<open>The guarded status write\<close>

record TaskConflict =
  cf_CurrentVersion :: int
  cf_CurrentStatusID :: uuid
  cf_CurrentUpdatedAt :: gtime
  cf_CurrentAssigneeID :: "uuid option"

record ReaperExpectation =
  rx_Mode :: string
  rx_Generation :: int
  rx_Token :: "uuid option"
  rx_ExpiresAt :: "gtime option"
  rx_QuietGrace :: duration

record TaskTransition =
  tt_AssignedBy :: "string option"
  tt_ReleaseCheckout :: bool
  tt_CheckoutStage :: bool
  tt_ExpectedVersion :: int
  tt_ExpectedStatusID :: "uuid option"
  tt_ExpectedUpdatedAt :: "gtime option"
  tt_ExpectedAssigneeID :: "uuid option"
  tt_Reaper :: "ReaperExpectation option"
  tt_AlarmDue :: "gtime option"
  tt_AlarmLabels :: "string list"
  tt_DisallowParkedWait :: bool

datatype transition_error = Stale TaskConflict | Missing Error | Misuse string

definition task_conflict :: "checkout_task \<Rightarrow> TaskConflict" where
  "task_conflict t = \<lparr>cf_CurrentVersion = ct_Version t, cf_CurrentStatusID = ct_StatusID t,
     cf_CurrentUpdatedAt = ct_UpdatedAt t, cf_CurrentAssigneeID = ct_AssigneeID t\<rparr>"

definition taskConflict :: "checkout_store \<Rightarrow> uuid \<Rightarrow> transition_error" where
  "taskConflict s u = (case checkout_GetByID s u of None \<Rightarrow> Missing (NotFound ''Task'') | Some t \<Rightarrow> Stale (task_conflict t))"

definition last_activity :: "checkout_store \<Rightarrow> checkout_task \<Rightarrow> gtime" where
  "last_activity s t = Max (insert (ct_UpdatedAt t) (snd ` set (filter (\<lambda>a. fst a = ct_ID t) (co_Activity s))))"

definition reaper_misuse :: "ReaperExpectation \<Rightarrow> string option" where
  "reaper_misuse g =
     (if rx_Mode g = ''expired'' then None
      else if rx_Mode g = ''unleased'' then refuse_if (rx_QuietGrace g \<le> 0) ''reaper quiet grace must be positive''
      else Some ''unknown reaper mode'')"

definition reaper_guard :: "gtime \<Rightarrow> checkout_store \<Rightarrow> ReaperExpectation \<Rightarrow> checkout_task \<Rightarrow> sql_bool" where
  "reaper_guard now s g t =
     sql_and (Some (\<not> ct_HumanGate t)) (sql_and (Some (\<not> ct_IsShipped t))
       (sql_and (sql_eq (ct_StageStatusID t) (ct_StatusID t)) (sql_and (Some (in_progress s (ct_StatusID t)))
         (let p = ct_Lease t in
          if rx_Mode g = ''expired''
          then sql_and (Some (cl_Generation p = rx_Generation g)) (sql_and (Some (cl_Token p = rx_Token g))
                 (sql_and (sql_equal (cl_ExpiresAt p) (rx_ExpiresAt g)) (sql_less (cl_ExpiresAt p) (Some now))))
          else sql_and (Some (cl_Holder p = None)) (sql_and (Some (cl_Token p = None)) (sql_and (Some (cl_ExpiresAt p = None))
                 (Some (last_activity s t < now - rx_QuietGrace g))))))))"

definition transition_guard :: "gtime \<Rightarrow> checkout_store \<Rightarrow> TaskTransition \<Rightarrow> checkout_task \<Rightarrow> sql_bool" where
  "transition_guard now s i t =
     sql_and (Some (ct_Version t = tt_ExpectedVersion i))
       (sql_and (sql_or (Some (tt_ExpectedStatusID i = None)) (sql_equal (Some (ct_StatusID t)) (tt_ExpectedStatusID i)))
         (sql_and (sql_or (Some (tt_ExpectedUpdatedAt i = None)) (sql_equal (Some (ct_UpdatedAt t)) (tt_ExpectedUpdatedAt i)))
           (sql_and (case tt_Reaper i of None \<Rightarrow> Some True | Some g \<Rightarrow> reaper_guard now s g t)
             (case tt_ExpectedAssigneeID i of None \<Rightarrow> Some True
              | Some a \<Rightarrow> Some (ct_AssigneeID t = (if a = uuid_Nil then None else Some a))))))"

definition releases :: "TaskTransition \<Rightarrow> bool" where
  "releases i \<longleftrightarrow> tt_ReleaseCheckout i \<or> (case tt_Reaper i of None \<Rightarrow> False | Some g \<Rightarrow> rx_Mode g = ''expired'')"

definition transition_lease :: "TaskTransition \<Rightarrow> CheckoutLease \<Rightarrow> CheckoutLease" where
  "transition_lease i p =
     (if \<not> releases i then p
      else if tt_ReleaseCheckout i then released_lease p
      else (released_lease p)\<lparr>cl_SessionID := None, cl_RequestID := None\<rparr>)"

definition transition_row :: "checkout_task \<Rightarrow> TaskTransition \<Rightarrow> checkout_task \<Rightarrow> checkout_task" where
  "transition_row task i t = t\<lparr>
     ct_StatusID := ct_StatusID task, ct_CompletedAt := ct_CompletedAt task, ct_StatusChangedAt := ct_StatusChangedAt task,
     ct_AssigneeID := ct_AssigneeID task, ct_AssigneeType := ct_AssigneeType task,
     ct_PreReviewAssigneeID := ct_PreReviewAssigneeID task, ct_PreReviewAssigneeType := ct_PreReviewAssigneeType task,
     ct_PreReviewRestore := ct_PreReviewRestore task, ct_UpdatedAt := ct_UpdatedAt task,
     ct_DueDate := (if tt_AlarmDue i = None then ct_DueDate t else tt_AlarmDue i),
     ct_Labels := (if tt_AlarmDue i = None then ct_Labels t else tt_AlarmLabels i),
     ct_AssignedBy := (case tt_AssignedBy i of None \<Rightarrow> ct_AssignedBy t | Some a \<Rightarrow> a),
     ct_StageStatusID := (if tt_CheckoutStage i then Some (ct_StatusID task) else ct_StageStatusID t),
     ct_Lease := transition_lease i (ct_Lease t)\<rparr>"

text \<open>The result is the caller's snapshot, with the version, the alarm and the lease the row has now.\<close>

definition UpdateTransition ::
  "gtime \<Rightarrow> checkout_task \<Rightarrow> TaskTransition \<Rightarrow> checkout_store \<Rightarrow> (transition_error + checkout_task) \<times> checkout_store" where
  "UpdateTransition now task i s =
     (let u = ct_ID task in
      if tt_DisallowParkedWait i \<and> (checkout_GetByID s u = None \<or> u \<in> set (co_Waits s)) then (Inl (taskConflict s u), s)
      else case (case tt_Reaper i of None \<Rightarrow> None | Some g \<Rightarrow> reaper_misuse g) of
        Some m \<Rightarrow> (Inl (Misuse m), s)
      | None \<Rightarrow>
          (case checkout_GetByID s u of
             None \<Rightarrow> (Inl (taskConflict s u), s)
           | Some t \<Rightarrow>
               if \<not> sql_true (transition_guard now s i t) then (Inl (taskConflict s u), s)
               else
                 (Inr (task\<lparr>ct_Version := ct_Version t + 1,
                            ct_DueDate := (if tt_AlarmDue i = None then ct_DueDate task else tt_AlarmDue i),
                            ct_Labels := (if tt_AlarmDue i = None then ct_Labels task else tt_AlarmLabels i),
                            ct_Lease := transition_lease i (ct_Lease t)\<rparr>),
                  update_tasks (\<lambda>t'. ct_ID t' = u) (transition_row task i) s)))"

section \<open>The service\<close>

text \<open>\<open>ce_token\<close> is the fresh token; \<open>ce_now\<close> and \<open>ce_db_now\<close> are the clocks of the service and of the database.\<close>

record checkout_env =
  ce_now :: gtime
  ce_db_now :: gtime
  ce_token :: uuid
  ce_actor :: uuid
  ce_actor_type :: string

record CheckoutResult =
  cr_TaskID :: uuid
  cr_CheckoutToken :: uuid
  cr_CheckedOutBy :: uuid
  cr_ExpiresAt :: gtime
  cr_DelegationLevel :: string
  cr_ProjectID :: uuid
  cr_SessionID :: "uuid option"
  cr_RequestID :: "uuid option"
  cr_Generation :: int

record CheckoutConflictError =
  ce_CheckedOutBy :: uuid
  ce_CheckedOutByName :: string
  ce_ExpiresAt :: gtime
  ce_AcquiredAt :: "gtime option"

datatype checkout_error = CheckoutRefused Error | CheckoutHeld CheckoutConflictError | CheckoutPanic

text \<open>\<open>checkoutResult\<close> dereferences the lease's pointers; \<^const>\<open>None\<close> is the nil dereference.\<close>

definition checkoutResult :: "checkout_task option \<Rightarrow> uuid \<Rightarrow> CheckoutLease \<Rightarrow> CheckoutResult option" where
  "checkoutResult task u lease =
     (case (cl_Token lease, cl_Holder lease, cl_ExpiresAt lease) of
        (Some token, Some holder, Some expires) \<Rightarrow>
          Some \<lparr>cr_TaskID = u, cr_CheckoutToken = token, cr_CheckedOutBy = holder, cr_ExpiresAt = expires,
                cr_DelegationLevel = (case task of None \<Rightarrow> '''' | Some t \<Rightarrow> ct_DelegationLevel t),
                cr_ProjectID = (case task of None \<Rightarrow> uuid_Nil | Some t \<Rightarrow> ct_ProjectID t),
                cr_SessionID = cl_SessionID lease, cr_RequestID = cl_RequestID lease, cr_Generation = cl_Generation lease\<rparr>
      | _ \<Rightarrow> None)"

definition checkout_answer :: "CheckoutResult option \<Rightarrow> checkout_error + CheckoutResult" where
  "checkout_answer r = (case r of None \<Rightarrow> Inl CheckoutPanic | Some v \<Rightarrow> Inr v)"

definition log_checkout :: "uuid \<Rightarrow> string \<Rightarrow> checkout_store \<Rightarrow> checkout_store" where
  "log_checkout u action s = s\<lparr>co_Log := co_Log s @ [(u, action)]\<rparr>"

definition clamp_ttl :: "int \<Rightarrow> int" where
  "clamp_ttl ttl = (let t = (if ttl \<le> 0 then 15 else ttl) in if t > 240 then 240 else t)"

definition scope_invalid :: "CheckoutScope \<Rightarrow> bool" where
  "scope_invalid x \<longleftrightarrow> (sc_SessionID x = None) \<noteq> (sc_RequestID x = None)
     \<or> (sc_SessionID x \<noteq> None \<and> (sc_SessionID x = Some uuid_Nil \<or> sc_RequestID x = Some uuid_Nil))"

definition checkout_conflict :: "checkout_store \<Rightarrow> uuid \<Rightarrow> checkout_error" where
  "checkout_conflict s u =
     (case map_option (\<lambda>t. (cl_Holder (ct_Lease t), cl_ExpiresAt (ct_Lease t), cl_AcquiredAt (ct_Lease t))) (checkout_GetByID s u) of
        Some (Some holder, Some expires, acquired) \<Rightarrow>
          CheckoutHeld \<lparr>ce_CheckedOutBy = holder, ce_CheckedOutByName = go_get '''' (co_Agents s) holder,
                        ce_ExpiresAt = expires, ce_AcquiredAt = acquired\<rparr>
      | _ \<Rightarrow> CheckoutRefused (Conflict ''task is already checked out''))"

text \<open>What \<open>CheckoutTask\<close> checks before it takes the lock.\<close>

definition checkout_refusal :: "checkout_env \<Rightarrow> uuid \<Rightarrow> CheckoutScope \<Rightarrow> checkout_store \<Rightarrow> Error option" where
  "checkout_refusal env u scope s =
     (if ce_actor_type env \<noteq> ''agent'' \<or> ce_actor env = uuid_Nil then Some (BadRequest ''only agents can checkout tasks'')
      else case checkout_GetByID s u of
        None \<Rightarrow> Some (NotFound ''Task'')
      | Some t \<Rightarrow>
          (case map_option cu_Category (status_GetByID s (ct_StatusID t)) of
             None \<Rightarrow> refuse_if (scope_invalid scope) (BadRequest ''session_id and request_id must be non-zero UUIDs supplied together'')
           | Some category \<Rightarrow>
               if category = ''done'' \<or> category = ''cancelled''
               then Some (BadRequest (''cannot checkout a task in '' @ category @ '' status''))
               else if category = ''todo'' \<and> ct_DelegationLevel t = ''supervised''
               then Some (ForbiddenWithDetails ''supervised_mode_requires_manual_start''
                      ''task must be moved to in_progress by a human before agent checkout'')
               else refuse_if (scope_invalid scope) (BadRequest ''session_id and request_id must be non-zero UUIDs supplied together'')))"

text \<open>\<open>CheckoutTask\<close> up to the lease and its log entry. The move of a todo card to the first in_progress status that may
  follow is a status write of its own and cannot fail the checkout.\<close>

definition CheckoutTask ::
  "checkout_env \<Rightarrow> uuid \<Rightarrow> int \<Rightarrow> CheckoutScope \<Rightarrow> checkout_store \<Rightarrow> (checkout_error + CheckoutResult) \<times> checkout_store" where
  "CheckoutTask env u ttl scope s =
     (case checkout_refusal env u scope s of
        Some e \<Rightarrow> (Inl (CheckoutRefused e), s)
      | None \<Rightarrow>
          (case AcquireCheckout (ce_db_now env) u (ce_actor env) (ce_token env) (ce_now env + Minutes (clamp_ttl ttl)) scope s of
             (None, s1) \<Rightarrow> (Inl (checkout_conflict s1 u), s1)
           | (Some (lease, changed), s1) \<Rightarrow>
               (checkout_answer (checkoutResult (checkout_GetByID s u) u lease),
                if changed then log_checkout u ''task.checkout_acquired'' s1 else s1)))"

definition releaseExpectedCheckout ::
  "gtime \<Rightarrow> uuid \<Rightarrow> CheckoutExpectation \<Rightarrow> string \<Rightarrow> checkout_store \<Rightarrow> Error option \<times> checkout_store" where
  "releaseExpectedCheckout now u x action s =
     (case CompareReleaseCheckout now u x s of
        (Inl _, s1) \<Rightarrow> (Some (Forbidden ''checkout precondition does not match''), s1)
      | (Inr None, s1) \<Rightarrow> (None, s1)
      | (Inr (Some _), s1) \<Rightarrow> (None, if checkout_GetByID s1 u = None then s1 else log_checkout u action s1))"

definition empty_expectation :: CheckoutExpectation where
  "empty_expectation = \<lparr>cx_Token = None, cx_Holder = None, cx_SessionID = None, cx_Generation = 0, cx_Legacy = False, cx_Reason = ''''\<rparr>"

definition service_ReleaseCheckout :: "checkout_env \<Rightarrow> uuid \<Rightarrow> uuid \<Rightarrow> checkout_store \<Rightarrow> Error option \<times> checkout_store" where
  "service_ReleaseCheckout env u token =
     releaseExpectedCheckout (ce_db_now env) u (empty_expectation\<lparr>cx_Token := Some token\<rparr>) ''task.checkout_released''"

text \<open>A session and a generation are what a caller without a token must quote.\<close>

definition quotes_session :: "CheckoutExpectation \<Rightarrow> bool" where
  "quotes_session x \<longleftrightarrow> \<not> (cx_Generation x \<le> 0 \<or> cx_SessionID x = None \<or> cx_SessionID x = Some uuid_Nil)"

definition SelfReleaseCheckout ::
  "checkout_env \<Rightarrow> uuid \<Rightarrow> CheckoutExpectation option \<Rightarrow> checkout_store \<Rightarrow> Error option \<times> checkout_store" where
  "SelfReleaseCheckout env u input s =
     (if ce_actor env = uuid_Nil then (Some (Forbidden ''authenticated identity required to self-release''), s)
      else case input of
        None \<Rightarrow> releaseExpectedCheckout (ce_db_now env) u
                  (empty_expectation\<lparr>cx_Holder := Some (ce_actor env), cx_Legacy := True\<rparr>) ''task.checkout_released'' s
      | Some x \<Rightarrow>
          if \<not> quotes_session x then (Some (BadRequest ''session_id and generation are required for scoped release''), s)
          else releaseExpectedCheckout (ce_db_now env) u
                 (x\<lparr>cx_Holder := Some (ce_actor env), cx_Token := None, cx_Legacy := False\<rparr>) ''task.checkout_released'' s)"

definition service_ExtendCheckout ::
  "checkout_env \<Rightarrow> uuid \<Rightarrow> uuid \<Rightarrow> int \<Rightarrow> CheckoutExpectation option \<Rightarrow> checkout_store
     \<Rightarrow> (checkout_error + CheckoutResult) \<times> checkout_store" where
  "service_ExtendCheckout env u token ttl input s =
     (let extend = (\<lambda>x. case ExtendScopedCheckout (ce_db_now env) u x (ce_now env + Minutes (clamp_ttl ttl)) s of
                (None, s1) \<Rightarrow> (Inl (CheckoutRefused (Forbidden ''invalid or expired checkout precondition'')), s1)
              | (Some lease, s1) \<Rightarrow> (checkout_answer (checkoutResult (checkout_GetByID s1 u) u lease), s1)) in
      if token \<noteq> uuid_Nil then extend (empty_expectation\<lparr>cx_Token := Some token\<rparr>)
      else case input of
        None \<Rightarrow> (Inl (CheckoutRefused (BadRequest ''checkout token or generation precondition required'')), s)
      | Some x \<Rightarrow>
          if ce_actor env = uuid_Nil \<or> \<not> quotes_session x
          then (Inl (CheckoutRefused (BadRequest ''session_id and generation required'')), s)
          else extend (x\<lparr>cx_Holder := Some (ce_actor env), cx_Token := None, cx_Legacy := False\<rparr>))"

definition service_ForceReleaseCheckout ::
  "checkout_env \<Rightarrow> uuid \<Rightarrow> CheckoutExpectation option \<Rightarrow> checkout_store \<Rightarrow> Error option \<times> checkout_store" where
  "service_ForceReleaseCheckout env u input s =
     (if ce_actor_type env \<noteq> ''user'' then (Some (Forbidden ''admin recovery requires a human workspace owner/admin''), s)
      else let missing = (Some (BadRequest ''recovery requires previous_holder, generation and reason''), s) in
        case input of
          None \<Rightarrow> missing
        | Some x \<Rightarrow>
            if cx_Generation x \<le> 0 \<or> cx_Holder x = None \<or> cx_Holder x = Some uuid_Nil \<or> TrimSpace (cx_Reason x) = '''' then missing
            else if cx_SessionID x = Some uuid_Nil then (Some (BadRequest ''session_id must be a nonzero UUID''), s)
            else releaseExpectedCheckout (ce_db_now env) u (x\<lparr>cx_Token := None, cx_Legacy := False\<rparr>) ''task.checkout_force_released'' s)"


end
