(* ===== verification/Go_Json.thy ===== *)
theory Go_Json
  imports Prelude "HOL-Library.Monad_Syntax"
begin

text \<open>
  What the components use of \<open>encoding/json\<close> and of PostgreSQL's \<open>jsonb\<close>, on trees: the values of a struct's fields under
  their tags, \<open>omitempty\<close>, the replacement of bytes that are no UTF-8, decoding with absent and null fields, and the texts
  that a \<open>jsonb\<close> column refuses. A tree stands for the texts that spell it; a time is written in RFC 3339, of which the tree
  keeps the instant. Decoding looks a field up under its exact tag.
\<close>

section \<open>Trees\<close>

datatype json =
    JNull
  | JBool bool
  | JNum int
  | JStr string
  | JTime gtime
  | JArr "json list"
  | JObj "(string \<times> json) list"

text \<open>The texts of a tree, keys included. \<open>jsonb\<close> refuses the code point 0 in any of them.\<close>

fun json_texts :: "json \<Rightarrow> string list" where
  "json_texts (JStr s) = [s]"
| "json_texts (JArr js) = concat (map json_texts js)"
| "json_texts (JObj fs) = concat (map (\<lambda>(k, j). k # json_texts j) fs)"
| "json_texts _ = []"

definition jsonb_accepts :: "json \<Rightarrow> bool" where
  "jsonb_accepts j \<longleftrightarrow> list_all (\<lambda>s. byte 0 \<notin> set s) (json_texts j)"

section \<open>Texts\<close>

text \<open>\<open>rune_bytes\<close>: how many bytes the UTF-8 encoding at the head of a text has, 0 when there is none.\<close>

definition between :: "nat \<Rightarrow> nat \<Rightarrow> char \<Rightarrow> bool" where
  "between lo hi c \<longleftrightarrow> lo \<le> of_char c \<and> (of_char c :: nat) \<le> hi"

definition follows :: "(char \<Rightarrow> bool) list \<Rightarrow> string \<Rightarrow> bool" where
  "follows ps s \<longleftrightarrow> length ps \<le> length s \<and> list_all2 (\<lambda>p c. p c) ps (take (length ps) s)"

fun rune_bytes :: "string \<Rightarrow> nat" where
  "rune_bytes [] = 0"
| "rune_bytes (c # s) =
     (let cont = between 0x80 0xBF in
      if between 0 0x7F c then 1
      else if between 0xC2 0xDF c \<and> follows [cont] s then 2
      else if between 0xE0 0xE0 c \<and> follows [between 0xA0 0xBF, cont] s then 3
      else if (between 0xE1 0xEC c \<or> between 0xEE 0xEF c) \<and> follows [cont, cont] s then 3
      else if between 0xED 0xED c \<and> follows [between 0x80 0x9F, cont] s then 3
      else if between 0xF0 0xF0 c \<and> follows [between 0x90 0xBF, cont, cont] s then 4
      else if between 0xF1 0xF3 c \<and> follows [cont, cont, cont] s then 4
      else if between 0xF4 0xF4 c \<and> follows [between 0x80 0x8F, cont, cont] s then 4
      else 0)"

text \<open>The encoder writes U+FFFD for every byte that belongs to no encoding.\<close>

function to_utf8 :: "string \<Rightarrow> string" where
  "to_utf8 [] = []"
| "to_utf8 (c # s) =
     (let n = rune_bytes (c # s)
      in if n = 0 then [byte 0xEF, byte 0xBF, byte 0xBD] @ to_utf8 s else take n (c # s) @ to_utf8 (drop (n - 1) s))"
  by pat_completeness auto
termination by (relation "measure length") (auto simp: less_Suc_eq_le)

declare to_utf8.simps(2) [simp del]

function valid_utf8 :: "string \<Rightarrow> bool" where
  "valid_utf8 [] \<longleftrightarrow> True"
| "valid_utf8 (c # s) \<longleftrightarrow> (let n = rune_bytes (c # s) in n \<noteq> 0 \<and> valid_utf8 (drop (n - 1) s))"
  by pat_completeness auto
termination by (relation "measure length") (auto simp: less_Suc_eq_le)

declare valid_utf8.simps(2) [simp del]

lemma to_utf8_valid: "valid_utf8 s \<Longrightarrow> to_utf8 s = s"
proof (induction s rule: valid_utf8.induct)
  case (2 c s)
  from 2(2) have n: "rune_bytes (c # s) \<noteq> 0" "valid_utf8 (drop (rune_bytes (c # s) - 1) s)"
    by (simp_all add: valid_utf8.simps(2) Let_def)
  have "drop (rune_bytes (c # s) - 1) s = drop (rune_bytes (c # s)) (c # s)" using n(1) by (cases "rune_bytes (c # s)") auto
  then show ?case using 2(1) [OF refl n(2)] n(1) by (simp add: to_utf8.simps(2) Let_def del: rune_bytes.simps)
qed simp

lemma valid_ascii: "list_all (between 0 0x7F) s \<Longrightarrow> valid_utf8 s"
  by (induction s) (simp_all add: valid_utf8.simps(2) Let_def)

section \<open>Encoding a struct\<close>

text \<open>A field with \<open>omitempty\<close> has no value when it is a nil pointer, a nil or empty slice or a nil or empty map. A time is
  encoded only in the years 0 to 9999 (of UTC).\<close>

type_synonym fields = "(string \<times> json option) list"

definition struct_json :: "fields \<Rightarrow> json" where
  "struct_json fs = JObj (List.map_filter (\<lambda>(k, v). map_option (Pair k) v) fs)"

definition text_json :: "string \<Rightarrow> json" where
  "text_json s = JStr (to_utf8 s)"

definition omit_none :: "('a \<Rightarrow> json) \<Rightarrow> 'a option \<Rightarrow> json option" where
  "omit_none f p = map_option f p"

definition omit_empty :: "('a \<Rightarrow> json) \<Rightarrow> 'a list \<Rightarrow> json option" where
  "omit_empty f xs = (if xs = [] then None else Some (JArr (map f xs)))"

definition omit_params :: "(string, string) gomap option \<Rightarrow> json option" where
  "omit_params m = (if coalesce [] m = [] then None else Some (JObj (map (\<lambda>(k, v). (to_utf8 k, text_json v)) (coalesce [] m))))"

definition encodable_time :: "gtime \<Rightarrow> bool" where
  "encodable_time t \<longleftrightarrow> - 31622400 * 1000000000 \<le> t \<and> t < 315537897600 * 1000000000"

section \<open>Decoding a struct\<close>

text \<open>\<^const>\<open>None\<close> is the decoder's error. An absent or null field leaves the zero value.\<close>

definition fields_of :: "json \<Rightarrow> (string \<Rightarrow> json option) option" where
  "fields_of j = (case j of JObj fs \<Rightarrow> Some (map_of fs) | JNull \<Rightarrow> Some (\<lambda>_. None) | _ \<Rightarrow> None)"

definition read_field :: "'a \<Rightarrow> (json \<Rightarrow> 'a option) \<Rightarrow> (string \<Rightarrow> json option) \<Rightarrow> string \<Rightarrow> 'a option" where
  "read_field zero f m k = (case m k of None \<Rightarrow> Some zero | Some JNull \<Rightarrow> Some zero | Some j \<Rightarrow> f j)"

definition as_text :: "json \<Rightarrow> string option" where
  "as_text j = (case j of JStr s \<Rightarrow> Some s | _ \<Rightarrow> None)"

definition as_int :: "json \<Rightarrow> int option" where
  "as_int j = (case j of JNum n \<Rightarrow> Some n | _ \<Rightarrow> None)"

definition as_bool :: "json \<Rightarrow> bool option" where
  "as_bool j = (case j of JBool b \<Rightarrow> Some b | _ \<Rightarrow> None)"

definition as_time :: "json \<Rightarrow> gtime option" where
  "as_time j = (case j of JTime t \<Rightarrow> Some t | _ \<Rightarrow> None)"

fun decode_all :: "(json \<Rightarrow> 'a option) \<Rightarrow> json list \<Rightarrow> 'a list option" where
  "decode_all f [] = Some []"
| "decode_all f (j # js) = Option.bind (f j) (\<lambda>x. map_option ((#) x) (decode_all f js))"

definition as_list :: "(json \<Rightarrow> 'a option) \<Rightarrow> json \<Rightarrow> 'a list option" where
  "as_list f j = (case j of JArr js \<Rightarrow> decode_all f js | _ \<Rightarrow> None)"

text \<open>A text element that is null is the empty text; a key that is read twice keeps its last value.\<close>

definition element_text :: "json \<Rightarrow> string option" where
  "element_text j = (if j = JNull then Some '''' else as_text j)"

definition last_wins :: "(string \<times> string) list \<Rightarrow> (string, string) gomap" where
  "last_wins kvs = foldl (\<lambda>m (k, v). AList.update k v m) [] kvs"

definition as_params :: "json \<Rightarrow> (string, string) gomap option" where
  "as_params j = (case j of
       JObj fs \<Rightarrow> map_option (\<lambda>vs. last_wins (zip (map fst fs) vs)) (decode_all element_text (map snd fs))
     | _ \<Rightarrow> None)"

section \<open>What is decoded is what was encoded\<close>

named_theorems json_simps \<open>decoding what the encoder writes\<close>

lemma decode_all_map: "(\<And>x. x \<in> set xs \<Longrightarrow> f (g x) = Some (h x)) \<Longrightarrow> decode_all f (map g xs) = Some (map h xs)"
  by (induction xs) auto

definition field :: "fields \<Rightarrow> string \<Rightarrow> json option" where
  "field fs = map_of (List.map_filter (\<lambda>(k, v). map_option (Pair k) v) fs)"

lemma fields_struct [json_simps]: "fields_of (struct_json fs) = Some (field fs)"
  by (simp add: fields_of_def struct_json_def field_def)

lemma field_Nil [json_simps]: "field [] k = None"
  by (simp add: field_def List.map_filter_simps)

definition or_else :: "'a option \<Rightarrow> 'a option \<Rightarrow> 'a option" where
  "or_else v w = (case v of None \<Rightarrow> w | Some x \<Rightarrow> Some x)"

lemma or_else_simps [json_simps]: "or_else None w = w" "or_else (Some x) w = Some x" "or_else v None = v"
  by (simp_all add: or_else_def split: option.split)

lemma field_Cons [json_simps]: "field ((k', v) # fs) k = (if k = k' then or_else v (field fs k) else field fs k)"
  by (cases v) (simp_all add: field_def or_else_def List.map_filter_simps)

lemma read_missing [json_simps]: "m k = None \<Longrightarrow> read_field z f m k = Some z"
  by (simp add: read_field_def)

lemma struct_value: "struct_json fs \<noteq> JNull"
  by (simp add: struct_json_def)

text \<open>A pointer.\<close>

definition as_pointer :: "(json \<Rightarrow> 'a option) \<Rightarrow> json \<Rightarrow> 'a option option" where
  "as_pointer f j = map_option Some (f j)"

text \<open>What a field of a type needs: decoding undoes encoding up to a change of the value (the texts become UTF-8), and no
  value is encoded as null. Then the field, a pointer to the type and a slice of it come back.\<close>

locale json_codec =
  fixes enc :: "'a \<Rightarrow> json" and dec :: "json \<Rightarrow> 'a option" and norm :: "'a \<Rightarrow> 'a"
  assumes dec_enc: "dec (enc x) = Some (norm x)"
    and enc_value: "enc x \<noteq> JNull"
begin

lemma read_plain: "m k = Some (enc x) \<Longrightarrow> read_field z dec m k = Some (norm x)"
  using dec_enc [of x] enc_value [of x] by (auto simp: read_field_def split: json.splits)

lemma read_pointer:
  assumes "m k = omit_none enc p"
  shows "read_field None (as_pointer dec) m k = Some (map_option norm p)"
proof (cases p)
  case (Some x)
  with assms dec_enc [of x] enc_value [of x] show ?thesis
    by (auto simp: read_field_def omit_none_def as_pointer_def split: json.splits)
qed (use assms in \<open>simp add: read_field_def omit_none_def\<close>)

lemma read_slice: "m k = omit_empty enc xs \<Longrightarrow> read_field [] (as_list dec) m k = Some (map norm xs)"
  using decode_all_map [of xs dec enc norm] dec_enc by (auto simp: read_field_def omit_empty_def as_list_def)

end

interpretation text_codec: json_codec text_json as_text to_utf8
  by unfold_locales (simp_all add: text_json_def as_text_def)

interpretation element_codec: json_codec text_json element_text to_utf8
  by unfold_locales (simp_all add: text_json_def as_text_def element_text_def)

interpretation int_codec: json_codec JNum as_int id
  by unfold_locales (simp_all add: as_int_def)

interpretation bool_codec: json_codec JBool as_bool id
  by unfold_locales (simp_all add: as_bool_def)

interpretation time_codec: json_codec JTime as_time id
  by unfold_locales (simp_all add: as_time_def)

lemmas codec_reads [json_simps] =
  text_codec.read_plain text_codec.read_pointer element_codec.read_slice int_codec.read_pointer bool_codec.read_plain
  time_codec.read_plain time_codec.read_pointer option.map_id id_apply

text \<open>Parameters come back with their texts in UTF-8 and nil for an empty map.\<close>

definition utf8_params :: "(string, string) gomap option \<Rightarrow> (string, string) gomap option" where
  "utf8_params m = (if coalesce [] m = [] then None else Some (last_wins (map (map_prod to_utf8 to_utf8) (coalesce [] m))))"

lemma read_params [json_simps]:
  assumes "m k = omit_params p"
  shows "read_field None (as_pointer as_params) m k = Some (utf8_params p)"
proof (cases "coalesce [] p = []")
  case False
  define kvs where "kvs = coalesce [] p"
  have "decode_all element_text (map (\<lambda>(k, v). text_json v) kvs) = Some (map (\<lambda>(k, v). to_utf8 v) kvs)"
    by (rule decode_all_map) (auto simp: element_text_def text_json_def as_text_def)
  moreover have "map snd (map (\<lambda>(k, v). (to_utf8 k, text_json v)) kvs) = map (\<lambda>(k, v). text_json v) kvs" by auto
  moreover have "zip (map fst (map (\<lambda>(k, v). (to_utf8 k, text_json v)) kvs)) (map (\<lambda>(k, v). to_utf8 v) kvs)
      = map (map_prod to_utf8 to_utf8) kvs"
    by (induction kvs) auto
  ultimately show ?thesis
    using False assms
    by (simp add: read_field_def omit_params_def as_pointer_def as_params_def utf8_params_def flip: kvs_def del: map_map)
qed (use assms in \<open>simp add: read_field_def omit_params_def utf8_params_def\<close>)

lemma last_wins_step: "foldl (\<lambda>m (k, v). AList.update k v m) acc kvs = acc @ kvs" if "distinct (map fst (acc @ kvs))"
  using that
proof (induction kvs arbitrary: acc)
  case (Cons p kvs)
  obtain k v where p: "p = (k, v)" by (cases p)
  have "k \<notin> fst ` set acc" using Cons.prems p by auto
  then have "AList.update k v acc = acc @ [(k, v)]" by (induction acc) auto
  with Cons.IH [of "acc @ [(k, v)]"] Cons.prems p show ?case by simp
qed simp

lemma last_wins_distinct: "gomap_ok kvs \<Longrightarrow> last_wins kvs = kvs"
  using last_wins_step [of "[]" kvs] by (simp add: last_wins_def gomap_ok_def)

text \<open>Clean texts and parameters come back as they are.\<close>

definition clean_text :: "string option \<Rightarrow> bool" where
  "clean_text p \<longleftrightarrow> (case p of None \<Rightarrow> True | Some s \<Rightarrow> valid_utf8 s)"

definition clean_params :: "(string, string) gomap option \<Rightarrow> bool" where
  "clean_params m \<longleftrightarrow> m \<noteq> Some [] \<and> gomap_ok (coalesce [] m) \<and> list_all (\<lambda>(k, v). valid_utf8 k \<and> valid_utf8 v) (coalesce [] m)"

lemma clean_text_same [json_simps]: "clean_text p \<Longrightarrow> map_option to_utf8 p = p"
  by (cases p) (simp_all add: clean_text_def to_utf8_valid)

lemma clean_params_same [json_simps]:
  assumes "clean_params m"
  shows "utf8_params m = m"
proof -
  have "map (map_prod to_utf8 to_utf8) kvs = kvs" if "list_all (\<lambda>(k, v). valid_utf8 k \<and> valid_utf8 v) kvs" for kvs
    by (rule map_idI) (use that in \<open>auto simp: list_all_iff to_utf8_valid\<close>)
  with assms show ?thesis by (cases m) (auto simp: utf8_params_def clean_params_def coalesce_def last_wins_distinct)
qed

end
