(* ===== verification/Runtime_Json.thy ===== *)
theory Runtime_Json
  imports Go_Json
begin

text \<open>
  The values of a card's runtime state (\<open>internal/domain/runtime_state.go\<close>, \<open>operational_constraint.go\<close>) and their JSON:
  each struct is encoded under its tags and decoded again, and \<open>Marshal\<close> drops the fields that are computed on read.
  Decoding gives the value back with its texts in UTF-8.
\<close>

section \<open>Values\<close>

definition ValidRuntimeKind :: "string \<Rightarrow> bool" where
  "ValidRuntimeKind k \<longleftrightarrow> k \<in> {''working'', ''waiting'', ''queued'', ''stopped''}"

text \<open>Fifteen minutes.\<close>

definition RuntimeStateStaleAfter :: duration where
  "RuntimeStateStaleAfter = Minutes 15"

definition validReasonCodes :: "string list" where
  "validReasonCodes =
     [''review_refeed_hold'', ''human_gate'', ''checked_out_elsewhere'', ''recently_done'', ''outside_lane_scope'', ''rescue_exhausted'',
      ''turn_quarantined'', ''guard_refused'', ''completion_signal'', ''supervised_todo'', ''human_decision_gate'', ''umbrella'',
      ''turn_pending'', ''review_cooldown'', ''pause'', ''park'', ''blocker_in_backlog'', ''dependencies_unreadable'']"

definition ValidRuntimeReasonCode :: "string \<Rightarrow> bool" where
  "ValidRuntimeReasonCode c \<longleftrightarrow> c \<in> set validReasonCodes"

definition ValidConstraintClass :: "string \<Rightarrow> bool" where
  "ValidConstraintClass c \<longleftrightarrow>
     c \<in> {''mesh_dependency'', ''local_wait'', ''ci_capacity'', ''review_rejection'', ''expired_authority'', ''write_acl''}"

record ConstraintActor =
  ca_Kind :: string
  ca_ID :: "string option"
  ca_Name :: "string option"

record ConstraintWakeTarget =
  wt_TargetCondition :: "string option"
  wt_Provider :: "string option"
  wt_ProjectPath :: "string option"
  wt_MRIID :: "int option"
  wt_PipelineID :: "int option"
  wt_RequiredJobs :: "string list"
  wt_Until :: "string option"
  wt_UntilAt :: "string option"

record ConstraintWake =
  wk_Predicate :: string
  wk_Ref :: "string option"
  wk_Target :: "ConstraintWakeTarget option"

record ConstraintSource =
  cs_Kind :: string
  cs_Ref :: "string option"

record ConstraintCI =
  ci_State :: string
  ci_Scope :: "string option"
  ci_Position :: "int option"
  ci_Reason :: "string option"
  ci_Provider :: "string option"

text \<open>A Go map that may be nil is an option.\<close>

record OperationalConstraint =
  oc_ID :: string
  oc_Class :: string
  oc_ReasonCode :: string
  oc_ReasonParams :: "(string, string) gomap option"
  oc_Reason :: "string option"
  oc_NextActor :: ConstraintActor
  oc_Wake :: ConstraintWake
  oc_Source :: ConstraintSource
  oc_ObservedAt :: gtime
  oc_Stale :: bool
  oc_CI :: "ConstraintCI option"

record RuntimeState =
  rs_Kind :: string
  rs_Since :: gtime
  rs_Until :: "gtime option"
  rs_Ref :: "string option"
  rs_Lane :: "string option"
  rs_Reason :: "string option"
  rs_ReasonCode :: "string option"
  rs_ReasonParams :: "(string, string) gomap option"
  rs_Constraints :: "OperationalConstraint list"
  rs_UpdatedAt :: gtime
  rs_Source :: string
  rs_Stale :: bool

section \<open>JSON\<close>

text \<open>One encoder, decoder and codec law per struct.\<close>

definition actor_json :: "ConstraintActor \<Rightarrow> json" where
  "actor_json a = struct_json
     [(''kind'', Some (text_json (ca_Kind a))), (''id'', omit_none text_json (ca_ID a)), (''name'', omit_none text_json (ca_Name a))]"

definition as_actor :: "json \<Rightarrow> ConstraintActor option" where
  "as_actor j = do {
     m \<leftarrow> fields_of j;
     kind \<leftarrow> read_field '''' as_text m ''kind'';
     ident \<leftarrow> read_field None (as_pointer as_text) m ''id'';
     name \<leftarrow> read_field None (as_pointer as_text) m ''name'';
     Some \<lparr>ca_Kind = kind, ca_ID = ident, ca_Name = name\<rparr>}"

definition utf8_actor :: "ConstraintActor \<Rightarrow> ConstraintActor" where
  "utf8_actor a = \<lparr>ca_Kind = to_utf8 (ca_Kind a), ca_ID = map_option to_utf8 (ca_ID a), ca_Name = map_option to_utf8 (ca_Name a)\<rparr>"

interpretation actor_codec: json_codec actor_json as_actor utf8_actor
  by unfold_locales (simp_all add: actor_json_def as_actor_def utf8_actor_def json_simps struct_value)

definition target_json :: "ConstraintWakeTarget \<Rightarrow> json" where
  "target_json t = struct_json
     [(''target_condition'', omit_none text_json (wt_TargetCondition t)), (''provider'', omit_none text_json (wt_Provider t)),
      (''project_path'', omit_none text_json (wt_ProjectPath t)), (''mr_iid'', omit_none JNum (wt_MRIID t)),
      (''pipeline_id'', omit_none JNum (wt_PipelineID t)), (''required_jobs'', omit_empty text_json (wt_RequiredJobs t)),
      (''until'', omit_none text_json (wt_Until t)), (''until_at'', omit_none text_json (wt_UntilAt t))]"

definition as_target :: "json \<Rightarrow> ConstraintWakeTarget option" where
  "as_target j = do {
     m \<leftarrow> fields_of j;
     cond \<leftarrow> read_field None (as_pointer as_text) m ''target_condition'';
     provider \<leftarrow> read_field None (as_pointer as_text) m ''provider'';
     path \<leftarrow> read_field None (as_pointer as_text) m ''project_path'';
     iid \<leftarrow> read_field None (as_pointer as_int) m ''mr_iid'';
     pipeline \<leftarrow> read_field None (as_pointer as_int) m ''pipeline_id'';
     jobs \<leftarrow> read_field [] (as_list element_text) m ''required_jobs'';
     until \<leftarrow> read_field None (as_pointer as_text) m ''until'';
     until_at \<leftarrow> read_field None (as_pointer as_text) m ''until_at'';
     Some \<lparr>wt_TargetCondition = cond, wt_Provider = provider, wt_ProjectPath = path, wt_MRIID = iid, wt_PipelineID = pipeline,
           wt_RequiredJobs = jobs, wt_Until = until, wt_UntilAt = until_at\<rparr>}"

definition utf8_target :: "ConstraintWakeTarget \<Rightarrow> ConstraintWakeTarget" where
  "utf8_target t = t\<lparr>wt_TargetCondition := map_option to_utf8 (wt_TargetCondition t), wt_Provider := map_option to_utf8 (wt_Provider t),
     wt_ProjectPath := map_option to_utf8 (wt_ProjectPath t), wt_RequiredJobs := map to_utf8 (wt_RequiredJobs t),
     wt_Until := map_option to_utf8 (wt_Until t), wt_UntilAt := map_option to_utf8 (wt_UntilAt t)\<rparr>"

interpretation target_codec: json_codec target_json as_target utf8_target
proof unfold_locales
  show "as_target (target_json t) = Some (utf8_target t)" for t
    by (cases t) (simp add: target_json_def as_target_def utf8_target_def json_simps)
qed (simp add: target_json_def struct_value)

definition wake_json :: "ConstraintWake \<Rightarrow> json" where
  "wake_json w = struct_json
     [(''predicate'', Some (text_json (wk_Predicate w))), (''ref'', omit_none text_json (wk_Ref w)),
      (''target'', omit_none target_json (wk_Target w))]"

definition as_wake :: "json \<Rightarrow> ConstraintWake option" where
  "as_wake j = do {
     m \<leftarrow> fields_of j;
     predicate \<leftarrow> read_field '''' as_text m ''predicate'';
     ref \<leftarrow> read_field None (as_pointer as_text) m ''ref'';
     target \<leftarrow> read_field None (as_pointer as_target) m ''target'';
     Some \<lparr>wk_Predicate = predicate, wk_Ref = ref, wk_Target = target\<rparr>}"

definition utf8_wake :: "ConstraintWake \<Rightarrow> ConstraintWake" where
  "utf8_wake w = \<lparr>wk_Predicate = to_utf8 (wk_Predicate w), wk_Ref = map_option to_utf8 (wk_Ref w),
     wk_Target = map_option utf8_target (wk_Target w)\<rparr>"

interpretation wake_codec: json_codec wake_json as_wake utf8_wake
  by unfold_locales (simp_all add: wake_json_def as_wake_def utf8_wake_def json_simps struct_value target_codec.read_pointer)

definition source_json :: "ConstraintSource \<Rightarrow> json" where
  "source_json s = struct_json [(''kind'', Some (text_json (cs_Kind s))), (''ref'', omit_none text_json (cs_Ref s))]"

definition as_source :: "json \<Rightarrow> ConstraintSource option" where
  "as_source j = do {
     m \<leftarrow> fields_of j;
     kind \<leftarrow> read_field '''' as_text m ''kind'';
     ref \<leftarrow> read_field None (as_pointer as_text) m ''ref'';
     Some \<lparr>cs_Kind = kind, cs_Ref = ref\<rparr>}"

definition utf8_source :: "ConstraintSource \<Rightarrow> ConstraintSource" where
  "utf8_source s = \<lparr>cs_Kind = to_utf8 (cs_Kind s), cs_Ref = map_option to_utf8 (cs_Ref s)\<rparr>"

interpretation source_codec: json_codec source_json as_source utf8_source
  by unfold_locales (simp_all add: source_json_def as_source_def utf8_source_def json_simps struct_value)

definition ci_json :: "ConstraintCI \<Rightarrow> json" where
  "ci_json c = struct_json
     [(''state'', Some (text_json (ci_State c))), (''scope'', omit_none text_json (ci_Scope c)),
      (''position'', omit_none JNum (ci_Position c)), (''reason'', omit_none text_json (ci_Reason c)),
      (''provider'', omit_none text_json (ci_Provider c))]"

definition as_ci :: "json \<Rightarrow> ConstraintCI option" where
  "as_ci j = do {
     m \<leftarrow> fields_of j;
     state \<leftarrow> read_field '''' as_text m ''state'';
     scope \<leftarrow> read_field None (as_pointer as_text) m ''scope'';
     position \<leftarrow> read_field None (as_pointer as_int) m ''position'';
     reason \<leftarrow> read_field None (as_pointer as_text) m ''reason'';
     provider \<leftarrow> read_field None (as_pointer as_text) m ''provider'';
     Some \<lparr>ci_State = state, ci_Scope = scope, ci_Position = position, ci_Reason = reason, ci_Provider = provider\<rparr>}"

definition utf8_ci :: "ConstraintCI \<Rightarrow> ConstraintCI" where
  "utf8_ci c = c\<lparr>ci_State := to_utf8 (ci_State c), ci_Scope := map_option to_utf8 (ci_Scope c),
     ci_Reason := map_option to_utf8 (ci_Reason c), ci_Provider := map_option to_utf8 (ci_Provider c)\<rparr>"

interpretation ci_codec: json_codec ci_json as_ci utf8_ci
proof unfold_locales
  show "as_ci (ci_json c) = Some (utf8_ci c)" for c
    by (cases c) (simp add: ci_json_def as_ci_def utf8_ci_def json_simps)
qed (simp add: ci_json_def struct_value)

definition constraint_json :: "OperationalConstraint \<Rightarrow> json" where
  "constraint_json c = struct_json
     [(''id'', Some (text_json (oc_ID c))), (''class'', Some (text_json (oc_Class c))),
      (''reason_code'', Some (text_json (oc_ReasonCode c))), (''reason_params'', omit_params (oc_ReasonParams c)),
      (''reason'', omit_none text_json (oc_Reason c)), (''next_actor'', Some (actor_json (oc_NextActor c))),
      (''wake'', Some (wake_json (oc_Wake c))), (''source'', Some (source_json (oc_Source c))),
      (''observed_at'', Some (JTime (oc_ObservedAt c))), (''stale'', Some (JBool (oc_Stale c))),
      (''ci'', omit_none ci_json (oc_CI c))]"

definition as_constraint :: "json \<Rightarrow> OperationalConstraint option" where
  "as_constraint j = do {
     m \<leftarrow> fields_of j;
     ident \<leftarrow> read_field '''' as_text m ''id'';
     class \<leftarrow> read_field '''' as_text m ''class'';
     code \<leftarrow> read_field '''' as_text m ''reason_code'';
     params \<leftarrow> read_field None (as_pointer as_params) m ''reason_params'';
     reason \<leftarrow> read_field None (as_pointer as_text) m ''reason'';
     actor \<leftarrow> read_field \<lparr>ca_Kind = '''', ca_ID = None, ca_Name = None\<rparr> as_actor m ''next_actor'';
     wake \<leftarrow> read_field \<lparr>wk_Predicate = '''', wk_Ref = None, wk_Target = None\<rparr> as_wake m ''wake'';
     source \<leftarrow> read_field \<lparr>cs_Kind = '''', cs_Ref = None\<rparr> as_source m ''source'';
     observed \<leftarrow> read_field 0 as_time m ''observed_at'';
     stale \<leftarrow> read_field False as_bool m ''stale'';
     ci \<leftarrow> read_field None (as_pointer as_ci) m ''ci'';
     Some \<lparr>oc_ID = ident, oc_Class = class, oc_ReasonCode = code, oc_ReasonParams = params, oc_Reason = reason,
           oc_NextActor = actor, oc_Wake = wake, oc_Source = source, oc_ObservedAt = observed, oc_Stale = stale, oc_CI = ci\<rparr>}"

definition utf8_constraint :: "OperationalConstraint \<Rightarrow> OperationalConstraint" where
  "utf8_constraint c = c\<lparr>oc_ID := to_utf8 (oc_ID c), oc_Class := to_utf8 (oc_Class c), oc_ReasonCode := to_utf8 (oc_ReasonCode c),
     oc_ReasonParams := utf8_params (oc_ReasonParams c), oc_Reason := map_option to_utf8 (oc_Reason c),
     oc_NextActor := utf8_actor (oc_NextActor c), oc_Wake := utf8_wake (oc_Wake c), oc_Source := utf8_source (oc_Source c),
     oc_CI := map_option utf8_ci (oc_CI c)\<rparr>"

interpretation constraint_codec: json_codec constraint_json as_constraint utf8_constraint
proof unfold_locales
  show "as_constraint (constraint_json c) = Some (utf8_constraint c)" for c
    by (cases c) (simp add: constraint_json_def as_constraint_def utf8_constraint_def json_simps
        actor_codec.read_plain wake_codec.read_plain source_codec.read_plain ci_codec.read_pointer)
qed (simp add: constraint_json_def struct_value)

section \<open>The stored state\<close>

text \<open>\<open>Marshal\<close> fails when a time is outside the years that JSON can carry.\<close>

definition stored_fields :: "RuntimeState \<Rightarrow> RuntimeState" where
  "stored_fields s = s\<lparr>rs_Constraints := map (\<lambda>c. c\<lparr>oc_Stale := False\<rparr>) (rs_Constraints s), rs_Source := '''', rs_Stale := False\<rparr>"

definition state_json :: "RuntimeState \<Rightarrow> json" where
  "state_json s = struct_json
     [(''kind'', Some (text_json (rs_Kind s))), (''since'', Some (JTime (rs_Since s))), (''until'', omit_none JTime (rs_Until s)),
      (''ref'', omit_none text_json (rs_Ref s)), (''lane'', omit_none text_json (rs_Lane s)),
      (''reason'', omit_none text_json (rs_Reason s)), (''reason_code'', omit_none text_json (rs_ReasonCode s)),
      (''reason_params'', omit_params (rs_ReasonParams s)), (''constraints'', omit_empty constraint_json (rs_Constraints s)),
      (''updated_at'', Some (JTime (rs_UpdatedAt s)))]"

definition state_times :: "RuntimeState \<Rightarrow> gtime list" where
  "state_times s = [rs_Since s, rs_UpdatedAt s] @ (case rs_Until s of None \<Rightarrow> [] | Some u \<Rightarrow> [u]) @ map oc_ObservedAt (rs_Constraints s)"

definition Marshal :: "RuntimeState \<Rightarrow> json option" where
  "Marshal s = (if list_all encodable_time (state_times s) then Some (state_json (stored_fields s)) else None)"

definition Unmarshal :: "json \<Rightarrow> RuntimeState option" where
  "Unmarshal j = do {
     m \<leftarrow> fields_of j;
     kind \<leftarrow> read_field '''' as_text m ''kind'';
     since \<leftarrow> read_field 0 as_time m ''since'';
     until \<leftarrow> read_field None (as_pointer as_time) m ''until'';
     ref \<leftarrow> read_field None (as_pointer as_text) m ''ref'';
     lane \<leftarrow> read_field None (as_pointer as_text) m ''lane'';
     reason \<leftarrow> read_field None (as_pointer as_text) m ''reason'';
     code \<leftarrow> read_field None (as_pointer as_text) m ''reason_code'';
     params \<leftarrow> read_field None (as_pointer as_params) m ''reason_params'';
     constraints \<leftarrow> read_field [] (as_list as_constraint) m ''constraints'';
     updated \<leftarrow> read_field 0 as_time m ''updated_at'';
     source \<leftarrow> read_field '''' as_text m ''source'';
     stale \<leftarrow> read_field False as_bool m ''stale'';
     Some \<lparr>rs_Kind = kind, rs_Since = since, rs_Until = until, rs_Ref = ref, rs_Lane = lane, rs_Reason = reason, rs_ReasonCode = code,
           rs_ReasonParams = params, rs_Constraints = constraints, rs_UpdatedAt = updated, rs_Source = source, rs_Stale = stale\<rparr>}"

definition utf8_state :: "RuntimeState \<Rightarrow> RuntimeState" where
  "utf8_state s = s\<lparr>rs_Kind := to_utf8 (rs_Kind s), rs_Ref := map_option to_utf8 (rs_Ref s), rs_Lane := map_option to_utf8 (rs_Lane s),
     rs_Reason := map_option to_utf8 (rs_Reason s), rs_ReasonCode := map_option to_utf8 (rs_ReasonCode s),
     rs_ReasonParams := utf8_params (rs_ReasonParams s), rs_Constraints := map utf8_constraint (rs_Constraints s)\<rparr>"

lemma Unmarshal_json: "rs_Source s = '''' \<Longrightarrow> \<not> rs_Stale s \<Longrightarrow> Unmarshal (state_json s) = Some (utf8_state s)"
  by (cases s) (simp add: state_json_def Unmarshal_def utf8_state_def json_simps constraint_codec.read_slice)

lemma Unmarshal_Marshal:
  assumes "Marshal s = Some j"
  shows "Unmarshal j = Some (utf8_state (stored_fields s))"
proof -
  have j: "j = state_json (stored_fields s)" using assms by (simp add: Marshal_def split: if_splits)
  show ?thesis unfolding j by (rule Unmarshal_json) (simp_all add: stored_fields_def)
qed

section \<open>Texts that survive\<close>

text \<open>A state whose texts are UTF-8 and whose maps have their keys once comes back as it is.\<close>

definition clean_target :: "ConstraintWakeTarget \<Rightarrow> bool" where
  "clean_target t \<longleftrightarrow> list_all clean_text [wt_TargetCondition t, wt_Provider t, wt_ProjectPath t, wt_Until t, wt_UntilAt t]
     \<and> list_all valid_utf8 (wt_RequiredJobs t)"

definition clean_constraint :: "OperationalConstraint \<Rightarrow> bool" where
  "clean_constraint c \<longleftrightarrow>
     list_all valid_utf8 [oc_ID c, oc_Class c, oc_ReasonCode c, ca_Kind (oc_NextActor c), wk_Predicate (oc_Wake c), cs_Kind (oc_Source c)]
   \<and> list_all clean_text [oc_Reason c, ca_ID (oc_NextActor c), ca_Name (oc_NextActor c), wk_Ref (oc_Wake c), cs_Ref (oc_Source c)]
   \<and> clean_params (oc_ReasonParams c)
   \<and> (case wk_Target (oc_Wake c) of None \<Rightarrow> True | Some t \<Rightarrow> clean_target t)
   \<and> (case oc_CI c of None \<Rightarrow> True
      | Some ci \<Rightarrow> valid_utf8 (ci_State ci) \<and> list_all clean_text [ci_Scope ci, ci_Reason ci, ci_Provider ci])"

definition clean_state :: "RuntimeState \<Rightarrow> bool" where
  "clean_state s \<longleftrightarrow> valid_utf8 (rs_Kind s) \<and> list_all clean_text [rs_Ref s, rs_Lane s, rs_Reason s, rs_ReasonCode s]
     \<and> clean_params (rs_ReasonParams s) \<and> list_all clean_constraint (rs_Constraints s)"

lemma clean_target_same: "clean_target t \<Longrightarrow> utf8_target t = t"
proof -
  assume c: "clean_target t"
  have "map to_utf8 (wt_RequiredJobs t) = wt_RequiredJobs t"
    by (rule map_idI) (use c in \<open>auto simp: clean_target_def list_all_iff to_utf8_valid\<close>)
  with c show ?thesis by (simp add: utf8_target_def clean_target_def json_simps)
qed

lemma clean_constraint_same:
  assumes "clean_constraint c"
  shows "utf8_constraint c = c"
proof -
  note c = assms [unfolded clean_constraint_def]
  have "utf8_actor (oc_NextActor c) = oc_NextActor c" "utf8_source (oc_Source c) = oc_Source c"
    using c by (simp_all add: utf8_actor_def utf8_source_def to_utf8_valid json_simps)
  moreover have "map_option utf8_target (wk_Target (oc_Wake c)) = wk_Target (oc_Wake c)"
    using c by (cases "wk_Target (oc_Wake c)") (simp_all add: clean_target_same)
  then have "utf8_wake (oc_Wake c) = oc_Wake c" using c by (simp add: utf8_wake_def to_utf8_valid json_simps)
  moreover have "map_option utf8_ci (oc_CI c) = oc_CI c"
    using c by (cases "oc_CI c") (simp_all add: utf8_ci_def to_utf8_valid json_simps)
  ultimately show ?thesis using c by (simp add: utf8_constraint_def to_utf8_valid json_simps)
qed

lemma clean_state_same:
  assumes "clean_state s"
  shows "utf8_state s = s"
proof -
  have "map utf8_constraint (rs_Constraints s) = rs_Constraints s"
    by (rule map_idI) (use assms in \<open>auto simp: clean_state_def list_all_iff clean_constraint_same\<close>)
  with assms show ?thesis by (simp add: utf8_state_def clean_state_def to_utf8_valid json_simps)
qed

end
