(* ===== verification/Runtime_State.thy ===== *)
theory Runtime_State
  imports Dependency_Store Task_Checkout Runtime_Json
begin

text \<open>
  What is happening with a card right now: the stored runtime state and its operational constraints
  (\<open>internal/domain/runtime_state.go\<close>, \<open>operational_constraint.go\<close>), their write path (\<open>SetRuntimeState\<close> of the task service and
  repository), the SQL filter over them, and the read side of \<open>internal/handler/runtime_state_handler.go\<close>, which adds the live
  dependencies that hold the card. The column holds the JSON that \<open>Runtime_Json\<close> encodes and decodes. \<open>time.Parse\<close> of an RFC 3339
  time in a wake target is the parameter \<open>rfc3339\<close>.
\<close>

section \<open>Validation errors\<close>

record RuntimeStateValidationError =
  ve_Field :: string
  ve_Message :: string

section \<open>Normalisation\<close>

definition constraintErr :: "nat \<Rightarrow> string \<Rightarrow> string \<Rightarrow> RuntimeStateValidationError" where
  "constraintErr i f msg = \<lparr>ve_Field = ''constraints['' @ FormatInt (int i) @ ''].'' @ f, ve_Message = msg\<rparr>"

text \<open>\<open>trimPtr\<close>: \<^const>\<open>None\<close> when the trimmed text is too long, else the pointer's new value.\<close>

definition trimPtr :: "nat \<Rightarrow> string option \<Rightarrow> string option option" where
  "trimPtr limit p =
     (case p of None \<Rightarrow> Some None
      | Some s \<Rightarrow> let t = TrimSpace s in
          if t = '''' then Some None else if length t > limit then None else Some (Some t))"

definition trimmed :: "nat \<Rightarrow> string option \<Rightarrow> string option" where
  "trimmed limit p = coalesce None (trimPtr limit p)"

definition too_long :: "nat \<Rightarrow> string option \<Rightarrow> bool" where
  "too_long limit p \<longleftrightarrow> trimPtr limit p = None"

definition bad_params :: "(string, string) gomap option \<Rightarrow> bool" where
  "bad_params m \<longleftrightarrow> list_ex (\<lambda>(k, v). k = '''' \<or> length k > 32 \<or> length v > 100) (coalesce [] m)"

definition many_params :: "(string, string) gomap option \<Rightarrow> bool" where
  "many_params m \<longleftrightarrow> length (coalesce [] m) > 8"

definition drop_empty_params :: "(string, string) gomap option \<Rightarrow> (string, string) gomap option" where
  "drop_empty_params m = (if coalesce [] m = [] then None else m)"

definition params_message :: string where
  "params_message = ''keys must be 1-32 chars and values at most 100 chars''"

definition target_error :: "(string \<Rightarrow> gtime option) \<Rightarrow> nat \<Rightarrow> ConstraintWakeTarget \<Rightarrow> RuntimeStateValidationError option" where
  "target_error rfc3339 i t =
     first_refusal
       [refuse_if (length (wt_RequiredJobs t) > 16) (constraintErr i ''wake.target.required_jobs'' ''must have at most 16 entries''),
        refuse_if (list_ex (\<lambda>p. case p of None \<Rightarrow> False | Some s \<Rightarrow> length s > 300)
            [wt_TargetCondition t, wt_Provider t, wt_ProjectPath t, wt_Until t, wt_UntilAt t])
          (constraintErr i ''wake.target'' ''values must be at most 300 characters''),
        refuse_if (list_ex (\<lambda>j. j = '''' \<or> length j > 100) (wt_RequiredJobs t))
          (constraintErr i ''wake.target.required_jobs'' ''names must be 1-100 characters''),
        refuse_if (case wt_UntilAt t of None \<Rightarrow> False | Some s \<Rightarrow> rfc3339 s = None)
          (constraintErr i ''wake.target.until_at'' ''must be RFC3339'')]"

definition trim_ci :: "ConstraintCI \<Rightarrow> ConstraintCI" where
  "trim_ci ci = ci\<lparr>ci_Scope := trimmed 300 (ci_Scope ci), ci_Reason := trimmed 500 (ci_Reason ci), ci_Provider := trimmed 300 (ci_Provider ci)\<rparr>"

definition normalizeConstraintCI :: "nat \<Rightarrow> string \<Rightarrow> ConstraintCI option \<Rightarrow> RuntimeStateValidationError + ConstraintCI option" where
  "normalizeConstraintCI i class p =
     (case p of None \<Rightarrow> Inr None
      | Some ci \<Rightarrow>
          guard_res (first_refusal
            [refuse_if (class \<noteq> ''ci_capacity'') (constraintErr i ''ci'' ''is only allowed for class ci_capacity''),
             refuse_if (ci_State ci \<notin> {''capacity'', ''manual_required'', ''unavailable''})
               (constraintErr i ''ci.state'' ''must be one of capacity, manual_required, unavailable''),
             refuse_if (too_long 300 (ci_Scope ci) \<or> too_long 500 (ci_Reason ci) \<or> too_long 300 (ci_Provider ci))
               (constraintErr i ''ci'' ''values are too long''),
             refuse_if (case ci_Position ci of None \<Rightarrow> False | Some k \<Rightarrow> k < 0) (constraintErr i ''ci.position'' ''must not be negative''),
             refuse_if ((ci_Scope (trim_ci ci) \<noteq> None \<or> ci_Position ci \<noteq> None)
                        \<and> (ci_Provider (trim_ci ci) = None \<or> ci_State ci = ''unavailable''))
               (constraintErr i ''ci'' ''scope and position need a provider and are not allowed while state is unavailable'')])
            (Inr (Some (trim_ci ci))))"

definition trim_constraint :: "OperationalConstraint \<Rightarrow> OperationalConstraint" where
  "trim_constraint c = c\<lparr>oc_ID := TrimSpace (oc_ID c), oc_ReasonCode := TrimSpace (oc_ReasonCode c),
     oc_Reason := trimmed 500 (oc_Reason c), oc_ReasonParams := drop_empty_params (oc_ReasonParams c),
     oc_NextActor := \<lparr>ca_Kind = (if ca_Kind (oc_NextActor c) = '''' then ''unknown'' else ca_Kind (oc_NextActor c)),
                      ca_ID = trimmed 300 (ca_ID (oc_NextActor c)), ca_Name = trimmed 300 (ca_Name (oc_NextActor c))\<rparr>,
     oc_Wake := \<lparr>wk_Predicate = TrimSpace (wk_Predicate (oc_Wake c)), wk_Ref = trimmed 300 (wk_Ref (oc_Wake c)),
                 wk_Target = wk_Target (oc_Wake c)\<rparr>,
     oc_Source := \<lparr>cs_Kind = TrimSpace (cs_Kind (oc_Source c)), cs_Ref = trimmed 300 (cs_Ref (oc_Source c))\<rparr>,
     oc_Stale := False\<rparr>"

definition constraint_error :: "(string \<Rightarrow> gtime option) \<Rightarrow> gtime \<Rightarrow> string list \<Rightarrow> nat \<Rightarrow> OperationalConstraint
    \<Rightarrow> RuntimeStateValidationError option" where
  "constraint_error rfc3339 now seen i c =
     (let t = trim_constraint c in
      first_refusal
        [refuse_if (length (oc_ID t) > 128 \<or> oc_ID t = '''') (constraintErr i ''id'' ''is required, at most 128 characters''),
         refuse_if (oc_ID t \<in> set seen) (constraintErr i ''id'' ''must be unique''),
         refuse_if (\<not> ValidConstraintClass (oc_Class c)) (constraintErr i ''class''
           ''must be one of mesh_dependency, local_wait, ci_capacity, review_rejection, expired_authority, write_acl''),
         refuse_if (length (oc_ReasonCode t) > 64 \<or> oc_ReasonCode t = '''')
           (constraintErr i ''reason_code'' ''is required, at most 64 characters''),
         refuse_if (too_long 500 (oc_Reason c)) (constraintErr i ''reason'' ''must be at most 500 characters''),
         refuse_if (many_params (oc_ReasonParams c)) (constraintErr i ''reason_params'' ''must have at most 8 entries''),
         refuse_if (bad_params (oc_ReasonParams c)) (constraintErr i ''reason_params'' params_message),
         refuse_if (ca_Kind (oc_NextActor t) \<notin> {''agent'', ''human'', ''unknown''})
           (constraintErr i ''next_actor.kind'' ''must be one of agent, human, unknown''),
         refuse_if (too_long 300 (ca_ID (oc_NextActor c)) \<or> too_long 300 (ca_Name (oc_NextActor c)))
           (constraintErr i ''next_actor'' ''id and name must be at most 300 characters''),
         refuse_if (length (wk_Predicate (oc_Wake t)) > 300 \<or> wk_Predicate (oc_Wake t) = '''')
           (constraintErr i ''wake.predicate'' ''is required (use \"unknown\" when the event is not known)''),
         refuse_if (too_long 300 (wk_Ref (oc_Wake c))) (constraintErr i ''wake.ref'' ''must be at most 300 characters''),
         (case wk_Target (oc_Wake c) of None \<Rightarrow> None | Some w \<Rightarrow> target_error rfc3339 i w),
         refuse_if (length (cs_Kind (oc_Source t)) > 64 \<or> cs_Kind (oc_Source t) = '''') (constraintErr i ''source.kind'' ''is required''),
         refuse_if (too_long 300 (cs_Ref (oc_Source c))) (constraintErr i ''source.ref'' ''must be at most 300 characters''),
         refuse_if (IsZero (oc_ObservedAt c)) (constraintErr i ''observed_at'' ''is required''),
         refuse_if (oc_ObservedAt c > now + Minutes 5) (constraintErr i ''observed_at'' ''must not be in the future'')])"

definition normalize_constraint :: "(string \<Rightarrow> gtime option) \<Rightarrow> gtime \<Rightarrow> string list \<Rightarrow> nat \<Rightarrow> OperationalConstraint
    \<Rightarrow> RuntimeStateValidationError + OperationalConstraint" where
  "normalize_constraint rfc3339 now seen i c =
     guard_res (constraint_error rfc3339 now seen i c)
       (bind_res (normalizeConstraintCI i (oc_Class c) (oc_CI c)) (\<lambda>ci. Inr ((trim_constraint c)\<lparr>oc_CI := ci\<rparr>)))"

fun normalize_from :: "(string \<Rightarrow> gtime option) \<Rightarrow> gtime \<Rightarrow> string list \<Rightarrow> nat \<Rightarrow> OperationalConstraint list
    \<Rightarrow> RuntimeStateValidationError + OperationalConstraint list" where
  "normalize_from rfc3339 now seen i [] = Inr []"
| "normalize_from rfc3339 now seen i (c # cs) =
     bind_res (normalize_constraint rfc3339 now seen i c)
       (\<lambda>d. bind_res (normalize_from rfc3339 now (oc_ID d # seen) (Suc i) cs) (\<lambda>ds. Inr (d # ds)))"

definition normalizeConstraints :: "(string \<Rightarrow> gtime option) \<Rightarrow> gtime \<Rightarrow> OperationalConstraint list
    \<Rightarrow> RuntimeStateValidationError + OperationalConstraint list" where
  "normalizeConstraints rfc3339 now cs =
     guard_res (refuse_if (length cs > 16)
         \<lparr>ve_Field = ''constraints'', ve_Message = ''must have at most 16 entries, got '' @ FormatInt (int (length cs))\<rparr>)
       (normalize_from rfc3339 now [] 0 cs)"


definition text_error :: "string \<Rightarrow> string option \<Rightarrow> RuntimeStateValidationError option" where
  "text_error f p =
     refuse_if (too_long 500 p)
       \<lparr>ve_Field = f, ve_Message = ''must be at most 500 characters, got '' @ FormatInt (int (length (TrimSpace (coalesce '''' p))))\<rparr>"

definition trim_code :: "string option \<Rightarrow> string option" where
  "trim_code p = (case p of None \<Rightarrow> None | Some s \<Rightarrow> if TrimSpace s = '''' then None else Some (TrimSpace s))"

definition trim_state :: "gtime \<Rightarrow> RuntimeState \<Rightarrow> RuntimeState" where
  "trim_state now s = s\<lparr>rs_Since := (if IsZero (rs_Since s) then now else rs_Since s), rs_Ref := trimmed 500 (rs_Ref s),
     rs_Lane := trimmed 500 (rs_Lane s), rs_Reason := trimmed 500 (rs_Reason s), rs_ReasonCode := trim_code (rs_ReasonCode s),
     rs_ReasonParams := drop_empty_params (rs_ReasonParams s), rs_UpdatedAt := now, rs_Source := '''', rs_Stale := False\<rparr>"

definition state_error :: "gtime \<Rightarrow> RuntimeState \<Rightarrow> RuntimeStateValidationError option" where
  "state_error now s =
     (let t = trim_state now s in
      first_refusal
        [refuse_if (\<not> ValidRuntimeKind (rs_Kind s)) \<lparr>ve_Field = ''kind'', ve_Message = ''must be one of working, waiting, queued, stopped''\<rparr>,
         refuse_if (case rs_Until s of None \<Rightarrow> False | Some u \<Rightarrow> u < rs_Since t)
           \<lparr>ve_Field = ''until'', ve_Message = ''must not be earlier than since''\<rparr>,
         text_error ''ref'' (rs_Ref s), text_error ''lane'' (rs_Lane s), text_error ''reason'' (rs_Reason s),
         refuse_if (case rs_ReasonCode t of None \<Rightarrow> False | Some c \<Rightarrow> \<not> ValidRuntimeReasonCode c)
           \<lparr>ve_Field = ''reason_code'', ve_Message = ''is not a known reason code''\<rparr>,
         refuse_if (rs_ReasonParams s \<noteq> None \<and> rs_ReasonCode t = None) \<lparr>ve_Field = ''reason_params'', ve_Message = ''require reason_code''\<rparr>,
         refuse_if (many_params (rs_ReasonParams s)) \<lparr>ve_Field = ''reason_params'',
           ve_Message = ''must have at most 8 entries, got '' @ FormatInt (int (length (coalesce [] (rs_ReasonParams s))))\<rparr>,
         refuse_if (bad_params (rs_ReasonParams s)) \<lparr>ve_Field = ''reason_params'', ve_Message = params_message\<rparr>])"

definition Normalize :: "(string \<Rightarrow> gtime option) \<Rightarrow> gtime \<Rightarrow> RuntimeState \<Rightarrow> RuntimeStateValidationError + RuntimeState" where
  "Normalize rfc3339 now s =
     guard_res (state_error now s)
       (bind_res (normalizeConstraints rfc3339 now (rs_Constraints s)) (\<lambda>cs. Inr ((trim_state now s)\<lparr>rs_Constraints := cs\<rparr>)))"

section \<open>The stored value and the effective state\<close>

text \<open>The column \<open>tasks.runtime_state\<close>.\<close>

datatype state_column = Null_state | Column json

definition constraintStale :: "(string \<Rightarrow> gtime option) \<Rightarrow> OperationalConstraint \<Rightarrow> gtime \<Rightarrow> bool" where
  "constraintStale rfc3339 c now \<longleftrightarrow>
     (case Option.bind (wk_Target (oc_Wake c)) wt_UntilAt of None \<Rightarrow> False
      | Some s \<Rightarrow> (case rfc3339 s of None \<Rightarrow> False | Some at \<Rightarrow> now > at))
     \<or> IsZero (oc_ObservedAt c)
     \<or> oc_Class c \<noteq> ''local_wait'' \<and> time_Sub now (oc_ObservedAt c) > RuntimeStateStaleAfter"

definition MarkConstraintsStale :: "(string \<Rightarrow> gtime option) \<Rightarrow> OperationalConstraint list \<Rightarrow> gtime \<Rightarrow> OperationalConstraint list" where
  "MarkConstraintsStale rfc3339 cs now = map (\<lambda>c. c\<lparr>oc_Stale := constraintStale rfc3339 c now\<rparr>) cs"

definition WaitRuntimeRefPrefix :: string where "WaitRuntimeRefPrefix = ''wait:''"

definition explicit_state :: "(string \<Rightarrow> gtime option) \<Rightarrow> gtime \<Rightarrow> RuntimeState \<Rightarrow> RuntimeState" where
  "explicit_state rfc3339 now s =
     (let fromWait = (case rs_Ref s of None \<Rightarrow> False | Some r \<Rightarrow> HasPrefix r WaitRuntimeRefPrefix)
      in s\<lparr>rs_Source := ''explicit'',
           rs_Stale := (\<not> fromWait \<and> time_Sub now (rs_UpdatedAt s) > RuntimeStateStaleAfter
                        \<or> (case rs_Until s of None \<Rightarrow> False | Some u \<Rightarrow> now > u)),
           rs_Constraints := MarkConstraintsStale rfc3339 (rs_Constraints s) now\<rparr>)"

definition plain_state :: "string \<Rightarrow> gtime \<Rightarrow> gtime \<Rightarrow> string \<Rightarrow> RuntimeState" where
  "plain_state kind since updated source =
     \<lparr>rs_Kind = kind, rs_Since = since, rs_Until = None, rs_Ref = None, rs_Lane = None, rs_Reason = None, rs_ReasonCode = None,
      rs_ReasonParams = None, rs_Constraints = [], rs_UpdatedAt = updated, rs_Source = source, rs_Stale = False\<rparr>"

definition checkout_state :: "CheckoutLease \<Rightarrow> gtime \<Rightarrow> RuntimeState option" where
  "checkout_state l now =
     (case cl_Holder l of None \<Rightarrow> None
      | Some h \<Rightarrow>
          if (case cl_ExpiresAt l of None \<Rightarrow> False | Some e \<Rightarrow> \<not> e > now) then None
          else let since = (case cl_AcquiredAt l of None \<Rightarrow> now | Some a \<Rightarrow> a)
               in Some ((plain_state ''working'' since since ''checkout'')\<lparr>rs_Lane := Some (uuid_String h)\<rparr>))"

definition ResolveRuntimeState :: "(string \<Rightarrow> gtime option) \<Rightarrow> state_column \<Rightarrow> CheckoutLease \<Rightarrow> gtime \<Rightarrow> RuntimeState option" where
  "ResolveRuntimeState rfc3339 raw l now =
     (case raw of Null_state \<Rightarrow> checkout_state l now
      | Column j \<Rightarrow>
          if j = JNull then checkout_state l now
          else (case Unmarshal j of None \<Rightarrow> checkout_state l now
            | Some s \<Rightarrow> if ValidRuntimeKind (rs_Kind s) then Some (explicit_state rfc3339 now s) else checkout_state l now))"

section \<open>The row\<close>

record state_row =
  sr_ID :: uuid
  sr_Deleted :: bool
  sr_Lease :: CheckoutLease
  sr_State :: state_column

type_synonym state_store = "state_row list"

definition state_GetByID :: "state_store \<Rightarrow> uuid \<Rightarrow> state_row option" where
  "state_GetByID s u = find (\<lambda>r. sr_ID r = u \<and> \<not> sr_Deleted r) s"

text \<open>\<open>Storage\<close> is an error that is no API error: of \<open>Marshal\<close>, or of the database, which refuses the column's text.\<close>

datatype state_failure = Invalid RuntimeStateValidationError | Api Error | Storage

definition state_payload :: "RuntimeState option \<Rightarrow> state_column option" where
  "state_payload state =
     (case state of None \<Rightarrow> Some Null_state
      | Some v \<Rightarrow> (case Marshal v of None \<Rightarrow> None | Some j \<Rightarrow> if jsonb_accepts j then Some (Column j) else None))"

definition repo_SetRuntimeState :: "state_store \<Rightarrow> uuid \<Rightarrow> RuntimeState option \<Rightarrow> state_failure + state_store" where
  "repo_SetRuntimeState s u state =
     (case state_payload state of None \<Rightarrow> Inl Storage
      | Some payload \<Rightarrow>
          if list_ex (\<lambda>r. sr_ID r = u \<and> \<not> sr_Deleted r) s
          then Inr (map (\<lambda>r. if sr_ID r = u \<and> \<not> sr_Deleted r then r\<lparr>sr_State := payload\<rparr> else r) s)
          else Inl (Api (NotFound ''Task'')))"

text \<open>The WHERE clause of the list filter, with \<open>->>\<close>: the text of the value under a key, NULL when there is none. The text of
  a value that is no string is the argument \<open>kind_text\<close>.\<close>

definition column_kind :: "(json \<Rightarrow> string) \<Rightarrow> state_column \<Rightarrow> string option" where
  "column_kind kind_text raw =
     (case raw of
        Column (JObj fs) \<Rightarrow>
          (case map_of fs ''kind'' of None \<Rightarrow> None | Some JNull \<Rightarrow> None | Some (JStr k) \<Rightarrow> Some k | Some j \<Rightarrow> Some (kind_text j))
      | _ \<Rightarrow> None)"

definition runtimeKindCondition :: "(json \<Rightarrow> string) \<Rightarrow> string \<Rightarrow> state_column \<Rightarrow> CheckoutLease \<Rightarrow> gtime \<Rightarrow> bool" where
  "runtimeKindCondition kind_text k raw l now \<longleftrightarrow>
     sql_true (sql_or (sql_eq (column_kind kind_text raw) k)
       (sql_and (Some (k = ''working''))
         (sql_and (Some (column_kind kind_text raw = None))
           (sql_and (Some (cl_Holder l \<noteq> None)) (sql_or (Some (cl_ExpiresAt l = None)) (sql_less (Some now) (cl_ExpiresAt l)))))))"

definition service_SetRuntimeState :: "(string \<Rightarrow> gtime option) \<Rightarrow> gtime \<Rightarrow> gtime \<Rightarrow> state_store \<Rightarrow> uuid \<Rightarrow> RuntimeState option
    \<Rightarrow> (state_failure + RuntimeState option) \<times> state_store" where
  "service_SetRuntimeState rfc3339 now1 now2 s u state =
     (case state_GetByID s u of None \<Rightarrow> (Inl (Api (NotFound ''Task'')), s)
      | Some _ \<Rightarrow>
     (case (case state of None \<Rightarrow> Inr None | Some v \<Rightarrow> map_sum id Some (Normalize rfc3339 now1 v)) of Inl e \<Rightarrow> (Inl (Invalid e), s)
      | Inr state1 \<Rightarrow>
     (case repo_SetRuntimeState s u state1 of Inl e \<Rightarrow> (Inl e, s)
      | Inr s1 \<Rightarrow>
     (case state_GetByID s1 u of None \<Rightarrow> (Inl (Api (NotFound ''Task'')), s1)
      | Some r \<Rightarrow> (Inr (ResolveRuntimeState rfc3339 (sr_State r) (sr_Lease r) now2), s1)))))"

section \<open>Constraints from live dependencies\<close>

record DependencyEdgeView =
  ev_Edge :: TaskDependency
  ev_Visible :: bool

definition edge_constraint :: "gtime \<Rightarrow> DependencyEdgeView \<Rightarrow> OperationalConstraint option" where
  "edge_constraint now e =
     (let d = ev_Edge e; ref = uuid_String (td_ID d) in
      if td_DependencyType d \<noteq> Blocks \<or> td_ConditionSatisfied d then None
      else Some
        \<lparr>oc_ID = ''dep:'' @ ref, oc_Class = ''mesh_dependency'',
         oc_ReasonCode = (if ev_Visible e then ''dependency_unreleased'' else ''dependency_not_visible''),
         oc_ReasonParams = (if ev_Visible e then Some [(''task_id'', uuid_String (td_DependsOnTaskID d)), (''condition'', td_Condition d)] else None),
         oc_Reason = None, oc_NextActor = \<lparr>ca_Kind = ''unknown'', ca_ID = None, ca_Name = None\<rparr>,
         oc_Wake = (if ev_Visible e
           then \<lparr>wk_Predicate = ''card'', wk_Ref = Some (''card:'' @ uuid_String (td_DependsOnTaskID d)),
                 wk_Target = Some \<lparr>wt_TargetCondition = Some (td_Condition d), wt_Provider = None, wt_ProjectPath = None, wt_MRIID = None,
                                   wt_PipelineID = None, wt_RequiredJobs = [], wt_Until = None, wt_UntilAt = None\<rparr>\<rparr>
           else \<lparr>wk_Predicate = ''unknown'', wk_Ref = None, wk_Target = None\<rparr>),
         oc_Source = \<lparr>cs_Kind = ''task_dependency'', cs_Ref = Some ref\<rparr>, oc_ObservedAt = now, oc_Stale = False, oc_CI = None\<rparr>)"

definition DependencyConstraints :: "DependencyEdgeView list \<Rightarrow> gtime \<Rightarrow> OperationalConstraint list" where
  "DependencyConstraints edges now = List.map_filter (edge_constraint now) edges"

fun keep_new :: "string list \<Rightarrow> OperationalConstraint list \<Rightarrow> OperationalConstraint list" where
  "keep_new seen [] = []"
| "keep_new seen (c # cs) = (if oc_ID c \<in> set seen then keep_new seen cs else c # keep_new (oc_ID c # seen) cs)"

definition MergeConstraints :: "OperationalConstraint list \<Rightarrow> OperationalConstraint list \<Rightarrow> OperationalConstraint list" where
  "MergeConstraints stored derived = keep_new [] (derived @ stored)"

definition DependencyOnlyRuntimeState :: "OperationalConstraint list \<Rightarrow> DependencyEdgeView list \<Rightarrow> gtime \<Rightarrow> RuntimeState option" where
  "DependencyOnlyRuntimeState derived edges now =
     (if derived = [] then None
      else let since = foldl (\<lambda>since e. if \<not> IsZero (td_CreatedAt (ev_Edge e)) \<and> td_CreatedAt (ev_Edge e) < since
                                       then td_CreatedAt (ev_Edge e) else since) now edges
           in Some ((plain_state ''waiting'' since now ''dependency'')\<lparr>rs_Constraints := derived\<rparr>))"

section \<open>The handler\<close>

definition unionConstraints :: "(uuid \<Rightarrow> bool) \<Rightarrow> gtime \<Rightarrow> RuntimeState option \<Rightarrow> TaskDependency list \<Rightarrow> RuntimeState option" where
  "unionConstraints may_access now rs edges =
     (if edges = [] then rs
      else let views = map (\<lambda>e. \<lparr>ev_Edge = e, ev_Visible = may_access (td_DependsOnTaskID e)\<rparr>) edges;
               derived = DependencyConstraints views now
           in case rs of None \<Rightarrow> (case DependencyOnlyRuntimeState derived views now of None \<Rightarrow> rs | Some only \<Rightarrow> Some only)
              | Some s \<Rightarrow>
                  if rs_Source s = ''checkout''
                  then (case DependencyOnlyRuntimeState derived views now of None \<Rightarrow> rs | Some only \<Rightarrow> Some only)
                  else Some (s\<lparr>rs_Constraints := MergeConstraints (rs_Constraints s) derived\<rparr>))"

text \<open>The response of a PUT: \<open>attachDependencyConstraints\<close> ignores the returned state, so only the constraints merged in place
  reach the answer. \<open>edges\<close> is \<^const>\<open>None\<close> when they could not be read.\<close>

definition attachDependencyConstraints :: "(uuid \<Rightarrow> bool) \<Rightarrow> gtime \<Rightarrow> RuntimeState \<Rightarrow> TaskDependency list option \<Rightarrow> RuntimeState" where
  "attachDependencyConstraints may_access now s edges =
     (case edges of None \<Rightarrow> s
      | Some es \<Rightarrow> if es = [] \<or> rs_Source s = ''checkout'' then s else coalesce s (unionConstraints may_access now (Some s) es))"

record put_request =
  pr_Kind :: "string option"
  pr_Since :: "gtime option"
  pr_Until :: "gtime option"
  pr_Ref :: "string option"
  pr_Lane :: "string option"
  pr_Reason :: "string option"
  pr_ReasonCode :: "string option"
  pr_ReasonParams :: "(string, string) gomap option"
  pr_Constraints :: "OperationalConstraint list option"

definition put_state :: "put_request \<Rightarrow> RuntimeState option" where
  "put_state rq =
     (case pr_Kind rq of None \<Rightarrow> None
      | Some k \<Rightarrow> Some \<lparr>rs_Kind = k, rs_Since = coalesce 0 (pr_Since rq), rs_Until = pr_Until rq, rs_Ref = pr_Ref rq, rs_Lane = pr_Lane rq,
                       rs_Reason = pr_Reason rq, rs_ReasonCode = pr_ReasonCode rq, rs_ReasonParams = pr_ReasonParams rq,
                       rs_Constraints = coalesce [] (pr_Constraints rq), rs_UpdatedAt = 0, rs_Source = '''', rs_Stale = False\<rparr>)"

definition malformed_put :: "put_request \<Rightarrow> bool" where
  "malformed_put rq \<longleftrightarrow> pr_Kind rq = None \<and> (pr_Since rq \<noteq> None \<or> pr_Until rq \<noteq> None \<or> pr_Ref rq \<noteq> None \<or> pr_Lane rq \<noteq> None
     \<or> pr_Reason rq \<noteq> None \<or> pr_ReasonCode rq \<noteq> None \<or> pr_ReasonParams rq \<noteq> None \<or> pr_Constraints rq \<noteq> None)"

definition PutRuntimeState ::
  "(string \<Rightarrow> gtime option) \<Rightarrow> (uuid \<Rightarrow> bool) \<Rightarrow> gtime \<Rightarrow> gtime \<Rightarrow> gtime \<Rightarrow> (uuid \<Rightarrow> TaskDependency list option) \<Rightarrow> state_store \<Rightarrow> uuid
    \<Rightarrow> put_request \<Rightarrow> (state_failure + RuntimeState option) \<times> state_store" where
  "PutRuntimeState rfc3339 may_access now1 now2 now3 edges s u rq =
     (if malformed_put rq
      then (Inl (Invalid \<lparr>ve_Field = ''kind'', ve_Message = ''kind is required unless the state is being cleared''\<rparr>), s)
      else case service_SetRuntimeState rfc3339 now1 now2 s u (put_state rq) of
        (Inr (Some eff), s1) \<Rightarrow> (Inr (Some (attachDependencyConstraints may_access now3 eff (edges u))), s1)
      | r \<Rightarrow> r)"

definition DeleteRuntimeState ::
  "(string \<Rightarrow> gtime option) \<Rightarrow> gtime \<Rightarrow> gtime \<Rightarrow> state_store \<Rightarrow> uuid \<Rightarrow> (state_failure + unit) \<times> state_store" where
  "DeleteRuntimeState rfc3339 now1 now2 s u =
     (case service_SetRuntimeState rfc3339 now1 now2 s u None of (r, s1) \<Rightarrow> (map_sum id (\<lambda>_. ()) r, s1))"

text \<open>The read side, one task: a closed card shows no constraints.\<close>

definition attachTaskConstraints ::
  "(uuid \<Rightarrow> bool) \<Rightarrow> gtime \<Rightarrow> TaskDependency list option \<Rightarrow> string \<Rightarrow> RuntimeState option \<Rightarrow> RuntimeState option" where
  "attachTaskConstraints may_access now edges category rs =
     (if category = ''done'' \<or> category = ''cancelled''
      then map_option (\<lambda>s. if rs_Constraints s \<noteq> [] then s\<lparr>rs_Constraints := []\<rparr> else s) rs
      else case edges of None \<Rightarrow> rs | Some es \<Rightarrow> unionConstraints may_access now rs es)"


section \<open>What normalisation accepts\<close>

declare first_refusal.simps [simp del]

definition text_wf :: "nat \<Rightarrow> string option \<Rightarrow> bool" where
  "text_wf n p \<longleftrightarrow> (case p of None \<Rightarrow> True | Some t \<Rightarrow> t \<noteq> '''' \<and> TrimSpace t = t \<and> length t \<le> n)"

definition name_wf :: "nat \<Rightarrow> string \<Rightarrow> bool" where
  "name_wf n s \<longleftrightarrow> s \<noteq> '''' \<and> TrimSpace s = s \<and> length s \<le> n"

definition params_wf :: "(string, string) gomap option \<Rightarrow> bool" where
  "params_wf m \<longleftrightarrow> m \<noteq> Some [] \<and> \<not> many_params m \<and> \<not> bad_params m"

definition ci_wf :: "string \<Rightarrow> ConstraintCI option \<Rightarrow> bool" where
  "ci_wf class p \<longleftrightarrow> (case p of None \<Rightarrow> True
     | Some ci \<Rightarrow> class = ''ci_capacity'' \<and> ci_State ci \<in> {''capacity'', ''manual_required'', ''unavailable''}
         \<and> text_wf 300 (ci_Scope ci) \<and> text_wf 500 (ci_Reason ci) \<and> text_wf 300 (ci_Provider ci)
         \<and> (\<forall>k. ci_Position ci = Some k \<longrightarrow> 0 \<le> k)
         \<and> (ci_Scope ci \<noteq> None \<or> ci_Position ci \<noteq> None \<longrightarrow> ci_Provider ci \<noteq> None \<and> ci_State ci \<noteq> ''unavailable''))"

definition constraint_wf :: "(string \<Rightarrow> gtime option) \<Rightarrow> gtime \<Rightarrow> OperationalConstraint \<Rightarrow> bool" where
  "constraint_wf rfc3339 now c \<longleftrightarrow>
     name_wf 128 (oc_ID c) \<and> ValidConstraintClass (oc_Class c) \<and> name_wf 64 (oc_ReasonCode c) \<and> params_wf (oc_ReasonParams c)
   \<and> text_wf 500 (oc_Reason c) \<and> ca_Kind (oc_NextActor c) \<in> {''agent'', ''human'', ''unknown''}
   \<and> text_wf 300 (ca_ID (oc_NextActor c)) \<and> text_wf 300 (ca_Name (oc_NextActor c))
   \<and> name_wf 300 (wk_Predicate (oc_Wake c)) \<and> text_wf 300 (wk_Ref (oc_Wake c))
   \<and> (\<forall>t. wk_Target (oc_Wake c) = Some t \<longrightarrow> (\<forall>i. target_error rfc3339 i t = None))
   \<and> name_wf 64 (cs_Kind (oc_Source c)) \<and> text_wf 300 (cs_Ref (oc_Source c))
   \<and> \<not> IsZero (oc_ObservedAt c) \<and> oc_ObservedAt c \<le> now + Minutes 5 \<and> \<not> oc_Stale c \<and> ci_wf (oc_Class c) (oc_CI c)"

definition state_wf :: "(string \<Rightarrow> gtime option) \<Rightarrow> gtime \<Rightarrow> RuntimeState \<Rightarrow> bool" where
  "state_wf rfc3339 now s \<longleftrightarrow>
     ValidRuntimeKind (rs_Kind s) \<and> \<not> IsZero (rs_Since s) \<and> (\<forall>u. rs_Until s = Some u \<longrightarrow> rs_Since s \<le> u)
   \<and> text_wf 500 (rs_Ref s) \<and> text_wf 500 (rs_Lane s) \<and> text_wf 500 (rs_Reason s)
   \<and> (\<forall>c. rs_ReasonCode s = Some c \<longrightarrow> ValidRuntimeReasonCode c) \<and> params_wf (rs_ReasonParams s)
   \<and> (rs_ReasonParams s \<noteq> None \<longrightarrow> rs_ReasonCode s \<noteq> None)
   \<and> length (rs_Constraints s) \<le> 16 \<and> distinct (map oc_ID (rs_Constraints s))
   \<and> (\<forall>c\<in>set (rs_Constraints s). constraint_wf rfc3339 now c)
   \<and> rs_UpdatedAt s = now \<and> rs_Source s = '''' \<and> \<not> rs_Stale s"

lemma trimmed_wf: "\<not> too_long n p \<Longrightarrow> text_wf n (trimmed n p)"
  by (cases p) (auto simp: too_long_def trimmed_def trimPtr_def text_wf_def coalesce_def Let_def)

lemma text_wf_fixed: "text_wf n p \<Longrightarrow> \<not> too_long n p \<and> trimmed n p = p"
  by (cases p) (auto simp: too_long_def trimmed_def trimPtr_def text_wf_def coalesce_def Let_def)

lemma params_drop: "\<not> many_params m \<Longrightarrow> \<not> bad_params m \<Longrightarrow> params_wf (drop_empty_params m)"
  by (cases m) (auto simp: params_wf_def drop_empty_params_def many_params_def bad_params_def coalesce_def)

lemma params_fixed: "params_wf m \<Longrightarrow> drop_empty_params m = m \<and> \<not> many_params m \<and> \<not> bad_params m"
  by (cases m) (auto simp: params_wf_def drop_empty_params_def coalesce_def)

lemma target_index: "target_error rfc3339 i t = None \<longleftrightarrow> target_error rfc3339 j t = None"
  unfolding target_error_def first_refusal_None by simp

lemma normalize_ci_wf:
  assumes "normalizeConstraintCI i class p = Inr q"
  shows "ci_wf class q"
proof (cases p)
  case None
  with assms show ?thesis by (simp add: normalizeConstraintCI_def ci_wf_def)
next
  case (Some ci)
  have checks: "class = ''ci_capacity''" "ci_State ci \<in> {''capacity'', ''manual_required'', ''unavailable''}"
    "\<not> too_long 300 (ci_Scope ci)" "\<not> too_long 500 (ci_Reason ci)" "\<not> too_long 300 (ci_Provider ci)"
    "\<not> (case ci_Position ci of None \<Rightarrow> False | Some k \<Rightarrow> k < 0)"
    "\<not> ((ci_Scope (trim_ci ci) \<noteq> None \<or> ci_Position ci \<noteq> None) \<and> (ci_Provider (trim_ci ci) = None \<or> ci_State ci = ''unavailable''))"
    "q = Some (trim_ci ci)"
    using assms unfolding normalizeConstraintCI_def Some option.case guard_res_Inr first_refusal_None by auto
  have t: "ci_State (trim_ci ci) = ci_State ci" "ci_Position (trim_ci ci) = ci_Position ci"
    "text_wf 300 (ci_Scope (trim_ci ci))" "text_wf 500 (ci_Reason (trim_ci ci))" "text_wf 300 (ci_Provider (trim_ci ci))"
    using checks(3-5) by (simp_all add: trim_ci_def trimmed_wf)
  show ?thesis unfolding ci_wf_def checks(8) option.case using checks(1,2,6,7) t by (auto split: option.splits)
qed

lemma ci_wf_fixed:
  assumes "ci_wf class p"
  shows "normalizeConstraintCI i class p = Inr p"
proof (cases p)
  case (Some ci)
  note w = assms [unfolded ci_wf_def Some option.case]
  have t: "trim_ci ci = ci" using w by (simp add: trim_ci_def text_wf_fixed)
  have "\<not> too_long 300 (ci_Scope ci)" "\<not> too_long 500 (ci_Reason ci)" "\<not> too_long 300 (ci_Provider ci)"
    using w by (simp_all add: text_wf_fixed)
  then show ?thesis unfolding normalizeConstraintCI_def Some option.case guard_res_Inr first_refusal_None t
    using w by (auto split: option.splits)
qed (simp add: normalizeConstraintCI_def)


lemma constraint_error_None:
  "constraint_error rfc3339 now seen i c = None \<longleftrightarrow>
     name_wf 128 (TrimSpace (oc_ID c)) \<and> TrimSpace (oc_ID c) \<notin> set seen \<and> ValidConstraintClass (oc_Class c)
   \<and> name_wf 64 (TrimSpace (oc_ReasonCode c)) \<and> \<not> too_long 500 (oc_Reason c)
   \<and> \<not> many_params (oc_ReasonParams c) \<and> \<not> bad_params (oc_ReasonParams c)
   \<and> ca_Kind (oc_NextActor c) \<in> {'''', ''agent'', ''human'', ''unknown''}
   \<and> \<not> too_long 300 (ca_ID (oc_NextActor c)) \<and> \<not> too_long 300 (ca_Name (oc_NextActor c))
   \<and> name_wf 300 (TrimSpace (wk_Predicate (oc_Wake c))) \<and> \<not> too_long 300 (wk_Ref (oc_Wake c))
   \<and> (\<forall>t. wk_Target (oc_Wake c) = Some t \<longrightarrow> (\<forall>i. target_error rfc3339 i t = None))
   \<and> name_wf 64 (TrimSpace (cs_Kind (oc_Source c))) \<and> \<not> too_long 300 (cs_Ref (oc_Source c))
   \<and> \<not> IsZero (oc_ObservedAt c) \<and> oc_ObservedAt c \<le> now + Minutes 5"
proof -
  have t: "(case wk_Target (oc_Wake c) of None \<Rightarrow> None | Some w \<Rightarrow> target_error rfc3339 i w) = None
      \<longleftrightarrow> (\<forall>t. wk_Target (oc_Wake c) = Some t \<longrightarrow> (\<forall>i. target_error rfc3339 i t = None))"
    using target_index by (cases "wk_Target (oc_Wake c)") auto
  have k: "(if ca_Kind (oc_NextActor c) = '''' then ''unknown'' else ca_Kind (oc_NextActor c)) \<in> {''agent'', ''human'', ''unknown''}
      \<longleftrightarrow> ca_Kind (oc_NextActor c) \<in> {'''', ''agent'', ''human'', ''unknown''}" by auto
  have n: "name_wf m (TrimSpace x) \<longleftrightarrow> \<not> (length (TrimSpace x) > m \<or> TrimSpace x = '''')" for m x
    by (auto simp: name_wf_def)
  show ?thesis
    unfolding constraint_error_def Let_def first_refusal_None t [symmetric] n k [symmetric]
    by (simp add: trim_constraint_def not_less de_Morgan_disj)
qed

lemma constraint_wf_trim:
  assumes "constraint_error rfc3339 now seen i c = None" "ci_wf (oc_Class c) ci"
  shows "constraint_wf rfc3339 now ((trim_constraint c)\<lparr>oc_CI := ci\<rparr>) \<and> TrimSpace (oc_ID c) \<notin> set seen"
  using assms(1) [unfolded constraint_error_None] assms(2)
  by (auto simp: constraint_wf_def trim_constraint_def trimmed_wf params_drop)

lemma constraint_wf_fixed:
  assumes w: "constraint_wf rfc3339 now c" and new: "oc_ID c \<notin> set seen"
  shows "normalize_constraint rfc3339 now seen i c = Inr c"
proof -
  note w' = w [unfolded constraint_wf_def]
  have f: "TrimSpace (oc_ID c) = oc_ID c" "TrimSpace (oc_ReasonCode c) = oc_ReasonCode c"
    "TrimSpace (wk_Predicate (oc_Wake c)) = wk_Predicate (oc_Wake c)" "TrimSpace (cs_Kind (oc_Source c)) = cs_Kind (oc_Source c)"
    using w' by (simp_all add: name_wf_def)
  have p: "trimmed 500 (oc_Reason c) = oc_Reason c" "trimmed 300 (ca_ID (oc_NextActor c)) = ca_ID (oc_NextActor c)"
    "trimmed 300 (ca_Name (oc_NextActor c)) = ca_Name (oc_NextActor c)" "trimmed 300 (wk_Ref (oc_Wake c)) = wk_Ref (oc_Wake c)"
    "trimmed 300 (cs_Ref (oc_Source c)) = cs_Ref (oc_Source c)" "drop_empty_params (oc_ReasonParams c) = oc_ReasonParams c"
    using w' by (simp_all add: text_wf_fixed params_fixed)
  have "ca_Kind (oc_NextActor c) \<noteq> ''''" using w' by auto
  then have t: "trim_constraint c = c" using w' unfolding trim_constraint_def f p by simp
  have e: "constraint_error rfc3339 now seen i c = None"
    unfolding constraint_error_None f using w' new by (auto simp: text_wf_fixed params_fixed)
  show ?thesis unfolding normalize_constraint_def e t using ci_wf_fixed w' by simp
qed


lemma normalize_constraint_wf:
  assumes "normalize_constraint rfc3339 now seen i c = Inr d"
  shows "constraint_wf rfc3339 now d \<and> oc_ID d \<notin> set seen"
proof -
  from assms obtain ci where ci: "normalizeConstraintCI i (oc_Class c) (oc_CI c) = Inr ci" "d = (trim_constraint c)\<lparr>oc_CI := ci\<rparr>"
    and e: "constraint_error rfc3339 now seen i c = None" unfolding normalize_constraint_def by auto
  from constraint_wf_trim [OF e normalize_ci_wf [OF ci(1)]] show ?thesis by (simp add: ci(2) trim_constraint_def)
qed

lemma normalize_from_wf:
  "normalize_from rfc3339 now seen i cs = Inr ds \<Longrightarrow>
     (\<forall>d\<in>set ds. constraint_wf rfc3339 now d \<and> oc_ID d \<notin> set seen) \<and> distinct (map oc_ID ds) \<and> length ds = length cs"
proof (induction cs arbitrary: seen i ds)
  case (Cons c cs)
  then obtain d es where d: "normalize_constraint rfc3339 now seen i c = Inr d"
    "normalize_from rfc3339 now (oc_ID d # seen) (Suc i) cs = Inr es" "ds = d # es" by auto
  from Cons.IH [OF d(2)] normalize_constraint_wf [OF d(1)] show ?case by (auto simp: d(3))
qed simp

lemma normalize_from_fixed:
  "\<forall>c\<in>set cs. constraint_wf rfc3339 now c \<and> oc_ID c \<notin> set seen \<Longrightarrow> distinct (map oc_ID cs) \<Longrightarrow>
     normalize_from rfc3339 now seen i cs = Inr cs"
proof (induction cs arbitrary: seen i)
  case (Cons c cs)
  have "normalize_constraint rfc3339 now seen i c = Inr c" by (rule constraint_wf_fixed) (use Cons.prems in auto)
  moreover have "normalize_from rfc3339 now (oc_ID c # seen) (Suc i) cs = Inr cs"
    by (rule Cons.IH) (use Cons.prems in \<open>auto simp: image_iff\<close>)
  ultimately show ?case by simp
qed simp

lemma state_error_None:
  "state_error now s = None \<longleftrightarrow>
     ValidRuntimeKind (rs_Kind s) \<and> (\<forall>u. rs_Until s = Some u \<longrightarrow> (if IsZero (rs_Since s) then now else rs_Since s) \<le> u)
   \<and> \<not> too_long 500 (rs_Ref s) \<and> \<not> too_long 500 (rs_Lane s) \<and> \<not> too_long 500 (rs_Reason s)
   \<and> (\<forall>c. trim_code (rs_ReasonCode s) = Some c \<longrightarrow> ValidRuntimeReasonCode c)
   \<and> (rs_ReasonParams s \<noteq> None \<longrightarrow> trim_code (rs_ReasonCode s) \<noteq> None)
   \<and> \<not> many_params (rs_ReasonParams s) \<and> \<not> bad_params (rs_ReasonParams s)"
  unfolding state_error_def Let_def first_refusal_None text_error_def
  by (auto simp: trim_state_def split: option.split)

lemma reason_code_trimmed: "ValidRuntimeReasonCode c \<Longrightarrow> trim_code (Some c) = Some c"
proof -
  have "list_all (\<lambda>c. TrimSpace c = c \<and> c \<noteq> '''') validReasonCodes" by code_simp
  then show "ValidRuntimeReasonCode c \<Longrightarrow> trim_code (Some c) = Some c"
    by (simp add: ValidRuntimeReasonCode_def list_all_iff trim_code_def)
qed

lemma Normalize_wf:
  assumes "Normalize rfc3339 now s = Inr t" "\<not> IsZero now"
  shows "state_wf rfc3339 now t"
proof -
  from assms(1) obtain cs where cs: "state_error now s = None" "length (rs_Constraints s) \<le> 16"
    "normalize_from rfc3339 now [] 0 (rs_Constraints s) = Inr cs" "t = (trim_state now s)\<lparr>rs_Constraints := cs\<rparr>"
    unfolding Normalize_def normalizeConstraints_def by (auto simp: not_less)
  note e = cs(1) [unfolded state_error_None]
  have "params_wf (drop_empty_params (rs_ReasonParams s))" using e by (simp add: params_drop)
  moreover have "drop_empty_params (rs_ReasonParams s) \<noteq> None \<Longrightarrow> rs_ReasonParams s \<noteq> None"
    by (auto simp: drop_empty_params_def coalesce_def split: if_splits)
  ultimately show ?thesis
    unfolding state_wf_def cs(4) using e normalize_from_wf [OF cs(3)] cs(2) assms(2)
    by (auto simp: trim_state_def trimmed_wf)
qed

lemma Normalize_fixed:
  assumes w: "state_wf rfc3339 now s"
  shows "Normalize rfc3339 now s = Inr s"
proof -
  note w' = w [unfolded state_wf_def]
  have code: "trim_code (rs_ReasonCode s) = rs_ReasonCode s"
    using w' reason_code_trimmed by (cases "rs_ReasonCode s") (auto simp: trim_code_def)
  have e: "state_error now s = None"
    unfolding state_error_None code using w' by (auto simp: text_wf_fixed params_fixed)
  have t: "(trim_state now s)\<lparr>rs_Constraints := rs_Constraints s\<rparr> = s"
    using w' code by (simp add: trim_state_def text_wf_fixed params_fixed)
  have "normalizeConstraints rfc3339 now (rs_Constraints s) = Inr (rs_Constraints s)"
    unfolding normalizeConstraints_def using w' by (simp add: normalize_from_fixed)
  then show ?thesis unfolding Normalize_def e using t by simp
qed

text \<open>C39. The runtime-state validator has exactly the well-formed states as fixed points, and everything it accepts becomes
  one: texts trimmed and bounded, a known kind and reason code, an end not before the beginning, at most sixteen constraints
  with identifiers of their own, each with a known class, an owner, a wake predicate and an observation that is not from the
  future, and CI evidence only with its provider.\<close>

theorem Normalize_wellformed:
  assumes "\<not> IsZero now"
  shows "(Normalize rfc3339 now s = Inr s \<longleftrightarrow> state_wf rfc3339 now s)
    \<and> (\<forall>t. Normalize rfc3339 now s = Inr t \<longrightarrow> state_wf rfc3339 now t \<and> Normalize rfc3339 now t = Inr t)"
  using Normalize_wf [OF _ assms] Normalize_fixed by blast


section \<open>Writing and reading\<close>

lemma state_GetByID_Some:
  "state_GetByID s u = Some r \<Longrightarrow> r \<in> set s \<and> sr_ID r = u \<and> \<not> sr_Deleted r"
  by (auto simp: state_GetByID_def find_Some_iff)

definition put_column :: "uuid \<Rightarrow> state_column \<Rightarrow> state_store \<Rightarrow> state_store" where
  "put_column u col s = map (\<lambda>r. if sr_ID r = u \<and> \<not> sr_Deleted r then r\<lparr>sr_State := col\<rparr> else r) s"

lemma get_put: "state_GetByID (put_column u col s) u = map_option (\<lambda>r. r\<lparr>sr_State := col\<rparr>) (state_GetByID s u)"
  by (induction s) (auto simp: put_column_def state_GetByID_def)

lemma get_put_other: "v \<noteq> u \<Longrightarrow> state_GetByID (put_column u col s) v = state_GetByID s v"
  by (induction s) (auto simp: put_column_def state_GetByID_def)

lemma set_state_cases:
  "service_SetRuntimeState rfc3339 now1 now2 s u state =
     (case state_GetByID s u of None \<Rightarrow> (Inl (Api (NotFound ''Task'')), s)
      | Some r \<Rightarrow>
     (case (case state of None \<Rightarrow> Inr None | Some v \<Rightarrow> map_sum id Some (Normalize rfc3339 now1 v)) of Inl e \<Rightarrow> (Inl (Invalid e), s)
      | Inr state1 \<Rightarrow>
     (case state_payload state1 of None \<Rightarrow> (Inl Storage, s)
      | Some col \<Rightarrow> (Inr (ResolveRuntimeState rfc3339 col (sr_Lease r) now2), put_column u col s))))"
proof (cases "state_GetByID s u")
  case (Some r)
  have ex: "list_ex (\<lambda>r. sr_ID r = u \<and> \<not> sr_Deleted r) s" using state_GetByID_Some [OF Some] by (auto simp: list_ex_iff)
  have repo: "repo_SetRuntimeState s u x = (case state_payload x of None \<Rightarrow> Inl Storage | Some col \<Rightarrow> Inr (put_column u col s))" for x
    using ex by (simp add: repo_SetRuntimeState_def put_column_def split: option.split)
  show ?thesis unfolding service_SetRuntimeState_def Some option.case repo
    by (auto simp: get_put Some split: sum.split option.split)
qed (simp add: service_SetRuntimeState_def)

lemma stored_fields_fixed:
  assumes "state_wf rfc3339 now s"
  shows "stored_fields s = s"
proof -
  note w = assms [unfolded state_wf_def]
  have "map (\<lambda>c. c\<lparr>oc_Stale := False\<rparr>) (rs_Constraints s) = rs_Constraints s"
    by (rule map_idI) (use w in \<open>auto simp: constraint_wf_def\<close>)
  with w show ?thesis by (simp add: stored_fields_def)
qed

lemma valid_kind_utf8: "ValidRuntimeKind k \<Longrightarrow> to_utf8 k = k"
proof -
  have "list_all valid_utf8 [''working'', ''waiting'', ''queued'', ''stopped'']"
    by (simp add: valid_ascii between_def)
  then show "ValidRuntimeKind k \<Longrightarrow> to_utf8 k = k" by (auto simp: ValidRuntimeKind_def to_utf8_valid)
qed

text \<open>What is written for a normalised state, and what every read makes of it.\<close>

lemma written_payload:
  assumes "Normalize rfc3339 now1 v = Inr t" "state_payload (Some t) = Some col"
  shows "\<exists>j. Marshal t = Some j \<and> col = Column j \<and> j = state_json (stored_fields t) \<and> Unmarshal j = Some (utf8_state (stored_fields t))"
proof -
  obtain j where j: "Marshal t = Some j" "col = Column j"
    using assms(2) by (auto simp: state_payload_def split: option.splits if_splits)
  with Unmarshal_Marshal [OF j(1)] show ?thesis by (simp add: Marshal_def split: if_splits)
qed

lemma normalized_kind: "Normalize rfc3339 now1 v = Inr t \<Longrightarrow> ValidRuntimeKind (rs_Kind t)"
  using state_error_None [of now1 v] by (auto simp: Normalize_def trim_state_def)

lemma read_payload:
  assumes "Normalize rfc3339 now1 v = Inr t" "state_payload (Some t) = Some col"
  shows "ResolveRuntimeState rfc3339 col l now = Some (explicit_state rfc3339 now (utf8_state (stored_fields t)))"
proof -
  from written_payload [OF assms] obtain j where j: "col = Column j" "j = state_json (stored_fields t)"
    "Unmarshal j = Some (utf8_state (stored_fields t))" by blast
  have "rs_Kind (utf8_state (stored_fields t)) = rs_Kind t"
    using valid_kind_utf8 [OF normalized_kind [OF assms(1)]] by (simp add: utf8_state_def stored_fields_def)
  with j normalized_kind [OF assms(1)] show ?thesis
    by (simp add: ResolveRuntimeState_def state_json_def struct_value)
qed

lemma fresh_after_write:
  assumes "rs_UpdatedAt t = now1" "now1 \<le> now" "now \<le> now1 + Minutes 15" "\<forall>e. rs_Until t = Some e \<longrightarrow> now \<le> e"
  shows "\<not> rs_Stale (explicit_state rfc3339 now t)"
proof -
  have m: "Minutes 15 = 900000000000" by (simp add: Minutes_def wrap64_def)
  have "time_Sub now now1 \<le> RuntimeStateStaleAfter"
    using assms(2,3) by (simp add: time_Sub_def RuntimeStateStaleAfter_def m min_duration_def max_duration_def)
  then show ?thesis using assms(1,4) by (auto simp: explicit_state_def Let_def split: option.splits)
qed

lemma storable_payload:
  assumes "state_wf rfc3339 now t"
  shows "state_payload (Some t) = (if list_all encodable_time (state_times t) \<and> jsonb_accepts (state_json t)
    then Some (Column (state_json t)) else None)"
  by (simp add: state_payload_def Marshal_def stored_fields_fixed [OF assms])

text \<open>What a stored state reads as.\<close>

lemma stored_reads:
  assumes n: "Normalize rfc3339 now1 v = Inr t" and w: "state_wf rfc3339 now1 t"
    and p: "list_all encodable_time (state_times t)" "jsonb_accepts (state_json t)"
  shows "Marshal t = Some (state_json t)" "Unmarshal (state_json t) = Some (utf8_state t)"
    "ResolveRuntimeState rfc3339 (Column (state_json t)) l now
       = Some ((utf8_state t)\<lparr>rs_Source := ''explicit'',
                  rs_Constraints := MarkConstraintsStale rfc3339 (rs_Constraints (utf8_state t)) now,
                  rs_Stale := rs_Stale (explicit_state rfc3339 now (utf8_state t))\<rparr>)"
    "now1 \<le> now \<Longrightarrow> now \<le> now1 + Minutes 15 \<Longrightarrow> \<forall>e. rs_Until t = Some e \<longrightarrow> now \<le> e
       \<Longrightarrow> \<not> rs_Stale (explicit_state rfc3339 now (utf8_state t))"
proof -
  note fixed = stored_fields_fixed [OF w]
  have payload: "state_payload (Some t) = Some (Column (state_json t))" using p by (simp add: storable_payload [OF w])
  show "Marshal t = Some (state_json t)" using p(1) by (simp add: Marshal_def fixed)
  from Unmarshal_Marshal [OF this] show "Unmarshal (state_json t) = Some (utf8_state t)" by (simp add: fixed)
  show "ResolveRuntimeState rfc3339 (Column (state_json t)) l now
       = Some ((utf8_state t)\<lparr>rs_Source := ''explicit'',
                  rs_Constraints := MarkConstraintsStale rfc3339 (rs_Constraints (utf8_state t)) now,
                  rs_Stale := rs_Stale (explicit_state rfc3339 now (utf8_state t))\<rparr>)"
    using read_payload [OF n payload, of l now] by (simp add: explicit_state_def Let_def fixed)
  have "rs_Until (utf8_state t) = rs_Until t" "rs_UpdatedAt (utf8_state t) = now1"
    using w by (simp_all add: utf8_state_def state_wf_def)
  then show "now1 \<le> now \<Longrightarrow> now \<le> now1 + Minutes 15 \<Longrightarrow> \<forall>e. rs_Until t = Some e \<longrightarrow> now \<le> e
       \<Longrightarrow> \<not> rs_Stale (explicit_state rfc3339 now (utf8_state t))"
    by (intro fresh_after_write) simp_all
qed

text \<open>C26. What is written is what is read, through the JSON of the column and back. A write is accepted exactly for a live card,
  a state that passes validation, times that JSON can carry and texts without the code point 0. Then this answer and every
  later read, until the state is written again, is the normalised state with its texts in UTF-8, marked explicit, with the
  staleness of the reading; when its texts are UTF-8 and its parameters are a map, it is the normalised state itself. It is
  not stale for fifteen minutes after the write as long as its \<open>until\<close>, if it has one, has not passed. A refused write changes
  nothing and no write touches another card.\<close>

theorem runtime_state_roundtrip:
  assumes "service_SetRuntimeState rfc3339 now1 now2 s u (Some v) = (r, s')" "\<not> IsZero now1"
  shows "(case r of
      Inl e \<Rightarrow> s' = s
    | Inr eff \<Rightarrow> \<exists>t j row. Normalize rfc3339 now1 v = Inr t \<and> state_GetByID s' u = Some row
        \<and> Marshal t = Some j \<and> sr_State row = Column j \<and> Unmarshal j = Some (utf8_state t)
        \<and> (clean_state t \<longrightarrow> utf8_state t = t)
        \<and> eff = ResolveRuntimeState rfc3339 (sr_State row) (sr_Lease row) now2
        \<and> (\<forall>l now. ResolveRuntimeState rfc3339 (sr_State row) l now
              = Some ((utf8_state t)\<lparr>rs_Source := ''explicit'',
                        rs_Constraints := MarkConstraintsStale rfc3339 (rs_Constraints (utf8_state t)) now,
                        rs_Stale := rs_Stale (explicit_state rfc3339 now (utf8_state t))\<rparr>)
            \<and> (now1 \<le> now \<and> now \<le> now1 + Minutes 15 \<and> (\<forall>e. rs_Until t = Some e \<longrightarrow> now \<le> e)
                \<longrightarrow> \<not> rs_Stale (explicit_state rfc3339 now (utf8_state t))))
        \<and> (\<forall>w. w \<noteq> u \<longrightarrow> state_GetByID s' w = state_GetByID s w))
    \<and> ((\<exists>eff. r = Inr eff) \<longleftrightarrow> state_GetByID s u \<noteq> None
         \<and> (\<exists>t. Normalize rfc3339 now1 v = Inr t \<and> list_all encodable_time (state_times t) \<and> jsonb_accepts (state_json t)))"
proof (cases "state_GetByID s u")
  case None
  with assms(1) have "r = Inl (Api (NotFound ''Task''))" "s' = s" by (simp_all add: set_state_cases)
  with None show ?thesis by simp
next
  case (Some row0)
  note row0 = this
  show ?thesis
  proof (cases "Normalize rfc3339 now1 v")
    case (Inl e)
    with assms(1) Some have "r = Inl (Invalid e)" "s' = s" by (simp_all add: set_state_cases)
    with Inl show ?thesis by simp
  next
    case (Inr t)
    note w = Normalize_wf [OF Inr assms(2)]
    note cases = assms(1) [unfolded set_state_cases row0 Inr option.case map_sum.simps sum.case storable_payload [OF w]]
    show ?thesis
    proof (cases "list_all encodable_time (state_times t) \<and> jsonb_accepts (state_json t)")
      case False
      have "r = Inl Storage" "s' = s" using cases [unfolded if_not_P [OF False]] by simp_all
      with False Inr show ?thesis by auto
    next
      case True
      have r: "r = Inr (ResolveRuntimeState rfc3339 (Column (state_json t)) (sr_Lease row0) now2)"
        "s' = put_column u (Column (state_json t)) s" using cases [unfolded if_P [OF True]] by simp_all
      have "state_GetByID s' u = Some (row0\<lparr>sr_State := Column (state_json t)\<rparr>)"
        "w \<noteq> u \<Longrightarrow> state_GetByID s' w = state_GetByID s w" for w
        by (simp_all add: r(2) get_put get_put_other row0)
      then show ?thesis
        unfolding r(1) sum.case using stored_reads [OF Inr w] True Inr clean_state_same [of t] row0
        by (intro conjI exI [of _ t] exI [of _ "state_json t"] exI [of _ "row0\<lparr>sr_State := Column (state_json t)\<rparr>"]) simp_all
    qed
  qed
qed

section \<open>The filter\<close>

text \<open>A column a write leaves: NULL, or an object that decodes to a state of a known kind, which is the text under \<open>kind\<close>.\<close>

definition written_column :: "state_column \<Rightarrow> bool" where
  "written_column raw \<longleftrightarrow> (case raw of Null_state \<Rightarrow> True
     | Column j \<Rightarrow> j \<noteq> JNull \<and> (\<exists>t. Unmarshal j = Some t \<and> ValidRuntimeKind (rs_Kind t)
         \<and> (\<forall>kind_text. column_kind kind_text raw = Some (rs_Kind t))))"

lemma payload_written:
  assumes "Normalize rfc3339 now1 v = Inr t" "state_payload (Some t) = Some col"
  shows "written_column col"
proof -
  from written_payload [OF assms] obtain j where j: "col = Column j" "j = state_json (stored_fields t)"
    "Unmarshal j = Some (utf8_state (stored_fields t))" by blast
  note kind = normalized_kind [OF assms(1)]
  have k: "rs_Kind (utf8_state (stored_fields t)) = rs_Kind t" "to_utf8 (rs_Kind t) = rs_Kind t"
    using valid_kind_utf8 [OF kind] by (simp_all add: utf8_state_def stored_fields_def)
  have "column_kind kind_text (Column j) = Some (rs_Kind t)" for kind_text
    by (simp add: column_kind_def j(2) state_json_def struct_json_def text_json_def List.map_filter_simps stored_fields_def k(2))
  with j k kind show ?thesis by (simp add: written_column_def state_json_def struct_value)
qed

type_synonym set_request = "gtime \<times> gtime \<times> uuid \<times> RuntimeState option"

definition run_set :: "(string \<Rightarrow> gtime option) \<Rightarrow> state_store \<Rightarrow> set_request list \<Rightarrow> state_store" where
  "run_set rfc3339 s rqs = foldl (\<lambda>s (now1, now2, u, state). snd (service_SetRuntimeState rfc3339 now1 now2 s u state)) s rqs"

lemma set_state_written:
  assumes "\<forall>r\<in>set s. written_column (sr_State r)"
  shows "\<forall>r\<in>set (snd (service_SetRuntimeState rfc3339 now1 now2 s u state)). written_column (sr_State r)"
proof -
  have put: "\<forall>r\<in>set (put_column u col s). written_column (sr_State r)" if "written_column col" for col
    using assms that by (auto simp: put_column_def)
  have null: "written_column Null_state" by (simp add: written_column_def)
  show ?thesis
  proof (cases "state_GetByID s u")
    case None
    then show ?thesis using assms by (simp add: set_state_cases)
  next
    case (Some r)
    show ?thesis
    proof (cases state)
      case None
      then show ?thesis using put [OF null] by (simp add: set_state_cases Some state_payload_def)
    next
      case (Some v)
      note v = this
      show ?thesis
      proof (cases "Normalize rfc3339 now1 v")
        case (Inl e)
        then show ?thesis using assms by (simp add: set_state_cases \<open>state_GetByID s u = Some r\<close> v)
      next
        case (Inr t)
        show ?thesis
        proof (cases "state_payload (Some t)")
          case None
          with Inr assms show ?thesis by (simp add: set_state_cases \<open>state_GetByID s u = Some r\<close> v)
        next
          case (Some col)
          with Inr put [OF payload_written [OF Inr Some]] show ?thesis
            by (simp add: set_state_cases \<open>state_GetByID s u = Some r\<close> v)
        qed
      qed
    qed
  qed
qed

lemma run_set_written:
  "\<forall>r\<in>set s. written_column (sr_State r) \<Longrightarrow> \<forall>r\<in>set (run_set rfc3339 s rqs). written_column (sr_State r)"
proof (induction rqs arbitrary: s)
  case (Cons q rqs)
  obtain now1 now2 u state where q: "q = (now1, now2, u, state)" by (cases q)
  show ?case using Cons.IH [OF set_state_written [OF Cons.prems]] by (simp add: run_set_def q)
qed (simp add: run_set_def)

text \<open>C25. The list filter by runtime kind finds exactly the cards whose effective state has that kind: along every run of
  writes from rows without a state, the SQL condition and \<open>ResolveRuntimeState\<close> agree on every card, kind and instant, live
  and expired checkouts included.\<close>

theorem runtime_filter_exact:
  assumes "\<forall>r\<in>set s. sr_State r = Null_state" "row \<in> set (run_set rfc3339 s rqs)"
  shows "runtimeKindCondition kind_text k (sr_State row) (sr_Lease row) now
    \<longleftrightarrow> (\<exists>eff. ResolveRuntimeState rfc3339 (sr_State row) (sr_Lease row) now = Some eff \<and> rs_Kind eff = k)"
proof -
  have "\<forall>r\<in>set s. written_column (sr_State r)" using assms(1) by (simp add: written_column_def)
  with assms(2) run_set_written have w: "written_column (sr_State row)" by blast
  show ?thesis
  proof (cases "sr_State row")
    case Null_state
    then show ?thesis
      by (auto simp: runtimeKindCondition_def column_kind_def ResolveRuntimeState_def checkout_state_def plain_state_def Let_def
          split: option.splits)
  next
    case (Column j)
    with w obtain t where t: "j \<noteq> JNull" "Unmarshal j = Some t" "ValidRuntimeKind (rs_Kind t)"
      "column_kind kind_text (Column j) = Some (rs_Kind t)" by (auto simp: written_column_def)
    then show ?thesis
      unfolding Column by (simp add: runtimeKindCondition_def ResolveRuntimeState_def explicit_state_def Let_def)
  qed
qed


section \<open>Live blockers\<close>

lemma keep_new_ids:
  "oc_ID ` set (keep_new seen cs) = oc_ID ` set cs - set seen \<and> distinct (map oc_ID (keep_new seen cs))"
proof (induction cs arbitrary: seen)
  case (Cons c cs)
  from Cons.IH [of seen] Cons.IH [of "oc_ID c # seen"] show ?case by auto
qed simp

lemma keep_new_first:
  "c \<in> set xs \<Longrightarrow> oc_ID c \<notin> set seen \<Longrightarrow> \<exists>d\<in>set (keep_new seen (xs @ ys)). oc_ID d = oc_ID c \<and> d \<in> set xs"
proof (induction xs arbitrary: seen)
  case (Cons x xs)
  show ?case
  proof (cases "oc_ID x \<in> set seen \<or> oc_ID x = oc_ID c")
    case True
    then show ?thesis
    proof
      assume "oc_ID x \<in> set seen"
      with Cons.prems Cons.IH [of seen] show ?thesis by fastforce
    next
      assume "oc_ID x = oc_ID c"
      with Cons.prems(2) show ?thesis by auto
    qed
  next
    case False
    with Cons.prems have "c \<in> set xs" "oc_ID c \<notin> set (oc_ID x # seen)" by auto
    from Cons.IH [OF this] False show ?thesis by auto
  qed
qed simp

definition holding_edge :: "TaskDependency \<Rightarrow> bool" where
  "holding_edge e \<longleftrightarrow> td_DependencyType e = Blocks \<and> \<not> td_ConditionSatisfied e"

text \<open>Two edges that look alike to a caller: the same edge, or two edges at hidden blockers with the same identifier, type,
  verdict and age.\<close>

definition edge_alike :: "(uuid \<Rightarrow> bool) \<Rightarrow> TaskDependency \<Rightarrow> TaskDependency \<Rightarrow> bool" where
  "edge_alike may_access e f \<longleftrightarrow> e = f \<or> \<not> may_access (td_DependsOnTaskID e) \<and> \<not> may_access (td_DependsOnTaskID f) \<and> td_ID e = td_ID f
     \<and> td_DependencyType e = td_DependencyType f \<and> td_ConditionSatisfied e = td_ConditionSatisfied f \<and> td_CreatedAt e = td_CreatedAt f"

definition edge_view :: "(uuid \<Rightarrow> bool) \<Rightarrow> TaskDependency \<Rightarrow> DependencyEdgeView" where
  "edge_view may_access e = \<lparr>ev_Edge = e, ev_Visible = may_access (td_DependsOnTaskID e)\<rparr>"

lemma alike_constraint:
  "edge_alike may_access e f \<Longrightarrow> edge_constraint now (edge_view may_access e) = edge_constraint now (edge_view may_access f)"
  by (auto simp: edge_alike_def edge_constraint_def edge_view_def Let_def)

lemma alike_derived:
  assumes "list_all2 (edge_alike may_access) es fs"
  shows "DependencyConstraints (map (edge_view may_access) es) now = DependencyConstraints (map (edge_view may_access) fs) now"
  using assms unfolding DependencyConstraints_def
  by (induction rule: list_all2_induct) (auto simp: List.map_filter_simps dest: alike_constraint [where now = now] split: option.splits)

lemma alike_only:
  assumes "list_all2 (edge_alike may_access) es fs"
  shows "DependencyOnlyRuntimeState ds (map (edge_view may_access) es) now = DependencyOnlyRuntimeState ds (map (edge_view may_access) fs) now"
proof -
  have "foldl (\<lambda>since e. if \<not> IsZero (td_CreatedAt (ev_Edge e)) \<and> td_CreatedAt (ev_Edge e) < since then td_CreatedAt (ev_Edge e) else since) a
      (map (edge_view may_access) es)
    = foldl (\<lambda>since e. if \<not> IsZero (td_CreatedAt (ev_Edge e)) \<and> td_CreatedAt (ev_Edge e) < since then td_CreatedAt (ev_Edge e) else since) a
      (map (edge_view may_access) fs)" for a
    using assms
  proof (induction arbitrary: a rule: list_all2_induct)
    case (Cons e es f fs)
    have "td_CreatedAt (ev_Edge (edge_view may_access e)) = td_CreatedAt (ev_Edge (edge_view may_access f))"
      using Cons.hyps(1) by (auto simp: edge_alike_def edge_view_def)
    then show ?case using Cons.IH by (simp only: list.map foldl_Cons)
  qed simp
  then show ?thesis by (simp only: DependencyOnlyRuntimeState_def)
qed

lemma union_unfold:
  "unionConstraints may_access now rs edges =
     (if edges = [] then rs
      else let derived = DependencyConstraints (map (edge_view may_access) edges) now;
               only = (case DependencyOnlyRuntimeState derived (map (edge_view may_access) edges) now of None \<Rightarrow> rs | Some only \<Rightarrow> Some only)
           in case rs of None \<Rightarrow> only
              | Some s \<Rightarrow> if rs_Source s = ''checkout'' then only
                          else Some (s\<lparr>rs_Constraints := MergeConstraints (rs_Constraints s) derived\<rparr>))"
  by (simp add: unionConstraints_def edge_view_def [abs_def] Let_def)

lemma derived_holding:
  assumes "e \<in> set edges" "holding_edge e"
  shows "\<exists>c\<in>set (DependencyConstraints (map (edge_view may_access) edges) now). oc_ID c = ''dep:'' @ uuid_String (td_ID e)"
proof -
  obtain c where c: "edge_constraint now (edge_view may_access e) = Some c" "oc_ID c = ''dep:'' @ uuid_String (td_ID e)"
    using assms(2) by (simp add: edge_constraint_def edge_view_def holding_edge_def Let_def)
  have "c \<in> set (List.map_filter (edge_constraint now) (map (edge_view may_access) edges))"
    using assms(1) c(1) by (force simp: List.map_filter_def)
  with c(2) show ?thesis by (auto simp: DependencyConstraints_def)
qed

lemma derived_class: "c \<in> set (DependencyConstraints views now) \<Longrightarrow> oc_Class c = ''mesh_dependency''"
  by (auto simp: DependencyConstraints_def List.map_filter_def edge_constraint_def Let_def split: if_splits)

lemma keep_new_append:
  "keep_new seen (xs @ ys) = keep_new seen xs @ keep_new (rev (map oc_ID (keep_new seen xs)) @ seen) ys"
  by (induction xs arbitrary: seen) simp_all

lemma keep_new_distinct: "distinct (map oc_ID cs) \<Longrightarrow> keep_new seen cs = filter (\<lambda>c. oc_ID c \<notin> set seen) cs"
proof (induction cs arbitrary: seen)
  case (Cons c cs)
  have "filter (\<lambda>d. oc_ID d \<notin> set (oc_ID c # seen)) cs = filter (\<lambda>d. oc_ID d \<notin> set seen) cs"
    by (rule filter_cong) (use Cons.prems in \<open>auto simp: image_iff\<close>)
  with Cons show ?case by simp
qed simp

lemma derived_id:
  "edge_constraint now (edge_view may_access e) = Some c \<Longrightarrow> oc_ID c = ''dep:'' @ uuid_String (td_ID e)"
  by (auto simp: edge_constraint_def edge_view_def Let_def split: if_splits)

lemma derived_distinct:
  "distinct (map td_ID edges) \<Longrightarrow> distinct (map oc_ID (DependencyConstraints (map (edge_view may_access) edges) now))"
proof (induction edges)
  case (Cons e edges)
  have "oc_ID c \<notin> oc_ID ` set (DependencyConstraints (map (edge_view may_access) edges) now)"
    if c: "edge_constraint now (edge_view may_access e) = Some c" for c
  proof
    assume "oc_ID c \<in> oc_ID ` set (DependencyConstraints (map (edge_view may_access) edges) now)"
    then obtain d where d: "d \<in> set (DependencyConstraints (map (edge_view may_access) edges) now)" "oc_ID c = oc_ID d" by blast
    then obtain f where f: "f \<in> set edges" "edge_constraint now (edge_view may_access f) = Some d"
      by (auto simp: DependencyConstraints_def List.map_filter_def)
    with d(2) derived_id [OF c] derived_id [OF f(2)] have "td_ID e = td_ID f" by simp
    with f(1) Cons.prems show False by simp
  qed
  with Cons show ?case by (auto simp: DependencyConstraints_def List.map_filter_simps split: option.split)
qed (simp add: DependencyConstraints_def List.map_filter_simps)

lemma merge_distinct:
  assumes "distinct (map oc_ID ds)" "distinct (map oc_ID stored)"
  shows "MergeConstraints stored ds = ds @ filter (\<lambda>c. oc_ID c \<notin> oc_ID ` set ds) stored"
  by (simp add: MergeConstraints_def keep_new_append keep_new_distinct assms)

text \<open>C27. The read side shows every live blocker and betrays no hidden one. Each edge that holds the card is in the effective
  state's constraints under its own identifier. To an explicit state the blockers are added in front: the constraints the
  producer wrote follow as they are, less those whose identifier is that of a blocker, which gives way to it; no identifier is
  lost and none is listed twice. And replacing what is behind a blocker the caller may not open changes nothing of the answer.\<close>

theorem union_shows_and_hides:
  assumes "list_all2 (edge_alike may_access) edges edges'"
  shows "unionConstraints may_access now rs edges' = unionConstraints may_access now rs edges
    \<and> (\<forall>e\<in>set edges. holding_edge e \<longrightarrow> (\<exists>out. unionConstraints may_access now rs edges = Some out
         \<and> (\<exists>c\<in>set (rs_Constraints out). oc_ID c = ''dep:'' @ uuid_String (td_ID e) \<and> oc_Class c = ''mesh_dependency'')))
    \<and> (\<forall>s. edges \<noteq> [] \<and> rs = Some s \<and> rs_Source s \<noteq> ''checkout'' \<longrightarrow> (\<exists>out. unionConstraints may_access now rs edges = Some out
         \<and> oc_ID ` set (rs_Constraints s) \<subseteq> oc_ID ` set (rs_Constraints out) \<and> distinct (map oc_ID (rs_Constraints out))
         \<and> rs_Kind out = rs_Kind s
         \<and> (distinct (map td_ID edges) \<and> distinct (map oc_ID (rs_Constraints s))
            \<longrightarrow> (let ds = DependencyConstraints (map (edge_view may_access) edges) now
                in out = s\<lparr>rs_Constraints := ds @ filter (\<lambda>c. oc_ID c \<notin> oc_ID ` set ds) (rs_Constraints s)\<rparr>))))"
proof (intro conjI ballI allI impI; (elim conjE)?)
  have "edges = [] \<longleftrightarrow> edges' = []" using assms by auto
  then show "unionConstraints may_access now rs edges' = unionConstraints may_access now rs edges"
    by (simp only: union_unfold alike_derived [OF assms] alike_only [OF assms])
  let ?ds = "DependencyConstraints (map (edge_view may_access) edges) now"
  show "\<exists>out. unionConstraints may_access now rs edges = Some out
      \<and> (\<exists>c\<in>set (rs_Constraints out). oc_ID c = ''dep:'' @ uuid_String (td_ID e) \<and> oc_Class c = ''mesh_dependency'')"
    if e: "e \<in> set edges" "holding_edge e" for e
  proof -
    from derived_holding [OF e] obtain c where c: "c \<in> set ?ds" "oc_ID c = ''dep:'' @ uuid_String (td_ID e)" by blast
    have ne: "edges \<noteq> []" "?ds \<noteq> []" using e(1) c(1) by auto
    have d: "\<exists>d\<in>set (MergeConstraints xs ?ds). oc_ID d = oc_ID c \<and> oc_Class d = ''mesh_dependency''" for xs
      using keep_new_first [OF c(1), of "[]" xs] derived_class unfolding MergeConstraints_def by (metis empty_iff list.set(1))
    have only: "\<exists>d\<in>set ?ds. oc_ID d = oc_ID c \<and> oc_Class d = ''mesh_dependency''" using c(1) derived_class by blast
    show ?thesis unfolding union_unfold Let_def c(2) [symmetric]
      using ne d only by (cases rs) (auto simp: DependencyOnlyRuntimeState_def Let_def)
  qed
  show "\<exists>out. unionConstraints may_access now rs edges = Some out
      \<and> oc_ID ` set (rs_Constraints s) \<subseteq> oc_ID ` set (rs_Constraints out) \<and> distinct (map oc_ID (rs_Constraints out))
      \<and> rs_Kind out = rs_Kind s
      \<and> (distinct (map td_ID edges) \<and> distinct (map oc_ID (rs_Constraints s))
         \<longrightarrow> (let ds = ?ds in out = s\<lparr>rs_Constraints := ds @ filter (\<lambda>c. oc_ID c \<notin> oc_ID ` set ds) (rs_Constraints s)\<rparr>))"
    if h: "edges \<noteq> []" "rs = Some s" "rs_Source s \<noteq> ''checkout''" for s
  proof -
    define out where "out = s\<lparr>rs_Constraints := MergeConstraints (rs_Constraints s) ?ds\<rparr>"
    have "unionConstraints may_access now rs edges = Some out" using h by (simp add: union_unfold out_def)
    moreover have "oc_ID ` set (rs_Constraints s) \<subseteq> oc_ID ` set (rs_Constraints out)" "distinct (map oc_ID (rs_Constraints out))"
      using keep_new_ids [of "[]" "?ds @ rs_Constraints s"] by (auto simp: out_def MergeConstraints_def)
    moreover have "rs_Kind out = rs_Kind s" by (simp add: out_def)
    moreover have "out = s\<lparr>rs_Constraints := ?ds @ filter (\<lambda>c. oc_ID c \<notin> oc_ID ` set ?ds) (rs_Constraints s)\<rparr>"
      if "distinct (map td_ID edges)" "distinct (map oc_ID (rs_Constraints s))"
      using merge_distinct [OF derived_distinct [OF that(1)] that(2), of may_access now] by (simp add: out_def)
    ultimately show ?thesis by (simp add: Let_def)
  qed
qed


section \<open>Witnesses\<close>

definition sample_lease :: CheckoutLease where
  "sample_lease = \<lparr>cl_Holder = Some 5, cl_Token = Some 6, cl_ExpiresAt = Some 100, cl_AcquiredAt = Some 3, cl_SessionID = None,
     cl_RequestID = None, cl_Generation = 1\<rparr>"

definition sample_rows :: state_store where
  "sample_rows = [\<lparr>sr_ID = 1, sr_Deleted = False, sr_Lease = sample_lease, sr_State = Null_state\<rparr>]"

definition sample_state :: RuntimeState where
  "sample_state = (plain_state ''waiting'' 0 0 ''client'')\<lparr>rs_Ref := Some '' ci:12 '', rs_Until := Some 50, rs_ReasonCode := Some ''pause''\<rparr>"

definition blocking_edge :: "uuid \<Rightarrow> TaskDependency" where
  "blocking_edge b = (sample_edge '''')\<lparr>td_DependsOnTaskID := b, td_ConditionSatisfied := False\<rparr>"

definition sample_stored :: RuntimeState where
  "sample_stored = (plain_state ''waiting'' 7 7 '''')\<lparr>rs_Ref := Some ''ci:12'', rs_Until := Some 50, rs_ReasonCode := Some ''pause''\<rparr>"

lemma sample_normalizes: "Normalize (\<lambda>_. None) 7 sample_state = Inr sample_stored"
proof -
  have t: "TrimSpace '' ci:12 '' = ''ci:12''" "TrimSpace ''pause'' = ''pause''" by code_simp+
  have k: "ValidRuntimeKind ''waiting''" "ValidRuntimeReasonCode ''pause''" by code_simp+
  have "state_error 7 sample_state = None" unfolding state_error_None
    by (simp add: sample_state_def plain_state_def IsZero_def too_long_def trimPtr_def trim_code_def many_params_def bad_params_def
        coalesce_def t k)
  then show ?thesis
    by (simp add: Normalize_def normalizeConstraints_def sample_state_def sample_stored_def plain_state_def trim_state_def IsZero_def
        trimmed_def trimPtr_def trim_code_def drop_empty_params_def coalesce_def t)
qed

theorem Normalize_wellformed_witness:
  "\<exists>t. Normalize (\<lambda>_. None) 7 sample_state = Inr t \<and> state_wf (\<lambda>_. None) 7 t \<and> Normalize (\<lambda>_. None) 7 t = Inr t"
proof -
  have "\<not> IsZero 7" by (simp add: IsZero_def)
  from Normalize_wellformed [OF this, of "\<lambda>_. None" sample_state] sample_normalizes show ?thesis by blast
qed

lemma sample_storable:
  "list_all encodable_time (state_times sample_stored)" "jsonb_accepts (state_json sample_stored)" "clean_state sample_stored"
  by code_simp+

lemma sample_live: "state_GetByID sample_rows 1 \<noteq> None"
  by (simp add: sample_rows_def state_GetByID_def)

theorem runtime_state_roundtrip_witness:
  "\<exists>eff row j. fst (service_SetRuntimeState (\<lambda>_. None) 7 8 sample_rows 1 (Some sample_state)) = Inr eff
    \<and> state_GetByID (snd (service_SetRuntimeState (\<lambda>_. None) 7 8 sample_rows 1 (Some sample_state))) 1 = Some row
    \<and> sr_State row = Column j \<and> Unmarshal j = Some sample_stored"
proof -
  obtain r s' where rs: "service_SetRuntimeState (\<lambda>_. None) 7 8 sample_rows 1 (Some sample_state) = (r, s')" by fastforce
  have "\<not> IsZero 7" by (simp add: IsZero_def)
  note all = runtime_state_roundtrip [OF rs this]
  then obtain eff where r: "r = Inr eff" using sample_live sample_normalizes sample_storable(1,2) by blast
  from all sample_storable(3) show ?thesis unfolding rs r by (auto simp: sample_normalizes)
qed

lemma sample_runs: "list_ex (\<lambda>r. sr_State r \<noteq> Null_state) (run_set (\<lambda>_. None) sample_rows [(7, 8, 1, Some sample_state)])"
proof -
  have "stored_fields sample_stored = sample_stored" by (simp add: stored_fields_def sample_stored_def plain_state_def)
  then have "state_payload (Some sample_stored) = Some (Column (state_json sample_stored))"
    using sample_storable(1,2) by (simp add: state_payload_def Marshal_def)
  then show ?thesis
    by (simp add: run_set_def set_state_cases state_GetByID_def sample_rows_def sample_normalizes put_column_def)
qed

theorem runtime_filter_exact_witness:
  "\<exists>row. row \<in> set (run_set (\<lambda>_. None) sample_rows [(7, 8, 1, Some sample_state)]) \<and> sr_State row \<noteq> Null_state
    \<and> (runtimeKindCondition (\<lambda>_. '''') ''waiting'' (sr_State row) (sr_Lease row) 20
       \<longleftrightarrow> (\<exists>eff. ResolveRuntimeState (\<lambda>_. None) (sr_State row) (sr_Lease row) 20 = Some eff \<and> rs_Kind eff = ''waiting''))"
proof -
  from sample_runs obtain row where row: "row \<in> set (run_set (\<lambda>_. None) sample_rows [(7, 8, 1, Some sample_state)])" "sr_State row \<noteq> Null_state"
    by (auto simp: list_ex_iff)
  have "\<forall>r\<in>set sample_rows. sr_State r = Null_state" by (simp add: sample_rows_def)
  from runtime_filter_exact [OF this row(1)] row show ?thesis by blast
qed

theorem union_shows_and_hides_witness:
  "unionConstraints (\<lambda>_. False) 9 None [blocking_edge 4] = unionConstraints (\<lambda>_. False) 9 None [blocking_edge 3]
   \<and> unionConstraints (\<lambda>_. False) 9 None [blocking_edge 3] \<noteq> None"
proof -
  have "list_all2 (edge_alike (\<lambda>_. False)) [blocking_edge 3] [blocking_edge 4]"
    by (simp add: edge_alike_def blocking_edge_def)
  moreover have "holding_edge (blocking_edge 3)" by (simp add: holding_edge_def blocking_edge_def sample_edge_def)
  ultimately show ?thesis using union_shows_and_hides [of "\<lambda>_. False" "[blocking_edge 3]" "[blocking_edge 4]" 9 None] by auto
qed

text \<open>
  Clearing the state of a card that is checked out and blocked answers the checkout's state, while every read of the card
  shows it waiting: \<open>attachDependencyConstraints\<close> drops the state that \<open>unionConstraints\<close> returns in place of it.
\<close>

lemma put_clear_hides_blockers:
  "case PutRuntimeState (\<lambda>_. None) (\<lambda>_. True) 7 8 9 (\<lambda>_. Some [blocking_edge 3]) sample_rows 1
      \<lparr>pr_Kind = None, pr_Since = None, pr_Until = None, pr_Ref = None, pr_Lane = None, pr_Reason = None, pr_ReasonCode = None,
       pr_ReasonParams = None, pr_Constraints = None\<rparr> of
     (Inr (Some eff), s) \<Rightarrow> rs_Kind eff = ''working'' \<and> rs_Constraints eff = []
   | _ \<Rightarrow> False"
  "map_option rs_Kind (attachTaskConstraints (\<lambda>_. True) 9 (Some [blocking_edge 3]) ''todo''
     (ResolveRuntimeState (\<lambda>_. None) Null_state sample_lease 9)) = Some ''waiting''"
  by code_simp+

end
