(* ===== verification/Vcs_Evidence.thy ===== *)
theory Vcs_Evidence
  imports Api_Error Go_Strings
begin

text \<open>
  Proof of delivery on a task's pull-request links: \<open>internal/domain/vcs_link.go\<close>, the check folding of
  \<open>internal/integration/github/client.go\<close>, and the synchronisation \<open>internal/service/vcs_github_evidence.go\<close> that the workflow gate
  runs before it judges (\<open>syncGitHubEvidenceWrote\<close> of \<open>workflow_transition_gate.go\<close>).

  A link's metadata is its decoded top-level object. What GitHub answers is the parameter \<open>github_api\<close>.
\<close>

section \<open>Links\<close>

text \<open>A metadata value: a string, or anything else.\<close>

datatype meta_value = MetaString string | MetaOther

record VCSLink =
  vl_ID :: uuid
  vl_TaskID :: uuid
  vl_Provider :: string
  vl_LinkType :: string
  vl_ExternalID :: string
  vl_URL :: string
  vl_Title :: string
  vl_Status :: string
  vl_Metadata :: "(string, meta_value) gomap"
  vl_CreatedAt :: gtime
  vl_PipelineStatus :: "string option"
  vl_PipelineID :: "int option"

definition meta_text :: "VCSLink \<Rightarrow> string \<Rightarrow> string" where
  "meta_text l key = (case go_get MetaOther (vl_Metadata l) key of MetaString s \<Rightarrow> s | MetaOther \<Rightarrow> '''')"

definition IsReviewSubject :: "VCSLink \<Rightarrow> bool" where
  "IsReviewSubject l \<longleftrightarrow> meta_text l ''role'' = ''review''"

definition IsRelatesTo :: "VCSLink \<Rightarrow> bool" where
  "IsRelatesTo l \<longleftrightarrow> meta_text l ''relation'' = ''relates_to''"

definition metaString :: "VCSLink \<Rightarrow> string \<Rightarrow> string" where
  "metaString l key = TrimSpace (meta_text l key)"

definition HeadSHA :: "VCSLink \<Rightarrow> string" where
  "HeadSHA l = metaString l ''head_sha''"

definition PipelineSHA :: "VCSLink \<Rightarrow> string" where
  "PipelineSHA l = metaString l ''pipeline_sha''"

definition ShipSHA :: "VCSLink \<Rightarrow> string" where
  "ShipSHA l = metaString l ''ship_sha''"

definition ShipEvidenceGaps :: "VCSLink \<Rightarrow> string list" where
  "ShipEvidenceGaps l =
     (if vl_LinkType l \<noteq> ''pr'' then [''not_a_pr_link'']
      else let head = HeadSHA l; ship = ShipSHA l in
        (if vl_Status l \<noteq> ''merged'' then [''mr_not_merged''] else [])
        @ (if ship = '''' then [''missing_ship_sha''] else [])
        @ (if head = '''' then [''missing_head_sha''] else [])
        @ (if head \<noteq> '''' \<and> ship \<noteq> '''' \<and> head \<noteq> ship then [''stale_ship_sha''] else [])
        @ (if head \<noteq> '''' \<and> PipelineSHA l \<noteq> head then [''pipeline_sha_mismatch''] else [])
        @ (if vl_PipelineStatus l \<noteq> Some ''success'' then [''pipeline_not_success''] else []))"

definition IsMergedShippedGreen :: "VCSLink \<Rightarrow> bool" where
  "IsMergedShippedGreen l \<longleftrightarrow> ShipEvidenceGaps l = []"

text \<open>The links that stand for the card's own work.\<close>

definition delivery_link :: "VCSLink \<Rightarrow> bool" where
  "delivery_link l \<longleftrightarrow> \<not> (vl_LinkType l \<noteq> ''pr'' \<or> IsReviewSubject l \<or> IsRelatesTo l)"

definition mergedShippedEvidence :: "VCSLink list \<Rightarrow> bool" where
  "mergedShippedEvidence links =
     (let own = filter delivery_link links in list_all IsMergedShippedGreen own \<and> own \<noteq> [])"

section \<open>The diagnosis of a refusal\<close>

record ShipEvidenceLink =
  sl_LinkID :: uuid
  sl_ExternalID :: string
  sl_URL :: string
  sl_Reasons :: "string list"

record ShipEvidenceDiagnosis =
  sd_Links :: "ShipEvidenceLink list"
  sd_Reasons :: "string list"

text \<open>The union in first-seen order.\<close>

definition add_reason :: "string \<Rightarrow> string list \<Rightarrow> string list" where
  "add_reason g rs = (if g \<in> set rs then rs else rs @ [g])"

definition diagnose_link :: "VCSLink \<Rightarrow> ShipEvidenceDiagnosis \<Rightarrow> ShipEvidenceDiagnosis" where
  "diagnose_link l d =
     (if \<not> delivery_link l then d
      else let gaps = ShipEvidenceGaps l in
        \<lparr>sd_Links = sd_Links d @ [\<lparr>sl_LinkID = vl_ID l, sl_ExternalID = vl_ExternalID l, sl_URL = vl_URL l, sl_Reasons = gaps\<rparr>],
         sd_Reasons = fold add_reason gaps (sd_Reasons d)\<rparr>)"

definition diagnoseMergedShipped :: "VCSLink list \<Rightarrow> ShipEvidenceDiagnosis" where
  "diagnoseMergedShipped links =
     (let d = fold diagnose_link links \<lparr>sd_Links = [], sd_Reasons = []\<rparr> in
      if sd_Links d = [] then d\<lparr>sd_Reasons := sd_Reasons d @ [''no_delivery_link'']\<rparr> else d)"

section \<open>What GitHub says\<close>

record check_run =
  ck_ID :: int
  ck_Status :: string
  ck_Conclusion :: string

text \<open>The API's answers. \<open>ga_Pull\<close>: whether the pull request of a URL is merged, and its head commit as the client normalises
  it; \<^const>\<open>None\<close> when the URL names no pull request or the read fails. \<open>ga_Runs\<close>: the total count and the first page of a
  commit's check runs.\<close>

record github_api =
  ga_Pull :: "string \<Rightarrow> (bool \<times> string) option"
  ga_Runs :: "string \<Rightarrow> string \<Rightarrow> (int \<times> check_run list) option"

record ChecksSummary =
  cs_Total :: int
  cs_Status :: string
  cs_RunID :: int

definition fold_run :: "check_run \<Rightarrow> ChecksSummary \<Rightarrow> ChecksSummary" where
  "fold_run r acc =
     (let acc1 = (if ck_ID r > cs_RunID acc then acc\<lparr>cs_RunID := ck_ID r\<rparr> else acc) in
      if ck_Status r \<noteq> ''completed'' then (if cs_Status acc1 = ''success'' then acc1\<lparr>cs_Status := ''running''\<rparr> else acc1)
      else if ck_Conclusion r \<in> {''success'', ''neutral'', ''skipped''} then acc1
      else acc1\<lparr>cs_Status := ''failed''\<rparr>)"

definition GetCheckRunsSummary :: "github_api \<Rightarrow> string \<Rightarrow> string \<Rightarrow> ChecksSummary option" where
  "GetCheckRunsSummary api url sha =
     (case ga_Runs api url sha of
        None \<Rightarrow> None
      | Some (count, runs) \<Rightarrow>
          if count > int (length runs) then None
          else Some (fold fold_run runs \<lparr>cs_Total = int (length runs), cs_Status = ''success'', cs_RunID = 0\<rparr>))"

section \<open>The synchronisation\<close>

text \<open>The rows of \<open>vcs_links\<close>, and how many of them \<open>countingVCSLinkRepo\<close> has seen written: each written row advances the
  task's version by one.\<close>

record link_store =
  lt_Rows :: "VCSLink list"
  lt_Writes :: nat

definition ListByTask :: "uuid \<Rightarrow> link_store \<Rightarrow> VCSLink list" where
  "ListByTask u s = sort_key vl_CreatedAt (filter (\<lambda>l. vl_TaskID l = u) (lt_Rows s))"

definition write_links :: "(VCSLink \<Rightarrow> bool) \<Rightarrow> (VCSLink \<Rightarrow> VCSLink) \<Rightarrow> link_store \<Rightarrow> link_store" where
  "write_links hit f s =
     (if list_ex hit (lt_Rows s)
      then \<lparr>lt_Rows = map (\<lambda>l. if hit l then f l else l) (lt_Rows s), lt_Writes = Suc (lt_Writes s)\<rparr> else s)"

definition set_meta :: "string \<Rightarrow> string \<Rightarrow> VCSLink \<Rightarrow> VCSLink" where
  "set_meta key v l = l\<lparr>vl_Metadata := AList.update key (MetaString v) (vl_Metadata l)\<rparr>"

definition MergeMetadata :: "uuid \<Rightarrow> uuid \<Rightarrow> string \<Rightarrow> string \<Rightarrow> link_store \<Rightarrow> link_store" where
  "MergeMetadata task u key v =
     write_links (\<lambda>l. vl_ID l = u \<and> vl_TaskID l = task \<and> vl_LinkType l = ''pr'') (set_meta key v)"

definition pipeline_accepts :: "uuid \<Rightarrow> int \<Rightarrow> VCSLink \<Rightarrow> bool" where
  "pipeline_accepts u run l \<longleftrightarrow> vl_ID l = u \<and> (case vl_PipelineID l of None \<Rightarrow> True | Some p \<Rightarrow> p \<le> run)"

definition SetPipelineStatus :: "uuid \<Rightarrow> int \<Rightarrow> string \<Rightarrow> string \<Rightarrow> link_store \<Rightarrow> bool \<times> link_store" where
  "SetPipelineStatus u run status sha s =
     (list_ex (pipeline_accepts u run) (lt_Rows s),
      write_links (pipeline_accepts u run)
        (\<lambda>l. (set_meta ''pipeline_sha'' (TrimSpace sha) l)\<lparr>vl_PipelineID := Some run, vl_PipelineStatus := Some status\<rparr>) s)"

definition githubLinkIsDelivery :: "VCSLink \<Rightarrow> bool" where
  "githubLinkIsDelivery l \<longleftrightarrow> vl_Provider l = ''github'' \<and> vl_LinkType l = ''pr'' \<and> \<not> IsReviewSubject l \<and> \<not> IsRelatesTo l"

definition githubLinkNeedsEvidence :: "VCSLink \<Rightarrow> bool" where
  "githubLinkNeedsEvidence l \<longleftrightarrow> githubLinkIsDelivery l
     \<and> (HeadSHA l = '''' \<or> PipelineSHA l \<noteq> HeadSHA l \<or> vl_PipelineStatus l \<noteq> Some ''success'')"

definition unbindCachedGreen :: "VCSLink \<Rightarrow> link_store \<Rightarrow> bool \<times> link_store" where
  "unbindCachedGreen l s =
     (if PipelineSHA l = '''' \<or> vl_PipelineStatus l \<noteq> Some ''success'' then (False, s)
      else (True, MergeMetadata (vl_TaskID l) (vl_ID l) ''pipeline_sha'' '''' s))"

text \<open>The first component says whether the row was written, the second whether GitHub could be asked.\<close>

definition bind_checks :: "VCSLink \<Rightarrow> string \<Rightarrow> ChecksSummary \<Rightarrow> link_store \<Rightarrow> bool \<times> link_store" where
  "bind_checks l head acc s =
     (let (w, s1) = (if cs_Total acc > 0 then SetPipelineStatus (vl_ID l) (cs_RunID acc) (cs_Status acc) head s else (False, s)) in
      if \<not> w \<and> cs_Status acc \<noteq> ''success'' \<or> cs_Total acc = 0
      then (let (u, s2) = unbindCachedGreen l s1 in (w \<or> u, s2)) else (w, s1))"

definition syncGitHubLinkEvidence :: "github_api \<Rightarrow> VCSLink \<Rightarrow> link_store \<Rightarrow> bool \<times> bool \<times> link_store" where
  "syncGitHubLinkEvidence api l s =
     (case ga_Pull api (vl_URL l) of
        None \<Rightarrow> (False, False, s)
      | Some (merged, head) \<Rightarrow>
          if \<not> merged \<or> head = '''' then (let (u, s1) = unbindCachedGreen l s in (u, True, s1))
          else
            let written = HeadSHA l \<noteq> head;
                s1 = (if written then MergeMetadata (vl_TaskID l) (vl_ID l) ''head_sha'' head s else s) in
            (case GetCheckRunsSummary api (vl_URL l) head of
               None \<Rightarrow> (written, False, s1)
             | Some acc \<Rightarrow> (let (w, s2) = bind_checks l head acc s1 in (written \<or> w, True, s2))))"

definition sync_step :: "github_api \<Rightarrow> bool \<Rightarrow> VCSLink \<Rightarrow> bool \<times> uuid list \<times> link_store \<Rightarrow> bool \<times> uuid list \<times> link_store" where
  "sync_step api force l acc =
     (case acc of (changed, unconfirmed, s) \<Rightarrow>
        if \<not> githubLinkIsDelivery l \<or> \<not> force \<and> \<not> githubLinkNeedsEvidence l then acc
        else case syncGitHubLinkEvidence api l s of (w, ok, s1) \<Rightarrow>
          if ok then (changed \<or> w, unconfirmed, s1)
          else if w then (True, vl_ID l # unconfirmed, s1)
          else (let (u, s2) = unbindCachedGreen l s1 in (changed \<or> u, vl_ID l # unconfirmed, s2)))"

definition syncGitHubLinks :: "github_api \<Rightarrow> VCSLink list \<Rightarrow> bool \<Rightarrow> link_store \<Rightarrow> bool \<times> uuid list \<times> link_store" where
  "syncGitHubLinks api links force s = fold (sync_step api force) links (False, [], s)"

definition withoutCachedGreen :: "VCSLink list \<Rightarrow> uuid list \<Rightarrow> VCSLink list" where
  "withoutCachedGreen links unconfirmed =
     map (\<lambda>l. if vl_ID l \<in> set unconfirmed then set_meta ''pipeline_sha'' '''' l else l) links"

definition unbind_step :: "VCSLink \<Rightarrow> bool \<times> link_store \<Rightarrow> bool \<times> link_store" where
  "unbind_step l acc =
     (case acc of (changed, s) \<Rightarrow>
        if \<not> githubLinkIsDelivery l then acc else (let (u, s1) = unbindCachedGreen l s in (changed \<or> u, s1)))"

definition unbindGitHubCachedGreen :: "VCSLink list \<Rightarrow> link_store \<Rightarrow> bool \<times> link_store" where
  "unbindGitHubCachedGreen links s = fold unbind_step links (False, s)"

text \<open>\<open>api\<close> is \<^const>\<open>None\<close> when the workspace has no GitHub client. The answer is the gate's view of the links, and how many
  rows were written.\<close>

definition syncGitHubEvidenceWrote ::
  "github_api option \<Rightarrow> uuid \<Rightarrow> VCSLink list \<Rightarrow> VCSLink list \<Rightarrow> VCSLink list \<times> nat \<times> VCSLink list" where
  "syncGitHubEvidenceWrote api task links table =
     (if \<not> list_ex githubLinkIsDelivery links then (links, 0, table)
      else
        let start = \<lparr>lt_Rows = table, lt_Writes = 0\<rparr>;
            (changed, unconfirmed, s) =
              (case api of
                 Some a \<Rightarrow> syncGitHubLinks a links True start
               | None \<Rightarrow> (let (c, s1) = unbindGitHubCachedGreen links start in
                   (c, map vl_ID (filter githubLinkIsDelivery links), s1)));
            fresh = (if changed then ListByTask task s else links) in
        (withoutCachedGreen fresh unconfirmed, lt_Writes s, lt_Rows s))"

section \<open>A cached green result is never trusted\<close>

lemma meta_text_set [simp]:
  "meta_text (set_meta k v l) k' = (if k' = k then v else meta_text l k')"
  by (simp add: meta_text_def set_meta_def go_get_def update_conv')

lemma set_meta_sel [simp]:
  "vl_ID (set_meta k v l) = vl_ID l" "vl_TaskID (set_meta k v l) = vl_TaskID l" "vl_LinkType (set_meta k v l) = vl_LinkType l"
  "vl_Provider (set_meta k v l) = vl_Provider l" "vl_URL (set_meta k v l) = vl_URL l" "vl_Status (set_meta k v l) = vl_Status l"
  "vl_PipelineStatus (set_meta k v l) = vl_PipelineStatus l" "vl_PipelineID (set_meta k v l) = vl_PipelineID l"
  "vl_CreatedAt (set_meta k v l) = vl_CreatedAt l"
  by (simp_all add: set_meta_def)

lemma meta_text_pipeline [simp]:
  "meta_text (l\<lparr>vl_PipelineID := a\<rparr>) k = meta_text l k" "meta_text (l\<lparr>vl_PipelineStatus := b\<rparr>) k = meta_text l k"
  by (simp_all add: meta_text_def)

lemmas sha_defs = HeadSHA_def PipelineSHA_def ShipSHA_def metaString_def

text \<open>Text of letters and digits, such as a commit's hash, is trimmed already.\<close>

lemma encodings_start:
  "list_all (\<lambda>e. e \<noteq> [] \<and> \<not> is_alnum (hd e)) space_encodings"
  "list_all (\<lambda>e. e \<noteq> [] \<and> \<not> is_alnum (hd e)) (map rev space_encodings)"
  unfolding space_encodings_def byte_def is_alnum_def is_digit_def is_lower_def is_upper_def less_eq_char_def
  by (simp_all add: upt_conv_Cons of_char_of less_eq_char_def)

lemma alnum_kept:
  assumes "list_all (\<lambda>e. e \<noteq> [] \<and> \<not> is_alnum (hd e)) encs" "list_all is_alnum s"
  shows "strip_all encs s = s"
proof (rule strip_all_id)
  have "\<not> prefix e s" if "e \<in> set encs" for e
  proof
    assume p: "prefix e s"
    have "e \<noteq> []" "\<not> is_alnum (hd e)" using assms(1) that by (auto simp: list_all_iff)
    with p assms(2) show False by (cases e; cases s) auto
  qed
  then show "strip_one encs s = None" using assms(1) by (simp add: strip_one_None list_all_iff)
qed

lemma TrimSpace_alnum: "list_all is_alnum s \<Longrightarrow> TrimSpace s = s"
  using alnum_kept [OF encodings_start(1), of s] alnum_kept [OF encodings_start(2), of "rev s"] by (simp add: TrimSpace_def)
lemma TrimSpace_Nil [simp]: "TrimSpace '''' = ''''"
  by (rule TrimSpace_alnum) simp

text \<open>What a green link says.\<close>

lemma green_iff:
  "IsMergedShippedGreen l \<longleftrightarrow> vl_LinkType l = ''pr'' \<and> vl_Status l = ''merged'' \<and> HeadSHA l \<noteq> '''' \<and> ShipSHA l = HeadSHA l
     \<and> PipelineSHA l = HeadSHA l \<and> vl_PipelineStatus l = Some ''success''"
  by (auto simp: IsMergedShippedGreen_def ShipEvidenceGaps_def Let_def)

lemma unbound_not_green: "PipelineSHA l = '''' \<Longrightarrow> \<not> IsMergedShippedGreen l"
  by (auto simp: green_iff)

text \<open>GitHub vouches for the link's own head commit now.\<close>

definition vouched :: "github_api \<Rightarrow> VCSLink \<Rightarrow> bool" where
  "vouched api l \<longleftrightarrow> (\<exists>head acc. ga_Pull api (vl_URL l) = Some (True, head) \<and> head \<noteq> '''' \<and> HeadSHA l = TrimSpace head
     \<and> GetCheckRunsSummary api (vl_URL l) head = Some acc \<and> cs_Total acc > 0 \<and> cs_Status acc = ''success'')"

text \<open>A table in which the row of \<open>l\<close> is now \<open>c\<close>.\<close>

definition put_link :: "VCSLink \<Rightarrow> VCSLink \<Rightarrow> VCSLink list \<Rightarrow> VCSLink list" where
  "put_link l c rows = map (\<lambda>r. if vl_ID r = vl_ID l then c else r) rows"

definition same_link :: "VCSLink \<Rightarrow> VCSLink \<Rightarrow> bool" where
  "same_link l c \<longleftrightarrow> vl_ID c = vl_ID l \<and> vl_TaskID c = vl_TaskID l \<and> vl_LinkType c = vl_LinkType l \<and> vl_Provider c = vl_Provider l
     \<and> vl_URL c = vl_URL l \<and> vl_Status c = vl_Status l \<and> vl_CreatedAt c = vl_CreatedAt l
     \<and> (\<forall>k. k \<noteq> ''head_sha'' \<and> k \<noteq> ''pipeline_sha'' \<longrightarrow> meta_text c k = meta_text l k)"

lemma same_link_refl [simp]: "same_link l l"
  by (simp add: same_link_def)

lemma same_link_meta [simp]:
  "same_link l c \<Longrightarrow> k = ''head_sha'' \<or> k = ''pipeline_sha'' \<Longrightarrow> same_link l (set_meta k v c)"
  by (auto simp: same_link_def)

lemma same_link_pipeline [simp]:
  "same_link l (c\<lparr>vl_PipelineID := a, vl_PipelineStatus := b\<rparr>) \<longleftrightarrow> same_link l c"
  by (simp add: same_link_def)

lemma same_link_delivery: "same_link l c \<Longrightarrow> githubLinkIsDelivery c = githubLinkIsDelivery l"
  by (simp add: same_link_def githubLinkIsDelivery_def IsReviewSubject_def IsRelatesTo_def)

lemma put_link_self: "l \<in> set rows \<Longrightarrow> distinct (map vl_ID rows) \<Longrightarrow> put_link l l rows = rows"
  by (auto simp: put_link_def distinct_map inj_on_def intro!: map_idI)

lemma put_write:
  assumes "l \<in> set rows" and c: "same_link l c" and rows: "lt_Rows s = put_link l c rows"
    and hit: "\<And>r. hit r \<Longrightarrow> vl_ID r = vl_ID l" and f: "vl_ID (f c) = vl_ID c"
  shows "lt_Rows (write_links hit f s) = put_link l (if hit c then f c else c) rows"
    and "hit c \<longleftrightarrow> list_ex hit (lt_Rows s)"
proof -
  have in_c: "c \<in> set (lt_Rows s)" using assms(1) by (force simp: rows put_link_def)
  have only: "r = c" if "hit r" "r \<in> set (lt_Rows s)" for r
    using hit [OF that(1)] that(2) by (auto simp: rows put_link_def)
  show ex: "hit c \<longleftrightarrow> list_ex hit (lt_Rows s)" using in_c only by (auto simp: list_ex_iff)
  show "lt_Rows (write_links hit f s) = put_link l (if hit c then f c else c) rows"
  proof (cases "hit c")
    case False
    then show ?thesis using ex rows by (simp add: write_links_def)
  next
    case True
    have "(if hit r then f r else r) = (if vl_ID r0 = vl_ID l then f c else r0)"
      if "r = (if vl_ID r0 = vl_ID l then c else r0)" for r r0
      using that True hit by auto
    with True ex rows show ?thesis by (simp add: write_links_def put_link_def)
  qed
qed

lemma put_merge:
  assumes "l \<in> set rows" "same_link l c" "lt_Rows s = put_link l c rows" "vl_LinkType l = ''pr''"
  shows "lt_Rows (MergeMetadata (vl_TaskID l) (vl_ID l) k v s) = put_link l (set_meta k v c) rows"
  using put_write(1) [OF assms(1-3), of "\<lambda>r. vl_ID r = vl_ID l \<and> vl_TaskID r = vl_TaskID l \<and> vl_LinkType r = ''pr''" "set_meta k v"] assms(2,4)
  by (simp add: MergeMetadata_def same_link_def)

text \<open>After an unbind the row is not green, whether or not it was written.\<close>

lemma unbind_row:
  assumes "l \<in> set rows" "same_link l c" "lt_Rows s = put_link l c rows" "vl_LinkType l = ''pr''"
    and stale: "PipelineSHA c = PipelineSHA l" "vl_PipelineStatus c = vl_PipelineStatus l"
    and u: "unbindCachedGreen l s = (u, s1)"
  shows "\<exists>c1. lt_Rows s1 = put_link l c1 rows \<and> same_link l c1 \<and> \<not> IsMergedShippedGreen c1 \<and> (\<not> u \<longrightarrow> s1 = s \<and> c1 = c)"
proof (cases "PipelineSHA l = '''' \<or> vl_PipelineStatus l \<noteq> Some ''success''")
  case True
  with u have "s1 = s" "\<not> u" by (simp_all add: unbindCachedGreen_def)
  moreover have "\<not> IsMergedShippedGreen c" using True stale by (auto simp: green_iff)
  ultimately show ?thesis using assms(2,3) by blast
next
  case False
  with u have "s1 = MergeMetadata (vl_TaskID l) (vl_ID l) ''pipeline_sha'' '''' s" "u" by (auto simp: unbindCachedGreen_def)
  then show ?thesis using put_merge [OF assms(1-4), of "''pipeline_sha''" "''''"] assms(2)
    by (intro exI [of _ "set_meta ''pipeline_sha'' '''' c"]) (auto simp: sha_defs intro!: unbound_not_green)
qed

lemma fold_run_total [simp]: "cs_Total (fold fold_run runs a) = cs_Total a"
  by (induction runs arbitrary: a) (simp_all add: fold_run_def Let_def)

lemma summary_total: "GetCheckRunsSummary api url sha = Some a \<Longrightarrow> cs_Total a \<ge> 0"
  by (auto simp: GetCheckRunsSummary_def split: option.splits if_splits)

lemma bind_row:
  assumes row: "l \<in> set rows" "same_link l c" "lt_Rows s = put_link l c rows" "vl_LinkType l = ''pr''"
    and stale: "PipelineSHA c = PipelineSHA l" "vl_PipelineStatus c = vl_PipelineStatus l"
    and pull: "ga_Pull api (vl_URL l) = Some (True, head)" "head \<noteq> ''''" "HeadSHA c = TrimSpace head"
    and checks: "GetCheckRunsSummary api (vl_URL l) head = Some a"
    and b: "bind_checks l head a s = (w, s1)"
  shows "\<exists>c1. lt_Rows s1 = put_link l c1 rows \<and> same_link l c1 \<and> (IsMergedShippedGreen c1 \<longrightarrow> vouched api c1) \<and> (\<not> w \<longrightarrow> s1 = s \<and> c1 = c)"
proof -
  have url: "vl_URL c1 = vl_URL l" if "same_link l c1" for c1 using that by (simp add: same_link_def)
  have vouch: "vouched api c1" if "same_link l c1" "HeadSHA c1 = TrimSpace head" "cs_Total a > 0" "cs_Status a = ''success''" for c1
    unfolding vouched_def url [OF that(1)] using that(2-4) pull(1,2) checks by blast
  show ?thesis
  proof (cases "cs_Total a > 0")
    case False
    with b obtain u where u: "unbindCachedGreen l s = (u, s1)" "w = u"
      using summary_total [OF checks] by (cases "unbindCachedGreen l s") (simp add: bind_checks_def)
    from unbind_row [OF row stale u(1)] u(2) show ?thesis by blast
  next
    case True
    define hit where "hit = pipeline_accepts (vl_ID l) (cs_RunID a)"
    define f where "f = (\<lambda>r. (set_meta ''pipeline_sha'' (TrimSpace head) r)\<lparr>vl_PipelineID := Some (cs_RunID a), vl_PipelineStatus := Some (cs_Status a)\<rparr>)"
    define s2 where "s2 = write_links hit f s"
    have put: "lt_Rows s2 = put_link l (if hit c then f c else c) rows" "hit c \<longleftrightarrow> list_ex hit (lt_Rows s)"
      using put_write [OF row(1-3), of hit f] unfolding s2_def by (simp_all add: hit_def f_def pipeline_accepts_def)
    have set: "SetPipelineStatus (vl_ID l) (cs_RunID a) (cs_Status a) head s = (hit c, s2)"
      using put(2) by (simp add: SetPipelineStatus_def s2_def hit_def f_def)
    show ?thesis
    proof (cases "hit c")
      case True
      with b set \<open>cs_Total a > 0\<close> have w: "w" "s1 = s2" by (auto simp: bind_checks_def)
      have "HeadSHA (f c) = TrimSpace head" using pull(3) by (simp add: f_def sha_defs)
      moreover have "vl_PipelineStatus (f c) = Some (cs_Status a)" by (simp add: f_def)
      moreover have "same_link l (f c)" using row(2) by (simp add: f_def)
      ultimately show ?thesis using True put(1) w vouch [of "f c"] \<open>cs_Total a > 0\<close> by (auto simp: green_iff)
    next
      case False
      then have s2: "s2 = s" using put(2) by (simp add: s2_def write_links_def)
      show ?thesis
      proof (cases "cs_Status a = ''success''")
        case True
        with b set False s2 \<open>cs_Total a > 0\<close> have "s1 = s" "\<not> w" by (auto simp: bind_checks_def)
        then show ?thesis using row(2,3) vouch [OF row(2) pull(3) \<open>cs_Total a > 0\<close> True] by blast
      next
        case no: False
        with b set False s2 \<open>cs_Total a > 0\<close> obtain u where u: "unbindCachedGreen l s = (u, s1)" "w = u"
          by (cases "unbindCachedGreen l s") (simp add: bind_checks_def)
        from unbind_row [OF row stale u(1)] u(2) show ?thesis by blast
      qed
    qed
  qed
qed

text \<open>One link of the synchronisation: what the gate will see of its row is green only when GitHub vouches for it.\<close>

definition gate_view :: "uuid list \<Rightarrow> VCSLink \<Rightarrow> VCSLink" where
  "gate_view un l = (if vl_ID l \<in> set un then set_meta ''pipeline_sha'' '''' l else l)"

lemma unbound_view [simp]: "\<not> IsMergedShippedGreen (set_meta ''pipeline_sha'' '''' l)"
  by (rule unbound_not_green) (simp add: sha_defs)

lemma sync_row:
  assumes row: "l \<in> set rows" "lt_Rows s = put_link l l rows" and d: "githubLinkIsDelivery l"
    and st: "sync_step api True l (ch, un, s) = (ch1, un1, s1)"
  shows "\<exists>c. lt_Rows s1 = put_link l c rows \<and> same_link l c \<and> (un1 = un \<or> un1 = vl_ID l # un)
     \<and> (IsMergedShippedGreen (gate_view un1 c) \<longrightarrow> vouched api (gate_view un1 c)) \<and> (ch \<longrightarrow> ch1) \<and> (\<not> ch1 \<longrightarrow> s1 = s \<and> c = l)"
proof -
  have pr: "vl_LinkType l = ''pr''" using d by (simp add: githubLinkIsDelivery_def)
  have view: "(P \<longrightarrow> vouched api (gate_view un1 c))" if "same_link l c" "vl_ID l \<in> set un1" "P = IsMergedShippedGreen (gate_view un1 c)" for c P
    using that by (simp add: gate_view_def same_link_def)
  have keep: "(IsMergedShippedGreen (gate_view un c) \<longrightarrow> vouched api (gate_view un c))"
    if "IsMergedShippedGreen c \<longrightarrow> vouched api c" for c
    using that by (simp add: gate_view_def)
  obtain w ok s2 where ev: "syncGitHubLinkEvidence api l s = (w, ok, s2)" by (metis prod_cases3)
  show ?thesis
  proof (cases "ga_Pull api (vl_URL l)")
    case None
    with ev have e: "w = False" "ok = False" "s2 = s" by (auto simp: syncGitHubLinkEvidence_def)
    obtain u s3 where u: "unbindCachedGreen l s = (u, s3)" by (metis surj_pair)
    from unbind_row [OF row(1) _ row(2) pr _ _ u] obtain c where
      c: "lt_Rows s3 = put_link l c rows" "same_link l c" "\<not> u \<longrightarrow> s3 = s \<and> c = l" by auto
    have "ch1 = (ch \<or> u)" "un1 = vl_ID l # un" "s1 = s3" using st d ev e u by (auto simp: sync_step_def)
    with c view [OF c(2)] show ?thesis by auto
  next
    case (Some p)
    then obtain merged head where p: "ga_Pull api (vl_URL l) = Some (merged, head)" by (cases p) auto
    show ?thesis
    proof (cases "\<not> merged \<or> head = ''''")
      case True
      obtain u s3 where u: "unbindCachedGreen l s = (u, s3)" by (metis surj_pair)
      with ev p True have e: "w = u" "ok" "s2 = s3" by (auto simp: syncGitHubLinkEvidence_def)
      from unbind_row [OF row(1) _ row(2) pr _ _ u] obtain c where
        c: "lt_Rows s3 = put_link l c rows" "same_link l c" "\<not> IsMergedShippedGreen c" "\<not> u \<longrightarrow> s3 = s \<and> c = l" by auto
      have "ch1 = (ch \<or> u)" "un1 = un" "s1 = s3" using st d ev e by (auto simp: sync_step_def)
      with c keep [of c] show ?thesis by auto
    next
      case False
      define c1 where "c1 = (if HeadSHA l \<noteq> head then set_meta ''head_sha'' head l else l)"
      define s3 where "s3 = (if HeadSHA l \<noteq> head then MergeMetadata (vl_TaskID l) (vl_ID l) ''head_sha'' head s else s)"
      have c1: "same_link l c1" "lt_Rows s3 = put_link l c1 rows" "PipelineSHA c1 = PipelineSHA l"
          "vl_PipelineStatus c1 = vl_PipelineStatus l"
        using put_merge [OF row(1) same_link_refl row(2) pr] row(2) by (auto simp: c1_def s3_def sha_defs)
      have head: "HeadSHA c1 = TrimSpace head" by (auto simp: c1_def sha_defs)
      show ?thesis
      proof (cases "GetCheckRunsSummary api (vl_URL l) head")
        case None
        with ev p False have e: "w = (HeadSHA l \<noteq> head)" "\<not> ok" "s2 = s3"
          by (auto simp: syncGitHubLinkEvidence_def Let_def s3_def)
        show ?thesis
        proof (cases w)
          case True
          then have "ch1" "un1 = vl_ID l # un" "s1 = s3" using st d ev e by (auto simp: sync_step_def)
          with c1 view [OF c1(1)] show ?thesis by auto
        next
          case no: False
          then have "s3 = s" "c1 = l" using e by (auto simp: s3_def c1_def)
          obtain u s4 where u: "unbindCachedGreen l s = (u, s4)" by (metis surj_pair)
          from unbind_row [OF row(1) _ row(2) pr _ _ u] obtain c where
            c: "lt_Rows s4 = put_link l c rows" "same_link l c" "\<not> u \<longrightarrow> s4 = s \<and> c = l" by auto
          have "ch1 = (ch \<or> u)" "un1 = vl_ID l # un" "s1 = s4" using st d ev e no u \<open>s3 = s\<close> by (auto simp: sync_step_def)
          with c view [OF c(2)] show ?thesis by auto
        qed
      next
        case (Some a)
        obtain v s4 where b: "bind_checks l head a s3 = (v, s4)" by (metis surj_pair)
        with ev p False Some have e: "w = (HeadSHA l \<noteq> head \<or> v)" "ok" "s2 = s4"
          by (auto simp: syncGitHubLinkEvidence_def Let_def s3_def split: prod.splits)
        have "head \<noteq> ''''" "ga_Pull api (vl_URL l) = Some (True, head)" using False p by auto
        from bind_row [OF row(1) c1(1,2) pr c1(3,4) this(2,1) head Some b] obtain c where
          c: "lt_Rows s4 = put_link l c rows" "same_link l c" "IsMergedShippedGreen c \<longrightarrow> vouched api c" "\<not> v \<longrightarrow> s4 = s3 \<and> c = c1" by auto
        have "ch1 = (ch \<or> w)" "un1 = un" "s1 = s4" using st d ev e by (auto simp: sync_step_def)
        moreover have "\<not> w \<longrightarrow> s4 = s \<and> c = l" using c(4) e by (auto simp: s3_def c1_def)
        ultimately show ?thesis using c keep [of c] by auto
      qed
    qed
  qed
qed

definition honest :: "github_api \<Rightarrow> uuid list \<Rightarrow> VCSLink \<Rightarrow> bool" where
  "honest api un l \<longleftrightarrow> (IsMergedShippedGreen (gate_view un l) \<longrightarrow> vouched api (gate_view un l))"

lemma honest_mono: "honest api un l \<Longrightarrow> set un \<subseteq> set un1 \<Longrightarrow> honest api un1 l"
  by (cases "vl_ID l \<in> set un1"; cases "vl_ID l \<in> set un") (auto simp: honest_def gate_view_def)

lemma sync_fold:
  assumes "fold (sync_step api True) ls (ch, un, s) = (ch1, un1, s1)" "distinct (map vl_ID (lt_Rows s))"
    "set ls \<subseteq> set (lt_Rows s)" "distinct (map vl_ID ls)"
  shows "\<exists>c. lt_Rows s1 = map c (lt_Rows s) \<and> (\<forall>r\<in>set (lt_Rows s). same_link r (c r) \<and> (r \<notin> set ls \<longrightarrow> c r = r))
    \<and> set un \<subseteq> set un1 \<and> (\<forall>l\<in>set ls. githubLinkIsDelivery l \<longrightarrow> honest api un1 (c l))
    \<and> (ch \<longrightarrow> ch1) \<and> (\<not> ch1 \<longrightarrow> s1 = s \<and> (\<forall>r\<in>set (lt_Rows s). c r = r))"
  using assms
proof (induction ls arbitrary: ch un s)
  case Nil
  then show ?case by (intro exI [of _ id]) auto
next
  case (Cons l ls)
  show ?case
  proof (cases "githubLinkIsDelivery l")
    case False
    then have "sync_step api True l (ch, un, s) = (ch, un, s)" by (simp add: sync_step_def)
    then have "fold (sync_step api True) ls (ch, un, s) = (ch1, un1, s1)" using Cons.prems(1) by simp
    from Cons.IH [OF this Cons.prems(2)] Cons.prems(3,4) obtain c where
      c: "lt_Rows s1 = map c (lt_Rows s)" "\<forall>r\<in>set (lt_Rows s). same_link r (c r) \<and> (r \<notin> set ls \<longrightarrow> c r = r)"
        "set un \<subseteq> set un1" "\<forall>l\<in>set ls. githubLinkIsDelivery l \<longrightarrow> honest api un1 (c l)" "ch \<longrightarrow> ch1"
        "\<not> ch1 \<longrightarrow> s1 = s \<and> (\<forall>r\<in>set (lt_Rows s). c r = r)" by auto
    with False show ?thesis by (intro exI [of _ c]) auto
  next
    case True
    obtain ch2 un2 s2 where st: "sync_step api True l (ch, un, s) = (ch2, un2, s2)" by (metis prod_cases3)
    have l: "l \<in> set (lt_Rows s)" using Cons.prems(3) by simp
    have "lt_Rows s = put_link l l (lt_Rows s)" using put_link_self [OF l Cons.prems(2)] by simp
    from sync_row [OF l this True st] obtain c0 where
      c0: "lt_Rows s2 = put_link l c0 (lt_Rows s)" "same_link l c0" "un2 = un \<or> un2 = vl_ID l # un" "honest api un2 c0"
        "ch \<longrightarrow> ch2" "\<not> ch2 \<longrightarrow> s2 = s \<and> c0 = l" by (auto simp: honest_def)
    define g where "g = (\<lambda>r. if vl_ID r = vl_ID l then c0 else r)"
    have rows: "lt_Rows s2 = map g (lt_Rows s)" using c0(1) by (simp add: put_link_def g_def)
    have id: "vl_ID (g r) = vl_ID r" for r using c0(2) by (simp add: g_def same_link_def)
    have uniq: "r = l" if "r \<in> set (lt_Rows s)" "vl_ID r = vl_ID l" for r
      using that l Cons.prems(2) by (auto simp: distinct_map inj_on_def)
    have other: "vl_ID r \<noteq> vl_ID l" if "r \<in> set ls" for r
      using that Cons.prems(4) by (auto simp: image_iff)
    have d2: "distinct (map vl_ID (lt_Rows s2))" using Cons.prems(2) by (simp add: rows comp_def id)
    have sub: "set ls \<subseteq> set (lt_Rows s2)" using Cons.prems(3) other by (force simp: rows g_def image_iff)
    have rest: "fold (sync_step api True) ls (ch2, un2, s2) = (ch1, un1, s1)" using Cons.prems(1) st by simp
    have dl: "distinct (map vl_ID ls)" using Cons.prems(4) by simp
    from Cons.IH [OF rest d2 sub dl] obtain c where
      c: "lt_Rows s1 = map c (lt_Rows s2)" "\<forall>r\<in>set (lt_Rows s2). same_link r (c r) \<and> (r \<notin> set ls \<longrightarrow> c r = r)"
        "set un2 \<subseteq> set un1" "\<forall>l\<in>set ls. githubLinkIsDelivery l \<longrightarrow> honest api un1 (c l)" "ch2 \<longrightarrow> ch1"
        "\<not> ch1 \<longrightarrow> s1 = s2 \<and> (\<forall>r\<in>set (lt_Rows s2). c r = r)" by blast
    have "c0 \<in> set (lt_Rows s2)" using l by (force simp: rows g_def)
    moreover have "c0 \<notin> set ls" using other c0(2) by (force simp: same_link_def)
    ultimately have cl: "c c0 = c0" using c(2) by blast
    have trans: "same_link a b \<Longrightarrow> same_link b d \<Longrightarrow> same_link a d" for a b d by (simp add: same_link_def)
    have same: "same_link r (c (g r)) \<and> (r \<notin> set (l # ls) \<longrightarrow> c (g r) = r)" if r: "r \<in> set (lt_Rows s)" for r
    proof (cases "r = l")
      case True
      then show ?thesis using cl c0(2) by (simp add: g_def)
    next
      case False
      then have "g r = r" using uniq [OF r] by (auto simp: g_def)
      with r c(2) show ?thesis by (auto simp: rows image_iff)
    qed
    have "honest api un1 (c (g a))" if "a \<in> set (l # ls)" "githubLinkIsDelivery a" for a
      using that c(4) honest_mono [OF c0(4) c(3)] cl other [of a] by (auto simp: g_def)
    moreover have "\<not> ch1 \<longrightarrow> s1 = s \<and> (\<forall>r\<in>set (lt_Rows s). c (g r) = r)"
    proof
      assume n: "\<not> ch1"
      then have "\<not> ch2" using c(5) by blast
      then have "s2 = s" "c0 = l" using c0(6) by auto
      moreover have "g r = r" if "r \<in> set (lt_Rows s)" for r using uniq [OF that] \<open>c0 = l\<close> by (auto simp: g_def)
      ultimately show "s1 = s \<and> (\<forall>r\<in>set (lt_Rows s). c (g r) = r)" using c(6) n by simp
    qed
    ultimately show ?thesis using c(1,3,5) c0(3,5) rows same
      by (intro exI [of _ "c \<circ> g"]) auto
  qed
qed

lemma ListByTask_sub: "set (ListByTask u s) = {l \<in> set (lt_Rows s). vl_TaskID l = u}"
  by (simp add: ListByTask_def)

lemma ListByTask_distinct: "distinct (map vl_ID (lt_Rows s)) \<Longrightarrow> distinct (map vl_ID (ListByTask u s))"
  by (simp add: distinct_map ListByTask_def inj_on_def distinct_filter)

lemma unbind_step_rows:
  assumes "fold unbind_step ls (ch, s) = (ch1, s1)"
  shows "\<exists>c. lt_Rows s1 = map c (lt_Rows s) \<and> (\<forall>r. same_link r (c r))"
  using assms
proof (induction ls arbitrary: ch s)
  case Nil
  then show ?case by (intro exI [of _ id]) auto
next
  case (Cons l ls)
  obtain ch2 s2 where st: "unbind_step l (ch, s) = (ch2, s2)" by (metis surj_pair)
  have "\<exists>c. lt_Rows s2 = map c (lt_Rows s) \<and> (\<forall>r. same_link r (c r))"
  proof (cases "s2 = s")
    case True
    then show ?thesis by (intro exI [of _ id]) auto
  next
    case False
    then have "s2 = MergeMetadata (vl_TaskID l) (vl_ID l) ''pipeline_sha'' '''' s"
      using st by (auto simp: unbind_step_def unbindCachedGreen_def split: if_splits)
    with False show ?thesis
      by (intro exI [of _ "\<lambda>r. if vl_ID r = vl_ID l \<and> vl_TaskID r = vl_TaskID l \<and> vl_LinkType r = ''pr'' then set_meta ''pipeline_sha'' '''' r else r"])
        (auto simp: MergeMetadata_def write_links_def split: if_splits)
  qed
  then obtain c where c: "lt_Rows s2 = map c (lt_Rows s)" "\<forall>r. same_link r (c r)" by blast
  have "fold unbind_step ls (ch2, s2) = (ch1, s1)" using Cons.prems st by simp
  from Cons.IH [OF this] obtain d where "lt_Rows s1 = map d (lt_Rows s2)" "\<forall>r. same_link r (d r)" by blast
  with c show ?case by (intro exI [of _ "d \<circ> c"]) (auto simp: same_link_def)
qed

text \<open>
  What the workflow gate takes for proof of delivery is confirmed now: after the synchronisation a GitHub link of the
  card's own work counts as merged, shipped and green only when GitHub, asked in this very request, says that its pull request
  is merged with that head commit and that all checks of that commit passed. Without a client, after a failed read, or when
  GitHub no longer reports a green result, a cached one is worth nothing, whatever is stored.
\<close>

theorem green_is_confirmed:
  assumes "distinct (map vl_ID table)" "links = ListByTask task \<lparr>lt_Rows = table, lt_Writes = 0\<rparr>"
    and out: "syncGitHubEvidenceWrote api task links table = (out, writes, table1)"
    and l: "l \<in> set out" "githubLinkIsDelivery l" "IsMergedShippedGreen l"
  shows "\<exists>a head checks. api = Some a \<and> ga_Pull a (vl_URL l) = Some (True, head) \<and> HeadSHA l = TrimSpace head
    \<and> GetCheckRunsSummary a (vl_URL l) head = Some checks \<and> cs_Total checks > 0 \<and> cs_Status checks = ''success''"
proof -
  define s0 where "s0 = \<lparr>lt_Rows = table, lt_Writes = 0\<rparr>"
  have mem: "r \<in> set table" "vl_TaskID r = task" if "r \<in> set links" for r
    using that assms(2) by (auto simp: ListByTask_sub)
  have dl: "distinct (map vl_ID links)" using ListByTask_distinct assms(1,2) by simp
  have need: "list_ex githubLinkIsDelivery links"
  proof (rule ccontr)
    assume n: "\<not> ?thesis"
    then have "out = links" using out by (simp add: syncGitHubEvidenceWrote_def)
    with n l show False by (auto simp: list_ex_iff)
  qed
  show ?thesis
  proof (cases api)
    case None
    obtain ch s1 where f: "unbindGitHubCachedGreen links s0 = (ch, s1)" by (metis surj_pair)
    define fresh where "fresh = (if ch then ListByTask task s1 else links)"
    have o: "out = withoutCachedGreen fresh (map vl_ID (filter githubLinkIsDelivery links))"
      using out need None f by (auto simp: syncGitHubEvidenceWrote_def s0_def [symmetric] fresh_def)
    from unbind_step_rows [OF f [unfolded unbindGitHubCachedGreen_def]] obtain c
      where c: "lt_Rows s1 = map c table" "\<forall>r. same_link r (c r)" by (auto simp: s0_def)
    from l(1) o obtain r where r: "r \<in> set fresh"
      "l = (if vl_ID r \<in> vl_ID ` {x \<in> set links. githubLinkIsDelivery x} then set_meta ''pipeline_sha'' '''' r else r)"
      by (auto simp: withoutCachedGreen_def)
    then have dr: "githubLinkIsDelivery r" "vl_ID r \<notin> vl_ID ` {x \<in> set links. githubLinkIsDelivery x}"
      using l(2,3) by (auto split: if_splits)
    show ?thesis
    proof (cases ch)
      case True
      with r c obtain t where t: "t \<in> set table" "vl_TaskID r = task" "same_link t r" by (auto simp: fresh_def ListByTask_sub)
      then have "t \<in> set links" using assms(2) by (auto simp: ListByTask_sub same_link_def)
      moreover have "githubLinkIsDelivery t" using same_link_delivery [OF t(3)] dr(1) by simp
      ultimately show ?thesis using dr(2) t(3) by (auto simp: same_link_def)
    next
      case False
      with r dr show ?thesis by (auto simp: fresh_def)
    qed
  next
    case (Some a)
    obtain ch un s1 where f: "fold (sync_step a True) links (False, [], s0) = (ch, un, s1)" by (metis prod_cases3)
    define fresh where "fresh = (if ch then ListByTask task s1 else links)"
    have view: "withoutCachedGreen ls un = map (gate_view un) ls" for ls by (simp add: withoutCachedGreen_def gate_view_def)
    have "syncGitHubLinks a links True s0 = (ch, un, s1)" using f by (simp add: syncGitHubLinks_def)
    then have o: "out = map (gate_view un) fresh"
      using out need Some by (auto simp: syncGitHubEvidenceWrote_def s0_def [symmetric] fresh_def view)
    have "set links \<subseteq> set (lt_Rows s0)" "distinct (map vl_ID (lt_Rows s0))" using mem assms(1) by (auto simp: s0_def)
    from sync_fold [OF f this(2,1) dl] obtain c where
      c: "lt_Rows s1 = map c table" "\<forall>r\<in>set table. same_link r (c r)" "\<forall>l\<in>set links. githubLinkIsDelivery l \<longrightarrow> honest a un (c l)"
        "\<not> ch \<longrightarrow> (\<forall>r\<in>set table. c r = r)" by (auto simp: s0_def)
    have "\<exists>t\<in>set links. l = gate_view un (c t)"
    proof (cases ch)
      case True
      with l(1) o c obtain t where t: "t \<in> set table" "l = gate_view un (c t)" "vl_TaskID (c t) = task"
        by (auto simp: fresh_def ListByTask_sub)
      then have "t \<in> set links" using assms(2) c(2) by (auto simp: ListByTask_sub same_link_def)
      with t show ?thesis by blast
    next
      case False
      with l(1) o obtain t where "t \<in> set links" "l = gate_view un t" by (auto simp: fresh_def)
      with c(4) False mem(1) show ?thesis by metis
    qed
    then obtain t where t: "t \<in> set links" "l = gate_view un (c t)" by blast
    have "githubLinkIsDelivery t"
    proof -
      have "githubLinkIsDelivery l = githubLinkIsDelivery (c t)"
        by (simp add: t(2) gate_view_def githubLinkIsDelivery_def IsReviewSubject_def IsRelatesTo_def)
      with l(2) same_link_delivery [of t "c t"] c(2) mem(1) [OF t(1)] show ?thesis by blast
    qed
    with c(3) t l(3) have "vouched a l" by (auto simp: honest_def)
    with Some show ?thesis by (auto simp: vouched_def)
  qed
qed

text \<open>A merged pull request with a green head, and the cached result of an older head.\<close>

definition sample_pr :: VCSLink where
  "sample_pr = \<lparr>vl_ID = 5, vl_TaskID = 1, vl_Provider = ''github'', vl_LinkType = ''pr'', vl_ExternalID = ''7'', vl_URL = ''u'',
     vl_Title = '''', vl_Status = ''merged'', vl_Metadata = [(''ship_sha'', MetaString ''ab''), (''head_sha'', MetaString ''cd'')],
     vl_CreatedAt = 0, vl_PipelineStatus = None, vl_PipelineID = None\<rparr>"

definition sample_github :: github_api where
  "sample_github = \<lparr>ga_Pull = (\<lambda>u. if u = ''u'' then Some (True, ''ab'') else None),
     ga_Runs = (\<lambda>u sha. Some (1, [\<lparr>ck_ID = 3, ck_Status = ''completed'', ck_Conclusion = ''success''\<rparr>]))\<rparr>"

definition sample_synced :: VCSLink where
  "sample_synced = sample_pr\<lparr>vl_Metadata := [(''ship_sha'', MetaString ''ab''), (''head_sha'', MetaString ''ab''), (''pipeline_sha'', MetaString ''ab'')],
     vl_PipelineStatus := Some ''success'', vl_PipelineID := Some 3\<rparr>"

lemma sample_trim: "TrimSpace ''ab'' = ''ab''" "TrimSpace ''cd'' = ''cd''"
  by (rule TrimSpace_alnum, code_simp)+

lemmas sample_link_simps = sample_trim sha_defs meta_text_def go_get_def githubLinkIsDelivery_def IsReviewSubject_def IsRelatesTo_def

lemma sample_checks: "GetCheckRunsSummary sample_github ''u'' ''ab'' = Some \<lparr>cs_Total = 1, cs_Status = ''success'', cs_RunID = 3\<rparr>"
  by (simp add: GetCheckRunsSummary_def sample_github_def fold_run_def Let_def)

lemma sample_sync: "syncGitHubEvidenceWrote (Some sample_github) 1 [sample_pr] [sample_pr] = ([sample_synced], 2, [sample_synced])"
proof -
  define mid where "mid = sample_pr\<lparr>vl_Metadata := [(''ship_sha'', MetaString ''ab''), (''head_sha'', MetaString ''ab'')]\<rparr>"
  have merge: "MergeMetadata 1 5 ''head_sha'' ''ab'' \<lparr>lt_Rows = [sample_pr], lt_Writes = 0\<rparr> = \<lparr>lt_Rows = [mid], lt_Writes = Suc 0\<rparr>"
    by (simp add: MergeMetadata_def write_links_def set_meta_def sample_pr_def mid_def)
  have pipe: "SetPipelineStatus 5 3 ''success'' ''ab'' \<lparr>lt_Rows = [mid], lt_Writes = Suc 0\<rparr> = (True, \<lparr>lt_Rows = [sample_synced], lt_Writes = 2\<rparr>)"
    by (simp add: SetPipelineStatus_def pipeline_accepts_def write_links_def set_meta_def sample_pr_def mid_def sample_synced_def sample_trim)
  have pull: "ga_Pull sample_github ''u'' = Some (True, ''ab'')" by (simp add: sample_github_def)
  have head: "HeadSHA sample_pr = ''cd''" "vl_URL sample_pr = ''u''" "vl_TaskID sample_pr = 1" "vl_ID sample_pr = 5"
    by (simp_all add: sample_pr_def sample_link_simps)
  have "syncGitHubLinkEvidence sample_github sample_pr \<lparr>lt_Rows = [sample_pr], lt_Writes = 0\<rparr> = (True, True, \<lparr>lt_Rows = [sample_synced], lt_Writes = 2\<rparr>)"
    by (simp add: syncGitHubLinkEvidence_def head merge bind_checks_def sample_checks pipe pull)
  moreover have "githubLinkIsDelivery sample_pr" by (simp add: sample_pr_def sample_link_simps)
  moreover have "ListByTask 1 \<lparr>lt_Rows = [sample_synced], lt_Writes = 2\<rparr> = [sample_synced]" by (simp add: ListByTask_def sample_synced_def sample_pr_def)
  ultimately show ?thesis
    by (simp add: syncGitHubEvidenceWrote_def syncGitHubLinks_def sync_step_def withoutCachedGreen_def)
qed

theorem green_is_confirmed_witness:
  "\<exists>head checks. ga_Pull sample_github ''u'' = Some (True, head) \<and> HeadSHA sample_synced = TrimSpace head
    \<and> GetCheckRunsSummary sample_github ''u'' head = Some checks \<and> cs_Total checks > 0 \<and> cs_Status checks = ''success''"
proof -
  have a: "distinct (map vl_ID [sample_pr])" "[sample_pr] = ListByTask 1 \<lparr>lt_Rows = [sample_pr], lt_Writes = 0\<rparr>"
    "sample_synced \<in> set [sample_synced]" "githubLinkIsDelivery sample_synced" "IsMergedShippedGreen sample_synced"
    "vl_URL sample_synced = ''u''"
    by (simp_all add: ListByTask_def green_iff sample_synced_def sample_pr_def sample_link_simps)
  from green_is_confirmed [OF a(1,2) sample_sync a(3-5)] show ?thesis unfolding a(6) by auto
qed

end
