(* ===== verification/Move_Store.thy ===== *)
theory Move_Store
  imports Task_Checkout Vcs_Evidence
begin

text \<open>
  What moving a task reads and writes: the board of \<open>Task_Checkout\<close> with the comments, links, artifacts and project members
  beside it, the principals, and the project's configuration (\<open>internal/domain/rules_config.go\<close>). A stored configuration is
  the value its JSON decodes to, \<^const>\<open>None\<close> when it does not decode.
\<close>

section \<open>Configuration\<close>

text \<open>\<open>tr_SetReviewer\<close> is empty when the rule has no \<open>on_transition\<close>.\<close>

record TransitionRule =
  tr_Allowed :: "string list"
  tr_AllowedActors :: "string list"
  tr_AllowedActorsByTarget :: "(string, string list) gomap"
  tr_SetReviewer :: string

definition ActorsFor :: "TransitionRule \<Rightarrow> string \<Rightarrow> string list" where
  "ActorsFor r to_status =
     (case map_of (tr_AllowedActorsByTarget r) to_status of Some a \<Rightarrow> a | None \<Rightarrow> tr_AllowedActors r)"

record MidPipelineConfig =
  mp_ReviewEvidenceStrict :: bool
  mp_AutoParkStalled :: bool
  mp_AutoParkDueHours :: int
  mp_TriageEntryStrict :: bool
  mp_TriageParkDueHours :: int
  mp_RequireParkAlarm :: "bool option"

text \<open>The accessors answer for a project without the block too.\<close>

definition AutoParkDue :: "MidPipelineConfig option \<Rightarrow> int" where
  "AutoParkDue c = (case c of None \<Rightarrow> 24 | Some m \<Rightarrow> if mp_AutoParkDueHours m \<le> 0 then 24 else mp_AutoParkDueHours m)"

definition ReviewStrict :: "MidPipelineConfig option \<Rightarrow> bool" where
  "ReviewStrict c \<longleftrightarrow> (case c of None \<Rightarrow> False | Some m \<Rightarrow> mp_ReviewEvidenceStrict m)"

definition ParkStalled :: "MidPipelineConfig option \<Rightarrow> bool" where
  "ParkStalled c \<longleftrightarrow> (case c of None \<Rightarrow> False | Some m \<Rightarrow> mp_AutoParkStalled m)"

definition TriageStrict :: "MidPipelineConfig option \<Rightarrow> bool" where
  "TriageStrict c \<longleftrightarrow> (case c of None \<Rightarrow> False | Some m \<Rightarrow> mp_TriageEntryStrict m)"

definition ParkAlarmRequired :: "MidPipelineConfig option \<Rightarrow> bool" where
  "ParkAlarmRequired c \<longleftrightarrow>
     (case c of None \<Rightarrow> True | Some m \<Rightarrow> (case mp_RequireParkAlarm m of None \<Rightarrow> True | Some b \<Rightarrow> b))"

text \<open>\<open>wf_OnEnter\<close> holds the \<open>assign_to\<close> of each status; the other fields of an action only record shadow decisions.\<close>

record WorkflowRulesConfig =
  wf_Transitions :: "(string, TransitionRule) gomap"
  wf_EnforcementMode :: string
  wf_EnforceSystemActors :: bool
  wf_MidPipeline :: "MidPipelineConfig option"
  wf_OnEnter :: "(string, string) gomap"

definition empty_workflow :: WorkflowRulesConfig where
  "empty_workflow = \<lparr>wf_Transitions = [], wf_EnforcementMode = '''', wf_EnforceSystemActors = False, wf_MidPipeline = None, wf_OnEnter = []\<rparr>"

record AssignmentRulesConfig =
  ar_DefaultAssignee :: string
  ar_ByType :: "(string, string) gomap"
  ar_ByPriority :: "(string, string) gomap"
  ar_FallbackChain :: "string list"

record EffectiveAssignmentRule =
  er_Value :: string
  er_Source :: string

record EffectiveAssignmentRules =
  ef_DefaultAssignee :: "EffectiveAssignmentRule option"
  ef_ByType :: "(string, EffectiveAssignmentRule) gomap"
  ef_ByPriority :: "(string, EffectiveAssignmentRule) gomap"
  ef_FallbackChain :: "string list"

section \<open>Principals\<close>

text \<open>A decoded \<open>accepts_from\<close> column: absent, JSON null, an array of strings, or another value.\<close>

datatype accepts_json = NoAccepts | NullAccepts | ListAccepts "string list" | OtherAccepts

record agent_row =
  ag_ID :: uuid
  ag_WorkspaceID :: uuid
  ag_Slug :: string
  ag_AcceptsFrom :: accepts_json
  ag_Deleted :: bool

record grant_row =
  gr_AgentID :: uuid
  gr_WorkspaceID :: uuid
  gr_Revoked :: bool

record user_row =
  us_ID :: uuid
  us_Email :: string
  us_Username :: string

text \<open>\<open>dr_WsMembers\<close> and \<open>dr_Owners\<close>: the members of a workspace and its owner. \<open>dr_DodGates\<close>: name and \<open>required\<close> of each gate
  in a project's settings. \<open>dr_GitHub\<close>: the API behind a workspace's GitHub client. \<open>dr_Merged\<close>: whether asking the provider
  about a URL, with the workspace's client, says that it is merged; \<^const>\<open>None\<close> when it could not be asked.\<close>

record directory =
  dr_Projects :: "(uuid, uuid) gomap"
  dr_Agents :: "agent_row list"
  dr_Grants :: "grant_row list"
  dr_Users :: "user_row list"
  dr_WsMembers :: "(uuid \<times> uuid) list"
  dr_Owners :: "(uuid \<times> uuid) list"
  dr_Workflow :: "(uuid, WorkflowRulesConfig option) gomap"
  dr_WsAssignment :: "(uuid, AssignmentRulesConfig option) gomap"
  dr_ProjAssignment :: "(uuid, AssignmentRulesConfig option) gomap"
  dr_DodGates :: "(uuid, (string \<times> bool) list) gomap"
  dr_GitHub :: "uuid \<Rightarrow> github_api option"
  dr_Merged :: "string \<Rightarrow> uuid \<Rightarrow> string \<Rightarrow> bool option"

definition project_workspace :: "directory \<Rightarrow> uuid \<Rightarrow> uuid option" where
  "project_workspace d p = map_of (dr_Projects d) p"

definition agent_GetByID :: "directory \<Rightarrow> uuid \<Rightarrow> agent_row option" where
  "agent_GetByID d u = find (\<lambda>a. ag_ID a = u \<and> \<not> ag_Deleted a) (dr_Agents d)"

definition agent_GetBySlug :: "directory \<Rightarrow> uuid \<Rightarrow> string \<Rightarrow> agent_row option" where
  "agent_GetBySlug d ws slug = find (\<lambda>a. ag_WorkspaceID a = ws \<and> ag_Slug a = slug \<and> \<not> ag_Deleted a) (dr_Agents d)"

definition grant_GetByAgentAndWorkspace :: "directory \<Rightarrow> uuid \<Rightarrow> uuid \<Rightarrow> grant_row option" where
  "grant_GetByAgentAndWorkspace d a ws = find (\<lambda>g. gr_AgentID g = a \<and> gr_WorkspaceID g = ws) (dr_Grants d)"

text \<open>The agents with an active grant, deleted ones included; each with its slug.\<close>

definition ListActiveByWorkspace :: "directory \<Rightarrow> uuid \<Rightarrow> (uuid \<times> string) list" where
  "ListActiveByWorkspace d ws =
     concat (map (\<lambda>g. if gr_WorkspaceID g = ws \<and> \<not> gr_Revoked g
                      then map (\<lambda>a. (gr_AgentID g, ag_Slug a)) (filter (\<lambda>a. ag_ID a = gr_AgentID g) (dr_Agents d)) else []) (dr_Grants d))"

definition user_GetByID :: "directory \<Rightarrow> uuid \<Rightarrow> user_row option" where
  "user_GetByID d u = find (\<lambda>x. us_ID x = u) (dr_Users d)"

text \<open>\<open>lower\<close> and the case of the patterns below fold the letters of ASCII.\<close>

definition fold_case :: "char \<Rightarrow> char" where
  "fold_case c = (if is_upper c then char_of ((of_char c :: nat) + 32) else c)"

definition user_GetByEmail :: "directory \<Rightarrow> string \<Rightarrow> user_row option" where
  "user_GetByEmail d email = find (\<lambda>x. map fold_case (us_Email x) = map fold_case (TrimSpace email)) (dr_Users d)"

definition user_GetByUsername :: "directory \<Rightarrow> uuid \<Rightarrow> string \<Rightarrow> user_row option" where
  "user_GetByUsername d ws name = find (\<lambda>x. us_Username x = name \<and> (ws, us_ID x) \<in> set (dr_WsMembers d)) (dr_Users d)"

definition IsWorkspaceMember :: "directory \<Rightarrow> uuid \<Rightarrow> uuid \<Rightarrow> bool" where
  "IsWorkspaceMember d ws u \<longleftrightarrow> (ws, u) \<in> set (dr_WsMembers d) \<or> (ws, u) \<in> set (dr_Owners d)"

section \<open>Reading the configuration\<close>

text \<open>\<^const>\<open>None\<close> is the error of a configuration that does not decode.\<close>

definition GetProjectWorkflowRules :: "directory \<Rightarrow> uuid \<Rightarrow> WorkflowRulesConfig option" where
  "GetProjectWorkflowRules d p = (case map_of (dr_Workflow d) p of None \<Rightarrow> Some empty_workflow | Some c \<Rightarrow> c)"

definition midPipelineConfig :: "directory \<Rightarrow> uuid \<Rightarrow> MidPipelineConfig option" where
  "midPipelineConfig d p = (case GetProjectWorkflowRules d p of None \<Rightarrow> None | Some c \<Rightarrow> wf_MidPipeline c)"

definition put_rules :: "string \<Rightarrow> (string, string) gomap \<Rightarrow> (string, EffectiveAssignmentRule) gomap \<Rightarrow> (string, EffectiveAssignmentRule) gomap" where
  "put_rules source m acc = fold (\<lambda>(k, v). AList.update k \<lparr>er_Value = v, er_Source = source\<rparr>) m acc"

definition overlay :: "string \<Rightarrow> AssignmentRulesConfig option option \<Rightarrow> EffectiveAssignmentRules \<Rightarrow> EffectiveAssignmentRules" where
  "overlay source row e =
     (case row of
        Some (Some c) \<Rightarrow>
          e\<lparr>ef_DefaultAssignee := (if ar_DefaultAssignee c \<noteq> '''' then Some \<lparr>er_Value = ar_DefaultAssignee c, er_Source = source\<rparr>
                                   else ef_DefaultAssignee e),
            ef_ByType := put_rules source (ar_ByType c) (ef_ByType e),
            ef_ByPriority := put_rules source (ar_ByPriority c) (ef_ByPriority e),
            ef_FallbackChain := (if ar_FallbackChain c \<noteq> [] then ar_FallbackChain c else ef_FallbackChain e)\<rparr>
      | _ \<Rightarrow> e)"

text \<open>\<^const>\<open>None\<close> is the error of a missing project.\<close>

definition GetEffectiveAssignmentRules :: "directory \<Rightarrow> uuid \<Rightarrow> EffectiveAssignmentRules option" where
  "GetEffectiveAssignmentRules d p =
     (case project_workspace d p of
        None \<Rightarrow> None
      | Some ws \<Rightarrow>
          Some (overlay ''project'' (map_of (dr_ProjAssignment d) p)
                 (overlay ''workspace'' (map_of (dr_WsAssignment d) ws)
                   \<lparr>ef_DefaultAssignee = None, ef_ByType = [], ef_ByPriority = [], ef_FallbackChain = []\<rparr>)))"

section \<open>The store\<close>

text \<open>\<open>cm_HandoffParam\<close> is what \<open>leaseHandoffParamID\<close> decodes: the comment a lease note answers, empty otherwise;
  \<open>cm_Informational\<close> what \<open>commentIsInformational\<close> decodes from the metadata.\<close>

record comment_row =
  cm_ID :: uuid
  cm_TaskID :: uuid
  cm_AuthorID :: uuid
  cm_AuthorType :: string
  cm_Body :: string
  cm_IsInternal :: bool
  cm_Informational :: bool
  cm_HandoffParam :: string
  cm_CreatedAt :: gtime

text \<open>\<open>ms_Members\<close>: project, principal, and whether the principal is an agent. \<open>ms_Artifacts\<close>: the task of each artifact.\<close>

record move_store =
  ms_Board :: checkout_store
  ms_Comments :: "comment_row list"
  ms_Links :: "VCSLink list"
  ms_Artifacts :: "uuid list"
  ms_Members :: "(uuid \<times> uuid \<times> bool) list"

definition task_GetByID :: "move_store \<Rightarrow> uuid \<Rightarrow> checkout_task option" where
  "task_GetByID s u = checkout_GetByID (ms_Board s) u"

definition get_status :: "move_store \<Rightarrow> uuid \<Rightarrow> checkout_status option" where
  "get_status s u = status_GetByID (ms_Board s) u"

definition VCSLinkCount :: "move_store \<Rightarrow> uuid \<Rightarrow> nat" where
  "VCSLinkCount s u = length (filter (\<lambda>l. vl_TaskID l = u) (ms_Links s))"

definition ArtifactCount :: "move_store \<Rightarrow> uuid \<Rightarrow> nat" where
  "ArtifactCount s u = length (filter (\<lambda>a. a = u) (ms_Artifacts s))"

definition list_links :: "move_store \<Rightarrow> uuid \<Rightarrow> VCSLink list" where
  "list_links s u = ListByTask u \<lparr>lt_Rows = ms_Links s, lt_Writes = 0\<rparr>"

definition HasAnyComment :: "move_store \<Rightarrow> uuid \<Rightarrow> bool" where
  "HasAnyComment s u \<longleftrightarrow> list_ex (\<lambda>c. cm_TaskID c = u) (ms_Comments s)"

text \<open>The pattern \<open>(^|[^a-z0-9])https?://[^[:space:]]\<close>, case-insensitive.\<close>

definition url_at :: "string \<Rightarrow> bool" where
  "url_at s \<longleftrightarrow>
     (let rest = (\<lambda>n. case drop n s of [] \<Rightarrow> False | c # _ \<Rightarrow> c \<notin> set (map byte [9, 10, 11, 12, 13, 32])) in
      map fold_case (take 7 s) = ''http://'' \<and> rest 7 \<or> map fold_case (take 8 s) = ''https://'' \<and> rest 8)"

fun has_url :: "bool \<Rightarrow> string \<Rightarrow> bool" where
  "has_url boundary [] = False"
| "has_url boundary (c # cs) \<longleftrightarrow> (boundary \<and> url_at (c # cs)) \<or> has_url (\<not> is_alnum c) cs"

definition HasCommentWithURL :: "move_store \<Rightarrow> uuid \<Rightarrow> bool" where
  "HasCommentWithURL s u \<longleftrightarrow> list_ex (\<lambda>c. cm_TaskID c = u \<and> has_url True (cm_Body c)) (ms_Comments s)"

text \<open>\<open>char_length\<close> counts the bytes that do not continue a character.\<close>

definition char_length :: "string \<Rightarrow> nat" where
  "char_length s = length (filter (\<lambda>c. \<not> (128 \<le> (of_char c :: nat) \<and> (of_char c :: nat) < 192)) s)"

definition HasRecentCommentBy :: "move_store \<Rightarrow> uuid \<Rightarrow> uuid \<Rightarrow> gtime \<Rightarrow> int \<Rightarrow> bool" where
  "HasRecentCommentBy s u author since min_length \<longleftrightarrow>
     list_ex (\<lambda>c. cm_TaskID c = u \<and> cm_AuthorID c = author \<and> since \<le> cm_CreatedAt c
                  \<and> min_length \<le> int (char_length (cm_Body c)) \<and> \<not> cm_IsInternal c) (ms_Comments s)"

text \<open>The trigger on comments, artifacts and links: \<open>UPDATE tasks SET version = version\<close>.\<close>

definition touch_task :: "uuid \<Rightarrow> checkout_store \<Rightarrow> checkout_store" where
  "touch_task u s =
     s\<lparr>co_Tasks := map (\<lambda>t. if ct_ID t = u then tasks_checkout_stage_guard (advance_task_version t) else t) (co_Tasks s)\<rparr>"

text \<open>A new comment: the row, its time in the task's activity, and the trigger.\<close>

definition create_comment :: "comment_row \<Rightarrow> move_store \<Rightarrow> move_store" where
  "create_comment c s =
     s\<lparr>ms_Comments := ms_Comments s @ [c],
       ms_Board := touch_task (cm_TaskID c)
         ((ms_Board s)\<lparr>co_Activity := co_Activity (ms_Board s) @ [(cm_TaskID c, cm_CreatedAt c)]\<rparr>)\<rparr>"

section \<open>What a request carries\<close>

text \<open>\<open>mo_now\<close> and \<open>mo_db_now\<close> are the clocks of the service and of the database; \<open>mo_fresh\<close> makes identifiers, here from the
  number of comments; \<open>mo_note\<close> and \<open>mo_change_note\<close> are the texts of the notes that a reviewer was not assigned
  and that the assignee changed. \<open>mo_parse_uuid\<close> and \<open>mo_uuid_text\<close>
  are \<open>uuid.Parse\<close> and \<open>String\<close> of the library \<open>google/uuid\<close>, and \<open>mo_same_url\<close> whether \<open>NormalizeVCSURL\<close> makes two addresses equal.\<close>

record move_env =
  mo_now :: gtime
  mo_db_now :: gtime
  mo_actor :: uuid
  mo_actor_type :: string
  mo_fresh :: "nat \<Rightarrow> uuid"
  mo_note :: "string \<Rightarrow> string"
  mo_change_note :: "uuid option \<Rightarrow> uuid option \<Rightarrow> string"
  mo_parse_uuid :: "string \<Rightarrow> uuid option"
  mo_uuid_text :: "uuid \<Rightarrow> string"
  mo_same_url :: "string \<Rightarrow> string \<Rightarrow> bool"
  mo_dir :: directory

end
