(* ===== verification/Governance_Rules.thy ===== *)
theory Governance_Rules
  imports Move_Store Go_Json
begin

text \<open>
  Governance rules: \<open>internal/service/rule_service.go\<close> with its evaluators \<open>rule_evaluators.go\<close>, and the queries of
  \<open>internal/repository/postgres/rule_repo.go\<close>. A rule of a workspace, a project or an agent limits what its actors may do;
  for each type of rule the most specific one decides.

  The iteration order of \<open>byType\<close> decides only the order of the violations; here it is the order of first appearance.
\<close>

section \<open>Rules\<close>

text \<open>The decoded configuration holds the keys of every evaluator; \<^const>\<open>None\<close> when it does not decode.\<close>

record rule_config =
  rc_TargetStatusCategories :: "string list"
  rc_MinCommentLength :: int
  rc_AllowCancelled :: bool
  rc_Limit :: int
  rc_StatusCategories :: "string list"

definition empty_rule_config :: rule_config where
  "empty_rule_config = \<lparr>rc_TargetStatusCategories = [], rc_MinCommentLength = 0, rc_AllowCancelled = False, rc_Limit = 0, rc_StatusCategories = []\<rparr>"

record Rule =
  ru_ID :: uuid
  ru_WorkspaceID :: uuid
  ru_ProjectID :: "uuid option"
  ru_AgentID :: "uuid option"
  ru_Scope :: string
  ru_RuleType :: string
  ru_Name :: string
  ru_Description :: string
  ru_Config :: "rule_config option"
  ru_AppliesToActorTypes :: "string list"
  ru_AppliesToRoles :: "string list"
  ru_Enforcement :: string
  ru_Priority :: int
  ru_IsEnabled :: bool
  ru_CreatedBy :: uuid
  ru_CreatedByType :: string
  ru_CreatedAt :: gtime
  ru_UpdatedAt :: gtime

record RuleViolation =
  rv_RuleID :: uuid
  rv_RuleName :: string
  rv_RuleType :: string
  rv_Enforcement :: string
  rv_Message :: string

section \<open>Writing rules\<close>

record CreateRuleInput =
  ci_WorkspaceID :: uuid
  ci_ProjectID :: "uuid option"
  ci_AgentID :: "uuid option"
  ci_Scope :: string
  ci_RuleType :: string
  ci_Name :: string
  ci_Description :: string
  ci_Config :: "rule_config option option"
  ci_AppliesToActorTypes :: "string list"
  ci_AppliesToRoles :: "string list"
  ci_Enforcement :: string
  ci_Priority :: int

record UpdateRuleInput =
  ui_Name :: "string option"
  ui_Description :: "string option"
  ui_Config :: "rule_config option option"
  ui_AppliesToActorTypes :: "string list option"
  ui_AppliesToRoles :: "string list option"
  ui_Enforcement :: "string option"
  ui_Priority :: "int option"
  ui_IsEnabled :: "bool option"

text \<open>\<open>^[a-z_]+\.[a-z_]+$\<close>: split at the first dot.\<close>

definition snake :: "string \<Rightarrow> bool" where
  "snake s \<longleftrightarrow> s \<noteq> '''' \<and> list_all (\<lambda>c. is_lower c \<or> c = CHR ''_'') s"

definition rule_type_ok :: "string \<Rightarrow> bool" where
  "rule_type_ok s \<longleftrightarrow> (let a = takeWhile (\<lambda>c. c \<noteq> CHR ''.'') s; b = drop (length a) s in
     snake a \<and> b \<noteq> [] \<and> snake (tl b))"

definition scope_errors :: "CreateRuleInput \<Rightarrow> (string, string) gomap \<Rightarrow> (string, string) gomap" where
  "scope_errors i errs =
     (if ci_Scope i = ''workspace'' then
        (if ci_ProjectID i \<noteq> None \<or> ci_AgentID i \<noteq> None
         then AList.update ''scope'' ''workspace-scoped rules must not have project_id or agent_id'' errs else errs)
      else if ci_Scope i = ''project'' then
        (let e1 = (if ci_ProjectID i = None then AList.update ''project_id'' ''project_id is required for project-scoped rules'' errs else errs) in
         if ci_AgentID i \<noteq> None then AList.update ''agent_id'' ''project-scoped rules must not have agent_id'' e1 else e1)
      else if ci_Scope i = ''agent'' then
        (if ci_AgentID i = None then AList.update ''agent_id'' ''agent_id is required for agent-scoped rules'' errs else errs)
      else errs)"

definition rule_errors :: "CreateRuleInput \<Rightarrow> (string, string) gomap" where
  "rule_errors i =
     (let e1 = (if ci_Name i = '''' then AList.update ''name'' ''name is required'' [] else []);
          e2 = (if ci_RuleType i = '''' then AList.update ''rule_type'' ''rule_type is required'' e1
                else if \<not> rule_type_ok (ci_RuleType i)
                then AList.update ''rule_type'' ''rule_type must match pattern 'category.action' (e.g. transition_gate.require_comment)'' e1
                else e1);
          e3 = (if ci_Scope i = '''' then AList.update ''scope'' ''scope is required'' e2 else e2) in
      scope_errors i e3)"

definition validateRuleInput :: "CreateRuleInput \<Rightarrow> Error option" where
  "validateRuleInput i = (let errs = rule_errors i in refuse_if (errs \<noteq> []) (ValidationError errs))"

definition new_rule :: "uuid \<Rightarrow> gtime \<Rightarrow> uuid \<Rightarrow> string \<Rightarrow> CreateRuleInput \<Rightarrow> Rule" where
  "new_rule fresh now actor actor_type i =
     \<lparr>ru_ID = fresh, ru_WorkspaceID = ci_WorkspaceID i, ru_ProjectID = ci_ProjectID i, ru_AgentID = ci_AgentID i,
      ru_Scope = ci_Scope i, ru_RuleType = ci_RuleType i, ru_Name = ci_Name i, ru_Description = ci_Description i,
      ru_Config = (case ci_Config i of None \<Rightarrow> Some empty_rule_config | Some c \<Rightarrow> c),
      ru_AppliesToActorTypes = ci_AppliesToActorTypes i, ru_AppliesToRoles = ci_AppliesToRoles i,
      ru_Enforcement = (if ci_Enforcement i = '''' then ''block'' else ci_Enforcement i),
      ru_Priority = (if ci_Priority i = 0 then 100 else ci_Priority i), ru_IsEnabled = True,
      ru_CreatedBy = actor, ru_CreatedByType = actor_type, ru_CreatedAt = now, ru_UpdatedAt = now\<rparr>"

text \<open>What the table demands of a row: its enumerations, the widths of its columns and its checks; PostgreSQL takes a text that is
  UTF-8 and has no code point 0. Of the configuration the model keeps what the evaluators decode, so whether \<open>jsonb\<close> takes its
  text is \<open>rt_Jsonb\<close>. A new row needs an identifier of its own and rows that its references name.\<close>

record rule_tables =
  rt_Workspaces :: "uuid list"
  rt_Projects :: "uuid list"
  rt_Agents :: "uuid list"
  rt_Jsonb :: bool

definition pg_text :: "string \<Rightarrow> bool" where
  "pg_text s \<longleftrightarrow> valid_utf8 s \<and> byte 0 \<notin> set s"

definition row_accepted :: "rule_tables \<Rightarrow> Rule \<Rightarrow> bool" where
  "row_accepted tb r \<longleftrightarrow>
     ru_Scope r \<in> {''workspace'', ''project'', ''agent''} \<and> ru_Enforcement r \<in> {''block'', ''warn'', ''log''}
   \<and> ru_CreatedByType r \<in> {''user'', ''agent'', ''system'', ''extension''}
   \<and> char_length (ru_RuleType r) \<le> 100 \<and> char_length (ru_Name r) \<le> 255
   \<and> - (2 ^ 31) \<le> ru_Priority r \<and> ru_Priority r < 2 ^ 31
   \<and> list_all pg_text ([ru_RuleType r, ru_Name r, ru_Description r] @ ru_AppliesToActorTypes r @ ru_AppliesToRoles r) \<and> rt_Jsonb tb
   \<and> (ru_Scope r = ''workspace'' \<longrightarrow> ru_ProjectID r = None \<and> ru_AgentID r = None)
   \<and> (ru_Scope r = ''project'' \<longrightarrow> ru_ProjectID r \<noteq> None \<and> ru_AgentID r = None)
   \<and> (ru_Scope r = ''agent'' \<longrightarrow> ru_AgentID r \<noteq> None)
   \<and> rule_type_ok (ru_RuleType r)"

definition table_accepts :: "rule_tables \<Rightarrow> Rule list \<Rightarrow> Rule \<Rightarrow> bool" where
  "table_accepts tb rules r \<longleftrightarrow>
     row_accepted tb r \<and> ru_ID r \<notin> ru_ID ` set rules \<and> ru_WorkspaceID r \<in> set (rt_Workspaces tb)
   \<and> (case ru_ProjectID r of None \<Rightarrow> True | Some p \<Rightarrow> p \<in> set (rt_Projects tb))
   \<and> (case ru_AgentID r of None \<Rightarrow> True | Some a \<Rightarrow> a \<in> set (rt_Agents tb))"

text \<open>\<open>Inl None\<close> is an error of the database.\<close>

definition rule_Create ::
  "rule_tables \<Rightarrow> uuid \<Rightarrow> gtime \<Rightarrow> uuid \<Rightarrow> string \<Rightarrow> CreateRuleInput \<Rightarrow> Rule list \<Rightarrow> (Error option + Rule) \<times> Rule list" where
  "rule_Create tb fresh now actor actor_type i rules =
     (case validateRuleInput i of
        Some e \<Rightarrow> (Inl (Some e), rules)
      | None \<Rightarrow>
          let r = new_rule fresh now actor actor_type i in
          if table_accepts tb rules r then (Inr r, rules @ [r]) else (Inl None, rules))"

definition rule_GetByID :: "Rule list \<Rightarrow> uuid \<Rightarrow> Rule option" where
  "rule_GetByID rules u = find (\<lambda>r. ru_ID r = u) rules"

definition patch :: "'a option \<Rightarrow> 'a \<Rightarrow> 'a" where
  "patch p old = (case p of None \<Rightarrow> old | Some v \<Rightarrow> v)"

definition patched_rule :: "gtime \<Rightarrow> UpdateRuleInput \<Rightarrow> Rule \<Rightarrow> Rule" where
  "patched_rule now i r = r\<lparr>ru_Name := patch (ui_Name i) (ru_Name r), ru_Description := patch (ui_Description i) (ru_Description r),
     ru_Config := patch (ui_Config i) (ru_Config r),
     ru_AppliesToActorTypes := patch (ui_AppliesToActorTypes i) (ru_AppliesToActorTypes r),
     ru_AppliesToRoles := patch (ui_AppliesToRoles i) (ru_AppliesToRoles r),
     ru_Enforcement := patch (ui_Enforcement i) (ru_Enforcement r), ru_Priority := patch (ui_Priority i) (ru_Priority r),
     ru_IsEnabled := patch (ui_IsEnabled i) (ru_IsEnabled r), ru_UpdatedAt := now\<rparr>"

definition rule_Update ::
  "rule_tables \<Rightarrow> gtime \<Rightarrow> uuid \<Rightarrow> UpdateRuleInput \<Rightarrow> Rule list \<Rightarrow> (Error option + Rule) \<times> Rule list" where
  "rule_Update tb now u i rules =
     (case rule_GetByID rules u of
        None \<Rightarrow> (Inl (Some (NotFound ''Rule'')), rules)
      | Some r \<Rightarrow>
          let r1 = patched_rule now i r in
          if row_accepted tb r1 then (Inr r1, map (\<lambda>q. if ru_ID q = u then r1 else q) rules) else (Inl None, rules))"

definition rule_Delete :: "uuid \<Rightarrow> Rule list \<Rightarrow> Error option \<times> Rule list" where
  "rule_Delete u rules =
     (case rule_GetByID rules u of
        None \<Rightarrow> (Some (NotFound ''Rule''), rules)
      | Some _ \<Rightarrow> (None, filter (\<lambda>r. ru_ID r \<noteq> u) rules))"

section \<open>The rules in force\<close>

definition scopeRank :: "string \<Rightarrow> nat" where
  "scopeRank s = (if s = ''project'' then 1 else if s = ''agent'' then 2 else 0)"

text \<open>The candidates, ordered by scope, priority and age.\<close>

definition repo_GetEffective :: "Rule list \<Rightarrow> uuid \<Rightarrow> uuid option \<Rightarrow> uuid option \<Rightarrow> Rule list" where
  "repo_GetEffective rules ws project agent =
     sort_key (\<lambda>r. scopeRank (ru_Scope r)) (sort_key ru_Priority (sort_key ru_CreatedAt
       (filter (\<lambda>r. ru_Scope r = ''workspace'' \<and> ru_WorkspaceID r = ws
                    \<or> project \<noteq> None \<and> ru_Scope r = ''project'' \<and> ru_ProjectID r = project
                    \<or> agent \<noteq> None \<and> ru_Scope r = ''agent'' \<and> ru_AgentID r = agent) rules)))"

definition outranks :: "Rule \<Rightarrow> Rule \<Rightarrow> bool" where
  "outranks r q \<longleftrightarrow> scopeRank (ru_Scope r) > scopeRank (ru_Scope q)
     \<or> scopeRank (ru_Scope r) = scopeRank (ru_Scope q) \<and> ru_Priority r < ru_Priority q"

definition inherit_step :: "Rule \<Rightarrow> (string, Rule) gomap \<Rightarrow> (string, Rule) gomap" where
  "inherit_step r by_type =
     (case map_of by_type (ru_RuleType r) of
        None \<Rightarrow> AList.update (ru_RuleType r) r by_type
      | Some q \<Rightarrow> if outranks r q then AList.update (ru_RuleType r) r by_type else by_type)"

definition resolveInheritance :: "Rule list \<Rightarrow> Rule list" where
  "resolveInheritance candidates = filter ru_IsEnabled (map snd (fold inherit_step candidates []))"

definition ruleAppliesTo :: "string \<Rightarrow> string \<Rightarrow> Rule \<Rightarrow> bool" where
  "ruleAppliesTo actor_type role r \<longleftrightarrow>
     \<not> (actor_type = ''user'' \<and> ru_Enforcement r = ''block'')
     \<and> (ru_AppliesToActorTypes r \<noteq> [] \<longrightarrow> actor_type \<in> set (ru_AppliesToActorTypes r))
     \<and> (ru_AppliesToRoles r \<noteq> [] \<and> role \<noteq> '''' \<longrightarrow> role \<in> set (ru_AppliesToRoles r))"

section \<open>Evaluating a move\<close>

definition violation :: "Rule \<Rightarrow> string \<Rightarrow> RuleViolation" where
  "violation r msg = \<lparr>rv_RuleID = ru_ID r, rv_RuleName = ru_Name r, rv_RuleType = ru_RuleType r, rv_Enforcement = ru_Enforcement r, rv_Message = msg\<rparr>"

definition CountTasksByAssigneeAndCategory :: "directory \<Rightarrow> move_store \<Rightarrow> uuid \<Rightarrow> uuid \<Rightarrow> string \<Rightarrow> string list \<Rightarrow> nat" where
  "CountTasksByAssigneeAndCategory d s ws assignee typ categories =
     length (filter (\<lambda>t. project_workspace d (ct_ProjectID t) = Some ws \<and> ct_AssigneeID t = Some assignee \<and> ct_AssigneeType t = typ
                        \<and> \<not> ct_Deleted t
                        \<and> (case get_status s (ct_StatusID t) of None \<Rightarrow> False | Some x \<Rightarrow> cu_Category x \<in> set categories))
             (co_Tasks (ms_Board s)))"

definition evalRequireComment :: "move_env \<Rightarrow> move_store \<Rightarrow> Rule \<Rightarrow> rule_config \<Rightarrow> uuid \<Rightarrow> string \<Rightarrow> RuleViolation option" where
  "evalRequireComment env s r c u category =
     (if category \<notin> set (rc_TargetStatusCategories c) then None
      else let min_length = (if rc_MinCommentLength c \<le> 0 then 1 else rc_MinCommentLength c) in
        if HasRecentCommentBy s u (mo_actor env) (mo_now env + Minutes (- 1440)) min_length then None
        else Some (violation r (''A comment of at least '' @ FormatInt min_length @ '' character(s) is required before moving to '' @ category)))"

definition open_subtask :: "move_store \<Rightarrow> rule_config \<Rightarrow> checkout_task \<Rightarrow> bool" where
  "open_subtask s c t \<longleftrightarrow> ct_CompletedAt t = None
     \<and> \<not> (rc_AllowCancelled c \<and> (case get_status s (ct_StatusID t) of None \<Rightarrow> False | Some x \<Rightarrow> cu_Category x = ''cancelled''))"

definition evalRequireSubtasksDone :: "move_store \<Rightarrow> Rule \<Rightarrow> rule_config \<Rightarrow> uuid \<Rightarrow> string \<Rightarrow> RuleViolation option" where
  "evalRequireSubtasksDone s r c u category =
     (if category \<notin> set (rc_TargetStatusCategories c) then None
      else if list_ex (\<lambda>t. ct_ParentTaskID t = Some u \<and> \<not> ct_Deleted t \<and> open_subtask s c t) (co_Tasks (ms_Board s))
      then Some (violation r (''All subtasks must be completed before moving to '' @ category))
      else None)"

definition evalMaxInProgress :: "move_env \<Rightarrow> move_store \<Rightarrow> Rule \<Rightarrow> rule_config \<Rightarrow> uuid \<Rightarrow> string \<Rightarrow> RuleViolation option" where
  "evalMaxInProgress env s r c ws category =
     (let categories = (if rc_StatusCategories c = [] then [''in_progress''] else rc_StatusCategories c) in
      if category \<notin> set categories then None
      else if int (CountTasksByAssigneeAndCategory (mo_dir env) s ws (mo_actor env) (mo_actor_type env) categories) \<ge> rc_Limit c
      then Some (violation r (''You have reached the maximum of '' @ FormatInt (rc_Limit c) @ '' task(s) in progress''))
      else None)"

text \<open>\<open>capacity_limit.max_assigned\<close> looks at assignments only, an unknown type is skipped, and a configuration that does not
  decode is logged and skipped.\<close>

definition eval_rule :: "move_env \<Rightarrow> move_store \<Rightarrow> uuid \<Rightarrow> uuid \<Rightarrow> string \<Rightarrow> Rule \<Rightarrow> RuleViolation option" where
  "eval_rule env s ws u category r =
     (case ru_Config r of
        None \<Rightarrow> None
      | Some c \<Rightarrow>
          if ru_RuleType r = ''transition_gate.require_comment'' then evalRequireComment env s r c u category
          else if ru_RuleType r = ''transition_gate.require_subtasks_done'' then evalRequireSubtasksDone s r c u category
          else if ru_RuleType r = ''capacity_limit.max_in_progress'' then evalMaxInProgress env s r c ws category
          else None)"

definition Evaluate :: "Rule list \<Rightarrow> move_env \<Rightarrow> move_store \<Rightarrow> uuid \<Rightarrow> uuid \<Rightarrow> uuid \<Rightarrow> string \<Rightarrow> RuleViolation list" where
  "Evaluate rules env s ws project u category =
     List.map_filter (\<lambda>r. if ruleAppliesTo (mo_actor_type env) '''' r then eval_rule env s ws u category r else None)
       (resolveInheritance (repo_GetEffective rules ws (Some project)
          (if mo_actor_type env = ''agent'' then Some (mo_actor env) else None)))"

definition evaluateRulesForMove :: "Rule list \<Rightarrow> move_env \<Rightarrow> move_store \<Rightarrow> checkout_task \<Rightarrow> string \<Rightarrow> RuleViolation list" where
  "evaluateRulesForMove rules env s t category =
     (case project_workspace (mo_dir env) (ct_ProjectID t) of
        None \<Rightarrow> []
      | Some ws \<Rightarrow> if ws = uuid_Nil then [] else Evaluate rules env s ws (ct_ProjectID t) (ct_ID t) category)"

section \<open>Which rule decides\<close>

text \<open>The order in which rules win: the narrower scope, then the lower priority number, then the older rule.\<close>

definition precedes :: "Rule \<Rightarrow> Rule \<Rightarrow> bool" where
  "precedes r q \<longleftrightarrow> scopeRank (ru_Scope r) > scopeRank (ru_Scope q)
     \<or> scopeRank (ru_Scope r) = scopeRank (ru_Scope q)
       \<and> (ru_Priority r < ru_Priority q \<or> ru_Priority r = ru_Priority q \<and> ru_CreatedAt r \<le> ru_CreatedAt q)"

lemma precedes_trans: "precedes a b \<Longrightarrow> precedes b c \<Longrightarrow> precedes a c"
  by (auto simp: precedes_def)

lemma outranks_precedes: "outranks r q \<Longrightarrow> precedes r q"
  by (auto simp: precedes_def outranks_def)

lemma precedes_refl: "precedes r r"
  by (simp add: precedes_def)

lemma precedes_antisym: "precedes r q \<Longrightarrow> precedes q r \<Longrightarrow> ru_CreatedAt r = ru_CreatedAt q"
  by (auto simp: precedes_def)

text \<open>Rules of one scope and priority stand in the order of their age.\<close>

definition same_level :: "nat \<Rightarrow> int \<Rightarrow> Rule \<Rightarrow> bool" where
  "same_level k p r \<longleftrightarrow> scopeRank (ru_Scope r) = k \<and> ru_Priority r = p"

definition oldest_first :: "Rule list \<Rightarrow> bool" where
  "oldest_first cs \<longleftrightarrow> (\<forall>k p. sorted (map ru_CreatedAt (filter (same_level k p) cs)))"

lemma oldest_first_snoc:
  assumes "oldest_first (cs @ [r])"
  shows "oldest_first cs"
    and "q \<in> set cs \<Longrightarrow> scopeRank (ru_Scope q) = scopeRank (ru_Scope r) \<Longrightarrow> ru_Priority q = ru_Priority r \<Longrightarrow> ru_CreatedAt q \<le> ru_CreatedAt r"
proof -
  have s: "sorted (map ru_CreatedAt (filter (same_level k p) cs) @ map ru_CreatedAt (filter (same_level k p) [r]))" for k p
    using assms unfolding oldest_first_def filter_append map_append by blast
  then show "oldest_first cs"
    unfolding oldest_first_def by (simp only: sorted_append) blast
  assume q: "q \<in> set cs" "scopeRank (ru_Scope q) = scopeRank (ru_Scope r)" "ru_Priority q = ru_Priority r"
  then show "ru_CreatedAt q \<le> ru_CreatedAt r"
    using s [of "scopeRank (ru_Scope r)" "ru_Priority r"] by (auto simp: sorted_append same_level_def)
qed

lemma candidates_oldest_first: "oldest_first (repo_GetEffective rules ws project agent)"
proof -
  have level: "filter (same_level k p) xs = filter (\<lambda>r. ru_Priority r = p) (filter (\<lambda>r. scopeRank (ru_Scope r) = k) xs)" for k p xs
    unfolding filter_filter same_level_def by (rule filter_cong) auto
  have swap: "filter (\<lambda>r. ru_Priority r = p) (filter (\<lambda>r. scopeRank (ru_Scope r) = k) xs)
              = filter (\<lambda>r. scopeRank (ru_Scope r) = k) (filter (\<lambda>r. ru_Priority r = p) xs)" for k p and xs :: "Rule list"
    unfolding filter_filter by (rule filter_cong) auto
  have stable: "filter (\<lambda>r. f r = k) (sort_key f xs) = filter (\<lambda>r. f r = k) xs" for f :: "Rule \<Rightarrow> 'b :: linorder" and k xs
    by (rule sort_key_stable)
  show ?thesis
    unfolding oldest_first_def repo_GetEffective_def level stable
    unfolding swap stable
    by (simp add: sorted_filter)
qed

text \<open>The fold keeps, for each type of rule, one that precedes all others of the type.\<close>

lemma inherit_keys: "distinct (map fst m) \<Longrightarrow> distinct (map fst (fold inherit_step cs m))"
  by (induction cs arbitrary: m) (auto simp: inherit_step_def distinct_update split: option.splits)

lemma inherit_step_other: "ru_RuleType r \<noteq> ty \<Longrightarrow> map_of (inherit_step r m) ty = map_of m ty"
  by (auto simp: inherit_step_def update_conv' split: option.splits)

lemma inherit_None: "map_of (fold inherit_step cs []) ty = None \<Longrightarrow> q \<in> set cs \<Longrightarrow> ru_RuleType q \<noteq> ty"
proof (induction cs rule: rev_induct)
  case (snoc r cs)
  then show ?case
    by (cases "ru_RuleType r = ty") (auto simp: inherit_step_other inherit_step_def update_conv' split: option.splits if_splits)
qed simp

lemma inherit_Some:
  "oldest_first cs \<Longrightarrow> map_of (fold inherit_step cs []) ty = Some w \<Longrightarrow>
   w \<in> set cs \<and> ru_RuleType w = ty \<and> (\<forall>q\<in>set cs. ru_RuleType q = ty \<longrightarrow> precedes w q)"
proof (induction cs arbitrary: w rule: rev_induct)
  case (snoc r cs)
  note older = oldest_first_snoc [OF snoc.prems(1)]
  define m where "m = fold inherit_step cs []"
  have w: "map_of (inherit_step r m) ty = Some w"
    using snoc.prems(2) by (simp add: m_def)
  have IH: "map_of m ty = Some v \<Longrightarrow> v \<in> set cs \<and> ru_RuleType v = ty \<and> (\<forall>q\<in>set cs. ru_RuleType q = ty \<longrightarrow> precedes v q)" for v
    using snoc.IH [OF older(1)] by (simp add: m_def)
  show ?case
  proof (cases "ru_RuleType r = ty")
    case False
    then show ?thesis
      using w IH by (auto simp: inherit_step_other)
  next
    case ty: True
    show ?thesis
    proof (cases "map_of m ty")
      case None
      then have "w = r"
        using w ty by (simp add: inherit_step_def update_conv')
      moreover have "\<forall>q\<in>set cs. ru_RuleType q \<noteq> ty"
        using inherit_None None unfolding m_def by blast
      ultimately show ?thesis
        using ty by (auto simp: precedes_refl)
    next
      case (Some v)
      then have v: "v \<in> set cs" "ru_RuleType v = ty" "\<forall>q\<in>set cs. ru_RuleType q = ty \<longrightarrow> precedes v q"
        using IH by blast+
      show ?thesis
      proof (cases "outranks r v")
        case True
        then have "w = r"
          using w ty Some by (simp add: inherit_step_def update_conv')
        then show ?thesis
          using ty v(3) outranks_precedes [OF True] by (auto simp: precedes_refl intro: precedes_trans)
      next
        case False
        then have "w = v"
          using w ty Some by (simp add: inherit_step_def)
        moreover have "precedes v r"
          using False older(2) [OF v(1)] by (auto simp: outranks_def precedes_def)
        ultimately show ?thesis
          using v by auto
      qed
    qed
  qed
qed simp

lemma inherit_in:
  assumes "oldest_first cs"
  shows "r \<in> set (resolveInheritance cs) \<longleftrightarrow> ru_IsEnabled r \<and> map_of (fold inherit_step cs []) (ru_RuleType r) = Some r"
proof -
  have keys: "(k, v) \<in> set (fold inherit_step cs []) \<longleftrightarrow> map_of (fold inherit_step cs []) k = Some v" for k v
    using inherit_keys [of "[]" cs] by (simp add: map_of_eq_Some_iff)
  have "r \<in> snd ` set (fold inherit_step cs []) \<longleftrightarrow> (\<exists>k. map_of (fold inherit_step cs []) k = Some r)"
    using keys by (force simp: image_iff)
  also have "\<dots> \<longleftrightarrow> map_of (fold inherit_step cs []) (ru_RuleType r) = Some r"
    using inherit_Some [OF assms] by blast
  finally show ?thesis
    by (auto simp: resolveInheritance_def)
qed

text \<open>A rule that may speak on a request, as the query selects it.\<close>

definition candidate :: "Rule list \<Rightarrow> uuid \<Rightarrow> uuid option \<Rightarrow> uuid option \<Rightarrow> Rule \<Rightarrow> bool" where
  "candidate rules ws project agent r \<longleftrightarrow> r \<in> set rules \<and>
     (ru_Scope r = ''workspace'' \<and> ru_WorkspaceID r = ws
      \<or> project \<noteq> None \<and> ru_Scope r = ''project'' \<and> ru_ProjectID r = project
      \<or> agent \<noteq> None \<and> ru_Scope r = ''agent'' \<and> ru_AgentID r = agent)"

lemma candidates_set: "r \<in> set (repo_GetEffective rules ws project agent) \<longleftrightarrow> candidate rules ws project agent r"
  by (auto simp: repo_GetEffective_def candidate_def)


lemma violation_enforcement [simp]: "rv_Enforcement (violation r msg) = ru_Enforcement r"
  by (simp add: violation_def)

lemma eval_rule_enforcement: "eval_rule env s ws u category r = Some v \<Longrightarrow> rv_Enforcement v = ru_Enforcement r"
  by (auto simp: eval_rule_def evalRequireComment_def evalRequireSubtasksDone_def evalMaxInProgress_def Let_def
    split: option.splits if_splits)

lemma user_never_blocked:
  assumes "mo_actor_type env = ''user''" and "v \<in> set (Evaluate rules env s ws p u category)"
  shows "rv_Enforcement v \<noteq> ''block''"
proof -
  obtain r where "ruleAppliesTo ''user'' '''' r" "eval_rule env s ws u category r = Some v"
    using assms unfolding Evaluate_def List.map_filter_def by (auto split: if_splits)
  then show ?thesis
    using eval_rule_enforcement unfolding ruleAppliesTo_def by force
qed

lemma in_force_preceding:
  "map_of (fold inherit_step (repo_GetEffective rules ws project agent) []) (ru_RuleType r) = Some r \<Longrightarrow>
   candidate rules ws project agent r \<and> (\<forall>q. candidate rules ws project agent q \<and> ru_RuleType q = ru_RuleType r \<longrightarrow> precedes r q)"
  using inherit_Some [OF candidates_oldest_first, unfolded candidates_set, of rules ws project agent "ru_RuleType r" r]
  unfolding Ball_def candidates_set by blast

lemma preceding_in_force:
  assumes inj: "inj_on ru_CreatedAt (set rules)" and r: "candidate rules ws project agent r"
    and first: "\<forall>q. candidate rules ws project agent q \<and> ru_RuleType q = ru_RuleType r \<longrightarrow> precedes r q"
  shows "map_of (fold inherit_step (repo_GetEffective rules ws project agent) []) (ru_RuleType r) = Some r"
proof -
  obtain w where w: "map_of (fold inherit_step (repo_GetEffective rules ws project agent) []) (ru_RuleType r) = Some w"
    using r inherit_None [of "repo_GetEffective rules ws project agent" "ru_RuleType r" r, unfolded candidates_set] not_None_eq by metis
  then have *: "candidate rules ws project agent w" "ru_RuleType w = ru_RuleType r" "precedes w r"
    using inherit_Some [OF candidates_oldest_first w] r unfolding Ball_def candidates_set by blast+
  then have "ru_CreatedAt w = ru_CreatedAt r"
    using first precedes_antisym by blast
  then have "w = r"
    using inj * r by (simp add: inj_on_def candidate_def)
  then show ?thesis
    using w by simp
qed

text \<open>C13. The rules in force on a request are exactly the enabled ones that precede every other candidate of their type (agent before
  project before workspace, then priority number, then age), one for each type: a disabled rule of a narrower scope silences the
  type, and a human is never held by a rule that blocks.
\<close>

theorem effective_rules_exact:
  assumes "inj_on ru_CreatedAt (set rules)"
  shows "(r \<in> set (resolveInheritance (repo_GetEffective rules ws project agent)) \<longleftrightarrow>
            candidate rules ws project agent r \<and> ru_IsEnabled r
            \<and> (\<forall>q. candidate rules ws project agent q \<and> ru_RuleType q = ru_RuleType r \<longrightarrow> precedes r q))
         \<and> inj_on ru_RuleType (set (resolveInheritance (repo_GetEffective rules ws project agent)))
         \<and> (mo_actor_type env = ''user'' \<longrightarrow> ''block'' \<notin> rv_Enforcement ` set (Evaluate rules env s ws p u category))"
proof (intro conjI)
  show "r \<in> set (resolveInheritance (repo_GetEffective rules ws project agent)) \<longleftrightarrow> candidate rules ws project agent r \<and> ru_IsEnabled r
            \<and> (\<forall>q. candidate rules ws project agent q \<and> ru_RuleType q = ru_RuleType r \<longrightarrow> precedes r q)"
    unfolding inherit_in [OF candidates_oldest_first] using in_force_preceding preceding_in_force [OF assms] by blast
  show "inj_on ru_RuleType (set (resolveInheritance (repo_GetEffective rules ws project agent)))"
    by (rule inj_onI) (simp add: inherit_in [OF candidates_oldest_first])
  show "mo_actor_type env = ''user'' \<longrightarrow> ''block'' \<notin> rv_Enforcement ` set (Evaluate rules env s ws p u category)"
    using user_never_blocked unfolding image_iff by metis
qed

section \<open>Stored rules\<close>

text \<open>A rule that names exactly what its scope applies to.\<close>

definition scoped :: "Rule \<Rightarrow> bool" where
  "scoped r \<longleftrightarrow> ru_Scope r \<in> {''workspace'', ''project'', ''agent''}
     \<and> (ru_Scope r = ''workspace'' \<longrightarrow> ru_ProjectID r = None \<and> ru_AgentID r = None)
     \<and> (ru_Scope r = ''project'' \<longrightarrow> ru_ProjectID r \<noteq> None \<and> ru_AgentID r = None)
     \<and> (ru_Scope r = ''agent'' \<longrightarrow> ru_AgentID r \<noteq> None)
     \<and> rule_type_ok (ru_RuleType r) \<and> ru_Enforcement r \<in> {''block'', ''warn'', ''log''}"

datatype rule_request =
  CreateRule rule_tables uuid gtime uuid string CreateRuleInput
| UpdateRule rule_tables gtime uuid UpdateRuleInput
| DeleteRule uuid

fun rule_step :: "rule_request \<Rightarrow> Rule list \<Rightarrow> Rule list" where
  "rule_step (CreateRule tb fresh now actor kind i) rules = snd (rule_Create tb fresh now actor kind i rules)"
| "rule_step (UpdateRule tb now u i) rules = snd (rule_Update tb now u i rules)"
| "rule_step (DeleteRule u) rules = snd (rule_Delete u rules)"

definition rules_ok :: "Rule list \<Rightarrow> bool" where
  "rules_ok rules \<longleftrightarrow> (\<forall>r\<in>set rules. scoped r) \<and> distinct (map ru_ID rules)"

lemma update_nonempty [simp]: "AList.update k v m \<noteq> []"
  by (cases m) auto

text \<open>No request is turned away for nothing: the errors are empty exactly when the input is well formed.\<close>

lemma scope_errors_Nil:
  "scope_errors i errs = [] \<longleftrightarrow> errs = []
     \<and> (ci_Scope i = ''workspace'' \<longrightarrow> ci_ProjectID i = None \<and> ci_AgentID i = None)
     \<and> (ci_Scope i = ''project'' \<longrightarrow> ci_ProjectID i \<noteq> None \<and> ci_AgentID i = None)
     \<and> (ci_Scope i = ''agent'' \<longrightarrow> ci_AgentID i \<noteq> None)"
  by (simp add: scope_errors_def Let_def)

lemma no_rule_errors:
  "validateRuleInput i = None \<longleftrightarrow> ci_Name i \<noteq> '''' \<and> ci_RuleType i \<noteq> '''' \<and> rule_type_ok (ci_RuleType i) \<and> ci_Scope i \<noteq> ''''
     \<and> (ci_Scope i = ''workspace'' \<longrightarrow> ci_ProjectID i = None \<and> ci_AgentID i = None)
     \<and> (ci_Scope i = ''project'' \<longrightarrow> ci_ProjectID i \<noteq> None \<and> ci_AgentID i = None)
     \<and> (ci_Scope i = ''agent'' \<longrightarrow> ci_AgentID i \<noteq> None)"
  by (simp add: validateRuleInput_def rule_errors_def Let_def scope_errors_Nil)

lemma accepted_scoped: "row_accepted tb r \<Longrightarrow> scoped r"
  by (simp add: row_accepted_def scoped_def)

lemma create_rules_ok: "rules_ok rules \<Longrightarrow> rules_ok (snd (rule_Create tb fresh now actor kind i rules))"
  using accepted_scoped [of tb "new_rule fresh now actor kind i"]
  by (auto simp: rule_Create_def Let_def rules_ok_def table_accepts_def split: option.splits)

lemma update_rules_ok:
  assumes "rules_ok rules"
  shows "rules_ok (snd (rule_Update tb now u i rules))"
proof (cases "rule_GetByID rules u")
  case (Some r)
  define r1 where "r1 = patched_rule now i r"
  have id: "ru_ID r1 = u" using Some by (auto simp: r1_def patched_rule_def rule_GetByID_def find_Some_iff)
  then have ids: "map ru_ID (map (\<lambda>q. if ru_ID q = u then r1 else q) rules) = map ru_ID rules" by simp
  show ?thesis
  proof (cases "row_accepted tb r1")
    case True
    have "rules_ok (map (\<lambda>q. if ru_ID q = u then r1 else q) rules)"
      unfolding rules_ok_def ids using assms accepted_scoped [OF True] by (auto simp: rules_ok_def)
    with True Some show ?thesis by (simp add: rule_Update_def Let_def flip: r1_def)
  qed (use Some assms in \<open>simp add: rule_Update_def Let_def flip: r1_def\<close>)
qed (use assms in \<open>simp add: rule_Update_def\<close>)

lemma rule_step_ok: "rules_ok rules \<Longrightarrow> rules_ok (rule_step q rules)"
proof (cases q)
  case (DeleteRule u)
  then show "rules_ok rules \<Longrightarrow> rules_ok (rule_step q rules)"
    by (auto simp: rule_Delete_def rules_ok_def distinct_map_filter split: option.splits)
qed (simp_all add: create_rules_ok update_rules_ok)

interpretation governance: state_machine "\<lambda>s. s = []" "\<lambda>s q t. t = rule_step q s" rules_ok
proof unfold_locales
  show "rules_ok s" if "s = []" for s using that by (simp add: rules_ok_def)
qed (simp only: rule_step_ok)

lemma create_accepts:
  "fst (rule_Create tb fresh now actor kind i rules) = Inr r \<longleftrightarrow>
   r = new_rule fresh now actor kind i \<and> ci_Name i \<noteq> '''' \<and> table_accepts tb rules (new_rule fresh now actor kind i)"
proof -
  have "validateRuleInput i = None" if "ci_Name i \<noteq> ''''" "row_accepted tb (new_rule fresh now actor kind i)"
    using that unfolding no_rule_errors row_accepted_def by (auto simp: new_rule_def rule_type_ok_def snake_def)
  moreover have "ci_Name i \<noteq> ''''" if "validateRuleInput i = None"
    using that unfolding no_rule_errors by simp
  ultimately show ?thesis
    by (cases "validateRuleInput i") (auto simp: rule_Create_def Let_def table_accepts_def)
qed

text \<open>C34. Every rule the table ever holds, whatever requests to create, change and delete rules are served, names exactly what its
  scope applies to, has a well-formed type and an identifier of its own. A request to create a rule is accepted exactly when the rule
  has a name and the table takes it: its references exist, its values fit the columns, and the checks hold. So the validation in the
  service refuses no named rule that the table would take, and what it lets through is still the table's to refuse.
\<close>

theorem rules_scoped:
  "(governance.reachable rules \<longrightarrow> (\<forall>r\<in>set rules. scoped r) \<and> distinct (map ru_ID rules))
   \<and> (fst (rule_Create tb fresh now actor kind i rules) = Inr r \<longleftrightarrow>
        r = new_rule fresh now actor kind i \<and> ci_Name i \<noteq> '''' \<and> table_accepts tb rules (new_rule fresh now actor kind i))"
  using governance.reachable_invariant create_accepts unfolding rules_ok_def by blast

text \<open>A workspace limits its agents; the project's disabled rule of the same type silences that.\<close>

definition limit_input :: "string \<Rightarrow> uuid option \<Rightarrow> CreateRuleInput" where
  "limit_input scope project =
     \<lparr>ci_WorkspaceID = 1, ci_ProjectID = project, ci_AgentID = None, ci_Scope = scope, ci_RuleType = ''a.b'', ci_Name = ''limit'',
      ci_Description = '''', ci_Config = None, ci_AppliesToActorTypes = [], ci_AppliesToRoles = [], ci_Enforcement = '''', ci_Priority = 0\<rparr>"

definition workspace_limit :: Rule where
  "workspace_limit = new_rule 1 10 7 ''user'' (limit_input ''workspace'' None)"

definition project_limit :: Rule where
  "project_limit = (new_rule 2 20 7 ''user'' (limit_input ''project'' (Some 3)))\<lparr>ru_IsEnabled := False\<rparr>"

lemma limit_fields:
  "ru_Scope workspace_limit = ''workspace''" "ru_WorkspaceID workspace_limit = 1" "ru_RuleType workspace_limit = ''a.b''"
  "ru_IsEnabled workspace_limit" "ru_CreatedAt workspace_limit = 10" "ru_Priority workspace_limit = 100"
  "ru_Scope project_limit = ''project''" "ru_ProjectID project_limit = Some 3" "ru_RuleType project_limit = ''a.b''"
  "ru_CreatedAt project_limit = 20"
  by (simp_all add: workspace_limit_def project_limit_def new_rule_def limit_input_def)

lemma limit_candidates:
  "candidate [workspace_limit, project_limit] 1 None None q \<longleftrightarrow> q = workspace_limit"
  "candidate [workspace_limit, project_limit] 1 (Some 3) None q \<longleftrightarrow> q = workspace_limit \<or> q = project_limit"
  unfolding candidate_def by (auto simp: limit_fields)

lemma limit_precedes: "precedes workspace_limit workspace_limit" "\<not> precedes workspace_limit project_limit"
  by (simp_all add: precedes_def limit_fields scopeRank_def)

theorem effective_rules_exact_witness:
  "workspace_limit \<in> set (resolveInheritance (repo_GetEffective [workspace_limit, project_limit] 1 None None))
   \<and> workspace_limit \<notin> set (resolveInheritance (repo_GetEffective [workspace_limit, project_limit] 1 (Some 3) None))"
proof -
  have inj: "inj_on ru_CreatedAt (set [workspace_limit, project_limit])"
    by (auto simp: inj_on_def limit_fields)
  show ?thesis
    using effective_rules_exact [OF inj, of workspace_limit 1 None None] effective_rules_exact [OF inj, of workspace_limit 1 "Some 3" None]
    unfolding limit_candidates using limit_precedes by (metis limit_fields(3,4,9))
qed

definition sample_tables :: rule_tables where
  "sample_tables = \<lparr>rt_Workspaces = [1], rt_Projects = [3], rt_Agents = [], rt_Jsonb = True\<rparr>"

theorem rules_scoped_witness:
  "list_all scoped [workspace_limit] \<and> distinct (map ru_ID [workspace_limit])
   \<and> fst (rule_Create sample_tables 1 10 7 ''user'' (limit_input ''workspace'' None) []) = Inr workspace_limit"
proof -
  have takes: "table_accepts sample_tables [] workspace_limit" by code_simp
  have new: "fst (rule_Create sample_tables 1 10 7 ''user'' (limit_input ''workspace'' None) []) = Inr workspace_limit"
    using takes rules_scoped [of "[]" sample_tables 1 10 7 "''user''" "limit_input ''workspace'' None" workspace_limit]
    by (simp add: workspace_limit_def limit_input_def)
  then have "rule_step (CreateRule sample_tables 1 10 7 ''user'' (limit_input ''workspace'' None)) [] = [workspace_limit]"
    by (auto simp: rule_Create_def Let_def split: option.splits if_splits)
  then have "governance.reachable [workspace_limit]"
    by (metis governance.move governance.start)
  then have "(\<forall>r\<in>set [workspace_limit]. scoped r) \<and> distinct (map ru_ID [workspace_limit])"
    using rules_scoped by blast
  with new show ?thesis unfolding list_all_iff by blast
qed

end
