(* ===== verification/Workflow_Gate.thy ===== *)
theory Workflow_Gate
  imports Governance_Rules
begin

text \<open>
  What a status move must pass (\<open>moveTaskOnce\<close> of \<open>internal/service/task_service.go\<close>, from the supervised sign-off to the
  governance rules): the workflow transition gate \<open>workflow_transition_gate.go\<close>, the evidence for a review
  (\<open>review_evidence.go\<close>), the entry to triage (\<open>triage_entry.go\<close>), the alarm of a parked card (\<open>park_alarm.go\<close>), the
  evidence and the definition of done, and the rules of \<open>Governance_Rules\<close>.

  A refusal keeps the facts of the error, not its English text. The journals of activity and of violations, and the metrics, are
  not modelled, and the reads do not fail.
\<close>

section \<open>Who may move where\<close>

record transitionActor =
  ta_ID :: uuid
  ta_Type :: string

text \<open>Whoever did the work: the assignee stashed before the review, else the assignee.\<close>

definition taskAuthorID :: "checkout_task \<Rightarrow> uuid option" where
  "taskAuthorID t = (case ct_PreReviewAssigneeID t of Some a \<Rightarrow> Some a | None \<Rightarrow> ct_AssigneeID t)"

definition hasActorPattern :: "string list \<Rightarrow> string \<Rightarrow> bool" where
  "hasActorPattern allowed p \<longleftrightarrow> list_ex (\<lambda>a. a = p) allowed"

definition same_actor :: "transitionActor \<Rightarrow> uuid option \<Rightarrow> bool" where
  "same_actor a u \<longleftrightarrow> u \<noteq> None \<and> ta_ID a \<noteq> uuid_Nil \<and> u = Some (ta_ID a)"

definition pattern_allows :: "transitionActor \<Rightarrow> checkout_task \<Rightarrow> VCSLink list \<Rightarrow> string \<Rightarrow> bool" where
  "pattern_allows a t links p \<longleftrightarrow>
     (if p = ''*'' \<or> p = ta_Type a then True
      else if p = ''author'' then same_actor a (taskAuthorID t)
      else if p = ''author_if_merged_shipped'' then same_actor a (taskAuthorID t) \<and> mergedShippedEvidence links
      else if p = ''not_author'' then ta_ID a \<noteq> uuid_Nil \<and> \<not> same_actor a (taskAuthorID t)
      else if p = ''assignee'' then same_actor a (ct_AssigneeID t)
      else if p = ''reviewer'' then same_actor a (ct_ReviewerID t)
      else False)"

definition isTransitionActorAllowed :: "transitionActor \<Rightarrow> checkout_task \<Rightarrow> VCSLink list \<Rightarrow> string list \<Rightarrow> bool" where
  "isTransitionActorAllowed a t links allowed \<longleftrightarrow> list_ex (pattern_allows a t links) allowed"

datatype gate_violation =
  NotATarget string string "string list"
| NotThisActor string string string

definition gate_mode :: "WorkflowRulesConfig \<Rightarrow> string" where
  "gate_mode cfg = (if wf_EnforcementMode cfg = '''' then ''advisory'' else wf_EnforcementMode cfg)"

definition evaluateTransitionGate ::
  "string \<Rightarrow> string \<Rightarrow> transitionActor \<Rightarrow> checkout_task \<Rightarrow> VCSLink list \<Rightarrow> WorkflowRulesConfig
   \<Rightarrow> string \<times> gate_violation option \<times> ShipEvidenceDiagnosis option" where
  "evaluateTransitionGate from to actor task links cfg =
     (let mode = gate_mode cfg in
      if wf_Transitions cfg = [] then (mode, None, None)
      else if ta_Type actor = ''system'' \<and> \<not> wf_EnforceSystemActors cfg then (mode, None, None)
      else case map_of (wf_Transitions cfg) from of
        None \<Rightarrow> (mode, None, None)
      | Some tr \<Rightarrow>
          if tr_Allowed tr \<noteq> [] \<and> to \<notin> set (tr_Allowed tr) then (mode, Some (NotATarget from to (tr_Allowed tr)), None)
          else let actors = ActorsFor tr to in
            if actors \<noteq> [] \<and> \<not> isTransitionActorAllowed actor task links actors then
              (mode, Some (NotThisActor (ta_Type actor) from to),
               if hasActorPattern actors ''author_if_merged_shipped'' \<and> ta_ID actor \<noteq> uuid_Nil \<and> taskAuthorID task = Some (ta_ID actor)
               then Some (diagnoseMergedShipped links) else None)
            else (mode, None, None))"

text \<open>The workspace's GitHub client; a project that is not found asks for the zero workspace.\<close>

definition resolveProjectWorkspace :: "directory \<Rightarrow> uuid \<Rightarrow> uuid" where
  "resolveProjectWorkspace d p = (case project_workspace d p of None \<Rightarrow> uuid_Nil | Some ws \<Rightarrow> ws)"

definition move_actor :: "move_env \<Rightarrow> transitionActor" where
  "move_actor env = \<lparr>ta_ID = mo_actor env, ta_Type = mo_actor_type env\<rparr>"

text \<open>The synchronisation writes the links; each written row fires the trigger on the task.\<close>

definition sync_links :: "move_env \<Rightarrow> checkout_task \<Rightarrow> move_store \<Rightarrow> VCSLink list \<times> nat \<times> move_store" where
  "sync_links env t s =
     (case syncGitHubEvidenceWrote (dr_GitHub (mo_dir env) (resolveProjectWorkspace (mo_dir env) (ct_ProjectID t))) (ct_ID t)
             (list_links s (ct_ID t)) (ms_Links s) of
        (links, writes, table) \<Rightarrow>
          (links, writes, s\<lparr>ms_Links := table, ms_Board := (touch_task (ct_ID t) ^^ writes) (ms_Board s)\<rparr>))"

definition needs_links :: "WorkflowRulesConfig \<Rightarrow> string \<Rightarrow> string \<Rightarrow> bool" where
  "needs_links cfg from to \<longleftrightarrow>
     (case map_of (wf_Transitions cfg) from of None \<Rightarrow> False
      | Some tr \<Rightarrow> hasActorPattern (ActorsFor tr to) ''author_if_merged_shipped'')"

definition applyTransitionGate ::
  "move_env \<Rightarrow> checkout_task \<Rightarrow> uuid \<Rightarrow> checkout_status \<Rightarrow> move_store
   \<Rightarrow> (string \<times> gate_violation option \<times> ShipEvidenceDiagnosis option) \<times> nat \<times> move_store" where
  "applyTransitionGate env t old_id next s =
     (case (GetProjectWorkflowRules (mo_dir env) (ct_ProjectID t), get_status s old_id) of
        (Some cfg, Some old) \<Rightarrow>
          if wf_Transitions cfg = [] then ((''advisory'', None, None), 0, s)
          else
            let (links, writes, s1) = (if needs_links cfg (cu_Slug old) (cu_Slug next) then sync_links env t s else ([], 0, s)) in
            (evaluateTransitionGate (cu_Slug old) (cu_Slug next) (move_actor env) t links cfg, writes, s1)
      | _ \<Rightarrow> ((''advisory'', None, None), 0, s))"

definition rebaseVersionAfterChildWrite :: "move_store \<Rightarrow> checkout_task \<Rightarrow> int \<Rightarrow> nat \<Rightarrow> int" where
  "rebaseVersionAfterChildWrite s read version own =
     (case task_GetByID s (ct_ID read) of
        None \<Rightarrow> version
      | Some fresh \<Rightarrow>
          if ct_Version fresh \<noteq> version + int own then version
          else if ct_StatusID fresh = ct_StatusID read \<and> ct_UpdatedAt fresh = ct_UpdatedAt read
                  \<and> ct_AssigneeID fresh = ct_AssigneeID read
          then ct_Version fresh else version)"

section \<open>Refusals\<close>

text \<open>\<open>DoneEvidence\<close> carries the link that is not merged (and whether the provider was asked), nothing when there is no
  evidence at all. The last four constructors belong to the assignee and to the write.\<close>

datatype move_error =
  MoveRefused Error
| HumanGateFrozen string
| TaskShipped
| ParkAlarm string
| ShipBlocked gate_violation ShipEvidenceDiagnosis
| WorkflowBlocked gate_violation
| ReviewEvidence bool
| TriageEntry
| DoneEvidence "(VCSLink \<times> bool) option"
| DodGateBlocked "string list"
| RuleViolations "RuleViolation list"
| AssigneeUnresolved uuid string
| AssigneeNotInWorkspace uuid string
| AssigneeRefusesAssignments uuid
| WriteRefused transition_error

section \<open>The gates on the row\<close>

definition supervised_gate :: "move_env \<Rightarrow> checkout_task \<Rightarrow> string \<Rightarrow> move_error option" where
  "supervised_gate env t category =
     refuse_if (ct_DelegationLevel t = ''supervised'' \<and> mo_actor_type env \<noteq> ''user'' \<and> category \<in> {''review'', ''done'', ''cancelled''})
       (MoveRefused (ForbiddenWithDetails ''supervised_requires_human_signoff''
          ''supervised tasks must be signed off by a human: only users may move to review/done/cancelled''))"

definition human_gate :: "move_env \<Rightarrow> checkout_task \<Rightarrow> string \<Rightarrow> move_error option" where
  "human_gate env t category =
     (if \<not> ct_HumanGate t \<or> mo_actor_type env = ''user'' then None
      else if category \<in> {''done'', ''cancelled''} then Some (HumanGateFrozen category)
      else if category = ''backlog'' then
        refuse_if (\<not> (mo_actor_type env = ''agent'' \<and> ct_GateAuthor t = Some (mo_actor env) \<and> ct_GateAuthorType t = Some ''agent''))
          (HumanGateFrozen category)
      else None)"

definition shipped_gate :: "checkout_task \<Rightarrow> string \<Rightarrow> move_error option" where
  "shipped_gate t category = refuse_if (ct_IsShipped t \<and> category \<noteq> ''done'') TaskShipped"

definition hasParkAlarmLabel :: "string list \<Rightarrow> string option" where
  "hasParkAlarmLabel labels = find (\<lambda>l. l \<in> {''kind:monitor'', ''phase:verify''}) labels"

definition hasArmedAlarm :: "gtime \<Rightarrow> gtime option \<Rightarrow> bool" where
  "hasArmedAlarm now due \<longleftrightarrow> (case due of None \<Rightarrow> False | Some d \<Rightarrow> d > now)"

definition wouldBeAlarmlessPark :: "gtime \<Rightarrow> string list \<Rightarrow> gtime option \<Rightarrow> string option" where
  "wouldBeAlarmlessPark now labels due =
     (case hasParkAlarmLabel labels of None \<Rightarrow> None | Some l \<Rightarrow> if hasArmedAlarm now due then None else Some l)"

definition isBacklogCategory :: "string \<Rightarrow> bool" where
  "isBacklogCategory c \<longleftrightarrow> c = ''backlog''"

definition park_gate :: "move_env \<Rightarrow> checkout_task \<Rightarrow> string \<Rightarrow> move_error option" where
  "park_gate env t category =
     (if isBacklogCategory category \<and> ParkAlarmRequired (midPipelineConfig (mo_dir env) (ct_ProjectID t))
      then map_option ParkAlarm (wouldBeAlarmlessPark (mo_now env) (ct_Labels t) (ct_DueDate t)) else None)"

section \<open>Evidence for a review, entry to triage\<close>

record reviewEvidence =
  re_HasArtifact :: bool
  re_HasVCSLink :: bool
  re_HasPassingDoD :: bool
  re_HasAnyComment :: bool
  re_HasURLComment :: bool

definition hasStrictEvidence :: "reviewEvidence \<Rightarrow> bool" where
  "hasStrictEvidence e \<longleftrightarrow> re_HasArtifact e \<or> re_HasVCSLink e \<or> re_HasPassingDoD e \<or> re_HasURLComment e"

definition hasLooseEvidence :: "reviewEvidence \<Rightarrow> bool" where
  "hasLooseEvidence e \<longleftrightarrow> re_HasArtifact e \<or> re_HasVCSLink e \<or> re_HasAnyComment e"

definition hasAnyPassingDoDCheck :: "(string, string) gomap \<Rightarrow> bool" where
  "hasAnyPassingDoDCheck checks \<longleftrightarrow> list_ex (\<lambda>c. snd c = ''pass'') checks"

text \<open>\<open>task_counts\<close> are the counts read with the row.\<close>

record task_counts =
  tn_Links :: nat
  tn_Artifacts :: nat

definition counts_of :: "move_store \<Rightarrow> uuid \<Rightarrow> task_counts" where
  "counts_of s u = \<lparr>tn_Links = VCSLinkCount s u, tn_Artifacts = ArtifactCount s u\<rparr>"

definition gatherReviewEvidence :: "move_store \<Rightarrow> checkout_task \<Rightarrow> task_counts \<Rightarrow> bool \<Rightarrow> reviewEvidence" where
  "gatherReviewEvidence s t n strict =
     (let ev = \<lparr>re_HasArtifact = tn_Artifacts n > 0, re_HasVCSLink = tn_Links n > 0,
                re_HasPassingDoD = hasAnyPassingDoDCheck (ct_DodChecks t), re_HasAnyComment = False, re_HasURLComment = False\<rparr> in
      if re_HasArtifact ev \<or> re_HasVCSLink ev then ev
      else if strict then
        (if re_HasPassingDoD ev then ev else ev\<lparr>re_HasURLComment := HasCommentWithURL s (ct_ID t)\<rparr>)
      else ev\<lparr>re_HasAnyComment := HasAnyComment s (ct_ID t)\<rparr>)"

definition passesReviewEvidenceGate :: "move_env \<Rightarrow> move_store \<Rightarrow> checkout_task \<Rightarrow> task_counts \<Rightarrow> bool \<times> bool" where
  "passesReviewEvidenceGate env s t n =
     (let strict = ReviewStrict (midPipelineConfig (mo_dir env) (ct_ProjectID t)); ev = gatherReviewEvidence s t n strict in
      if strict then (hasStrictEvidence ev, True) else (hasLooseEvidence ev, False))"

definition review_gate :: "move_env \<Rightarrow> move_store \<Rightarrow> checkout_task \<Rightarrow> task_counts \<Rightarrow> string \<Rightarrow> move_error option" where
  "review_gate env s t n category =
     (if category = ''review'' \<and> mo_actor_type env \<noteq> ''system''
      then (case passesReviewEvidenceGate env s t n of (ok, strict) \<Rightarrow> refuse_if (\<not> ok) (ReviewEvidence strict)) else None)"

definition qualifiesForTriage :: "checkout_task \<Rightarrow> bool" where
  "qualifiesForTriage t \<longleftrightarrow> ct_HumanGate t \<and> (ct_GateAuthorType t = Some ''user'' \<or> ct_HumanGateClass t = ''hard'')"

definition passesTriageEntryGate :: "move_env \<Rightarrow> checkout_task \<Rightarrow> bool \<times> bool" where
  "passesTriageEntryGate env t =
     (let strict = TriageStrict (midPipelineConfig (mo_dir env) (ct_ProjectID t)) in
      if \<not> strict then (True, False) else (qualifiesForTriage t, True))"

definition triage_gate :: "move_env \<Rightarrow> checkout_task \<Rightarrow> string \<Rightarrow> move_error option" where
  "triage_gate env t category = refuse_if (category = ''triage'' \<and> \<not> fst (passesTriageEntryGate env t)) TriageEntry"

section \<open>Evidence that the work is done\<close>

text \<open>\<open>Upsert\<close> of a link that exists: the oldest row of the same kind and address survives with the new facts, the others are
  deleted; each row fires the trigger.\<close>

definition merge_meta :: "(string, meta_value) gomap \<Rightarrow> (string, meta_value) gomap \<Rightarrow> (string, meta_value) gomap" where
  "merge_meta new old = fold (\<lambda>(k, v). AList.update k v) new old"

definition upsert_matches :: "move_env \<Rightarrow> VCSLink \<Rightarrow> VCSLink list \<Rightarrow> VCSLink list" where
  "upsert_matches env l rows =
     sort_key vl_CreatedAt (filter (\<lambda>r. vl_TaskID r = vl_TaskID l \<and> vl_LinkType r = vl_LinkType l \<and> mo_same_url env (vl_URL r) (vl_URL l)) rows)"

definition upserted :: "VCSLink \<Rightarrow> VCSLink \<Rightarrow> VCSLink" where
  "upserted l r = r\<lparr>vl_Provider := vl_Provider l, vl_ExternalID := vl_ExternalID l, vl_Status := vl_Status l, vl_Title := vl_Title l,
     vl_Metadata := merge_meta (vl_Metadata l) (vl_Metadata r), vl_URL := vl_URL l\<rparr>"

definition upsert_link :: "move_env \<Rightarrow> VCSLink \<Rightarrow> move_store \<Rightarrow> move_store" where
  "upsert_link env l s =
     (case upsert_matches env l (ms_Links s) of
        [] \<Rightarrow> s\<lparr>ms_Links := ms_Links s @ [l], ms_Board := touch_task (vl_TaskID l) (ms_Board s)\<rparr>
      | primary # dups \<Rightarrow>
          s\<lparr>ms_Links := map (\<lambda>r. if vl_ID r = vl_ID primary then upserted l r else r)
                          (filter (\<lambda>r. vl_ID r \<notin> set (map vl_ID dups)) (ms_Links s)),
            ms_Board := (touch_task (vl_TaskID l) ^^ Suc (length dups)) (ms_Board s)\<rparr>)"

definition healVCSLinkStatus :: "move_env \<Rightarrow> VCSLink \<Rightarrow> move_store \<Rightarrow> move_store" where
  "healVCSLinkStatus env l s = upsert_link env (l\<lparr>vl_Status := ''merged''\<rparr>) s"

text \<open>\<^const>\<open>None\<close>: the provider could not be asked.\<close>

definition isPRMergedLive :: "move_env \<Rightarrow> VCSLink \<Rightarrow> uuid \<Rightarrow> bool option" where
  "isPRMergedLive env l ws =
     (if vl_Provider l \<in> {''github'', ''gitlab''} then dr_Merged (mo_dir env) (vl_Provider l) ws (vl_URL l) else None)"

text \<open>A pull request whose cached status leaves the question open.\<close>

definition unsettled :: "VCSLink \<Rightarrow> bool" where
  "unsettled l \<longleftrightarrow> \<not> (vl_LinkType l \<noteq> ''pr'' \<or> vl_Status l \<in> {''merged'', ''closed''}) \<and> \<not> (IsReviewSubject l \<or> IsRelatesTo l)"

text \<open>The first component of the answer is the refusal, the second whether the links leave evidence wanting.\<close>

fun check_links :: "move_env \<Rightarrow> uuid \<Rightarrow> VCSLink list \<Rightarrow> bool \<Rightarrow> move_store \<Rightarrow> move_error option \<times> bool \<times> move_store" where
  "check_links env ws [] needs s = (None, needs, s)"
| "check_links env ws (l # ls) needs s =
     (let needs1 = (needs \<and> IsRelatesTo l) in
      if \<not> unsettled l then check_links env ws ls needs1 s
      else case isPRMergedLive env l ws of
        Some True \<Rightarrow> check_links env ws ls needs1 (healVCSLinkStatus env l s)
      | Some False \<Rightarrow> (Some (DoneEvidence (Some (l, True))), needs1, s)
      | None \<Rightarrow> (Some (DoneEvidence (Some (l, False))), needs1, s))"

definition done_gate :: "move_env \<Rightarrow> checkout_task \<Rightarrow> task_counts \<Rightarrow> string \<Rightarrow> move_store \<Rightarrow> move_error option \<times> move_store" where
  "done_gate env t n category s =
     (if category \<noteq> ''done'' \<or> mo_actor_type env = ''system'' then (None, s)
      else
        let (refusal, needs, s1) =
          (if tn_Links n = 0 then (None, True, s)
           else check_links env (resolveProjectWorkspace (mo_dir env) (ct_ProjectID t)) (list_links s (ct_ID t)) True s) in
        (case refusal of
           Some e \<Rightarrow> (Some e, s1)
         | None \<Rightarrow> (refuse_if (needs \<and> tn_Artifacts n = 0 \<and> \<not> HasAnyComment s1 (ct_ID t)) (DoneEvidence None), s1)))"

definition dodBlockingGates :: "(string \<times> bool) list \<Rightarrow> (string, string) gomap \<Rightarrow> string list" where
  "dodBlockingGates gates checks = map fst (filter (\<lambda>(name, required). required \<and> map_of checks name \<noteq> Some ''pass'') gates)"

definition dod_gate :: "move_env \<Rightarrow> checkout_task \<Rightarrow> string \<Rightarrow> move_error option" where
  "dod_gate env t category =
     (if category = ''done'' \<and> mo_actor_type env \<noteq> ''system'' \<and> project_workspace (mo_dir env) (ct_ProjectID t) \<noteq> None
      then let blocking = dodBlockingGates (go_get [] (dr_DodGates (mo_dir env)) (ct_ProjectID t)) (ct_DodChecks t) in
        refuse_if (blocking \<noteq> []) (DodGateBlocked blocking)
      else None)"

definition rules_gate :: "Rule list \<Rightarrow> move_env \<Rightarrow> move_store \<Rightarrow> checkout_task \<Rightarrow> string \<Rightarrow> move_error option" where
  "rules_gate rules env s t category =
     (let blocking = filter (\<lambda>v. rv_Enforcement v = ''block'') (evaluateRulesForMove rules env s t category) in
      refuse_if (blocking \<noteq> []) (RuleViolations blocking))"

section \<open>All gates, in the order of the code\<close>

text \<open>The answer of an admitted move is the version its write must find, and the violation that only advises.\<close>

definition row_gates :: "move_env \<Rightarrow> checkout_task \<Rightarrow> string \<Rightarrow> move_error option" where
  "row_gates env t category =
     first_refusal [supervised_gate env t category, human_gate env t category, shipped_gate t category, park_gate env t category]"

definition gate_refusal :: "string \<Rightarrow> gate_violation option \<Rightarrow> ShipEvidenceDiagnosis option \<Rightarrow> move_error option" where
  "gate_refusal mode v diag =
     (case v of
        None \<Rightarrow> None
      | Some m \<Rightarrow> if mode = ''strict'' then Some (case diag of Some d \<Rightarrow> ShipBlocked m d | None \<Rightarrow> WorkflowBlocked m) else None)"

definition move_gates ::
  "Rule list \<Rightarrow> move_env \<Rightarrow> checkout_task \<Rightarrow> task_counts \<Rightarrow> int \<Rightarrow> checkout_status \<Rightarrow> move_store
   \<Rightarrow> (move_error + int \<times> gate_violation option) \<times> move_store" where
  "move_gates rules env t n version next s =
     (let category = cu_Category next in
      case row_gates env t category of
        Some e \<Rightarrow> (Inl e, s)
      | None \<Rightarrow>
          (case applyTransitionGate env t (ct_StatusID t) next s of
             ((mode, v, diag), writes, s1) \<Rightarrow>
               let version1 = (if writes > 0 then rebaseVersionAfterChildWrite s1 t version writes else version) in
               (case gate_refusal mode v diag of
                  Some e \<Rightarrow> (Inl e, s1)
                | None \<Rightarrow>
                    (case first_refusal [review_gate env s1 t n category, triage_gate env t category] of
                       Some e \<Rightarrow> (Inl e, s1)
                     | None \<Rightarrow>
                         (case done_gate env t n category s1 of
                            (Some e, s2) \<Rightarrow> (Inl e, s2)
                          | (None, s2) \<Rightarrow>
                              (case first_refusal [dod_gate env t category, rules_gate rules env s2 t category] of
                                 Some e \<Rightarrow> (Inl e, s2)
                               | None \<Rightarrow> (Inr (version1, v), s2)))))))"

end
