(* ===== verification/Assignee_Route.thy ===== *)
theory Assignee_Route
  imports Workflow_Gate
begin

text \<open>
  Who a moved task goes to: the tenancy of an assignee (\<open>internal/service/task_assignee_workspace.go\<close>), the enrolment of an
  assignee in the project, and the assignee that a move computes (\<open>prepareTransitionAssignee\<close> and what it calls in
  \<open>internal/service/task_service.go\<close>): the caller's, the one a status assigns on entry, the reviewer of a task that enters
  review, or the author restored when it leaves.

  The reasons written to the journal and the reads that fail are not modelled.
\<close>

section \<open>Tenancy\<close>

definition resolveAssigneeType :: "directory \<Rightarrow> uuid option \<Rightarrow> string \<Rightarrow> string" where
  "resolveAssigneeType d a fallback =
     (case a of None \<Rightarrow> ''unassigned''
      | Some u \<Rightarrow>
          if u = uuid_Nil then ''unassigned''
          else if agent_GetByID d u \<noteq> None then ''agent''
          else if user_GetByID d u \<noteq> None then ''user''
          else fallback)"

definition assertAssigneeIsTyped :: "uuid option \<Rightarrow> string \<Rightarrow> move_error option" where
  "assertAssigneeIsTyped a typ =
     (case a of None \<Rightarrow> None
      | Some u \<Rightarrow> refuse_if (u \<noteq> uuid_Nil \<and> typ \<noteq> ''agent'' \<and> typ \<noteq> ''user'') (AssigneeUnresolved u typ))"

definition agent_refusal :: "directory \<Rightarrow> uuid \<Rightarrow> uuid \<Rightarrow> string option" where
  "agent_refusal d ws u =
     (case agent_GetByID d u of
        None \<Rightarrow> Some ''no such agent''
      | Some a \<Rightarrow>
          if ag_WorkspaceID a = ws then None
          else case grant_GetByAgentAndWorkspace d u ws of
            None \<Rightarrow> Some ''agent belongs to a different workspace''
          | Some g \<Rightarrow> refuse_if (gr_Revoked g) ''agent belongs to a different workspace'')"

definition assertAssigneeInProjectWorkspace :: "directory \<Rightarrow> uuid \<Rightarrow> uuid option \<Rightarrow> string \<Rightarrow> move_error option" where
  "assertAssigneeInProjectWorkspace d project a typ =
     (case a of None \<Rightarrow> None
      | Some u \<Rightarrow>
          if u = uuid_Nil \<or> typ \<noteq> ''agent'' \<and> typ \<noteq> ''user'' then None
          else map_option (AssigneeNotInWorkspace u)
            (case project_workspace d project of
               None \<Rightarrow> Some ''the task's project does not exist''
             | Some ws \<Rightarrow>
                 if typ = ''agent'' then agent_refusal d ws u
                 else refuse_if (\<not> IsWorkspaceMember d ws u) ''user is not a member of this workspace''))"

fun acceptsFromRefusesAll :: "accepts_json \<Rightarrow> bool" where
  "acceptsFromRefusesAll NoAccepts \<longleftrightarrow> False"
| "acceptsFromRefusesAll NullAccepts \<longleftrightarrow> True"
| "acceptsFromRefusesAll (ListAccepts l) \<longleftrightarrow> l = []"
| "acceptsFromRefusesAll OtherAccepts \<longleftrightarrow> False"

definition assertAssigneeAcceptsAssignments :: "directory \<Rightarrow> uuid option \<Rightarrow> string \<Rightarrow> move_error option" where
  "assertAssigneeAcceptsAssignments d a typ =
     (case a of None \<Rightarrow> None
      | Some u \<Rightarrow>
          if u = uuid_Nil \<or> typ \<noteq> ''agent'' then None
          else case agent_GetByID d u of
            None \<Rightarrow> None
          | Some g \<Rightarrow> refuse_if (acceptsFromRefusesAll (ag_AcceptsFrom g)) (AssigneeRefusesAssignments u))"

section \<open>Enrolment\<close>

definition enroll :: "uuid \<times> uuid \<times> bool \<Rightarrow> move_store \<Rightarrow> move_store" where
  "enroll m s = (if m \<in> set (ms_Members s) then s else s\<lparr>ms_Members := ms_Members s @ [m]\<rparr>)"

definition ensureAgentProjectMember :: "directory \<Rightarrow> uuid \<Rightarrow> uuid \<Rightarrow> move_store \<Rightarrow> move_store" where
  "ensureAgentProjectMember d project u s =
     (if u = uuid_Nil \<or> agent_GetByID d u = None then s else enroll (project, u, True) s)"

definition ensureUserProjectMember :: "directory \<Rightarrow> uuid \<Rightarrow> uuid \<Rightarrow> move_store \<Rightarrow> move_store" where
  "ensureUserProjectMember d project u s =
     (if u = uuid_Nil \<or> user_GetByID d u = None then s else enroll (project, u, False) s)"

definition assignee_refusal :: "directory \<Rightarrow> uuid \<Rightarrow> uuid option \<Rightarrow> string \<Rightarrow> move_error option" where
  "assignee_refusal d project a typ =
     first_refusal [assertAssigneeIsTyped a typ, assertAssigneeInProjectWorkspace d project a typ,
                    assertAssigneeAcceptsAssignments d a typ]"

definition ensureAssigneeProjectMember ::
  "directory \<Rightarrow> uuid \<Rightarrow> uuid option \<Rightarrow> string \<Rightarrow> move_store \<Rightarrow> move_error option \<times> move_store" where
  "ensureAssigneeProjectMember d project a typ s =
     (case a of None \<Rightarrow> (None, s)
      | Some u \<Rightarrow>
          (case assignee_refusal d project a typ of
             Some e \<Rightarrow> (Some e, s)
           | None \<Rightarrow>
               (None, if typ = ''agent'' then ensureAgentProjectMember d project u s
                      else if typ = ''user'' then ensureUserProjectMember d project u s else s)))"

section \<open>Resolving the configured names\<close>

datatype reviewer_error = NoDefaultAssignee | ReviewerUnknown

definition slug_agent :: "directory \<Rightarrow> uuid \<Rightarrow> string \<Rightarrow> reviewer_error + uuid" where
  "slug_agent d ws slug =
     (case agent_GetBySlug d ws slug of
        Some a \<Rightarrow> Inr (ag_ID a)
      | None \<Rightarrow>
          (case map fst (filter (\<lambda>m. snd m = slug) (ListActiveByWorkspace d ws)) of
             [u] \<Rightarrow> Inr u
           | _ \<Rightarrow> Inl ReviewerUnknown))"

definition TrimPrefix :: "string \<Rightarrow> string \<Rightarrow> string" where
  "TrimPrefix p s = (if take (length p) s = p then drop (length p) s else s)"

definition agent_named :: "move_env \<Rightarrow> uuid \<Rightarrow> string \<Rightarrow> reviewer_error + uuid" where
  "agent_named env project slug =
     (case project_workspace (mo_dir env) project of
        None \<Rightarrow> Inl ReviewerUnknown
      | Some ws \<Rightarrow>
          (case mo_parse_uuid env (TrimPrefix ''agent:'' slug) of
             None \<Rightarrow> slug_agent (mo_dir env) ws slug
           | Some u \<Rightarrow>
               (case agent_GetByID (mo_dir env) u of
                  None \<Rightarrow> Inl ReviewerUnknown
                | Some a \<Rightarrow>
                    if assertAssigneeInProjectWorkspace (mo_dir env) project (Some (ag_ID a)) ''agent'' \<noteq> None
                    then Inl ReviewerUnknown else Inr (ag_ID a))))"

definition resolveSetReviewer :: "move_env \<Rightarrow> uuid \<Rightarrow> string \<Rightarrow> reviewer_error + uuid" where
  "resolveSetReviewer env project reviewer =
     (if reviewer \<noteq> ''lead'' then agent_named env project reviewer
      else case GetEffectiveAssignmentRules (mo_dir env) project of
        None \<Rightarrow> Inl ReviewerUnknown
      | Some r \<Rightarrow>
          (case ef_DefaultAssignee r of
             None \<Rightarrow> Inl NoDefaultAssignee
           | Some v \<Rightarrow> if er_Value v = '''' then Inl NoDefaultAssignee else agent_named env project (er_Value v)))"

definition user_named :: "move_env \<Rightarrow> uuid \<Rightarrow> string \<Rightarrow> user_row option" where
  "user_named env project name =
     (case project_workspace (mo_dir env) project of
        None \<Rightarrow> None
      | Some ws \<Rightarrow>
          (case mo_parse_uuid env name of
             Some u \<Rightarrow> user_GetByID (mo_dir env) u
           | None \<Rightarrow> if CHR ''@'' \<in> set name then user_GetByEmail (mo_dir env) name
                     else user_GetByUsername (mo_dir env) ws name))"

definition resolveOnEnterTarget :: "move_env \<Rightarrow> uuid \<Rightarrow> string \<Rightarrow> (uuid \<times> string) option" where
  "resolveOnEnterTarget env project target =
     (let kind = takeWhile (\<lambda>c. c \<noteq> CHR '':'') target; name = TrimSpace (drop (Suc (length kind)) target) in
      if CHR '':'' \<notin> set target \<or> name = '''' then None
      else if kind = ''agent'' then
        (case resolveSetReviewer env project name of Inl _ \<Rightarrow> None | Inr u \<Rightarrow> Some (u, ''agent''))
      else if kind = ''user'' then map_option (\<lambda>u. (us_ID u, ''user'')) (user_named env project name)
      else None)"

section \<open>The assignee of a move\<close>

text \<open>The assignee before the review is stashed, to be restored when the task comes back.\<close>

definition stash_assignee :: "checkout_task \<Rightarrow> checkout_task" where
  "stash_assignee t = t\<lparr>ct_PreReviewAssigneeID := ct_AssigneeID t, ct_PreReviewAssigneeType := Some (ct_AssigneeType t),
     ct_PreReviewRestore := True\<rparr>"

definition assign :: "uuid option \<Rightarrow> string \<Rightarrow> checkout_task \<Rightarrow> checkout_task" where
  "assign a typ t = t\<lparr>ct_AssigneeID := a, ct_AssigneeType := typ\<rparr>"

text \<open>\<^const>\<open>None\<close>: no rule of the status applies.\<close>

definition on_enter_target :: "directory \<Rightarrow> uuid \<Rightarrow> string \<Rightarrow> string option" where
  "on_enter_target d project name =
     (case GetProjectWorkflowRules d project of
        None \<Rightarrow> None
      | Some cfg \<Rightarrow> (let target = TrimSpace (go_get '''' (wf_OnEnter cfg) name) in if target = '''' then None else Some target))"

definition applyOnEnterAssignee :: "move_env \<Rightarrow> checkout_task \<Rightarrow> checkout_status \<Rightarrow> move_store \<Rightarrow> checkout_task option \<times> move_store" where
  "applyOnEnterAssignee env t next s =
     (case on_enter_target (mo_dir env) (ct_ProjectID t) (cu_Name next) of
        None \<Rightarrow> (None, s)
      | Some target \<Rightarrow>
          (case resolveOnEnterTarget env (ct_ProjectID t) target of
             None \<Rightarrow> (Some t, s)
           | Some (u, typ) \<Rightarrow>
               if ct_AssigneeID t = Some u then (Some t, s)
               else
                 (case ensureAssigneeProjectMember (mo_dir env) (ct_ProjectID t) (Some u) typ s of
                    (Some _, s1) \<Rightarrow> (Some t, s1)
                  | (None, s1) \<Rightarrow> (Some (assign (Some u) typ (if cu_Category next = ''review'' then stash_assignee t else t)), s1))))"

definition postReviewerNotAssignedComment :: "move_env \<Rightarrow> checkout_task \<Rightarrow> string \<Rightarrow> move_store \<Rightarrow> move_store" where
  "postReviewerNotAssignedComment env t reviewer s =
     create_comment \<lparr>cm_ID = mo_fresh env (length (ms_Comments s)), cm_TaskID = ct_ID t, cm_AuthorID = uuid_Nil, cm_AuthorType = ''system'',
       cm_Body = mo_note env reviewer, cm_IsInternal = False, cm_Informational = False, cm_HandoffParam = '''', cm_CreatedAt = mo_now env\<rparr> s"

text \<open>The configured reviewer under the status' name, \<^const>\<open>None\<close> when the rule names none.\<close>

definition set_reviewer :: "WorkflowRulesConfig \<Rightarrow> string \<Rightarrow> string option" where
  "set_reviewer cfg name =
     (case map_of (wf_Transitions cfg) name of
        None \<Rightarrow> None | Some tr \<Rightarrow> if tr_SetReviewer tr = '''' then None else Some (tr_SetReviewer tr))"

definition resolveReviewTarget :: "move_env \<Rightarrow> checkout_task \<Rightarrow> checkout_status \<Rightarrow> move_store \<Rightarrow> uuid option \<times> move_store" where
  "resolveReviewTarget env t old s =
     (case GetProjectWorkflowRules (mo_dir env) (ct_ProjectID t) of
        None \<Rightarrow> (None, s)
      | Some cfg \<Rightarrow>
          (case set_reviewer cfg (cu_Name old) of
             Some reviewer \<Rightarrow>
               (case resolveSetReviewer env (ct_ProjectID t) reviewer of
                  Inr u \<Rightarrow> (Some u, s)
                | Inl _ \<Rightarrow> (None, postReviewerNotAssignedComment env t reviewer s))
           | None \<Rightarrow>
               if ct_AssigneeType t \<noteq> ''agent'' \<or> ct_AssigneeID t \<noteq> Some (ct_CreatedBy t) \<or> ct_CreatedByType t \<noteq> ''agent'' then (None, s)
               else
                 (case resolveSetReviewer env (ct_ProjectID t) ''lead'' of
                    Inr u \<Rightarrow> (Some u, s)
                  | Inl NoDefaultAssignee \<Rightarrow> (None, s)
                  | Inl ReviewerUnknown \<Rightarrow> (None, postReviewerNotAssignedComment env t ''lead'' s))))"

definition review_assignee ::
  "move_env \<Rightarrow> checkout_task \<Rightarrow> checkout_status \<Rightarrow> move_store \<Rightarrow> (move_error + checkout_task) \<times> move_store" where
  "review_assignee env t old s =
     (case resolveReviewTarget env t old s of
        (None, s1) \<Rightarrow> (Inr t, s1)
      | (Some u, s1) \<Rightarrow>
          if ct_AssigneeID t = Some u then (Inr t, s1)
          else if assertAssigneeInProjectWorkspace (mo_dir env) (ct_ProjectID t) (Some u) ''agent'' \<noteq> None
          then (Inr t, postReviewerNotAssignedComment env t (mo_uuid_text env u) s1)
          else
            (case ensureAssigneeProjectMember (mo_dir env) (ct_ProjectID t) (Some u) ''agent'' s1 of
               (Some e, s2) \<Rightarrow> (Inl e, postReviewerNotAssignedComment env t (mo_uuid_text env u) s2)
             | (None, s2) \<Rightarrow> (Inr (assign (Some u) ''agent'' (stash_assignee t)), s2)))"

definition restored_assignee :: "move_env \<Rightarrow> checkout_task \<Rightarrow> string \<Rightarrow> move_store \<Rightarrow> (move_error + checkout_task) \<times> move_store" where
  "restored_assignee env t typ s =
     (if assertAssigneeInProjectWorkspace (mo_dir env) (ct_ProjectID t) (ct_PreReviewAssigneeID t) typ \<noteq> None then (Inr t, s)
      else
        (case ensureAssigneeProjectMember (mo_dir env) (ct_ProjectID t) (ct_PreReviewAssigneeID t) typ s of
           (Some e, s1) \<Rightarrow> (Inl e, s1)
         | (None, s1) \<Rightarrow>
             (Inr ((assign (ct_PreReviewAssigneeID t) typ t)\<lparr>ct_PreReviewAssigneeID := None, ct_PreReviewAssigneeType := None,
                    ct_PreReviewRestore := False\<rparr>), s1)))"

definition prepareTransitionAssigneeRoute ::
  "move_env \<Rightarrow> checkout_task \<Rightarrow> uuid \<Rightarrow> uuid option \<Rightarrow> string \<Rightarrow> bool \<Rightarrow> move_store
   \<Rightarrow> (move_error + checkout_task) \<times> move_store" where
  "prepareTransitionAssigneeRoute env t old_id wanted wanted_type changed s =
     (case wanted of
        Some u \<Rightarrow>
          (let typ = resolveAssigneeType (mo_dir env) wanted wanted_type in
           case ensureAssigneeProjectMember (mo_dir env) (ct_ProjectID t) wanted typ s of
             (Some e, s1) \<Rightarrow> (Inl e, s1)
           | (None, s1) \<Rightarrow> (Inr (assign wanted typ t), s1))
      | None \<Rightarrow>
          if \<not> changed then (Inr t, s)
          else case (get_status s (ct_StatusID t), get_status s old_id) of
            (None, _) \<Rightarrow> (Inl (MoveRefused (NotFound ''TaskStatus'')), s)
          | (Some _, None) \<Rightarrow> (Inr t, s)
          | (Some next, Some old) \<Rightarrow>
              (case applyOnEnterAssignee env t next s of
                 (Some t1, s1) \<Rightarrow> (Inr t1, s1)
               | (None, s1) \<Rightarrow>
                   if cu_Category next = ''review'' then review_assignee env t old s1
                   else
                     (case ct_PreReviewAssigneeType t of
                        Some typ \<Rightarrow>
                          if cu_Category old = ''review'' \<and> cu_Category next \<in> {''todo'', ''in_progress''} \<and> ct_PreReviewRestore t
                          then restored_assignee env t typ s1 else (Inr t, s1)
                      | None \<Rightarrow> (Inr t, s1))))"

definition entering_review :: "move_store \<Rightarrow> uuid \<Rightarrow> uuid \<Rightarrow> bool" where
  "entering_review s old_id next_id \<longleftrightarrow>
     (case (get_status s next_id, get_status s old_id) of
        (Some next, Some old) \<Rightarrow> cu_Category next = ''review'' \<and> cu_Category old \<noteq> ''review''
      | _ \<Rightarrow> False)"

definition prepareTransitionAssignee ::
  "move_env \<Rightarrow> checkout_task \<Rightarrow> uuid \<Rightarrow> uuid option \<Rightarrow> string \<Rightarrow> bool \<Rightarrow> move_store
   \<Rightarrow> (move_error + checkout_task) \<times> move_store" where
  "prepareTransitionAssignee env t old_id wanted wanted_type changed s =
     (let entering = changed \<and> entering_review s old_id (ct_StatusID t);
          t1 = (if entering then t\<lparr>ct_PreReviewRestore := False\<rparr> else t) in
      case prepareTransitionAssigneeRoute env t1 old_id wanted wanted_type changed s of
        (Inl e, s1) \<Rightarrow> (Inl e, s1)
      | (Inr t2, s1) \<Rightarrow>
          if \<not> entering \<or> ct_PreReviewRestore t2 \<or> ct_AssigneeID t = None then (Inr t2, s1)
          else (Inr (t2\<lparr>ct_PreReviewAssigneeID := ct_AssigneeID t, ct_PreReviewAssigneeType := Some (ct_AssigneeType t)\<rparr>), s1))"

end
