(* ===== verification/Checkout_Lease.thy ===== *)
theory Checkout_Lease
  imports Task_Checkout
begin

text \<open>
  What the checkout operations promise: an abstract lease that the columns of a task implement, fencing by generation
  along every run, and who may end a live lease.
\<close>

section \<open>The abstract lease\<close>

datatype lease =
    Free (le_generation: int)
  | Held (le_generation: int) (le_holder: uuid) (le_token: uuid) (le_scope: CheckoutScope) (le_until: gtime)

text \<open>The moves of a lease at an instant.\<close>

inductive lease_move :: "gtime \<Rightarrow> lease \<Rightarrow> lease \<Rightarrow> bool" for now where
  stay: "lease_move now l l"
| take_free: "lease_move now (Free g) (Held (g + 1) h t x e)"
| take_over: "e \<le> now \<Longrightarrow> lease_move now (Held g h t x e) (Held (g + 1) h' t' x' e')"
| renew: "lease_move now (Held g h t x e) (Held g h t x e')"
| free: "lease_move now (Held g h t x e) (Free g)"

inductive_cases lease_move_HeldE: "lease_move now (Held g h t x e) l"
inductive_simps lease_move_Free: "lease_move now (Free g) l"

text \<open>What holds between the states of one lease along a path: a generation never comes back with another holder, token
  or scope, and a freed generation never comes back at all.\<close>

fun lease_le :: "lease \<Rightarrow> lease \<Rightarrow> bool" where
  "lease_le (Free g) l \<longleftrightarrow> g < le_generation l \<or> l = Free g"
| "lease_le (Held g h t x e) l \<longleftrightarrow> g < le_generation l \<or> l = Free g
     \<or> (\<exists>e'. l = Held g h t x e')"

lemma lease_le_refl [simp]: "lease_le l l"
  by (cases l) auto

lemma lease_le_trans: "lease_le a b \<Longrightarrow> lease_le b c \<Longrightarrow> lease_le a c"
  by (cases a; cases b; cases c) auto

lemma lease_move_le: "lease_move now a b \<Longrightarrow> lease_le a b"
  by (cases rule: lease_move.cases) auto

section \<open>The columns\<close>

definition abs_lease :: "CheckoutLease \<Rightarrow> lease" where
  "abs_lease p = (case (cl_Holder p, cl_Token p, cl_ExpiresAt p) of
     (Some h, Some t, Some e) \<Rightarrow> Held (cl_Generation p) h t \<lparr>sc_SessionID = cl_SessionID p, sc_RequestID = cl_RequestID p\<rparr> e
   | _ \<Rightarrow> Free (cl_Generation p))"

definition lease_wf :: "CheckoutLease \<Rightarrow> bool" where
  "lease_wf p \<longleftrightarrow> (cl_Holder p = None \<longrightarrow> cl_Token p = None \<and> cl_ExpiresAt p = None \<and> cl_AcquiredAt p = None)
     \<and> (cl_Holder p \<noteq> None \<longrightarrow> cl_Token p \<noteq> None \<and> cl_ExpiresAt p \<noteq> None \<and> cl_Generation p > 0) \<and> cl_Generation p \<ge> 0"

definition checkout_ok :: "checkout_store \<Rightarrow> bool" where
  "checkout_ok s \<longleftrightarrow> distinct (map ct_ID (co_Tasks s))
     \<and> (\<forall>t \<in> set (co_Tasks s). lease_wf (ct_Lease t)
          \<and> (ct_StageStatusID t = None \<or> ct_StageStatusID t = Some (ct_StatusID t)))"

lemma lease_wf_cases:
  assumes "lease_wf p"
  obtains "cl_Holder p = None" and "cl_Token p = None" and "cl_ExpiresAt p = None" and "abs_lease p = Free (cl_Generation p)"
  | h t e where "cl_Holder p = Some h" and "cl_Token p = Some t" and "cl_ExpiresAt p = Some e"
      and "abs_lease p = Held (cl_Generation p) h t \<lparr>sc_SessionID = cl_SessionID p, sc_RequestID = cl_RequestID p\<rparr> e"
  using assms by (cases "cl_Holder p") (auto simp: lease_wf_def abs_lease_def)

lemma abs_released [simp]: "abs_lease (released_lease p) = Free (cl_Generation p)"
  by (simp add: abs_lease_def released_lease_def)

lemma wf_released [simp]: "lease_wf p \<Longrightarrow> lease_wf (released_lease p)"
  by (auto simp: lease_wf_def released_lease_def)

lemma guard_simps [simp]:
  "ct_Lease (tasks_checkout_stage_guard t) = ct_Lease t" "ct_ID (tasks_checkout_stage_guard t) = ct_ID t"
  "ct_Lease (advance_task_version t) = ct_Lease t" "ct_ID (advance_task_version t) = ct_ID t"
  "ct_StatusID (tasks_checkout_stage_guard t) = ct_StatusID t" "ct_Version (tasks_checkout_stage_guard t) = ct_Version t"
  by (simp_all add: tasks_checkout_stage_guard_def advance_task_version_def)

lemma guard_stage: "ct_StageStatusID (tasks_checkout_stage_guard t) = None
    \<or> ct_StageStatusID (tasks_checkout_stage_guard t) = Some (ct_StatusID (tasks_checkout_stage_guard t))"
  by (simp add: tasks_checkout_stage_guard_def)

text \<open>One step on every row.\<close>

definition rows_move :: "gtime \<Rightarrow> checkout_store \<Rightarrow> checkout_store \<Rightarrow> bool" where
  "rows_move now s t \<longleftrightarrow> list_all2 (\<lambda>a b. ct_ID b = ct_ID a \<and> lease_move now (abs_lease (ct_Lease a)) (abs_lease (ct_Lease b)))
     (co_Tasks s) (co_Tasks t)"

lemma rows_move_refl [simp]: "rows_move now s s"
  unfolding rows_move_def by (rule list_all2_refl) (simp add: stay)

lemma rows_move_log [simp]: "rows_move now s (log_checkout u a t) = rows_move now s t"
  by (simp add: rows_move_def log_checkout_def)

lemma ok_log [simp]: "checkout_ok (log_checkout u a t) = checkout_ok t"
  by (simp add: checkout_ok_def log_checkout_def)

text \<open>The one rule for every write: it is enough to look at the rows that match.\<close>

lemma update_tasks_step:
  assumes ok: "checkout_ok s"
    and f: "\<And>t. t \<in> set (co_Tasks s) \<Longrightarrow> \<not> ct_Deleted t \<Longrightarrow> w t \<Longrightarrow>
       ct_ID (f t) = ct_ID t \<and> lease_wf (ct_Lease (f t)) \<and> lease_move now (abs_lease (ct_Lease t)) (abs_lease (ct_Lease (f t)))"
  shows "checkout_ok (update_tasks w f s) \<and> rows_move now s (update_tasks w f s)"
proof -
  define g where "g t = (if \<not> ct_Deleted t \<and> w t then tasks_checkout_stage_guard (advance_task_version (f t)) else t)" for t
  have tasks: "co_Tasks (update_tasks w f s) = map g (co_Tasks s)" by (simp add: update_tasks_def g_def)
  have g: "ct_ID (g t) = ct_ID t \<and> lease_wf (ct_Lease (g t)) \<and> lease_move now (abs_lease (ct_Lease t)) (abs_lease (ct_Lease (g t)))
      \<and> (ct_StageStatusID (g t) = None \<or> ct_StageStatusID (g t) = Some (ct_StatusID (g t)))" if "t \<in> set (co_Tasks s)" for t
  proof (cases "\<not> ct_Deleted t \<and> w t")
    case True
    with f [OF that] guard_stage [of "advance_task_version (f t)"] show ?thesis by (simp add: g_def)
  next
    case False
    then have "g t = t" by (auto simp: g_def)
    with ok that show ?thesis unfolding checkout_ok_def by (simp add: stay)
  qed
  then have ids: "map ct_ID (map g (co_Tasks s)) = map ct_ID (co_Tasks s)" by simp
  have "distinct (map ct_ID (map g (co_Tasks s)))" unfolding ids using ok unfolding checkout_ok_def by (rule conjunct1)
  then have "checkout_ok (update_tasks w f s)" unfolding checkout_ok_def tasks using g by auto
  moreover have "rows_move now s (update_tasks w f s)"
    unfolding rows_move_def tasks using g by (auto simp: list_all2_map2 intro!: list.rel_refl_strong)
  ultimately show ?thesis by (rule conjI)
qed

lemma GetByID_row:
  assumes "checkout_ok s" and "checkout_GetByID s u = Some t" and "t' \<in> set (co_Tasks s)" and "ct_ID t' = u"
  shows "t' = t"
proof -
  from find_SomeD [OF assms(2) [unfolded checkout_GetByID_def]] have "t \<in> set (co_Tasks s)" "ct_ID t = u" by auto
  moreover have "inj_on ct_ID (set (co_Tasks s))" using assms(1) unfolding checkout_ok_def distinct_map by blast
  ultimately show ?thesis using assms(3,4) by (blast dest: inj_onD)
qed

lemma GetByID_in: "checkout_GetByID s u = Some t \<Longrightarrow> t \<in> set (co_Tasks s) \<and> ct_ID t = u \<and> \<not> ct_Deleted t"
  unfolding checkout_GetByID_def by (drule find_SomeD) simp

section \<open>Every operation is a move\<close>

lemma deadline_move:
  assumes "lease_wf p" and "cl_Holder p \<noteq> None" and "e \<noteq> None"
  shows "lease_wf (p\<lparr>cl_ExpiresAt := e\<rparr>) \<and> lease_move now (abs_lease p) (abs_lease (p\<lparr>cl_ExpiresAt := e\<rparr>))"
proof -
  from assms(3) obtain e' where e: "e = Some e'" by blast
  from assms(1) show ?thesis
    by (cases rule: lease_wf_cases) (use assms in \<open>auto simp: e lease_wf_def abs_lease_def intro: renew\<close>)
qed

lemma acquired_move:
  assumes wf: "lease_wf p" and a: "sql_true (acquirable holder x now p)"
  shows "lease_wf (acquired_lease holder token expires x now p)
     \<and> lease_move now (abs_lease p) (abs_lease (acquired_lease holder token expires x now p))"
proof (cases "sql_true (retry holder x now p)")
  case True
  then have r: "cl_Holder p = Some holder" "cl_SessionID p = sc_SessionID x" "cl_RequestID p = sc_RequestID x"
    by (simp_all add: retry_def)
  obtain e where e: "cl_ExpiresAt p = Some e" using wf r(1) by (auto simp: lease_wf_def)
  have "acquired_lease holder token expires x now p = p\<lparr>cl_ExpiresAt := if sc_RequestID x \<noteq> None then cl_ExpiresAt p else Some expires\<rparr>"
    using True r by (cases p) (simp add: acquired_lease_def)
  then show ?thesis
    using deadline_move [OF wf, of "if sc_RequestID x \<noteq> None then cl_ExpiresAt p else Some expires" now] r(1) e by simp
next
  case False
  with a have free: "cl_Holder p = None \<or> (\<exists>e. cl_ExpiresAt p = Some e \<and> e \<le> now)"
    by (auto simp: acquirable_def)
  have new: "lease_wf (acquired_lease holder token expires x now p)"
      "abs_lease (acquired_lease holder token expires x now p) = Held (cl_Generation p + 1) holder token x expires"
    using False wf by (auto simp: acquired_lease_def lease_wf_def abs_lease_def)
  from wf free show ?thesis unfolding new(2)
    by (cases rule: lease_wf_cases) (auto simp: new(1) intro: take_free take_over)
qed

lemma acquired_holder [simp]: "cl_Holder (acquired_lease holder token expires x now p) = Some holder"
  by (simp add: acquired_lease_def Let_def)

lemma acquire_checkout_cases:
  assumes "AcquireCheckout now u holder token expires x s = (r, s')"
  shows "s' = s \<or> (\<exists>t k. checkout_GetByID s u = Some t \<and> sql_true (acquirable holder x now (ct_Lease t))
     \<and> s' = update_tasks (\<lambda>t'. ct_ID t' = u)
          (\<lambda>t'. t'\<lparr>ct_Lease := acquired_lease holder token expires x now (ct_Lease t), ct_UpdatedAt := k t'\<rparr>) s)"
proof (cases "checkout_GetByID s u")
  case None
  with assms show ?thesis by (simp add: AcquireCheckout_def)
next
  case (Some t)
  define k :: "checkout_task \<Rightarrow> gtime" where "k t' = (if sql_true (retry holder x now (ct_Lease t)) \<and> sc_RequestID x \<noteq> None then ct_UpdatedAt t' else now)" for t'
  show ?thesis
  proof (cases "sql_true (acquirable holder x now (ct_Lease t)) \<and> open_status s (ct_StatusID t)")
    case True
    with assms Some have "s' = update_tasks (\<lambda>t'. ct_ID t' = u)
          (\<lambda>t'. t'\<lparr>ct_Lease := acquired_lease holder token expires x now (ct_Lease t), ct_UpdatedAt := k t'\<rparr>) s"
      unfolding AcquireCheckout_def Let_def k_def by simp
    with Some True show ?thesis by blast
  next
    case False
    with assms Some show ?thesis by (auto simp: AcquireCheckout_def Let_def)
  qed
qed

lemma Acquire_step:
  assumes ok: "checkout_ok s" and "AcquireCheckout now u holder token expires x s = (r, s')"
  shows "checkout_ok s' \<and> rows_move now s s'"
  using acquire_checkout_cases [OF assms(2)]
proof
  assume "s' = s"
  with ok show ?thesis by simp
next
  assume "\<exists>t k. checkout_GetByID s u = Some t \<and> sql_true (acquirable holder x now (ct_Lease t))
     \<and> s' = update_tasks (\<lambda>t'. ct_ID t' = u)
          (\<lambda>t'. t'\<lparr>ct_Lease := acquired_lease holder token expires x now (ct_Lease t), ct_UpdatedAt := k t'\<rparr>) s"
  then obtain t k where t: "checkout_GetByID s u = Some t" "sql_true (acquirable holder x now (ct_Lease t))"
      and s': "s' = update_tasks (\<lambda>t'. ct_ID t' = u)
          (\<lambda>t'. t'\<lparr>ct_Lease := acquired_lease holder token expires x now (ct_Lease t), ct_UpdatedAt := k t'\<rparr>) s" by blast
  have "lease_wf (ct_Lease t)" using GetByID_in [OF t(1)] ok unfolding checkout_ok_def by blast
  from acquired_move [OF this t(2)] show ?thesis unfolding s'
    using GetByID_row [OF ok t(1)] by (intro update_tasks_step [OF ok]) auto
qed

lemma wf_held_move: "lease_wf p \<Longrightarrow> lease_move now (abs_lease p) (Free (cl_Generation p))"
  by (cases rule: lease_wf_cases, assumption) (simp_all add: stay free)

lemma release_checkout_step:
  assumes ok: "checkout_ok s" and "CompareReleaseCheckout now u x s = (r, s')"
  shows "checkout_ok s' \<and> rows_move now s s'"
proof (cases "checkout_GetByID s u")
  case None
  with assms show ?thesis by (simp add: CompareReleaseCheckout_def)
next
  case (Some t)
  have wf: "lease_wf (ct_Lease t)" using GetByID_in [OF Some] ok unfolding checkout_ok_def by blast
  show ?thesis
  proof (cases "sql_true (release_allowed x (ct_Lease t))")
    case True
    with assms(2) Some have s': "s' = update_tasks (\<lambda>t'. ct_ID t' = u) (\<lambda>t'. t'\<lparr>ct_Lease := released_lease (ct_Lease t), ct_UpdatedAt := now\<rparr>) s"
      by (simp add: CompareReleaseCheckout_def Let_def)
    show ?thesis unfolding s'
      using GetByID_row [OF ok Some] wf wf_held_move [OF wf] by (intro update_tasks_step [OF ok]) auto
  next
    case False
    with assms Some show ?thesis by (auto simp: CompareReleaseCheckout_def Let_def split: if_split_asm)
  qed
qed

lemma Extend_step:
  assumes ok: "checkout_ok s" and "ExtendScopedCheckout now u x e s = (r, s')"
  shows "checkout_ok s' \<and> rows_move now s s'"
proof (cases "checkout_GetByID s u")
  case None
  with assms show ?thesis by (simp add: ExtendScopedCheckout_def)
next
  case (Some t)
  have wf: "lease_wf (ct_Lease t)" using GetByID_in [OF Some] ok unfolding checkout_ok_def by blast
  show ?thesis
  proof (cases "sql_true (extend_allowed now x (ct_Lease t))")
    case True
    then have "cl_Holder (ct_Lease t) \<noteq> None" by (simp add: extend_allowed_def)
    note m = deadline_move [OF wf this, of "Some e" now]
    from True assms(2) Some have s': "s' = update_tasks (\<lambda>t'. ct_ID t' = u) (\<lambda>t'. t'\<lparr>ct_Lease := (ct_Lease t)\<lparr>cl_ExpiresAt := Some e\<rparr>, ct_UpdatedAt := now\<rparr>) s"
      by (simp add: ExtendScopedCheckout_def Let_def)
    show ?thesis unfolding s'
      using GetByID_row [OF ok Some] m by (intro update_tasks_step [OF ok]) auto
  next
    case False
    with assms Some show ?thesis by (auto simp: ExtendScopedCheckout_def)
  qed
qed

lemma Sweep_step:
  assumes ok: "checkout_ok s"
  shows "checkout_ok (snd (ReleaseExpiredCheckouts now s)) \<and> rows_move now s (snd (ReleaseExpiredCheckouts now s))"
  unfolding ReleaseExpiredCheckouts_def snd_conv
  using ok wf_held_move by (intro update_tasks_step) (auto simp: checkout_ok_def)

lemma Heartbeat_step:
  assumes ok: "checkout_ok s"
  shows "checkout_ok (snd (ExtendCheckoutsOnHeartbeat now agent s)) \<and> rows_move now s (snd (ExtendCheckoutsOnHeartbeat now agent s))"
  unfolding ExtendCheckoutsOnHeartbeat_def snd_conv
proof (intro update_tasks_step [OF ok])
  fix t assume "t \<in> set (co_Tasks s)" and "heartbeat_due now agent s t"
  then have "lease_wf (ct_Lease t)" "cl_Holder (ct_Lease t) \<noteq> None" "heartbeat_deadline now s t \<noteq> None"
    using ok by (simp_all add: checkout_ok_def heartbeat_due_def)
  from deadline_move [OF this, of now]
  show "ct_ID (t\<lparr>ct_Lease := (ct_Lease t)\<lparr>cl_ExpiresAt := heartbeat_deadline now s t\<rparr>, ct_UpdatedAt := now\<rparr>) = ct_ID t
     \<and> lease_wf (ct_Lease (t\<lparr>ct_Lease := (ct_Lease t)\<lparr>cl_ExpiresAt := heartbeat_deadline now s t\<rparr>, ct_UpdatedAt := now\<rparr>))
     \<and> lease_move now (abs_lease (ct_Lease t))
         (abs_lease (ct_Lease (t\<lparr>ct_Lease := (ct_Lease t)\<lparr>cl_ExpiresAt := heartbeat_deadline now s t\<rparr>, ct_UpdatedAt := now\<rparr>)))"
    by simp
qed

lemma transition_lease_move:
  assumes "lease_wf p"
  shows "lease_wf (transition_lease i p) \<and> lease_move now (abs_lease p) (abs_lease (transition_lease i p))"
proof -
  have "abs_lease ((released_lease p)\<lparr>cl_SessionID := None, cl_RequestID := None\<rparr>) = Free (cl_Generation p)"
      "lease_wf ((released_lease p)\<lparr>cl_SessionID := None, cl_RequestID := None\<rparr>)"
    using assms by (auto simp: abs_lease_def released_lease_def lease_wf_def)
  with assms show ?thesis by (auto simp: transition_lease_def stay intro: wf_held_move)
qed

lemma Transition_cases:
  assumes "UpdateTransition now task i s = (r, s')"
  shows "s' = s \<or> (\<exists>t. checkout_GetByID s (ct_ID task) = Some t \<and> sql_true (transition_guard now s i t)
     \<and> s' = update_tasks (\<lambda>t'. ct_ID t' = ct_ID task) (transition_row task i) s)"
  using assms by (auto simp: UpdateTransition_def Let_def split: if_split_asm option.split_asm)

lemma Transition_step:
  assumes ok: "checkout_ok s" and "UpdateTransition now task i s = (r, s')"
  shows "checkout_ok s' \<and> rows_move now s s'"
  using Transition_cases [OF assms(2)]
proof
  assume "s' = s"
  with ok show ?thesis by simp
next
  assume "\<exists>t. checkout_GetByID s (ct_ID task) = Some t \<and> sql_true (transition_guard now s i t)
     \<and> s' = update_tasks (\<lambda>t'. ct_ID t' = ct_ID task) (transition_row task i) s"
  then have s': "s' = update_tasks (\<lambda>t'. ct_ID t' = ct_ID task) (transition_row task i) s" by blast
  show ?thesis unfolding s'
    using ok transition_lease_move by (intro update_tasks_step [OF ok]) (auto simp: transition_row_def checkout_ok_def)
qed

section \<open>Runs\<close>

datatype checkout_request =
    Checkout uuid int CheckoutScope
  | ReleaseToken uuid uuid
  | SelfRelease uuid "CheckoutExpectation option"
  | ForceRelease uuid "CheckoutExpectation option"
  | Extend uuid uuid int "CheckoutExpectation option"
  | Heartbeat uuid
  | Sweep
  | Move checkout_task TaskTransition

fun checkout_exec :: "checkout_env \<Rightarrow> checkout_request \<Rightarrow> checkout_store \<Rightarrow> checkout_store" where
  "checkout_exec env (Checkout u ttl x) s = snd (CheckoutTask env u ttl x s)"
| "checkout_exec env (ReleaseToken u token) s = snd (service_ReleaseCheckout env u token s)"
| "checkout_exec env (SelfRelease u x) s = snd (SelfReleaseCheckout env u x s)"
| "checkout_exec env (ForceRelease u x) s = snd (service_ForceReleaseCheckout env u x s)"
| "checkout_exec env (Extend u token ttl x) s = snd (service_ExtendCheckout env u token ttl x s)"
| "checkout_exec env (Heartbeat agent) s = snd (ExtendCheckoutsOnHeartbeat (ce_db_now env) agent s)"
| "checkout_exec env Sweep s = snd (ReleaseExpiredCheckouts (ce_db_now env) s)"
| "checkout_exec env (Move task i) s = snd (UpdateTransition (ce_db_now env) task i s)"

text \<open>Every release goes through one conditional update.\<close>

lemma releaseExpected_cases:
  assumes "releaseExpectedCheckout now u x action s = (r, s')"
  shows "\<exists>v s1. CompareReleaseCheckout now u x s = (v, s1) \<and> (s' = s1 \<or> s' = log_checkout u action s1)"
proof (cases "CompareReleaseCheckout now u x s")
  case (Pair v s1)
  with assms show ?thesis
    by (auto simp: releaseExpectedCheckout_def split: sum.split_asm option.split_asm if_split_asm)
qed

lemma releaseExpected_step:
  assumes "checkout_ok s" and "releaseExpectedCheckout now u x action s = (r, s')"
  shows "checkout_ok s' \<and> rows_move now s s'"
proof -
  from releaseExpected_cases [OF assms(2)] obtain v s1 where "CompareReleaseCheckout now u x s = (v, s1)"
      and e: "s' = s1 \<or> s' = log_checkout u action s1" by blast
  from release_checkout_step [OF assms(1) this(1)] e show ?thesis by auto
qed

lemma Checkout_cases:
  assumes "CheckoutTask env u ttl x s = (r, s')"
  shows "s' = s \<or> (checkout_refusal env u x s = None \<and> (\<exists>v s1.
      AcquireCheckout (ce_db_now env) u (ce_actor env) (ce_token env) (ce_now env + Minutes (clamp_ttl ttl)) x s = (v, s1)
      \<and> (s' = s1 \<or> s' = log_checkout u ''task.checkout_acquired'' s1)))"
proof (cases "checkout_refusal env u x s")
  case None
  obtain v s1 where "AcquireCheckout (ce_db_now env) u (ce_actor env) (ce_token env) (ce_now env + Minutes (clamp_ttl ttl)) x s = (v, s1)"
    by fastforce
  with assms None show ?thesis by (auto simp: CheckoutTask_def split: option.split_asm if_split_asm)
next
  case (Some e)
  with assms show ?thesis by (simp add: CheckoutTask_def)
qed

lemma Extend_cases:
  assumes "service_ExtendCheckout env u token ttl input s = (r, s')"
  shows "s' = s \<or> (\<exists>v x e. ExtendScopedCheckout (ce_db_now env) u x e s = (v, s'))"
proof -
  have "s' = s \<or> (\<exists>x. s' = snd (ExtendScopedCheckout (ce_db_now env) u x (ce_now env + Minutes (clamp_ttl ttl)) s))"
    using assms by (auto simp: service_ExtendCheckout_def Let_def split: if_split_asm option.split_asm prod.split_asm)
      (metis snd_conv)+
  then show ?thesis by (metis prod.collapse)
qed

lemma SelfRelease_cases:
  assumes "SelfReleaseCheckout env u input s = (r, s')"
  shows "s' = s \<or> (\<exists>x a. releaseExpectedCheckout (ce_db_now env) u x a s = (r, s')
     \<and> cx_Token x = None \<and> cx_Holder x = Some (ce_actor env) \<and> cx_Legacy x = (input = None)
     \<and> (input = None \<or> quotes_session x) \<and> (input = None \<longrightarrow> cx_Generation x = 0))"
  using assms unfolding SelfReleaseCheckout_def
  by (auto simp: empty_expectation_def quotes_session_def split: if_split_asm option.split_asm)

lemma ForceRelease_cases:
  assumes "service_ForceReleaseCheckout env u input s = (r, s')"
  shows "s' = s \<or> (ce_actor_type env = ''user'' \<and> (\<exists>x a. releaseExpectedCheckout (ce_db_now env) u x a s = (r, s')
     \<and> cx_Token x = None \<and> \<not> cx_Legacy x \<and> cx_Generation x > 0))"
  using assms unfolding service_ForceReleaseCheckout_def Let_def
  by (auto split: if_split_asm option.split_asm)

theorem checkout_exec_step:
  assumes ok: "checkout_ok s"
  shows "checkout_ok (checkout_exec env q s) \<and> rows_move (ce_db_now env) s (checkout_exec env q s)"
proof (cases q)
  case (Checkout u ttl x)
  obtain r s' where e: "CheckoutTask env u ttl x s = (r, s')" by fastforce
  from Checkout_cases [OF e] have "checkout_ok s' \<and> rows_move (ce_db_now env) s s'" using ok Acquire_step [OF ok] by auto
  with e Checkout show ?thesis by simp
next
  case (ReleaseToken u token)
  obtain r s' where e: "service_ReleaseCheckout env u token s = (r, s')" by fastforce
  from releaseExpected_step [OF ok e [unfolded service_ReleaseCheckout_def]] e ReleaseToken show ?thesis by simp
next
  case (SelfRelease u x)
  obtain r s' where e: "SelfReleaseCheckout env u x s = (r, s')" by fastforce
  from SelfRelease_cases [OF e] have "checkout_ok s' \<and> rows_move (ce_db_now env) s s'"
    using ok rows_move_refl releaseExpected_step [OF ok] by blast
  with e SelfRelease show ?thesis by simp
next
  case (ForceRelease u x)
  obtain r s' where e: "service_ForceReleaseCheckout env u x s = (r, s')" by fastforce
  from ForceRelease_cases [OF e] have "checkout_ok s' \<and> rows_move (ce_db_now env) s s'"
    using ok rows_move_refl releaseExpected_step [OF ok] by blast
  with e ForceRelease show ?thesis by simp
next
  case (Extend u token ttl x)
  obtain r s' where e: "service_ExtendCheckout env u token ttl x s = (r, s')" by fastforce
  from Extend_cases [OF e] have "checkout_ok s' \<and> rows_move (ce_db_now env) s s'" using ok Extend_step [OF ok] by auto
  with e Extend show ?thesis by simp
next
  case (Heartbeat agent)
  with Heartbeat_step [OF ok] show ?thesis by simp
next
  case Sweep
  with Sweep_step [OF ok] show ?thesis by simp
next
  case (Move task i)
  obtain r s' where e: "UpdateTransition (ce_db_now env) task i s = (r, s')" by fastforce
  from Transition_step [OF ok e] e Move show ?thesis by simp
qed

interpretation checkouts: state_machine checkout_ok "\<lambda>s (env, q) t. t = checkout_exec env q s" checkout_ok
  by unfold_locales (auto simp: checkout_exec_step)

lemma checkouts_fold: "checkouts.run s qs (fold (\<lambda>(env, q). checkout_exec env q) qs s)"
  by (induction qs arbitrary: s) (auto intro: checkouts.run.intros)

definition rows_le :: "checkout_store \<Rightarrow> checkout_store \<Rightarrow> bool" where
  "rows_le s t \<longleftrightarrow> list_all2 (\<lambda>a b. ct_ID b = ct_ID a \<and> lease_le (abs_lease (ct_Lease a)) (abs_lease (ct_Lease b))) (co_Tasks s) (co_Tasks t)"

lemma rows_move_le: "rows_move now s t \<Longrightarrow> rows_le s t"
  unfolding rows_move_def rows_le_def by (erule list_all2_mono) (auto dest: lease_move_le)

lemma rows_le_trans: "rows_le a b \<Longrightarrow> rows_le b c \<Longrightarrow> rows_le a c"
  unfolding rows_le_def by (rule list_all2_trans) (auto intro: lease_le_trans)

lemma run_rows_le:
  assumes "checkouts.run s qs t" and "checkout_ok s"
  shows "rows_le s t"
proof (rule checkouts.run_monotone [OF assms(1), of rows_le])
  show "rows_le a a" for a unfolding rows_le_def by (rule list_all2_refl) simp
  show "rows_le a b \<Longrightarrow> rows_le b c \<Longrightarrow> rows_le a c" for a b c by (rule rows_le_trans)
  show "rows_le a b" if "checkout_ok a" "(case r of (env, q) \<Rightarrow> \<lambda>t. t = checkout_exec env q a) b" for a r b
    using that rows_move_le [OF checkout_exec_step [OF that(1), THEN conjunct2]] by (auto split: prod.split_asm)
qed (rule assms(2))

text \<open>The rows of a task before and after.\<close>

lemma all2_same_ID:
  assumes "list_all2 (\<lambda>a b. ct_ID b = ct_ID a \<and> P a b) xs ys" and "distinct (map ct_ID xs)"
    and "a \<in> set xs" and "b \<in> set ys" and "ct_ID b = ct_ID a"
  shows "P a b"
proof -
  from assms(3) obtain i where i: "i < length xs" "xs ! i = a" by (auto simp: in_set_conv_nth)
  from assms(1,4) obtain j where j: "j < length xs" "ys ! j = b" by (auto simp: in_set_conv_nth list_all2_lengthD)
  have all: "ct_ID (ys ! k) = ct_ID (xs ! k)" "P (xs ! k) (ys ! k)" if "k < length xs" for k
    using assms(1) that by (auto dest: list_all2_nthD)
  have "map ct_ID xs ! i = map ct_ID xs ! j" using all(1) [OF j(1)] i j assms(5) by simp
  with assms(2) i(1) j(1) have "i = j" by (subst (asm) nth_eq_iff_index_eq) simp_all
  with all(2) [OF j(1)] i j show ?thesis by simp
qed


section \<open>Properties\<close>

text \<open>C5. Every request implements the abstract lease: whatever checkout, release, recovery, extension, heartbeat, sweep or
  status write arrives, each task's lease makes one allowed move at the database's clock. A free or expired lease may be
  taken under the next generation, a held one renewed or freed, and nothing else.\<close>

theorem checkout_refines_lease:
  assumes "checkout_ok s" and "a \<in> set (co_Tasks s)" and "b \<in> set (co_Tasks (checkout_exec env q s))" and "ct_ID b = ct_ID a"
  shows "lease_move (ce_db_now env) (abs_lease (ct_Lease a)) (abs_lease (ct_Lease b))"
  using all2_same_ID [OF checkout_exec_step [OF assms(1), THEN conjunct2, unfolded rows_move_def] _ assms(2-4)] assms(1)
  unfolding checkout_ok_def by blast

text \<open>C11. Generations fence: along every run of requests, with any clocks, the generation of a task's lease never falls, and
  two holders under one generation are one holder with one token, session and request. So a writer that quotes a
  generation can never act under somebody else's lease.\<close>

theorem leases_are_fenced:
  assumes "checkouts.run s qs t" and "checkout_ok s" and "a \<in> set (co_Tasks s)" and "b \<in> set (co_Tasks t)" and "ct_ID b = ct_ID a"
  shows "cl_Generation (ct_Lease a) \<le> cl_Generation (ct_Lease b)
    \<and> (cl_Generation (ct_Lease b) = cl_Generation (ct_Lease a) \<and> cl_Holder (ct_Lease b) \<noteq> None \<longrightarrow>
         cl_Holder (ct_Lease a) = cl_Holder (ct_Lease b) \<and> cl_Token (ct_Lease a) = cl_Token (ct_Lease b)
         \<and> cl_SessionID (ct_Lease a) = cl_SessionID (ct_Lease b) \<and> cl_RequestID (ct_Lease a) = cl_RequestID (ct_Lease b))"
proof -
  have le: "lease_le (abs_lease (ct_Lease a)) (abs_lease (ct_Lease b))"
    using all2_same_ID [OF run_rows_le [OF assms(1,2), unfolded rows_le_def] _ assms(3-5)] assms(2)
    unfolding checkout_ok_def by blast
  have "checkout_ok t" using checkouts.run_invariant [OF assms(1)] assms(2) by blast
  then have wf: "lease_wf (ct_Lease a)" "lease_wf (ct_Lease b)" using assms(2-4) unfolding checkout_ok_def by blast+
  have le_gen: "lease_le l m \<Longrightarrow> le_generation l \<le> le_generation m" for l m by (cases l) auto
  have gen: "le_generation (abs_lease p) = cl_Generation p" if "lease_wf p" for p
    using that by (cases rule: lease_wf_cases) auto
  have "cl_Holder (ct_Lease a) = cl_Holder (ct_Lease b) \<and> cl_Token (ct_Lease a) = cl_Token (ct_Lease b)
         \<and> cl_SessionID (ct_Lease a) = cl_SessionID (ct_Lease b) \<and> cl_RequestID (ct_Lease a) = cl_RequestID (ct_Lease b)"
    if same: "cl_Generation (ct_Lease b) = cl_Generation (ct_Lease a)" "cl_Holder (ct_Lease b) \<noteq> None"
    using wf(1)
  proof (cases rule: lease_wf_cases)
    case 1
    with le wf(2) same show ?thesis by (cases rule: lease_wf_cases [OF wf(2)]) auto
  next
    case (2 h t e)
    with le wf(2) same show ?thesis by (cases rule: lease_wf_cases [OF wf(2)]) auto
  qed
  with le_gen [OF le] gen wf show ?thesis by simp
qed

lemma update_row:
  assumes ok: "checkout_ok s" and "a \<in> set (co_Tasks s)" and b: "b \<in> set (co_Tasks (update_tasks w f s))" and "ct_ID b = ct_ID a"
    and keep: "\<And>t. ct_ID (f t) = ct_ID t"
  shows "ct_Lease b = ct_Lease a \<or> (\<not> ct_Deleted a \<and> w a \<and> ct_Lease b = ct_Lease (f a))"
proof -
  from b obtain c where c: "c \<in> set (co_Tasks s)"
      "b = (if \<not> ct_Deleted c \<and> w c then tasks_checkout_stage_guard (advance_task_version (f c)) else c)"
    by (auto simp: update_tasks_def)
  have "inj_on ct_ID (set (co_Tasks s))" using ok unfolding checkout_ok_def distinct_map by blast
  moreover have "ct_ID c = ct_ID a" using c(2) assms(4) keep by (simp split: if_split_asm)
  ultimately have "c = a" using c(1) assms(2) by (blast dest: inj_onD)
  with c(2) show ?thesis by (simp split: if_split_asm)
qed

lemma freed_by_release:
  assumes ok: "checkout_ok s" and e: "releaseExpectedCheckout now u x action s = (r, s')"
    and a: "a \<in> set (co_Tasks s)" and b: "b \<in> set (co_Tasks s')" and i: "ct_ID b = ct_ID a" and c: "ct_Lease b \<noteq> ct_Lease a"
  shows "u = ct_ID a \<and> sql_true (release_allowed x (ct_Lease a))"
proof -
  from releaseExpected_cases [OF e] obtain v s1 where v: "CompareReleaseCheckout now u x s = (v, s1)"
      and s1: "s' = s1 \<or> s' = log_checkout u action s1" by blast
  from s1 b have b1: "b \<in> set (co_Tasks s1)" by (auto simp: log_checkout_def)
  have inj: "inj_on ct_ID (set (co_Tasks s))" using ok unfolding checkout_ok_def distinct_map by blast
  have "s1 \<noteq> s" using b1 a i c inj by (blast dest: inj_onD)
  with v obtain t where t: "checkout_GetByID s u = Some t" and allowed: "sql_true (release_allowed x (ct_Lease t))"
      and e1: "s1 = update_tasks (\<lambda>t'. ct_ID t' = u) (\<lambda>t'. t'\<lparr>ct_Lease := released_lease (ct_Lease t), ct_UpdatedAt := now\<rparr>) s"
    by (auto simp: CompareReleaseCheckout_def Let_def split: option.split_asm if_split_asm)
  from update_row [OF ok a b1 [unfolded e1] i] c have u: "ct_ID a = u" by simp
  with GetByID_row [OF ok t a] allowed show ?thesis by simp
qed

text \<open>A lease that runs and is not the same lease afterwards has been freed.\<close>

lemma live_lost_free:
  assumes "lease_move now (abs_lease p) (abs_lease q)" and "lease_wf p" and "lease_wf q"
    and "cl_Holder p = Some h" and "cl_ExpiresAt p = Some e" and "now < e"
    and "(cl_Holder q, cl_Token q) \<noteq> (Some h, cl_Token p)"
  shows "cl_Holder q = None \<and> cl_Generation q = cl_Generation p"
proof -
  from assms(2) assms(4,5) obtain t where p: "cl_Token p = Some t"
      "abs_lease p = Held (cl_Generation p) h t \<lparr>sc_SessionID = cl_SessionID p, sc_RequestID = cl_RequestID p\<rparr> e"
    by (cases rule: lease_wf_cases) auto
  note move = assms(1) [unfolded p(2)]
  from assms(3) show ?thesis
  proof (cases rule: lease_wf_cases)
    case 1
    from move [unfolded 1(4)] show ?thesis by (rule lease_move_HeldE) (simp_all add: 1)
  next
    case (2 h' t' e')
    from move [unfolded 2(4)] have "h' = h \<and> t' = t" using assms(6) by (rule_tac lease_move_HeldE) auto
    with 2 p assms(7) show ?thesis by simp
  qed
qed


text \<open>Who may end the lease of a row, by the request.\<close>

definition entitled :: "checkout_env \<Rightarrow> checkout_request \<Rightarrow> checkout_task \<Rightarrow> bool" where
  "entitled env q a \<longleftrightarrow> (let p = ct_Lease a in case q of
       ReleaseToken u token \<Rightarrow> u = ct_ID a \<and> cl_Token p = Some token
     | SelfRelease u None \<Rightarrow> u = ct_ID a \<and> cl_Holder p = Some (ce_actor env) \<and> cl_SessionID p = None
     | SelfRelease u (Some x) \<Rightarrow> u = ct_ID a \<and> cl_Holder p = Some (ce_actor env)
         \<and> cx_Generation x = cl_Generation p \<and> cx_SessionID x = cl_SessionID p \<and> cl_SessionID p \<noteq> None
     | ForceRelease u (Some x) \<Rightarrow> u = ct_ID a \<and> ce_actor_type env = ''user'' \<and> cx_Holder x = cl_Holder p
         \<and> cx_Generation x = cl_Generation p \<and> cx_SessionID x = cl_SessionID p
     | Move task i \<Rightarrow> ct_ID task = ct_ID a \<and> tt_ReleaseCheckout i \<and> tt_ExpectedVersion i = ct_Version a
     | _ \<Rightarrow> False)"

lemma release_entitled:
  assumes ok: "checkout_ok s" and a: "a \<in> set (co_Tasks s)" and b: "b \<in> set (co_Tasks (checkout_exec env q s))"
    and i: "ct_ID b = ct_ID a" and c: "ct_Lease b \<noteq> ct_Lease a"
    and q: "(\<exists>u t. q = ReleaseToken u t) \<or> (\<exists>u x. q = SelfRelease u x) \<or> (\<exists>u x. q = ForceRelease u x)"
  shows "entitled env q a"
proof -
  have inj: "inj_on ct_ID (set (co_Tasks s))" using ok unfolding checkout_ok_def distinct_map by blast
  have changed: "checkout_exec env q s \<noteq> s"
  proof
    assume "checkout_exec env q s = s"
    with b have "b \<in> set (co_Tasks s)" by simp
    with a i inj have "b = a" by (blast dest: inj_onD)
    with c show False by simp
  qed
  from q show ?thesis
  proof (elim disjE exE)
    fix u t assume q: "q = ReleaseToken u t"
    obtain r s' where e: "service_ReleaseCheckout env u t s = (r, s')" by fastforce
    from freed_by_release [OF ok e [unfolded service_ReleaseCheckout_def] a _ i c] b q e show ?thesis
      by (simp add: entitled_def release_allowed_def empty_expectation_def)
  next
    fix u x assume q: "q = SelfRelease u x"
    obtain r s' where e: "SelfReleaseCheckout env u x s = (r, s')" by fastforce
    with changed q have "s' \<noteq> s" by simp
    with e obtain y act where y: "releaseExpectedCheckout (ce_db_now env) u y act s = (r, s')" "cx_Token y = None"
        "cx_Holder y = Some (ce_actor env)" "case x of None \<Rightarrow> cx_Generation y = 0 | Some x' \<Rightarrow> quotes_session x'
           \<and> cx_Generation y = cx_Generation x' \<and> cx_SessionID y = cx_SessionID x' \<and> \<not> cx_Legacy y"
      unfolding SelfReleaseCheckout_def
      by (auto simp: empty_expectation_def split: if_split_asm option.split_asm)
    have "b \<in> set (co_Tasks s')" using b q e by simp
    from freed_by_release [OF ok y(1) a this i c] y(2-4) q show ?thesis
      by (auto simp: entitled_def release_allowed_def quotes_session_def split: option.split_asm)
  next
    fix u x assume q: "q = ForceRelease u x"
    obtain r s' where e: "service_ForceReleaseCheckout env u x s = (r, s')" by fastforce
    with changed q have "s' \<noteq> s" by simp
    with e obtain y act x' where y: "releaseExpectedCheckout (ce_db_now env) u y act s = (r, s')" "cx_Token y = None" "\<not> cx_Legacy y"
        "x = Some x'" "cx_Holder y = cx_Holder x'" "cx_Generation y = cx_Generation x'" "cx_SessionID y = cx_SessionID x'"
        "ce_actor_type env = ''user''"
      unfolding service_ForceReleaseCheckout_def Let_def by (auto split: if_split_asm option.split_asm)
    have "b \<in> set (co_Tasks s')" using b q e by simp
    from freed_by_release [OF ok y(1) a this i c] y(2-8) q show ?thesis
      by (auto simp: entitled_def release_allowed_def)
  qed
qed

lemma move_entitled:
  assumes ok: "checkout_ok s" and a: "a \<in> set (co_Tasks s)" and b: "b \<in> set (co_Tasks (checkout_exec env (Move task i) s))"
    and id: "ct_ID b = ct_ID a" and c: "ct_Lease b \<noteq> ct_Lease a" and live: "cl_ExpiresAt (ct_Lease a) = Some e" "ce_db_now env < e"
  shows "entitled env (Move task i) a"
proof -
  have inj: "inj_on ct_ID (set (co_Tasks s))" using ok unfolding checkout_ok_def distinct_map by blast
  obtain r s' where e: "UpdateTransition (ce_db_now env) task i s = (r, s')" by fastforce
  have b': "b \<in> set (co_Tasks s')" using b e by simp
  then have "s' \<noteq> s" using a id c inj by (blast dest: inj_onD)
  with Transition_cases [OF e] obtain t where t: "checkout_GetByID s (ct_ID task) = Some t"
      and g: "sql_true (transition_guard (ce_db_now env) s i t)"
      and s': "s' = update_tasks (\<lambda>t'. ct_ID t' = ct_ID task) (transition_row task i) s" by blast
  from update_row [OF ok a b' [unfolded s'] id] c
  have u: "ct_ID a = ct_ID task" and l: "ct_Lease b = transition_lease i (ct_Lease a)" by (simp_all add: transition_row_def)
  from GetByID_row [OF ok t a u] g have g: "sql_true (transition_guard (ce_db_now env) s i a)" by simp
  have "tt_ReleaseCheckout i"
  proof (rule ccontr)
    assume n: "\<not> tt_ReleaseCheckout i"
    with l c obtain x where x: "tt_Reaper i = Some x" "rx_Mode x = ''expired''"
      by (auto simp: transition_lease_def releases_def split: option.split_asm if_split_asm)
    with g live show False by (simp add: transition_guard_def reaper_guard_def Let_def)
  qed
  with g u show ?thesis by (simp add: entitled_def transition_guard_def)
qed

text \<open>C12. A live lease ends only by its own right: while it runs, its holder and token change only by a release that quotes its
  token; by its holder quoting its session and generation (a lease without a session needs neither); by a person's
  recovery that names holder, session and generation; or by a status write that asks for the release and saw this very
  version of the task. No checkout, extension, heartbeat, sweep or reaper ends it.\<close>

theorem live_leases_end_by_right:
  assumes "checkout_ok s" and "a \<in> set (co_Tasks s)" and "b \<in> set (co_Tasks (checkout_exec env q s))" and "ct_ID b = ct_ID a"
    and "cl_Holder (ct_Lease a) = Some h" and "cl_ExpiresAt (ct_Lease a) = Some e" and "ce_db_now env < e"
    and "(cl_Holder (ct_Lease b), cl_Token (ct_Lease b)) \<noteq> (Some h, cl_Token (ct_Lease a))"
  shows "cl_Holder (ct_Lease b) = None \<and> cl_Generation (ct_Lease b) = cl_Generation (ct_Lease a) \<and> entitled env q a"
proof -
  have inj: "inj_on ct_ID (set (co_Tasks s))" using assms(1) unfolding checkout_ok_def distinct_map by blast
  have ok': "checkout_ok (checkout_exec env q s)" using checkout_exec_step [OF assms(1)] by blast
  have wf: "lease_wf (ct_Lease a)" "lease_wf (ct_Lease b)" using assms(1-3) ok' unfolding checkout_ok_def by blast+
  have move: "lease_move (ce_db_now env) (abs_lease (ct_Lease a)) (abs_lease (ct_Lease b))"
    using all2_same_ID [OF checkout_exec_step [OF assms(1), THEN conjunct2, unfolded rows_move_def] _ assms(2-4)] assms(1)
    unfolding checkout_ok_def by blast
  note free = live_lost_free [OF move wf assms(5-8)]
  from free assms(5) have c: "ct_Lease b \<noteq> ct_Lease a" by auto
  have same: "ct_Lease b = ct_Lease a" if "b \<in> set (co_Tasks s)" using that assms(2,4) inj by (blast dest: inj_onD)
  have "entitled env q a"
  proof (cases q)
    case (Checkout u ttl x)
    obtain r s' where e: "CheckoutTask env u ttl x s = (r, s')" by fastforce
    with Checkout assms(3) have b: "b \<in> set (co_Tasks s')" by simp
    from b same c have "s' \<noteq> s" by blast
    with Checkout_cases [OF e] obtain v s1 where
        v: "AcquireCheckout (ce_db_now env) u (ce_actor env) (ce_token env) (ce_now env + Minutes (clamp_ttl ttl)) x s = (v, s1)"
        and s1: "s' = s1 \<or> s' = log_checkout u ''task.checkout_acquired'' s1" by blast
    from s1 b have b1: "b \<in> set (co_Tasks s1)" by (auto simp: log_checkout_def)
    from b1 same c have "s1 \<noteq> s" by blast
    with acquire_checkout_cases [OF v] obtain lease k where
        e1: "s1 = update_tasks (\<lambda>t'. ct_ID t' = u) (\<lambda>t'. t'\<lparr>ct_Lease := lease, ct_UpdatedAt := k t'\<rparr>) s"
        and "cl_Holder lease = Some (ce_actor env)" using \<open>s1 \<noteq> s\<close> acquired_holder by blast
    with update_row [OF assms(1,2) b1 [unfolded e1] assms(4)] c free show ?thesis by simp
  next
    case (Extend u token ttl x)
    obtain r s' where e: "service_ExtendCheckout env u token ttl x s = (r, s')" by fastforce
    with Extend assms(3) have b: "b \<in> set (co_Tasks s')" by simp
    from b same c have "s' \<noteq> s" by blast
    with Extend_cases [OF e] obtain lease where e1: "s' = update_tasks (\<lambda>t'. ct_ID t' = u) (\<lambda>t'. t'\<lparr>ct_Lease := lease, ct_UpdatedAt := ce_db_now env\<rparr>) s"
        and "cl_Holder lease \<noteq> None"
      by (auto simp: ExtendScopedCheckout_def Let_def extend_allowed_def split: option.split_asm if_split_asm)
    with update_row [OF assms(1,2) b [unfolded e1] assms(4)] c free show ?thesis by simp
  next
    case (Heartbeat agent)
    with assms(3) have "b \<in> set (co_Tasks (snd (ExtendCheckoutsOnHeartbeat (ce_db_now env) agent s)))" by simp
    from update_row [OF assms(1,2) this [unfolded ExtendCheckoutsOnHeartbeat_def snd_conv] assms(4)] c free assms(5)
    show ?thesis by simp
  next
    case Sweep
    with assms(3) have "b \<in> set (co_Tasks (snd (ReleaseExpiredCheckouts (ce_db_now env) s)))" by simp
    from update_row [OF assms(1,2) this [unfolded ReleaseExpiredCheckouts_def snd_conv] assms(4)] c assms(6,7)
    show ?thesis by (simp add: sweepable_def expired_lease_def)
  next
    case (Move task i)
    with move_entitled [OF assms(1,2) _ assms(4) c assms(6,7)] assms(3) show ?thesis by simp
  qed (use release_entitled [OF assms(1-4) c] in auto)
  with free show ?thesis by blast
qed


lemma row_after:
  assumes ok: "checkout_ok s" and t: "checkout_GetByID s u = Some t" and keep: "\<And>t'. ct_ID (f t') = ct_ID t'"
    and alive: "\<And>t'. ct_Deleted (f t') = ct_Deleted t'"
  shows "\<exists>b. checkout_GetByID (update_tasks (\<lambda>t'. ct_ID t' = u) f s) u = Some b \<and> ct_Lease b = ct_Lease (f t)"
proof -
  let ?s = "update_tasks (\<lambda>t'. ct_ID t' = u) f s"
  let ?b = "tasks_checkout_stage_guard (advance_task_version (f t))"
  from GetByID_in [OF t] have t': "t \<in> set (co_Tasks s)" "ct_ID t = u" "\<not> ct_Deleted t" by blast+
  then have "?b \<in> set (co_Tasks ?s)" by (force simp: update_tasks_def)
  moreover have "ct_ID ?b = u" "\<not> ct_Deleted ?b"
    using t' keep alive by (simp_all add: tasks_checkout_stage_guard_def advance_task_version_def)
  ultimately have "checkout_GetByID ?s u \<noteq> None" unfolding checkout_GetByID_def find_None_iff by blast
  then obtain b where b: "checkout_GetByID ?s u = Some b" by blast
  from GetByID_in [OF b] have "b \<in> set (co_Tasks ?s)" "ct_ID b = u" by blast+
  then obtain c where c: "c \<in> set (co_Tasks s)" "b = (if \<not> ct_Deleted c \<and> ct_ID c = u then tasks_checkout_stage_guard (advance_task_version (f c)) else c)"
    by (auto simp: update_tasks_def)
  have "ct_ID c = u" using c(2) \<open>ct_ID b = u\<close> keep by (simp split: if_split_asm)
  with GetByID_row [OF ok t c(1)] have "c = t" by blast
  with b c(2) t' show ?thesis by simp
qed

lemma clamp_ttl_range: "1 \<le> clamp_ttl ttl \<and> clamp_ttl ttl \<le> 240"
  by (simp add: clamp_ttl_def Let_def)

text \<open>The terms of an acquired lease: the previous one's when it was the caller's own, fresh ones otherwise.\<close>

lemma acquired_terms:
  fixes e :: gtime and token :: uuid
  assumes wf: "lease_wf p" and a: "sql_true (acquirable holder x now p)"
  defines "l \<equiv> acquired_lease holder token e x now p"
  shows "if cl_Holder p = Some holder \<and> cl_SessionID p = sc_SessionID x \<and> cl_RequestID p = sc_RequestID x
            \<and> sql_true (sql_less (Some now) (cl_ExpiresAt p))
      then cl_Token l = cl_Token p \<and> cl_Generation l = cl_Generation p \<and> (sc_RequestID x \<noteq> None \<longrightarrow> cl_ExpiresAt l = cl_ExpiresAt p)
      else (cl_Holder p = None \<or> \<not> sql_true (sql_less (Some now) (cl_ExpiresAt p)))
        \<and> cl_Token l = Some token \<and> cl_Generation l = cl_Generation p + 1 \<and> cl_ExpiresAt l = Some e"
proof (cases "sql_true (retry holder x now p)")
  case True
  with wf have "cl_ExpiresAt p \<noteq> None" by (auto simp: retry_def lease_wf_def)
  with True have "cl_Holder p = Some holder \<and> cl_SessionID p = sc_SessionID x \<and> cl_RequestID p = sc_RequestID x
      \<and> sql_true (sql_less (Some now) (cl_ExpiresAt p))"
    by (simp add: retry_def)
  with True show ?thesis by (simp add: l_def acquired_lease_def)
next
  case False
  with a have "cl_Holder p = None \<or> \<not> sql_true (sql_less (Some now) (cl_ExpiresAt p))"
    by (auto simp: acquirable_def)
  moreover from False have "\<not> (cl_Holder p = Some holder \<and> cl_SessionID p = sc_SessionID x \<and> cl_RequestID p = sc_RequestID x
      \<and> sql_true (sql_less (Some now) (cl_ExpiresAt p)))"
    by (auto simp: retry_def)
  ultimately show ?thesis using False by (simp add: l_def acquired_lease_def)
qed

text \<open>What a granted checkout gives, from the row before and the row after.\<close>

definition checkout_granted ::
  "checkout_env \<Rightarrow> CheckoutScope \<Rightarrow> checkout_store \<Rightarrow> checkout_task \<Rightarrow> checkout_task \<Rightarrow> CheckoutResult \<Rightarrow> bool" where
  "checkout_granted env x s a b v \<longleftrightarrow>
     ce_actor_type env = ''agent'' \<and> open_status s (ct_StatusID a)
     \<and> (\<forall>c. status_GetByID s (ct_StatusID a) = Some c \<longrightarrow> \<not> (cu_Category c = ''todo'' \<and> ct_DelegationLevel a = ''supervised''))
     \<and> cl_Holder (ct_Lease b) = Some (ce_actor env) \<and> cr_CheckedOutBy v = ce_actor env
     \<and> cl_Token (ct_Lease b) = Some (cr_CheckoutToken v) \<and> cl_ExpiresAt (ct_Lease b) = Some (cr_ExpiresAt v)
     \<and> cl_Generation (ct_Lease b) = cr_Generation v
     \<and> cl_SessionID (ct_Lease b) = sc_SessionID x \<and> cl_RequestID (ct_Lease b) = sc_RequestID x
     \<and> (if cl_Holder (ct_Lease a) = Some (ce_actor env) \<and> cl_SessionID (ct_Lease a) = sc_SessionID x
            \<and> cl_RequestID (ct_Lease a) = sc_RequestID x \<and> sql_true (sql_less (Some (ce_db_now env)) (cl_ExpiresAt (ct_Lease a)))
        then cl_Token (ct_Lease b) = cl_Token (ct_Lease a) \<and> cl_Generation (ct_Lease b) = cl_Generation (ct_Lease a)
          \<and> (sc_RequestID x \<noteq> None \<longrightarrow> cl_ExpiresAt (ct_Lease b) = cl_ExpiresAt (ct_Lease a))
        else (cl_Holder (ct_Lease a) = None \<or> \<not> sql_true (sql_less (Some (ce_db_now env)) (cl_ExpiresAt (ct_Lease a))))
          \<and> cr_CheckoutToken v = ce_token env \<and> cr_Generation v = cl_Generation (ct_Lease a) + 1
          \<and> ce_now env < cr_ExpiresAt v \<and> cr_ExpiresAt v \<le> ce_now env + 240 * 60000000000)"

text \<open>C33. What a checkout grants: it is refused, or the caller, an agent, now holds the task's only lease, in a status that is
  neither done nor cancelled and not a supervised todo. A task that was free or whose lease had run out is leased under the
  fresh token and the next generation for at most four hours; otherwise the lease was already this caller's, for the same
  session and request, and its token and generation are kept, and with a request its deadline too. The answer is the
  stored lease, and reading it never dereferences a missing column.\<close>

theorem CheckoutTask_grants:
  assumes "CheckoutTask env u ttl x s = (r, s')" and "checkout_ok s"
  shows "r \<noteq> Inl CheckoutPanic \<and> (\<forall>v. r = Inr v \<longrightarrow> (\<exists>a b. checkout_GetByID s u = Some a \<and> checkout_GetByID s' u = Some b
     \<and> checkout_granted env x s a b v))"
proof (cases "checkout_refusal env u x s")
  case (Some e)
  with assms(1) show ?thesis by (auto simp: CheckoutTask_def)
next
  case ok: None
  define e where "e = ce_now env + Minutes (clamp_ttl ttl)"
  show ?thesis
  proof (cases "AcquireCheckout (ce_db_now env) u (ce_actor env) (ce_token env) e x s")
    case acq: (Pair w s1)
    show ?thesis
    proof (cases w)
      case None
      with acq ok assms(1) have "r = Inl (checkout_conflict s1 u)" by (auto simp: CheckoutTask_def e_def)
      then show ?thesis by (auto simp: checkout_conflict_def split: option.split prod.split)
    next
      case (Some pair)
      from acq [unfolded Some] obtain a where a: "checkout_GetByID s u = Some a"
          and acquirable: "sql_true (acquirable (ce_actor env) x (ce_db_now env) (ct_Lease a))" and op: "open_status s (ct_StatusID a)"
          and pair: "fst pair = acquired_lease (ce_actor env) (ce_token env) e x (ce_db_now env) (ct_Lease a)"
        by (auto simp: AcquireCheckout_def Let_def split: option.split_asm if_split_asm)
      let ?l = "acquired_lease (ce_actor env) (ce_token env) e x (ce_db_now env) (ct_Lease a)"
      define k :: "checkout_task \<Rightarrow> gtime" where "k t' = (if sql_true (retry (ce_actor env) x (ce_db_now env) (ct_Lease a)) \<and> sc_RequestID x \<noteq> None
          then ct_UpdatedAt t' else ce_db_now env)" for t'
      have s1: "s1 = update_tasks (\<lambda>t'. ct_ID t' = u) (\<lambda>t'. t'\<lparr>ct_Lease := ?l, ct_UpdatedAt := k t'\<rparr>) s"
        using acq Some a acquirable op unfolding AcquireCheckout_def Let_def k_def by simp
      from row_after [OF assms(2) a, of "\<lambda>t'. t'\<lparr>ct_Lease := ?l, ct_UpdatedAt := k t'\<rparr>"]
      obtain b where b: "checkout_GetByID s1 u = Some b" "ct_Lease b = ?l" unfolding s1 by auto
      have wfa: "lease_wf (ct_Lease a)" using GetByID_in [OF a] assms(2) unfolding checkout_ok_def by blast
      note wf = acquired_move [OF wfa acquirable, THEN conjunct1, of "ce_token env" e]
      then obtain t d where td: "cl_Token ?l = Some t" "cl_ExpiresAt ?l = Some d" by (auto simp: lease_wf_def)
      have s': "s' = s1 \<or> s' = log_checkout u ''task.checkout_acquired'' s1"
          and r: "r = checkout_answer (checkoutResult (Some a) u ?l)"
        using assms(1) ok acq [unfolded e_def] Some a pair by (auto simp: CheckoutTask_def e_def split: prod.split_asm if_split_asm)
      from s' b(1) have b': "checkout_GetByID s' u = Some b" by (auto simp: checkout_GetByID_def log_checkout_def)
      obtain v where v: "r = Inr v" "cr_CheckedOutBy v = ce_actor env" "cr_CheckoutToken v = t" "cr_ExpiresAt v = d"
          "cr_Generation v = cl_Generation ?l"
        using r td by (simp add: checkoutResult_def checkout_answer_def)
      have guard: "ce_actor_type env = ''agent''" "\<And>c. status_GetByID s (ct_StatusID a) = Some c \<Longrightarrow> \<not> (cu_Category c = ''todo'' \<and> ct_DelegationLevel a = ''supervised'')"
        using ok a by (auto simp: checkout_refusal_def split: if_split_asm)
      have min: "0 < Minutes (clamp_ttl ttl)" "Minutes (clamp_ttl ttl) \<le> 240 * 60000000000"
        using clamp_ttl_range [of ttl] Minutes_small [of "clamp_ttl ttl"] by simp_all
      have cols: "cl_SessionID ?l = sc_SessionID x" "cl_RequestID ?l = sc_RequestID x" by (simp_all add: acquired_lease_def Let_def)
      note terms = acquired_terms [OF wfa acquirable, of "ce_token env" e, folded b(2)]
      have gen: "cl_Generation (ct_Lease b) = cr_Generation v" unfolding b(2) by (rule v(5) [symmetric])
      have holder: "cl_Holder (ct_Lease b) = Some (ce_actor env)" unfolding b(2) by (rule acquired_holder)
      have "checkout_granted env x s a b v"
        using guard op holder v(2) td [folded b(2) v(3,4)] gen cols [folded b(2)] terms min
        by (simp add: checkout_granted_def e_def split: if_split_asm)
      with v(1) a b' show ?thesis by blast
    qed
  qed
qed

section \<open>A sample board\<close>

definition free_lease :: CheckoutLease where
  "free_lease = \<lparr>cl_Holder = None, cl_Token = None, cl_ExpiresAt = None, cl_AcquiredAt = None, cl_SessionID = None,
     cl_RequestID = None, cl_Generation = 0\<rparr>"

definition sample_card :: checkout_task where
  "sample_card = \<lparr>ct_ID = 1, ct_ProjectID = 2, ct_StatusID = 3, ct_Deleted = False, ct_Version = 1, ct_UpdatedAt = 0,
     ct_CompletedAt = None, ct_StatusChangedAt = None, ct_AssigneeID = None, ct_AssigneeType = ''unassigned'', ct_AssignedBy = '''',
     ct_PreReviewAssigneeID = None, ct_PreReviewAssigneeType = None, ct_PreReviewRestore = False, ct_DueDate = None,
     ct_Labels = [], ct_DelegationLevel = ''auto'', ct_HumanGate = False, ct_IsShipped = False, ct_StageStatusID = None,
     ct_ParentTaskID = None, ct_CreatedBy = 9, ct_CreatedByType = ''user'', ct_ReviewerID = None, ct_GateAuthor = None,
     ct_GateAuthorType = None, ct_HumanGateClass = ''hard'', ct_DodChecks = [], ct_Lease = free_lease\<rparr>"

definition sample_board :: checkout_store where
  "sample_board = \<lparr>co_Tasks = [sample_card],
     co_Statuses = [\<lparr>cu_ID = 3, cu_ProjectID = 2, cu_Name = ''Doing'', cu_Slug = ''doing'', cu_Category = ''in_progress''\<rparr>],
     co_Rules = [\<lparr>hr_ProjectID = 2, hr_Extends = Some True, hr_Minutes = None\<rparr>],
     co_Waits = [], co_Activity = [], co_Agents = [(7, ''bob'')], co_Log = []\<rparr>"

definition agent_env :: "gtime \<Rightarrow> uuid \<Rightarrow> uuid \<Rightarrow> checkout_env" where
  "agent_env t agent token = \<lparr>ce_now = t, ce_db_now = t, ce_token = token, ce_actor = agent, ce_actor_type = ''agent''\<rparr>"

definition unscoped :: CheckoutScope where
  "unscoped = \<lparr>sc_SessionID = None, sc_RequestID = None\<rparr>"

definition sample_checkout :: "(checkout_error + CheckoutResult) \<times> checkout_store" where
  "sample_checkout = CheckoutTask (agent_env 100 7 8) 1 240 unscoped sample_board"

definition held_board :: checkout_store where
  "held_board = snd sample_checkout"

definition the_row :: "checkout_store \<Rightarrow> checkout_task" where
  "the_row s = hd (co_Tasks s)"

lemma sample_board_ok: "checkout_ok sample_board"
  by (simp add: checkout_ok_def sample_board_def sample_card_def free_lease_def lease_wf_def)

lemma held_board_ok: "checkout_ok held_board"
  using checkout_exec_step [OF sample_board_ok, of "agent_env 100 7 8" "Checkout 1 240 unscoped"]
  by (simp add: held_board_def sample_checkout_def)

lemma one_row: "length (co_Tasks s) = 1 \<Longrightarrow> the_row s \<in> set (co_Tasks s)"
  by (cases "co_Tasks s") (simp_all add: the_row_def)

lemma held_row: "the_row held_board \<in> set (co_Tasks held_board)" "ct_ID (the_row held_board) = 1"
    "cl_Holder (ct_Lease (the_row held_board)) = Some 7" "cl_ExpiresAt (ct_Lease (the_row held_board)) = Some (100 + 240 * 60000000000)"
proof -
  have "length (co_Tasks held_board) = 1" by code_simp
  then show "the_row held_board \<in> set (co_Tasks held_board)" by (rule one_row)
  show "ct_ID (the_row held_board) = 1" by code_simp
  show "cl_Holder (ct_Lease (the_row held_board)) = Some 7" by code_simp
  show "cl_ExpiresAt (ct_Lease (the_row held_board)) = Some (100 + 240 * 60000000000)" by code_simp
qed

definition sample_release :: checkout_store where
  "sample_release = checkout_exec (agent_env 200 7 9) (SelfRelease 1 None) held_board"

lemma sample_release_row: "the_row sample_release \<in> set (co_Tasks sample_release)" "ct_ID (the_row sample_release) = 1"
    "cl_Holder (ct_Lease (the_row sample_release)) = None" "cl_Generation (ct_Lease (the_row sample_release)) = 1"
proof -
  have "length (co_Tasks sample_release) = 1" by code_simp
  then show "the_row sample_release \<in> set (co_Tasks sample_release)" by (rule one_row)
  show "ct_ID (the_row sample_release) = 1" by code_simp
  show "cl_Holder (ct_Lease (the_row sample_release)) = None" by code_simp
  show "cl_Generation (ct_Lease (the_row sample_release)) = 1" by code_simp
qed

theorem checkout_refines_lease_witness:
  "lease_move 200 (abs_lease (ct_Lease (the_row held_board))) (abs_lease (ct_Lease (the_row sample_release)))
   \<and> ct_ID (the_row sample_release) = 1"
proof -
  have "ct_ID (the_row sample_release) = ct_ID (the_row held_board)" using held_row(2) sample_release_row(2) by simp
  from checkout_refines_lease [OF held_board_ok held_row(1) sample_release_row(1) [unfolded sample_release_def] this [unfolded sample_release_def]]
  show ?thesis using sample_release_row(2) by (simp add: sample_release_def agent_env_def)
qed

theorem leases_are_fenced_witness:
  "cl_Generation (ct_Lease (the_row held_board)) \<le> 1"
proof -
  have "checkouts.run held_board [(agent_env 200 7 9, SelfRelease 1 None)] sample_release"
    using checkouts_fold [of held_board "[(agent_env 200 7 9, SelfRelease 1 None)]"] by (simp add: sample_release_def)
  moreover have "ct_ID (the_row sample_release) = ct_ID (the_row held_board)" using held_row(2) sample_release_row(2) by simp
  ultimately show ?thesis
    using leases_are_fenced [OF _ held_board_ok held_row(1) sample_release_row(1)] sample_release_row(4) by fastforce
qed

theorem live_leases_end_by_right_witness:
  "entitled (agent_env 200 7 9) (SelfRelease 1 None) (the_row held_board)"
proof -
  have id: "ct_ID (the_row sample_release) = ct_ID (the_row held_board)" using held_row(2) sample_release_row(2) by simp
  have "ce_db_now (agent_env 200 7 9) < 100 + 240 * 60000000000" by (simp add: agent_env_def)
  moreover have "(cl_Holder (ct_Lease (the_row sample_release)), cl_Token (ct_Lease (the_row sample_release))) \<noteq> (Some 7, cl_Token (ct_Lease (the_row held_board)))"
    using sample_release_row(3) by simp
  ultimately show ?thesis
    using live_leases_end_by_right [OF held_board_ok held_row(1) sample_release_row(1) [unfolded sample_release_def]
        id [unfolded sample_release_def] held_row(3,4)]
    unfolding sample_release_def by blast
qed

theorem CheckoutTask_grants_witness:
  "\<exists>b. checkout_GetByID held_board 1 = Some b \<and> cl_Holder (ct_Lease b) = Some 7 \<and> cl_Generation (ct_Lease b) = 1"
proof -
  have "(case fst sample_checkout of Inr v \<Rightarrow> cr_Generation v = 1 | _ \<Rightarrow> False)" by code_simp
  then obtain v where v: "fst sample_checkout = Inr v" "cr_Generation v = 1" by (auto split: sum.split_asm)
  then have "CheckoutTask (agent_env 100 7 8) 1 240 unscoped sample_board = (Inr v, held_board)"
    by (metis prod.collapse sample_checkout_def held_board_def)
  from CheckoutTask_grants [OF this sample_board_ok] v(2) show ?thesis by (auto simp: checkout_granted_def agent_env_def)
qed

text \<open>The heartbeat's deadline is the clock plus the project's window, whatever the lease had: a lease taken for four hours
  ends after half an hour once its holder sends a heartbeat.\<close>

theorem heartbeat_moves_deadlines_back:
  "cl_ExpiresAt (ct_Lease (the_row (snd (ExtendCheckoutsOnHeartbeat 200 7 held_board)))) = Some (200 + 30 * 60000000000)
   \<and> cl_ExpiresAt (ct_Lease (the_row held_board)) = Some (100 + 240 * 60000000000)"
proof -
  have "cl_ExpiresAt (ct_Lease (the_row (snd (ExtendCheckoutsOnHeartbeat 200 7 held_board)))) = Some (200 + 30 * 60000000000)" by code_simp
  then show ?thesis using held_row(4) by simp
qed

end
