(* ===== verification/Task_Move.thy ===== *)
theory Task_Move
  imports Assignee_Route Checkout_Lease
begin

text \<open>
  Moving a task to another status: \<open>MoveTask\<close> and \<open>moveTaskOnce\<close> of \<open>internal/service/task_service.go\<close>. An attempt reads the
  row, judges the move on that snapshot, computes the assignee, and writes under the version it read; a caller without
  preconditions gets three attempts.

  What other requests do meanwhile is the parameter \<open>gap\<close>: a function on the store between the read and the judgement, and one
  between the judgement and the write. The float column \<open>position\<close>, \<open>finish_task\<close>'s extra writes, the journals, and what follows
  the commit (notifications, automatic transitions of other tasks) are not modelled.
\<close>

section \<open>The request\<close>

record MoveTaskInput =
  mi_StatusID :: "uuid option"
  mi_AssigneeID :: "uuid option"
  mi_AssigneeType :: string
  mi_ExpectedVersion :: "int option"
  mi_ExpectedStatusID :: "uuid option"
  mi_ExpectedUpdatedAt :: "gtime option"
  mi_ExpectedAssigneeID :: "uuid option"
  mi_Source :: string
  mi_Reaper :: "ReaperExpectation option"
  mi_AlarmDue :: "gtime option"
  mi_AlarmLabels :: "string list"
  mi_CheckoutStage :: bool

definition assigneeMatches :: "uuid option \<Rightarrow> uuid \<Rightarrow> bool" where
  "assigneeMatches current expected \<longleftrightarrow> (if expected = uuid_Nil then current = None else current = Some expected)"

definition taskConflictOf :: "checkout_task \<Rightarrow> move_error" where
  "taskConflictOf t = WriteRefused (Stale (task_conflict t))"

text \<open>\<open>expects x p\<close>: the precondition \<open>x\<close>, when there is one, holds.\<close>

definition expects :: "'a option \<Rightarrow> ('a \<Rightarrow> bool) \<Rightarrow> bool" where
  "expects x p \<longleftrightarrow> (case x of None \<Rightarrow> True | Some v \<Rightarrow> p v)"

definition preconditions_hold :: "MoveTaskInput \<Rightarrow> checkout_task \<Rightarrow> bool" where
  "preconditions_hold i t \<longleftrightarrow>
     expects (mi_ExpectedVersion i) (\<lambda>v. v = ct_Version t) \<and> expects (mi_ExpectedStatusID i) (\<lambda>v. v = ct_StatusID t)
     \<and> expects (mi_ExpectedUpdatedAt i) (\<lambda>v. v = ct_UpdatedAt t) \<and> expects (mi_ExpectedAssigneeID i) (assigneeMatches (ct_AssigneeID t))"

definition has_preconditions :: "MoveTaskInput \<Rightarrow> bool" where
  "has_preconditions i \<longleftrightarrow> mi_ExpectedVersion i \<noteq> None \<or> mi_ExpectedStatusID i \<noteq> None \<or> mi_ExpectedUpdatedAt i \<noteq> None
     \<or> mi_ExpectedAssigneeID i \<noteq> None"

section \<open>One attempt\<close>

definition explicit_assignee_refusal :: "move_env \<Rightarrow> checkout_task \<Rightarrow> MoveTaskInput \<Rightarrow> move_error option" where
  "explicit_assignee_refusal env t i =
     (case mi_AssigneeID i of
        None \<Rightarrow> None
      | Some _ \<Rightarrow> assertAssigneeInProjectWorkspace (mo_dir env) (ct_ProjectID t) (mi_AssigneeID i)
                   (resolveAssigneeType (mo_dir env) (mi_AssigneeID i) (mi_AssigneeType i)))"

text \<open>The snapshot as the policy sees it, with the alarm that the same write will set.\<close>

definition with_alarm :: "MoveTaskInput \<Rightarrow> checkout_task \<Rightarrow> checkout_task" where
  "with_alarm i t = (if mi_AlarmDue i = None then t else t\<lparr>ct_DueDate := mi_AlarmDue i, ct_Labels := mi_AlarmLabels i\<rparr>)"

definition entered :: "move_env \<Rightarrow> checkout_status \<Rightarrow> checkout_task \<Rightarrow> checkout_task" where
  "entered env next t = t\<lparr>ct_StatusID := cu_ID next, ct_CompletedAt := (if cu_Category next = ''done'' then Some (mo_now env) else None),
     ct_StatusChangedAt := Some (mo_now env)\<rparr>"

text \<open>The judged snapshot, the version its write must find, and whether the status changes.\<close>

definition judge_move ::
  "Rule list \<Rightarrow> move_env \<Rightarrow> MoveTaskInput \<Rightarrow> checkout_task \<Rightarrow> task_counts \<Rightarrow> move_store
   \<Rightarrow> (move_error + checkout_task \<times> int \<times> bool) \<times> move_store" where
  "judge_move rules env i t n s =
     (case mi_StatusID i of
        None \<Rightarrow> (Inr (with_alarm i t, ct_Version t, False), s)
      | Some q \<Rightarrow>
          if q = ct_StatusID t then (Inr (with_alarm i t, ct_Version t, False), s)
          else case get_status s q of
            None \<Rightarrow> (Inl (MoveRefused (NotFound ''TaskStatus'')), s)
          | Some next \<Rightarrow>
              if cu_ProjectID next \<noteq> ct_ProjectID t
              then (Inl (MoveRefused (BadRequest ''status does not belong to the same project as the task'')), s)
              else
                (case move_gates rules env (with_alarm i t) n (ct_Version t) next s of
                   (Inl e, s1) \<Rightarrow> (Inl e, s1)
                 | (Inr (version, _), s1) \<Rightarrow> (Inr (entered env next (with_alarm i t), version, True), s1)))"

definition auto_released :: "move_store \<Rightarrow> checkout_task \<Rightarrow> bool \<Rightarrow> bool" where
  "auto_released s t changed \<longleftrightarrow> changed \<and> cl_Holder (ct_Lease t) \<noteq> None
     \<and> (case get_status s (ct_StatusID t) of None \<Rightarrow> False | Some x \<Rightarrow> cu_Category x \<in> {''done'', ''review'', ''cancelled''})"

definition move_transition :: "MoveTaskInput \<Rightarrow> int \<Rightarrow> bool \<Rightarrow> bool \<Rightarrow> TaskTransition" where
  "move_transition i version changed release =
     \<lparr>tt_AssignedBy = None, tt_ReleaseCheckout = release, tt_CheckoutStage = (mi_CheckoutStage i \<and> changed), tt_ExpectedVersion = version,
      tt_ExpectedStatusID = mi_ExpectedStatusID i, tt_ExpectedUpdatedAt = mi_ExpectedUpdatedAt i,
      tt_ExpectedAssigneeID = mi_ExpectedAssigneeID i, tt_Reaper = mi_Reaper i, tt_AlarmDue = mi_AlarmDue i,
      tt_AlarmLabels = mi_AlarmLabels i, tt_DisallowParkedWait = (mi_Source i = ''auto_transition'')\<rparr>"

definition postAssigneeChangeComment :: "move_env \<Rightarrow> uuid \<Rightarrow> uuid option \<Rightarrow> uuid option \<Rightarrow> move_store \<Rightarrow> move_store" where
  "postAssigneeChangeComment env u old new s =
     create_comment \<lparr>cm_ID = mo_fresh env (length (ms_Comments s)), cm_TaskID = u, cm_AuthorID = uuid_Nil, cm_AuthorType = ''system'',
       cm_Body = mo_change_note env old new, cm_IsInternal = False, cm_Informational = False, cm_HandoffParam = '''', cm_CreatedAt = mo_now env\<rparr> s"

definition write_move ::
  "move_env \<Rightarrow> MoveTaskInput \<Rightarrow> checkout_task \<Rightarrow> checkout_task \<Rightarrow> int \<Rightarrow> bool \<Rightarrow> move_store \<Rightarrow> move_error option \<times> move_store" where
  "write_move env i old t version changed s =
     (let assignment_changed = ct_AssigneeID old \<noteq> ct_AssigneeID t \<or> ct_AssigneeType old \<noteq> ct_AssigneeType t in
      if \<not> changed \<and> \<not> assignment_changed \<and> mi_AlarmDue i = None then
        (if \<not> has_preconditions i then (None, s)
         else case task_GetByID s (ct_ID t) of
           None \<Rightarrow> (Some (MoveRefused (NotFound ''Task'')), s)
         | Some fresh \<Rightarrow> if ct_Version fresh \<noteq> version then (Some (taskConflictOf fresh), s) else (None, s))
      else
        (case UpdateTransition (mo_db_now env) (t\<lparr>ct_UpdatedAt := mo_now env\<rparr>)
                (move_transition i version changed (auto_released s t changed)) (ms_Board s) of
           (Inl e, b) \<Rightarrow> (Some (WriteRefused e), s\<lparr>ms_Board := b\<rparr>)
         | (Inr _, b) \<Rightarrow>
             (None, if assignment_changed \<and> mi_AssigneeID i = None
                    then postAssigneeChangeComment env (ct_ID t) (ct_AssigneeID old) (ct_AssigneeID t) (s\<lparr>ms_Board := b\<rparr>)
                    else s\<lparr>ms_Board := b\<rparr>)))"

type_synonym gap = "(move_store \<Rightarrow> move_store) \<times> (move_store \<Rightarrow> move_store)"

definition moveTaskOnce ::
  "Rule list \<Rightarrow> move_env \<Rightarrow> gap \<Rightarrow> uuid \<Rightarrow> MoveTaskInput \<Rightarrow> move_store \<Rightarrow> move_error option \<times> move_store" where
  "moveTaskOnce rules env g u i s =
     (case task_GetByID s u of
        None \<Rightarrow> (Some (MoveRefused (NotFound ''Task'')), s)
      | Some t \<Rightarrow>
          if \<not> preconditions_hold i t then (Some (taskConflictOf t), s)
          else case explicit_assignee_refusal env t i of
            Some e \<Rightarrow> (Some e, s)
          | None \<Rightarrow>
              (case judge_move rules env i t (counts_of s u) (fst g s) of
                 (Inl e, s1) \<Rightarrow> (Some e, s1)
               | (Inr (t1, version, changed), s1) \<Rightarrow>
                   (case prepareTransitionAssignee env t1 (ct_StatusID t) (mi_AssigneeID i) (mi_AssigneeType i) changed s1 of
                      (Inl e, s2) \<Rightarrow> (Some e, s2)
                    | (Inr t2, s2) \<Rightarrow> write_move env i t t2 version changed (snd g s2))))"

section \<open>The attempts\<close>

definition implicit_caller :: "MoveTaskInput \<Rightarrow> bool" where
  "implicit_caller i \<longleftrightarrow> \<not> has_preconditions i \<and> mi_Reaper i = None \<and> mi_Source i \<noteq> ''auto_transition''"

definition is_conflict :: "move_error option \<Rightarrow> bool" where
  "is_conflict r \<longleftrightarrow> (case r of Some (WriteRefused (Stale _)) \<Rightarrow> True | _ \<Rightarrow> False)"

text \<open>\<open>Suc n\<close> attempts, the first of them number \<open>k\<close>.\<close>

primrec move_attempts ::
  "(nat \<Rightarrow> move_store \<Rightarrow> move_error option \<times> move_store) \<Rightarrow> nat \<Rightarrow> nat \<Rightarrow> move_store \<Rightarrow> move_error option \<times> move_store" where
  "move_attempts once 0 k s = once k s"
| "move_attempts once (Suc n) k s =
     (case once k s of (r, s1) \<Rightarrow> if is_conflict r then move_attempts once n (Suc k) s1 else (r, s1))"

definition MoveTask ::
  "Rule list \<Rightarrow> move_env \<Rightarrow> (nat \<Rightarrow> gap) \<Rightarrow> uuid \<Rightarrow> MoveTaskInput \<Rightarrow> move_store \<Rightarrow> move_error option \<times> move_store" where
  "MoveTask rules env gaps u i s =
     move_attempts (\<lambda>k. moveTaskOnce rules env (gaps k) u i) (if implicit_caller i then 2 else 0) 0 s"

end
