(* ===== verification/Move_Safety.thy ===== *)
theory Move_Safety
  imports Task_Move
begin

text \<open>
  What a move promises while other requests run: the row that a committed move replaces is the row it was judged on, so the gates
  hold of the row it leaves behind; and a refused move changes no column but the version.
\<close>

section \<open>The trigger\<close>

definition bump :: "checkout_task \<Rightarrow> checkout_task" where
  "bump t = tasks_checkout_stage_guard (advance_task_version t)"

text \<open>Every column but the version; the stage marker of a checkout goes with the first update when it names another status than
  the row's, as the trigger demands.\<close>

definition valid_stage :: "checkout_task \<Rightarrow> uuid option" where
  "valid_stage t = (if ct_StageStatusID t = Some (ct_StatusID t) then Some (ct_StatusID t) else None)"

definition same_columns :: "checkout_task \<Rightarrow> checkout_task \<Rightarrow> bool" where
  "same_columns r t \<longleftrightarrow> r = t\<lparr>ct_Version := ct_Version r, ct_StageStatusID := ct_StageStatusID r\<rparr>
     \<and> ct_StageStatusID r \<in> {ct_StageStatusID t, valid_stage t}"

lemma same_columns_sel:
  assumes "same_columns r t"
  shows "ct_ID r = ct_ID t" "ct_ProjectID r = ct_ProjectID t" "ct_StatusID r = ct_StatusID t" "ct_Deleted r = ct_Deleted t"
    "ct_UpdatedAt r = ct_UpdatedAt t" "ct_AssigneeID r = ct_AssigneeID t" "ct_AssigneeType r = ct_AssigneeType t"
    "ct_DueDate r = ct_DueDate t" "ct_Labels r = ct_Labels t" "ct_DelegationLevel r = ct_DelegationLevel t"
    "ct_HumanGate r = ct_HumanGate t" "ct_IsShipped r = ct_IsShipped t" "ct_GateAuthor r = ct_GateAuthor t"
    "ct_GateAuthorType r = ct_GateAuthorType t" "ct_HumanGateClass r = ct_HumanGateClass t" "ct_DodChecks r = ct_DodChecks t"
    "ct_Lease r = ct_Lease t" "ct_CompletedAt r = ct_CompletedAt t"
  by (subst assms [unfolded same_columns_def, THEN conjunct1], simp)+

lemma same_columns_refl [simp]: "same_columns t t"
  by (simp add: same_columns_def)

lemma same_columns_trans: "same_columns a b \<Longrightarrow> same_columns b c \<Longrightarrow> same_columns a c"
  by (cases a; cases b; cases c) (auto simp: same_columns_def valid_stage_def split: if_splits)

lemma bump_columns: "same_columns (bump t) t" and bump_version: "ct_Version (bump t) = ct_Version t + 1"
  by (cases t, simp add: same_columns_def valid_stage_def bump_def tasks_checkout_stage_guard_def advance_task_version_def)+

lemma bump_stage: "bump t = t\<lparr>ct_Version := ct_Version t + 1, ct_StageStatusID := valid_stage t\<rparr>"
  by (cases t) (simp add: valid_stage_def bump_def tasks_checkout_stage_guard_def advance_task_version_def)

lemma bumps_stage: "(bump ^^ Suc k) t = t\<lparr>ct_Version := ct_Version t + 1 + int k, ct_StageStatusID := valid_stage t\<rparr>"
  by (induction k) (simp_all add: bump_stage valid_stage_def)

lemma bumps_columns: "same_columns ((bump ^^ k) t) t"
  by (induction k) (auto intro: same_columns_trans bump_columns)

lemma bumps_version: "ct_Version ((bump ^^ k) t) = ct_Version t + int k"
  by (induction k) (auto simp: bump_version)

lemma bumps_sel [simp]:
  "ct_ID ((bump ^^ k) t) = ct_ID t" "ct_Deleted ((bump ^^ k) t) = ct_Deleted t" "ct_StatusID ((bump ^^ k) t) = ct_StatusID t"
  using same_columns_sel [OF bumps_columns [of k t]] by simp_all

lemma bump_sel [simp]: "ct_ID (bump t) = ct_ID t" "ct_Deleted (bump t) = ct_Deleted t"
  using bumps_sel [of 1 t] by simp_all

section \<open>Rows after a step\<close>

lemma find_map: "(\<And>x. P (f x) = P x) \<Longrightarrow> find P (map f xs) = map_option f (find P xs)"
  by (induction xs) auto

lemma touch_row: "checkout_GetByID (touch_task u s) u = map_option bump (checkout_GetByID s u)"
proof -
  define f where "f = (\<lambda>t. if ct_ID t = u then bump t else t)"
  have tasks: "co_Tasks (touch_task u s) = map f (co_Tasks s)"
    by (simp add: touch_task_def f_def bump_def)
  have "checkout_GetByID (touch_task u s) u = map_option f (checkout_GetByID s u)"
    unfolding checkout_GetByID_def tasks by (rule find_map) (simp add: f_def)
  also have "\<dots> = map_option bump (checkout_GetByID s u)"
    using GetByID_in by (cases "checkout_GetByID s u") (auto simp: f_def)
  finally show ?thesis .
qed

text \<open>\<open>rows u k s s'\<close>: from \<open>s\<close> to \<open>s'\<close> the trigger ran \<open>k\<close> times on the task, and nothing else touched its row.\<close>

definition rows :: "uuid \<Rightarrow> nat \<Rightarrow> move_store \<Rightarrow> move_store \<Rightarrow> bool" where
  "rows u k s s' \<longleftrightarrow> task_GetByID s' u = map_option (bump ^^ k) (task_GetByID s u) \<and> co_Statuses (ms_Board s') = co_Statuses (ms_Board s)"

lemma rows_refl [simp]: "rows u 0 s s"
  by (simp add: rows_def option.map_id)

lemma rows_trans:
  assumes "rows u k s s1" "rows u m s1 s2"
  shows "rows u (m + k) s s2"
  using assms unfolding rows_def funpow_add by (simp add: option.map_comp)

lemma rows_board: "rows u k s s1 \<Longrightarrow> ms_Board s2 = ms_Board s1 \<Longrightarrow> rows u k s s2"
  by (simp add: rows_def task_GetByID_def)

lemma rows_status: "rows u k s s' \<Longrightarrow> get_status s' q = get_status s q"
  by (simp add: rows_def get_status_def status_GetByID_def)

lemma rows_touch: "rows u k s (s\<lparr>ms_Links := ls, ms_Board := (touch_task u ^^ k) (ms_Board s)\<rparr>)"
proof (induction k)
  case (Suc k)
  have "rows u 1 (s\<lparr>ms_Links := ls, ms_Board := (touch_task u ^^ k) (ms_Board s)\<rparr>)
                 (s\<lparr>ms_Links := ls, ms_Board := (touch_task u ^^ Suc k) (ms_Board s)\<rparr>)"
    by (simp add: rows_def task_GetByID_def touch_row) (simp add: touch_task_def)
  from rows_trans [OF Suc this] show ?case by simp
qed (simp add: rows_def task_GetByID_def option.map_id)

lemma rows_comment: "cm_TaskID c = u \<Longrightarrow> rows u 1 s (create_comment c s)"
proof -
  assume u: "cm_TaskID c = u"
  have "checkout_GetByID (b\<lparr>co_Activity := x\<rparr>) u = checkout_GetByID b u" for b x
    by (simp add: checkout_GetByID_def)
  then show ?thesis
    using touch_row [of u] by (simp add: rows_def task_GetByID_def create_comment_def u) (simp add: touch_task_def)
qed

lemma sync_rows: "sync_links env t s = (links, w, s1) \<Longrightarrow> rows (ct_ID t) w s s1"
  using rows_touch [of "ct_ID t" _ s] by (auto simp: sync_links_def split: prod.splits)

lemma gate_rows: "applyTransitionGate env t old next s = (r, w, s1) \<Longrightarrow> rows (ct_ID t) w s s1"
  using sync_rows [of env t s]
  by (auto simp: applyTransitionGate_def Let_def split: option.splits prod.splits if_splits)

lemma heal_rows: "\<exists>k. rows (vl_TaskID l) k s (healVCSLinkStatus env l s)"
proof -
  have one: "rows (vl_TaskID l) 1 s (s\<lparr>ms_Links := ls, ms_Board := touch_task (vl_TaskID l) (ms_Board s)\<rparr>)" for ls
    using rows_touch [of "vl_TaskID l" 1 s ls] by simp
  show ?thesis
    unfolding healVCSLinkStatus_def upsert_link_def
    using one rows_touch [of "vl_TaskID l" _ s] by (auto simp del: funpow.simps split: list.split)
qed

lemma check_links_rows:
  "check_links env ws ls needs s = (e, n, s1) \<Longrightarrow> \<forall>l\<in>set ls. vl_TaskID l = u \<Longrightarrow> \<exists>k. rows u k s s1"
proof (induction ls arbitrary: needs s)
  case (Cons l ls)
  show ?case
  proof (cases "unsettled l \<and> isPRMergedLive env l ws = Some True")
    case True
    then have "check_links env ws ls (needs \<and> IsRelatesTo l) (healVCSLinkStatus env l s) = (e, n, s1)"
      using Cons.prems(1) by (simp add: Let_def)
    then obtain k where "rows u k (healVCSLinkStatus env l s) s1" using Cons.IH Cons.prems(2) by fastforce
    moreover obtain m where "rows u m s (healVCSLinkStatus env l s)" using heal_rows Cons.prems(2) by fastforce
    ultimately show ?thesis using rows_trans by blast
  next
    case False
    show ?thesis
    proof (cases "unsettled l")
      case True
      then have "s1 = s" using False Cons.prems(1) by (auto simp: Let_def split: option.splits bool.splits)
      then show ?thesis using rows_refl by blast
    next
      case un: False
      then show ?thesis using Cons by (simp add: Let_def)
    qed
  qed
qed (auto intro: rows_refl)

lemma list_links_task: "l \<in> set (list_links s u) \<Longrightarrow> vl_TaskID l = u"
  by (simp add: list_links_def ListByTask_def)

lemma done_rows:
  assumes "done_gate env t n c s = (e, s1)"
  shows "\<exists>k. rows (ct_ID t) k s s1"
proof -
  define ws where "ws = resolveProjectWorkspace (mo_dir env) (ct_ProjectID t)"
  obtain e1 n1 s2 where c: "check_links env ws (list_links s (ct_ID t)) True s = (e1, n1, s2)"
    by (metis prod_cases3)
  have "s1 = s \<or> s1 = s2"
    using assms c by (auto simp: done_gate_def ws_def [symmetric] Let_def split: if_splits option.splits)
  then show ?thesis
    using check_links_rows [OF c, of "ct_ID t"] list_links_task rows_refl by blast
qed


section \<open>The gates\<close>

text \<open>An admitted move, taken apart along the code.\<close>

lemma admitted:
  assumes "move_gates rules env t n v next s = (Inr (v1, adv), s')"
  obtains mode diag w s1 where "row_gates env t (cu_Category next) = None"
    and "applyTransitionGate env t (ct_StatusID t) next s = ((mode, adv, diag), w, s1)" and "gate_refusal mode adv diag = None"
    and "v1 = (if w > 0 then rebaseVersionAfterChildWrite s1 t v w else v)"
    and "review_gate env s1 t n (cu_Category next) = None" and "triage_gate env t (cu_Category next) = None"
    and "done_gate env t n (cu_Category next) s1 = (None, s')"
    and "dod_gate env t (cu_Category next) = None" and "rules_gate rules env s' t (cu_Category next) = None"
proof -
  obtain mode adv' diag w s1 where g: "applyTransitionGate env t (ct_StatusID t) next s = ((mode, adv', diag), w, s1)"
    by (metis prod_cases3)
  obtain d s2 where d: "done_gate env t n (cu_Category next) s1 = (d, s2)" by fastforce
  note eq = assms [unfolded move_gates_def Let_def g prod.case d]
  have 1: "row_gates env t (cu_Category next) = None" using eq by (cases "row_gates env t (cu_Category next)") auto
  have 2: "gate_refusal mode adv' diag = None" using eq unfolding 1 by (cases "gate_refusal mode adv' diag") auto
  have 3: "first_refusal [review_gate env s1 t n (cu_Category next), triage_gate env t (cu_Category next)] = None"
    using eq unfolding 1 2 option.case by (rule contrapos_pp) auto
  have 4: "d = None" using eq unfolding 1 2 3 option.case by (cases d) auto
  have 5: "first_refusal [dod_gate env t (cu_Category next), rules_gate rules env s2 t (cu_Category next)] = None"
    using eq unfolding 1 2 3 4 option.case prod.case by (rule contrapos_pp) auto
  have 6: "v1 = (if w > 0 then rebaseVersionAfterChildWrite s1 t v w else v)" "adv' = adv" "s2 = s'"
    using eq unfolding 1 2 3 4 5 option.case prod.case by auto
  show thesis
    using that 1 2 3 4 5 6 g d by (simp del: first_refusal.simps)
qed

lemma move_gates_rows:
  assumes "move_gates rules env t n v next s = (r, s')"
  shows "\<exists>k. rows (ct_ID t) k s s'"
proof -
  obtain mode adv diag w s1 where g: "applyTransitionGate env t (ct_StatusID t) next s = ((mode, adv, diag), w, s1)"
    by (metis prod_cases3)
  obtain d s2 where d: "done_gate env t n (cu_Category next) s1 = (d, s2)" by fastforce
  have "s' \<in> {s, s1, s2}"
    using assms unfolding move_gates_def Let_def g prod.case d
    by (simp del: first_refusal.simps split: option.splits)
  then show ?thesis
    using gate_rows [OF g] done_rows [OF d] rows_trans rows_refl by blast
qed

lemma admitted_version:
  assumes "move_gates rules env t n v next s = (Inr (v1, adv), s')"
  shows "\<exists>k. rows (ct_ID t) k s s' \<and> (v1 = v \<or> (\<exists>m\<le>k. v1 = v + int m \<and> (\<forall>t0. task_GetByID s (ct_ID t) = Some t0 \<longrightarrow> ct_Version t0 = v)))"
  using assms
proof (rule admitted, goal_cases)
  case (1 mode diag w s1)
  obtain k where k: "rows (ct_ID t) k s1 s'" using done_rows [OF 1(7)] by blast
  have w: "rows (ct_ID t) w s s1" by (rule gate_rows [OF 1(2)])
  have "v1 = v \<or> v1 = v + int w \<and> (\<forall>t0. task_GetByID s (ct_ID t) = Some t0 \<longrightarrow> ct_Version t0 = v)"
    using 1(4) w by (auto simp: rebaseVersionAfterChildWrite_def rows_def bumps_version split: option.splits if_splits)
  then show ?case
    using rows_trans [OF w k] by (intro exI [of _ "k + w"]) auto
qed


section \<open>The assignee\<close>

lemma ensure_board: "ms_Board (snd (ensureAssigneeProjectMember d p a kind s)) = ms_Board s"
  by (simp add: ensureAssigneeProjectMember_def ensureAgentProjectMember_def ensureUserProjectMember_def enroll_def
    split: option.split)

lemma note_rows: "rows (ct_ID t) 1 s (postReviewerNotAssignedComment env t r s)"
  unfolding postReviewerNotAssignedComment_def by (rule rows_comment) simp

lemma on_enter_board:
  assumes "applyOnEnterAssignee env t next s = (r, s')"
  shows "ms_Board s' = ms_Board s"
    and "r = Some t2 \<Longrightarrow> ct_ID t2 = ct_ID t \<and> ct_StatusID t2 = ct_StatusID t \<and> ct_CompletedAt t2 = ct_CompletedAt t"
  using assms ensure_board [of "mo_dir env" "ct_ProjectID t" _ _ s]
  by (auto simp: applyOnEnterAssignee_def assign_def stash_assignee_def split: option.splits prod.splits if_splits)
    (metis snd_conv)+

lemma target_rows: "resolveReviewTarget env t old s = (r, s') \<Longrightarrow> s' = s \<or> rows (ct_ID t) 1 s s'"
  using note_rows [of t s env]
  by (auto simp: resolveReviewTarget_def split: option.splits sum.splits if_splits reviewer_error.splits)

lemma review_rows:
  assumes "review_assignee env t old s = (r, s')"
  shows "\<exists>k. rows (ct_ID t) k s s'"
    and "r = Inr t2 \<Longrightarrow> ct_ID t2 = ct_ID t \<and> ct_StatusID t2 = ct_StatusID t \<and> ct_CompletedAt t2 = ct_CompletedAt t"
proof -
  obtain u s1 where t: "resolveReviewTarget env t old s = (u, s1)" by fastforce
  then obtain k where k: "rows (ct_ID t) k s s1" using target_rows rows_refl by blast
  obtain e s2 where e: "ensureAssigneeProjectMember (mo_dir env) (ct_ProjectID t) u ''agent'' s1 = (e, s2)" by fastforce
  have k2: "rows (ct_ID t) k s s2"
    using rows_board [OF k] ensure_board [of "mo_dir env" "ct_ProjectID t" u "''agent''" s1] unfolding e by simp
  have cases: "s' = s1 \<or> s' = s2 \<or> (\<exists>v. s' = postReviewerNotAssignedComment env t v s1) \<or> (\<exists>v. s' = postReviewerNotAssignedComment env t v s2)"
    using assms e unfolding review_assignee_def t by (auto split: option.splits if_splits)
  show "\<exists>k. rows (ct_ID t) k s s'"
    using cases k k2 rows_trans [OF k note_rows [of t s1 env]] rows_trans [OF k2 note_rows [of t s2 env]] by blast
  show "r = Inr t2 \<Longrightarrow> ct_ID t2 = ct_ID t \<and> ct_StatusID t2 = ct_StatusID t \<and> ct_CompletedAt t2 = ct_CompletedAt t"
    using assms unfolding review_assignee_def t
    by (auto simp: assign_def stash_assignee_def split: option.splits if_splits prod.splits)
qed

lemma restored_rows:
  assumes "restored_assignee env t kind s = (r, s')"
  shows "ms_Board s' = ms_Board s"
    and "r = Inr t2 \<Longrightarrow> ct_ID t2 = ct_ID t \<and> ct_StatusID t2 = ct_StatusID t \<and> ct_CompletedAt t2 = ct_CompletedAt t"
  using assms ensure_board [of "mo_dir env" "ct_ProjectID t" "ct_PreReviewAssigneeID t" kind s]
  by (auto simp: restored_assignee_def assign_def split: option.splits prod.splits if_splits)

lemma board_rows: "ms_Board s' = ms_Board s \<Longrightarrow> \<exists>k. rows u k s s'"
  using rows_board [OF rows_refl] by blast

lemma route_rows:
  assumes "prepareTransitionAssigneeRoute env t old_id wanted kind changed s = (r, s')"
  shows "\<exists>k. rows (ct_ID t) k s s'"
    and "r = Inr t2 \<Longrightarrow> ct_ID t2 = ct_ID t \<and> ct_StatusID t2 = ct_StatusID t \<and> ct_CompletedAt t2 = ct_CompletedAt t"
proof -
  have "(\<exists>k. rows (ct_ID t) k s s') \<and> (r = Inr t2 \<longrightarrow> ct_ID t2 = ct_ID t \<and> ct_StatusID t2 = ct_StatusID t \<and> ct_CompletedAt t2 = ct_CompletedAt t)"
  proof (cases wanted)
    case (Some u)
    obtain e s1 where e: "ensureAssigneeProjectMember (mo_dir env) (ct_ProjectID t) wanted (resolveAssigneeType (mo_dir env) wanted kind) s = (e, s1)"
      by fastforce
    have "ms_Board s1 = ms_Board s"
      using ensure_board [of "mo_dir env" "ct_ProjectID t" wanted "resolveAssigneeType (mo_dir env) wanted kind" s] unfolding e by simp
    moreover have "s' = s1" "r = Inr t2 \<longrightarrow> t2 = assign wanted (resolveAssigneeType (mo_dir env) wanted kind) t"
      using assms e unfolding prepareTransitionAssigneeRoute_def Let_def Some by (auto split: option.splits)
    ultimately show ?thesis
      using board_rows by (auto simp: assign_def)
  next
    case None
    show ?thesis
    proof (cases "changed \<and> get_status s (ct_StatusID t) \<noteq> None \<and> get_status s old_id \<noteq> None")
      case False
      then have "s' = s" "r = Inr t2 \<longrightarrow> t2 = t"
        using assms unfolding prepareTransitionAssigneeRoute_def None by (auto split: option.splits if_splits)
      then show ?thesis using board_rows by auto
    next
      case True
      then obtain nxt old where st: "get_status s (ct_StatusID t) = Some nxt" "get_status s old_id = Some old" "changed" by blast
      obtain o1 s1 where o: "applyOnEnterAssignee env t nxt s = (o1, s1)" by fastforce
      have b: "ms_Board s1 = ms_Board s" by (rule on_enter_board(1) [OF o])
      show ?thesis
      proof (cases o1)
        case (Some t1)
        then have "s' = s1" "r = Inr t1"
          using assms st(3) unfolding prepareTransitionAssigneeRoute_def None option.case st prod.case o by auto
        then show ?thesis using on_enter_board(2) [OF o] Some board_rows [OF b] by auto
      next
        case n: None
        define done_by where "done_by = (r, s')"
        have d: "done_by = (if cu_Category nxt = ''review'' then review_assignee env t old s1
           else case ct_PreReviewAssigneeType t of
              Some kind \<Rightarrow> if cu_Category old = ''review'' \<and> cu_Category nxt \<in> {''todo'', ''in_progress''} \<and> ct_PreReviewRestore t
                then restored_assignee env t kind s1 else (Inr t, s1)
            | None \<Rightarrow> (Inr t, s1))"
          using assms st(3) unfolding prepareTransitionAssigneeRoute_def None option.case st prod.case o n done_by_def by simp
        have "(r, s') = review_assignee env t old s1 \<or> (\<exists>kind. (r, s') = restored_assignee env t kind s1) \<or> (r, s') = (Inr t, s1)"
          using d unfolding done_by_def [symmetric] by (auto split: option.splits if_splits)
        then consider "review_assignee env t old s1 = (r, s')" | kind where "restored_assignee env t kind s1 = (r, s')" | "r = Inr t" "s' = s1"
          by (auto dest: sym)
        then show ?thesis
        proof cases
          case 1
          obtain k where "rows (ct_ID t) k s1 s'" using review_rows(1) [OF 1] by blast
          then have "rows (ct_ID t) (k + 0) s s'" by (rule rows_trans [OF rows_board [OF rows_refl b]])
          then have "\<exists>k. rows (ct_ID t) k s s'" by (rule exI)
          then show ?thesis using review_rows(2) [OF 1] by (rule conjI [OF _ impI])
        next
          case 2
          have "ms_Board s' = ms_Board s" using restored_rows(1) [OF 2] b by simp
          then have "\<exists>k. rows (ct_ID t) k s s'" by (rule board_rows)
          then show ?thesis using restored_rows(2) [OF 2] by (rule conjI [OF _ impI])
        next
          case 3
          then show ?thesis using board_rows [OF b] by auto
        qed
      qed
    qed
  qed
  then show "\<exists>k. rows (ct_ID t) k s s'" "r = Inr t2 \<Longrightarrow> ct_ID t2 = ct_ID t \<and> ct_StatusID t2 = ct_StatusID t \<and> ct_CompletedAt t2 = ct_CompletedAt t"
    by blast+
qed

lemma prepare_rows:
  assumes "prepareTransitionAssignee env t old_id wanted kind changed s = (r, s')"
  shows "\<exists>k. rows (ct_ID t) k s s'"
    and "r = Inr t2 \<Longrightarrow> ct_ID t2 = ct_ID t \<and> ct_StatusID t2 = ct_StatusID t \<and> ct_CompletedAt t2 = ct_CompletedAt t"
proof -
  define t1 where "t1 = (if changed \<and> entering_review s old_id (ct_StatusID t) then t\<lparr>ct_PreReviewRestore := False\<rparr> else t)"
  have t1: "ct_ID t1 = ct_ID t" "ct_StatusID t1 = ct_StatusID t" "ct_CompletedAt t1 = ct_CompletedAt t" by (simp_all add: t1_def)
  obtain r1 s1 where e: "prepareTransitionAssigneeRoute env t1 old_id wanted kind changed s = (r1, s1)" by fastforce
  have s1: "s' = s1" and r: "r = Inr t2 \<Longrightarrow> \<exists>t3. r1 = Inr t3 \<and> ct_ID t2 = ct_ID t3 \<and> ct_StatusID t2 = ct_StatusID t3 \<and> ct_CompletedAt t2 = ct_CompletedAt t3"
    using assms unfolding prepareTransitionAssignee_def Let_def t1_def [symmetric] e by (auto split: sum.splits if_splits)
  show "\<exists>k. rows (ct_ID t) k s s'" using route_rows(1) [OF e] unfolding t1 s1 .
  show "r = Inr t2 \<Longrightarrow> ct_ID t2 = ct_ID t \<and> ct_StatusID t2 = ct_StatusID t \<and> ct_CompletedAt t2 = ct_CompletedAt t"
    using r route_rows(2) [OF e] t1 by fastforce
qed


section \<open>The write\<close>

lemma update_tasks_row:
  assumes "checkout_GetByID s u = Some t" and "\<And>x. ct_ID (f x) = ct_ID x \<and> ct_Deleted (f x) = ct_Deleted x"
  shows "checkout_GetByID (update_tasks (\<lambda>x. ct_ID x = u) f s) u = Some (bump (f t))"
proof -
  define h where "h = (\<lambda>x. if \<not> ct_Deleted x \<and> ct_ID x = u then bump (f x) else x)"
  have tasks: "co_Tasks (update_tasks (\<lambda>x. ct_ID x = u) f s) = map h (co_Tasks s)"
    by (simp add: update_tasks_def h_def bump_def)
  have "checkout_GetByID (update_tasks (\<lambda>x. ct_ID x = u) f s) u = map_option h (checkout_GetByID s u)"
    unfolding checkout_GetByID_def tasks by (rule find_map) (simp add: h_def assms(2))
  then show ?thesis
    using assms(1) GetByID_in [OF assms(1)] by (simp add: h_def)
qed

lemma guard_version: "sql_true (transition_guard now s i t) \<Longrightarrow> ct_Version t = tt_ExpectedVersion i"
  by (auto simp: transition_guard_def sql_true_def sql_and_def split: option.splits if_splits)

lemma written:
  assumes "UpdateTransition now task i b = (Inr r, b')"
  obtains row where "checkout_GetByID b (ct_ID task) = Some row" "ct_Version row = tt_ExpectedVersion i"
    "checkout_GetByID b' (ct_ID task) = Some (bump (transition_row task i row))" "co_Statuses b' = co_Statuses b"
proof -
  obtain row where row: "checkout_GetByID b (ct_ID task) = Some row" "sql_true (transition_guard now b i row)"
    "b' = update_tasks (\<lambda>x. ct_ID x = ct_ID task) (transition_row task i) b"
    using assms by (auto simp: UpdateTransition_def Let_def split: if_splits option.splits)
  moreover have "checkout_GetByID b' (ct_ID task) = Some (bump (transition_row task i row))"
    unfolding row(3) by (rule update_tasks_row [OF row(1)]) (simp add: transition_row_def)
  moreover have "co_Statuses b' = co_Statuses b"
    unfolding row(3) by (simp add: update_tasks_def)
  ultimately show thesis using that guard_version by blast
qed

text \<open>What other requests do keeps the statuses, and whenever it changes the task's row it advances its version: every write of a
  row does, through the trigger.\<close>

definition versioned :: "uuid \<Rightarrow> (move_store \<Rightarrow> move_store) \<Rightarrow> bool" where
  "versioned u g \<longleftrightarrow> (\<forall>s. co_Statuses (ms_Board (g s)) = co_Statuses (ms_Board s)
     \<and> (\<forall>r. task_GetByID (g s) u = Some r \<longrightarrow> (\<exists>t. task_GetByID s u = Some t \<and> (r = t \<or> ct_Version t < ct_Version r))))"

lemma versioned_row:
  assumes "versioned u g" "task_GetByID (g s) u = Some r"
  obtains t where "task_GetByID s u = Some t" "r = t \<or> ct_Version t < ct_Version r"
  using assms unfolding versioned_def by blast

lemma versioned_status: "versioned u g \<Longrightarrow> get_status (g s) q = get_status s q"
  by (simp add: versioned_def get_status_def status_GetByID_def)

text \<open>The row that the write finds under the expected version is the one that was read, with only the gate's own link writes
  between them.\<close>

lemma judged_row:
  assumes g1: "versioned u g1" and g2: "versioned u g2"
    and t: "task_GetByID s u = Some t" and k: "rows u k (g1 s) s2"
    and version: "v1 = ct_Version t \<or> (\<exists>m\<le>k. v1 = ct_Version t + int m \<and> (\<forall>t0. task_GetByID (g1 s) u = Some t0 \<longrightarrow> ct_Version t0 = ct_Version t))"
    and row: "task_GetByID (g2 s2) u = Some row" "ct_Version row = v1"
  shows "same_columns row t"
proof -
  obtain r2 where r2: "task_GetByID s2 u = Some r2" "row = r2 \<or> ct_Version r2 < ct_Version row"
    using versioned_row [OF g2 row(1)] by blast
  obtain r1 where r1: "task_GetByID (g1 s) u = Some r1" "r2 = (bump ^^ k) r1"
    using r2(1) k unfolding rows_def by auto
  have le: "r1 = t \<or> ct_Version t < ct_Version r1"
    using versioned_row [OF g1 r1(1)] t by (metis option.inject)
  have v2: "ct_Version r2 = ct_Version r1 + int k"
    by (simp add: r1(2) bumps_version)
  from version have "r1 = t \<and> ct_Version row \<le> ct_Version r2"
  proof
    assume "v1 = ct_Version t"
    then show ?thesis using le r2(2) v2 row(2) by auto
  next
    assume "\<exists>m\<le>k. v1 = ct_Version t + int m \<and> (\<forall>t0. task_GetByID (g1 s) u = Some t0 \<longrightarrow> ct_Version t0 = ct_Version t)"
    then show ?thesis using le r1(1) row(2) v2 by auto
  qed
  then have "row = (bump ^^ k) t"
    using r2(2) r1(2) by auto
  then show ?thesis by (simp add: bumps_columns)
qed

section \<open>A committed move\<close>

lemma once_success:
  assumes "moveTaskOnce rules env g u i s = (None, s')" and t: "task_GetByID s u = Some t"
  obtains t1 v1 changed s1 t2 s2
  where "preconditions_hold i t" and "explicit_assignee_refusal env t i = None"
    and "judge_move rules env i t (counts_of s u) (fst g s) = (Inr (t1, v1, changed), s1)"
    and "prepareTransitionAssignee env t1 (ct_StatusID t) (mi_AssigneeID i) (mi_AssigneeType i) changed s1 = (Inr t2, s2)"
    and "write_move env i t t2 v1 changed (snd g s2) = (None, s')"
proof -
  obtain j s1 where j: "judge_move rules env i t (counts_of s u) (fst g s) = (j, s1)" by fastforce
  note eq = assms(1) [unfolded moveTaskOnce_def t option.case j prod.case]
  have 1: "preconditions_hold i t" using eq by (rule contrapos_pp) simp
  have 2: "explicit_assignee_refusal env t i = None" using eq 1 by (cases "explicit_assignee_refusal env t i") auto
  have eq: "(case judge_move rules env i t (counts_of s u) (fst g s) of (Inl e, s1) \<Rightarrow> (Some e, s1)
               | (Inr (t1, version, changed), s1) \<Rightarrow>
                   (case prepareTransitionAssignee env t1 (ct_StatusID t) (mi_AssigneeID i) (mi_AssigneeType i) changed s1 of
                      (Inl e, s2) \<Rightarrow> (Some e, s2)
                    | (Inr t2, s2) \<Rightarrow> write_move env i t t2 version changed (snd g s2))) = (None, s')"
    using eq 1 2 j by simp
  note eq = eq [unfolded j prod.case]
  obtain t1 v1 changed where j1: "j = Inr (t1, v1, changed)"
    using eq by (cases j) auto
  obtain p s2 where p: "prepareTransitionAssignee env t1 (ct_StatusID t) (mi_AssigneeID i) (mi_AssigneeType i) changed s1 = (p, s2)" by fastforce
  note eq = eq [unfolded j1 sum.case prod.case p]
  obtain t2 where "p = Inr t2" using eq by (cases p) auto
  then show thesis using that 1 2 j j1 p eq by simp
qed


lemma judged_change:
  assumes "judge_move rules env i t n s = (Inr (t1, v1, changed), s1)" and "mi_StatusID i = Some q" "q \<noteq> ct_StatusID t"
  obtains x adv where "get_status s q = Some x" "cu_ProjectID x = ct_ProjectID t"
    "move_gates rules env (with_alarm i t) n (ct_Version t) x s = (Inr (v1, adv), s1)"
    "t1 = entered env x (with_alarm i t)" "changed"
  using assms by (auto simp: judge_move_def split: option.splits if_splits prod.splits sum.splits)

lemma status_id: "get_status s q = Some x \<Longrightarrow> cu_ID x = q"
  unfolding get_status_def status_GetByID_def by (drule find_SomeD) simp

lemma with_alarm_sel [simp]:
  "ct_ID (with_alarm i t) = ct_ID t" "ct_Version (with_alarm i t) = ct_Version t" "ct_ProjectID (with_alarm i t) = ct_ProjectID t"
  "ct_DelegationLevel (with_alarm i t) = ct_DelegationLevel t" "ct_HumanGate (with_alarm i t) = ct_HumanGate t"
  "ct_IsShipped (with_alarm i t) = ct_IsShipped t" "ct_GateAuthor (with_alarm i t) = ct_GateAuthor t"
  "ct_GateAuthorType (with_alarm i t) = ct_GateAuthorType t" "ct_DodChecks (with_alarm i t) = ct_DodChecks t"
  "ct_StatusID (with_alarm i t) = ct_StatusID t"
  by (simp_all add: with_alarm_def)

text \<open>The row after the commit, and after the note that may follow it.\<close>

definition moved_row :: "move_env \<Rightarrow> MoveTaskInput \<Rightarrow> int \<Rightarrow> move_store \<Rightarrow> checkout_task \<Rightarrow> checkout_task \<Rightarrow> checkout_task" where
  "moved_row env i v s t row =
     transition_row (t\<lparr>ct_UpdatedAt := mo_now env\<rparr>) (move_transition i v True (auto_released s t True)) row"

lemma write_move_row:
  assumes "write_move env i old t v1 True s = (None, s')"
  shows "\<exists>row r. task_GetByID s (ct_ID t) = Some row \<and> ct_Version row = v1 \<and> task_GetByID s' (ct_ID t) = Some r
    \<and> same_columns r (moved_row env i v1 s t row)
    \<and> co_Statuses (ms_Board s') = co_Statuses (ms_Board s)"
proof -
  define task where "task = t\<lparr>ct_UpdatedAt := mo_now env\<rparr>"
  define tr where "tr = move_transition i v1 True (auto_released s t True)"
  have u: "ct_ID task = ct_ID t" "tt_ExpectedVersion tr = v1" by (simp_all add: task_def tr_def move_transition_def)
  obtain x b where w: "UpdateTransition (mo_db_now env) task tr (ms_Board s) = (x, b)" by fastforce
  note eq = assms [unfolded write_move_def Let_def simp_thms if_False task_def [symmetric] tr_def [symmetric] w prod.case]
  obtain r0 where x: "x = Inr r0" using eq by (cases x) auto
  from written [OF w [unfolded x]] obtain row where row: "checkout_GetByID (ms_Board s) (ct_ID t) = Some row" "ct_Version row = v1"
    "checkout_GetByID b (ct_ID t) = Some (bump (transition_row task tr row))" "co_Statuses b = co_Statuses (ms_Board s)"
    unfolding u by blast
  define s1 where "s1 = s\<lparr>ms_Board := b\<rparr>"
  have s1: "task_GetByID s1 (ct_ID t) = Some (bump (transition_row task tr row))" "co_Statuses (ms_Board s1) = co_Statuses (ms_Board s)"
    using row by (simp_all add: s1_def task_GetByID_def)
  have "rows (ct_ID t) 1 s1 (postAssigneeChangeComment env (ct_ID t) a b s1)" for a b
    unfolding postAssigneeChangeComment_def by (rule rows_comment) simp
  moreover have "s' = s1 \<or> (\<exists>a b. s' = postAssigneeChangeComment env (ct_ID t) a b s1)"
    using eq unfolding x sum.case s1_def by (simp split: if_splits) blast
  ultimately obtain k where k: "rows (ct_ID t) k s1 s'" using rows_refl by blast
  then have "task_GetByID s' (ct_ID t) = Some ((bump ^^ k) (bump (transition_row task tr row)))"
    "co_Statuses (ms_Board s') = co_Statuses (ms_Board s)"
    using s1 by (simp_all add: rows_def)
  moreover have "same_columns ((bump ^^ k) (bump (transition_row task tr row))) (transition_row task tr row)"
    by (rule same_columns_trans [OF bumps_columns bump_columns])
  ultimately show ?thesis
    using row(1,2) unfolding moved_row_def task_def tr_def task_GetByID_def by blast
qed

definition gates_hold :: "move_env \<Rightarrow> checkout_task \<Rightarrow> string \<Rightarrow> bool" where
  "gates_hold env r c \<longleftrightarrow>
     (mo_actor_type env \<noteq> ''user'' \<longrightarrow>
        \<not> (ct_DelegationLevel r = ''supervised'' \<and> c \<in> {''review'', ''done'', ''cancelled''})
        \<and> \<not> (ct_HumanGate r \<and> c \<in> {''done'', ''cancelled''})
        \<and> (ct_HumanGate r \<and> c = ''backlog'' \<longrightarrow>
             mo_actor_type env = ''agent'' \<and> ct_GateAuthor r = Some (mo_actor env) \<and> ct_GateAuthorType r = Some ''agent''))
     \<and> (ct_IsShipped r \<longrightarrow> c = ''done'')
     \<and> (c = ''backlog'' \<and> ParkAlarmRequired (midPipelineConfig (mo_dir env) (ct_ProjectID r)) \<longrightarrow>
          wouldBeAlarmlessPark (mo_now env) (ct_Labels r) (ct_DueDate r) = None)
     \<and> (c = ''done'' \<and> mo_actor_type env \<noteq> ''system'' \<and> project_workspace (mo_dir env) (ct_ProjectID r) \<noteq> None \<longrightarrow>
          dodBlockingGates (go_get [] (dr_DodGates (mo_dir env)) (ct_ProjectID r)) (ct_DodChecks r) = [])"

lemma gates_holdI:
  assumes "row_gates env t c = None" "dod_gate env t c = None"
  shows "gates_hold env t c"
proof -
  have "supervised_gate env t c = None" "human_gate env t c = None" "shipped_gate t c = None" "park_gate env t c = None"
    using assms(1) unfolding row_gates_def by (simp_all del: first_refusal.simps)
  then have sup: "\<not> (ct_DelegationLevel t = ''supervised'' \<and> mo_actor_type env \<noteq> ''user'' \<and> c \<in> {''review'', ''done'', ''cancelled''})"
    and human: "ct_HumanGate t \<Longrightarrow> mo_actor_type env \<noteq> ''user'' \<Longrightarrow> c \<notin> {''done'', ''cancelled''} \<and> (c = ''backlog'' \<longrightarrow>
             mo_actor_type env = ''agent'' \<and> ct_GateAuthor t = Some (mo_actor env) \<and> ct_GateAuthorType t = Some ''agent'')"
    and shipped: "ct_IsShipped t \<Longrightarrow> c = ''done''"
    and park: "c = ''backlog'' \<Longrightarrow> ParkAlarmRequired (midPipelineConfig (mo_dir env) (ct_ProjectID t)) \<Longrightarrow>
          wouldBeAlarmlessPark (mo_now env) (ct_Labels t) (ct_DueDate t) = None"
    unfolding supervised_gate_def human_gate_def shipped_gate_def park_gate_def isBacklogCategory_def
    by (simp_all split: if_splits)
  have dod: "c = ''done'' \<Longrightarrow> mo_actor_type env \<noteq> ''system'' \<Longrightarrow> project_workspace (mo_dir env) (ct_ProjectID t) \<noteq> None \<Longrightarrow>
          dodBlockingGates (go_get [] (dr_DodGates (mo_dir env)) (ct_ProjectID t)) (ct_DodChecks t) = []"
    using assms(2) by (simp add: dod_gate_def Let_def)
  show ?thesis
    unfolding gates_hold_def
    by (intro conjI impI) (use sup human shipped park dod in simp)+
qed

lemma gates_hold_cong:
  assumes "gates_hold env t c" and "ct_DelegationLevel r = ct_DelegationLevel t" "ct_HumanGate r = ct_HumanGate t"
    "ct_IsShipped r = ct_IsShipped t" "ct_GateAuthor r = ct_GateAuthor t" "ct_GateAuthorType r = ct_GateAuthorType t"
    "ct_ProjectID r = ct_ProjectID t" "ct_Labels r = ct_Labels t" "ct_DueDate r = ct_DueDate t" "ct_DodChecks r = ct_DodChecks t"
  shows "gates_hold env r c"
  using assms(1) unfolding gates_hold_def assms(2-) .

text \<open>C2. A committed status move, whatever other requests do between its read, its judgement and its write: the row it leaves has the
  new status, a status of its project, and passes the gates. No agent or system actor has put a supervised task into review, done or
  cancelled, or a human-gated one into done or cancelled; a shipped task is done; a parked card has an alarm; a task is done only
  with its required checks passed, and completed exactly when it is done. So judging on a snapshot loses nothing: the row the
  write replaces is the row that was judged.
\<close>

theorem move_respects_gates:
  assumes g: "versioned u (fst g)" "versioned u (snd g)"
    and m: "moveTaskOnce rules env g u i s = (None, s')"
    and t: "task_GetByID s u = Some t" and q: "mi_StatusID i = Some q" "q \<noteq> ct_StatusID t"
  shows "\<exists>r x. task_GetByID s' u = Some r \<and> get_status s' q = Some x \<and> ct_StatusID r = q \<and> cu_ProjectID x = ct_ProjectID r
    \<and> gates_hold env r (cu_Category x) \<and> (ct_CompletedAt r \<noteq> None \<longleftrightarrow> cu_Category x = ''done'')"
proof -
  from once_success [OF m t] obtain t1 v1 changed s1 t2 s2 where
    j: "judge_move rules env i t (counts_of s u) (fst g s) = (Inr (t1, v1, changed), s1)" and
    p: "prepareTransitionAssignee env t1 (ct_StatusID t) (mi_AssigneeID i) (mi_AssigneeType i) changed s1 = (Inr t2, s2)" and
    w: "write_move env i t t2 v1 changed (snd g s2) = (None, s')" by metis
  from judged_change [OF j q] obtain x adv where x: "get_status (fst g s) q = Some x" "cu_ProjectID x = ct_ProjectID t" and
    mg: "move_gates rules env (with_alarm i t) (counts_of s u) (ct_Version t) x (fst g s) = (Inr (v1, adv), s1)" and
    t1: "t1 = entered env x (with_alarm i t)" and c: "changed" by metis
  have u: "ct_ID t = u" using t GetByID_in unfolding task_GetByID_def by blast
  have ID: "ct_ID (with_alarm i t) = u" "ct_ID t1 = u" using u by (simp_all add: t1 entered_def)
  have t2: "ct_ID t2 = u" "ct_StatusID t2 = q" "ct_CompletedAt t2 \<noteq> None \<longleftrightarrow> cu_Category x = ''done''"
    using prepare_rows(2) [OF p, of t2] status_id [OF x(1)] by (simp_all add: t1 entered_def u)
  obtain k1 where k1: "rows u k1 (fst g s) s1"
    "v1 = ct_Version t \<or> (\<exists>m\<le>k1. v1 = ct_Version t + int m \<and> (\<forall>t0. task_GetByID (fst g s) u = Some t0 \<longrightarrow> ct_Version t0 = ct_Version t))"
    using admitted_version [OF mg] unfolding ID by blast
  obtain k2 where "rows u k2 s1 s2" using prepare_rows(1) [OF p] unfolding ID by blast
  with k1(1) have k: "rows u (k2 + k1) (fst g s) s2" by (rule rows_trans)
  note wm = write_move_row [OF w [unfolded c [THEN eqTrueI]], unfolded t2(1)]
  obtain row r where
    row: "task_GetByID (snd g s2) u = Some row" "ct_Version row = v1" and r: "task_GetByID s' u = Some r"
    "same_columns r (moved_row env i v1 (snd g s2) t2 row)"
    and st: "co_Statuses (ms_Board s') = co_Statuses (ms_Board (snd g s2))"
    using wm by blast
  have "v1 = ct_Version t \<or> (\<exists>m\<le>k2 + k1. v1 = ct_Version t + int m \<and> (\<forall>t0. task_GetByID (fst g s) u = Some t0 \<longrightarrow> ct_Version t0 = ct_Version t))"
    using k1(2) trans_le_add2 by blast
  from judged_row [OF g t k this row] have same: "same_columns row t" .
  have "get_status s' q = get_status (snd g s2) q" using st by (simp add: get_status_def status_GetByID_def)
  also have "\<dots> = Some x" by (simp add: versioned_status [OF g(2)] rows_status [OF k] x(1))
  finally have x': "get_status s' q = Some x" .
  note r_sel = same_columns_sel [OF r(2)] and row_sel = same_columns_sel [OF same]
  have gates: "gates_hold env (with_alarm i t) (cu_Category x)"
    using mg by (rule admitted) (rule gates_holdI)
  have "gates_hold env r (cu_Category x)"
    by (rule gates_hold_cong [OF gates]; simp add: r_sel; simp add: moved_row_def transition_row_def row_sel move_transition_def with_alarm_def)
  moreover have "ct_StatusID r = q" "ct_ProjectID r = ct_ProjectID t" "ct_CompletedAt r = ct_CompletedAt t2"
    by (simp_all add: r_sel) (simp_all add: moved_row_def transition_row_def row_sel t2)
  ultimately show ?thesis
    using r(1) x' x(2) t2(3) by (intro exI [of _ r] exI [of _ x]) simp
qed


section \<open>A refused move\<close>

lemma judge_rows:
  assumes "judge_move rules env i t n s = (r, s1)"
  shows "\<exists>k. rows (ct_ID t) k s s1"
proof -
  have "s1 = s \<or> (\<exists>x r'. move_gates rules env (with_alarm i t) n (ct_Version t) x s = (r', s1))"
    using assms by (auto simp: judge_move_def split: option.splits if_splits prod.splits sum.splits)
  then show ?thesis
    using move_gates_rows [of rules env "with_alarm i t" n "ct_Version t" _ s] rows_refl by fastforce
qed

lemma judge_keeps:
  assumes "judge_move rules env i t n s = (Inr (t1, v1, changed), s1)"
  shows "ct_ID t1 = ct_ID t"
  using assms by (auto simp: judge_move_def entered_def split: option.splits if_splits prod.splits sum.splits)

text \<open>Every way an attempt may end, with the steps it took.\<close>

lemma once_cases:
  assumes "moveTaskOnce rules env g u i s = (r, s')" and t: "task_GetByID s u = Some t"
  obtains "s' = s" "r \<noteq> None" "r = Some (taskConflictOf t) \<and> \<not> preconditions_hold i t \<or> explicit_assignee_refusal env t i = r"
  | k e where "rows u k (fst g s) s'" "r = Some e" "judge_move rules env i t (counts_of s u) (fst g s) = (Inl e, s')"
  | t1 v1 changed s1 k k1 e where "judge_move rules env i t (counts_of s u) (fst g s) = (Inr (t1, v1, changed), s1)"
      "prepareTransitionAssignee env t1 (ct_StatusID t) (mi_AssigneeID i) (mi_AssigneeType i) changed s1 = (Inl e, s')"
      "r = Some e" "rows u k (fst g s) s1" "rows u k1 s1 s'"
  | t1 v1 changed s1 t2 s2 k k1 where "preconditions_hold i t"
      "judge_move rules env i t (counts_of s u) (fst g s) = (Inr (t1, v1, changed), s1)"
      "prepareTransitionAssignee env t1 (ct_StatusID t) (mi_AssigneeID i) (mi_AssigneeType i) changed s1 = (Inr t2, s2)"
      "write_move env i t t2 v1 changed (snd g s2) = (r, s')" "ct_ID t2 = u" "rows u k (fst g s) s1" "rows u k1 s1 s2"
proof -
  have u: "ct_ID t = u" using t GetByID_in unfolding task_GetByID_def by blast
  obtain j s1 where j: "judge_move rules env i t (counts_of s u) (fst g s) = (j, s1)" by fastforce
  obtain k where k: "rows u k (fst g s) s1" using judge_rows [OF j] u by blast
  note eq = assms(1) [unfolded moveTaskOnce_def t option.case j prod.case]
  consider "\<not> preconditions_hold i t" | e where "preconditions_hold i t" "explicit_assignee_refusal env t i = Some e"
    | e where "preconditions_hold i t" "explicit_assignee_refusal env t i = None" "j = Inl e"
    | t1 v1 changed where "preconditions_hold i t" "explicit_assignee_refusal env t i = None" "j = Inr (t1, v1, changed)"
    by (cases j) fastforce+
  then show thesis
  proof cases
    case 1
    then show thesis using eq that(1) by auto
  next
    case (2 e)
    then have "r = Some e" "s' = s" using eq by simp_all
    then show thesis using that(1) 2(2) by simp
  next
    case 3
    then show thesis using eq that(2) k j by auto
  next
    case 4
    obtain p s2 where p: "prepareTransitionAssignee env t1 (ct_StatusID t) (mi_AssigneeID i) (mi_AssigneeType i) changed s1 = (p, s2)"
      by fastforce
    have t1: "ct_ID t1 = u" using judge_keeps j 4(3) u by fastforce
    obtain k1 where k1: "rows u k1 s1 s2" using prepare_rows(1) [OF p] t1 by blast
    show thesis
    proof (cases p)
      case (Inl e)
      then have "r = Some e" "s' = s2" using eq 4 p by auto
      then show thesis using that(3) j 4(3) p Inl k k1 by blast
    next
      case (Inr t2)
      then have "write_move env i t t2 v1 changed (snd g s2) = (r, s')" using eq 4 p by auto
      moreover have "ct_ID t2 = u" using prepare_rows(2) [OF p Inr] t1 by simp
      ultimately show thesis using that(4) 4 j p Inr k k1 by blast
    qed
  qed
qed

lemma refused_write: "write_move env i old t v1 changed s = (Some e, s') \<Longrightarrow> ms_Board s' = ms_Board s"
proof -
  assume w: "write_move env i old t v1 changed s = (Some e, s')"
  have "UpdateTransition now x tr b = (Inl f, b') \<Longrightarrow> b' = b" for now x tr b f b'
    by (auto simp: UpdateTransition_def Let_def split: if_splits option.splits)
  then show ?thesis
    using w by (auto simp: write_move_def Let_def split: if_splits option.splits prod.splits sum.splits)
qed

text \<open>C24. A refused move, alone on the store, changes no column of the task but the version, whatever the error: the row is as it
  was, or, when the attempt wrote links or notes, it has a later version and is otherwise as it was, status, assignee, review stash,
  alarm, lease and completion; the stage marker of its checkout stays when it names the row's status, and a marker of another status,
  which the reaper ignores already, is cleared by the trigger.
\<close>

theorem refused_move_keeps_row:
  assumes m: "moveTaskOnce rules env (id, id) u i s = (Some e, s')" and t: "task_GetByID s u = Some t"
  shows "\<exists>r. task_GetByID s' u = Some r
    \<and> (r = t \<or> ct_Version t < ct_Version r
        \<and> r = t\<lparr>ct_Version := ct_Version r,
               ct_StageStatusID := (if ct_StageStatusID t = Some (ct_StatusID t) then ct_StageStatusID t else None)\<rparr>)"
proof -
  have "\<exists>k. rows u k s s'"
    using m t
  proof (rule once_cases, goal_cases)
    case 1
    then show ?case using rows_refl by blast
  next
    case 2
    then show ?case by auto
  next
    case (3 t1 v1 changed s1 k k1)
    then show ?case using rows_trans [of u k s s1 k1 s'] by auto
  next
    case (4 t1 v1 changed s1 t2 s2 k k1)
    have "rows u (k1 + k) s s2" using 4 rows_trans [of u k s s1 k1 s2] by simp
    moreover have "ms_Board s' = ms_Board s2" using refused_write 4(4) by simp
    ultimately show ?case using rows_board by blast
  qed
  then obtain k where r: "task_GetByID s' u = Some ((bump ^^ k) t)" using t unfolding rows_def by auto
  show ?thesis
  proof (cases k)
    case (Suc m)
    then show ?thesis using r by (simp only: bumps_stage) (auto simp: valid_stage_def)
  qed (use r in simp)
qed

section \<open>A reviewer that cannot be found\<close>

text \<open>C40. A move into review fails, at every attempt and whatever else runs, when the reviewer configured for the status cannot be
  resolved: the note about it is written before the guarded write and advances the version that the write expects.
\<close>

theorem unresolved_reviewer_blocks_review:
  assumes g: "versioned u (fst g)" "versioned u (snd g)" and t: "task_GetByID s u = Some t"
    and i: "mi_AssigneeID i = None" "mi_StatusID i = Some q" "q \<noteq> ct_StatusID t"
    and x: "get_status s q = Some x" "cu_Category x = ''review''" and old: "get_status s (ct_StatusID t) = Some old"
    and rules: "on_enter_target (mo_dir env) (ct_ProjectID t) (cu_Name x) = None"
      "GetProjectWorkflowRules (mo_dir env) (ct_ProjectID t) = Some cfg" "set_reviewer cfg (cu_Name old) = Some reviewer"
      "resolveSetReviewer env (ct_ProjectID t) reviewer = Inl err"
  shows "fst (moveTaskOnce rules env g u i s) \<noteq> None"
proof
  assume "fst (moveTaskOnce rules env g u i s) = None"
  then obtain s' where m: "moveTaskOnce rules env g u i s = (None, s')" by (metis prod.collapse)
  from once_success [OF m t] obtain t1 v1 changed s1 t2 s2 where
    j: "judge_move rules env i t (counts_of s u) (fst g s) = (Inr (t1, v1, changed), s1)" and
    p: "prepareTransitionAssignee env t1 (ct_StatusID t) (mi_AssigneeID i) (mi_AssigneeType i) changed s1 = (Inr t2, s2)" and
    w: "write_move env i t t2 v1 changed (snd g s2) = (None, s')" by metis
  have x1: "get_status (fst g s) q = Some x" "get_status (fst g s) (ct_StatusID t) = Some old"
    by (simp_all add: versioned_status [OF g(1)] x old)
  obtain adv where mg: "move_gates rules env (with_alarm i t) (counts_of s u) (ct_Version t) x (fst g s) = (Inr (v1, adv), s1)"
    and t1: "t1 = entered env x (with_alarm i t)" and c: "changed"
    using judged_change [OF j i(2,3)] x1(1) by (metis option.inject)
  have u: "ct_ID t = u" using t GetByID_in unfolding task_GetByID_def by blast
  have ID: "ct_ID (with_alarm i t) = u" "ct_ID t1 = u" "ct_ProjectID t1 = ct_ProjectID t" "ct_StatusID t1 = q"
    using u status_id [OF x(1)] by (simp_all add: t1 entered_def)
  obtain k where k: "rows u k (fst g s) s1"
    "v1 = ct_Version t \<or> (\<exists>m\<le>k. v1 = ct_Version t + int m \<and> (\<forall>t0. task_GetByID (fst g s) u = Some t0 \<longrightarrow> ct_Version t0 = ct_Version t))"
    using admitted_version [OF mg] unfolding ID by blast
  have st: "get_status s1 q = Some x" "get_status s1 (ct_StatusID t) = Some old"
    using x1 by (simp_all add: rows_status [OF k(1)])
  define t3 where "t3 = (if changed \<and> entering_review s1 (ct_StatusID t) (ct_StatusID t1) then t1\<lparr>ct_PreReviewRestore := False\<rparr> else t1)"
  have t3: "ct_ID t3 = u" "ct_ProjectID t3 = ct_ProjectID t" "ct_StatusID t3 = q" by (simp_all add: t3_def ID)
  have "prepareTransitionAssigneeRoute env t3 (ct_StatusID t) None (mi_AssigneeType i) True s1
        = (Inr t3, postReviewerNotAssignedComment env t3 reviewer s1)"
    unfolding prepareTransitionAssigneeRoute_def
    by (simp add: t3 st applyOnEnterAssignee_def rules x(2) review_assignee_def resolveReviewTarget_def)
  then have "s2 = postReviewerNotAssignedComment env t3 reviewer s1"
    using p c unfolding prepareTransitionAssignee_def Let_def t3_def [symmetric] i(1) by (auto split: if_splits)
  then have k2: "rows u (1 + k) (fst g s) s2"
    using rows_trans [OF k(1)] note_rows [of t3 s1 env reviewer] unfolding t3(1) by blast
  have "ct_ID t2 = u" using prepare_rows(2) [OF p, of t2] ID(2) by simp
  then obtain row where row: "task_GetByID (snd g s2) u = Some row" "ct_Version row = v1"
    using write_move_row [OF w [unfolded c [THEN eqTrueI]]] by auto
  obtain r2 where r2: "task_GetByID s2 u = Some r2" "row = r2 \<or> ct_Version r2 < ct_Version row"
    using versioned_row [OF g(2) row(1)] by blast
  obtain r1 where r1: "task_GetByID (fst g s) u = Some r1" "r2 = (bump ^^ (1 + k)) r1"
    using r2(1) k2 unfolding rows_def by auto
  have le: "r1 = t \<or> ct_Version t < ct_Version r1"
    using versioned_row [OF g(1) r1(1)] t by (metis option.inject)
  have v2: "ct_Version r2 = ct_Version r1 + int (1 + k)"
    unfolding r1(2) bumps_version ..
  show False
    using k(2) le r2(2) v2 row(2) r1(1) by auto
qed


section \<open>Attempts\<close>

text \<open>No gate and no assignee answers with a conflict: only the write does.\<close>

definition no_conflict :: "move_error option \<Rightarrow> bool" where
  "no_conflict e \<longleftrightarrow> (\<forall>f. e \<noteq> Some (WriteRefused f))"

lemma no_conflict_simps [simp]: "no_conflict None" "no_conflict (Some e) \<longleftrightarrow> (\<forall>f. e \<noteq> WriteRefused f)"
  by (simp_all add: no_conflict_def)

lemma no_conflict_refuse [simp]: "\<forall>f. e \<noteq> WriteRefused f \<Longrightarrow> no_conflict (refuse_if b e)"
  by (simp add: refuse_if_def)

lemma no_conflict_first [simp]: "\<forall>r\<in>set rs. no_conflict r \<Longrightarrow> no_conflict (first_refusal rs)"
  by (induction rs) (auto split: option.split)

lemma row_gates_no_conflict: "no_conflict (row_gates env t c)"
proof -
  have "no_conflict (supervised_gate env t c)" "no_conflict (human_gate env t c)" "no_conflict (shipped_gate t c)" "no_conflict (park_gate env t c)"
    by (simp_all add: supervised_gate_def human_gate_def shipped_gate_def park_gate_def no_conflict_def refuse_if_def)
  then show ?thesis unfolding row_gates_def by (intro no_conflict_first) simp
qed

lemma other_gates_no_conflict:
  "no_conflict (gate_refusal mode v diag)" "no_conflict (review_gate env s t n c)" "no_conflict (triage_gate env t c)"
  "no_conflict (dod_gate env t c)" "no_conflict (rules_gate rules env s t c)"
  by (auto simp: gate_refusal_def review_gate_def triage_gate_def dod_gate_def rules_gate_def Let_def refuse_if_def no_conflict_def
    split: option.splits prod.splits)

lemma quiet_done: "c \<noteq> ''done'' \<Longrightarrow> done_gate env t n c s = (None, s)"
  by (simp add: done_gate_def)

lemma gates_no_conflict:
  assumes "move_gates rules env t n v x s = (Inl e, s')" and "cu_Category x \<noteq> ''done''"
  shows "no_conflict (Some e)"
proof -
  obtain mode adv diag w s1 where g: "applyTransitionGate env t (ct_StatusID t) x s = ((mode, adv, diag), w, s1)"
    by (metis prod_cases3)
  define r1 where "r1 = row_gates env t (cu_Category x)"
  define r2 where "r2 = gate_refusal mode adv diag"
  define r3 where "r3 = first_refusal [review_gate env s1 t n (cu_Category x), triage_gate env t (cu_Category x)]"
  define r4 where "r4 = first_refusal [dod_gate env t (cu_Category x), rules_gate rules env s1 t (cu_Category x)]"
  have "no_conflict r1" "no_conflict r2" "no_conflict r3" "no_conflict r4"
    unfolding r1_def r2_def r3_def r4_def
    by (rule row_gates_no_conflict other_gates_no_conflict no_conflict_first; simp add: other_gates_no_conflict)+
  moreover have "Some e \<in> {r1, r2, r3, r4}"
    using assms(1) unfolding move_gates_def Let_def g prod.case quiet_done [OF assms(2)] r1_def [symmetric] r2_def [symmetric]
      r3_def [symmetric] r4_def [symmetric]
    by (auto split: option.splits)
  ultimately show ?thesis by auto
qed

lemma assignee_no_conflict:
  "no_conflict (assertAssigneeInProjectWorkspace d p a kind)" "no_conflict (assignee_refusal d p a kind)"
proof -
  show 1: "no_conflict (assertAssigneeInProjectWorkspace d p a kind)" for a
    by (auto simp: assertAssigneeInProjectWorkspace_def no_conflict_def split: option.splits)
  have "no_conflict (assertAssigneeIsTyped a kind)" "no_conflict (assertAssigneeAcceptsAssignments d a kind)"
    by (auto simp: assertAssigneeIsTyped_def assertAssigneeAcceptsAssignments_def split: option.splits)
  then show "no_conflict (assignee_refusal d p a kind)"
    unfolding assignee_refusal_def by (intro no_conflict_first) (simp add: 1)
qed

lemma ensure_answer:
  "fst (ensureAssigneeProjectMember d p a kind s) = (if a = None then None else assignee_refusal d p a kind)"
  by (simp add: ensureAssigneeProjectMember_def split: option.split)

lemma ensure_no_conflict: "no_conflict (fst (ensureAssigneeProjectMember d p a kind s))"
  unfolding ensure_answer using assignee_no_conflict(2) [of d p a kind] by simp

lemma quiet_prepare:
  assumes "prepareTransitionAssignee env t old_id wanted kind changed s = (r, s')"
    and "\<And>x. changed \<Longrightarrow> wanted = None \<Longrightarrow> get_status s (ct_StatusID t) = Some x \<Longrightarrow> cu_Category x \<noteq> ''review''"
  shows "ms_Board s' = ms_Board s" and "r = Inl e \<Longrightarrow> no_conflict (Some e)"
proof -
  define t1 where "t1 = (if changed \<and> entering_review s old_id (ct_StatusID t) then t\<lparr>ct_PreReviewRestore := False\<rparr> else t)"
  have t1: "ct_StatusID t1 = ct_StatusID t" "ct_ProjectID t1 = ct_ProjectID t" by (simp_all add: t1_def)
  obtain r1 s1 where e: "prepareTransitionAssigneeRoute env t1 old_id wanted kind changed s = (r1, s1)" by fastforce
  have s1: "s' = s1" and r: "\<And>e. r = Inl e \<Longrightarrow> r1 = Inl e"
    using assms(1) unfolding prepareTransitionAssignee_def Let_def t1_def [symmetric] e by (auto split: sum.splits if_splits)
  have "ms_Board s1 = ms_Board s \<and> (\<forall>e. r1 = Inl e \<longrightarrow> no_conflict (Some e))"
  proof (cases wanted)
    case (Some v)
    define k where "k = resolveAssigneeType (mo_dir env) wanted kind"
    obtain x s2 where x: "ensureAssigneeProjectMember (mo_dir env) (ct_ProjectID t1) wanted k s = (x, s2)" by fastforce
    have "no_conflict x" "ms_Board s2 = ms_Board s"
      using ensure_no_conflict [of "mo_dir env" "ct_ProjectID t1" wanted k s] ensure_board [of "mo_dir env" "ct_ProjectID t1" wanted k s]
      unfolding x by simp_all
    then show ?thesis
      using e x unfolding prepareTransitionAssigneeRoute_def Let_def Some k_def by (auto split: option.splits)
  next
    case None
    have q: "cu_Category x \<noteq> ''review''" if "changed" "get_status s (ct_StatusID t1) = Some x" for x
      using assms(2) None that t1 by simp
    have res: "ms_Board s2 = ms_Board s0 \<and> (\<forall>e. r2 = Inl e \<longrightarrow> no_conflict (Some e))"
      if "restored_assignee env t1 k s0 = (r2, s2)" for k s0 r2 s2
      using that ensure_no_conflict [of "mo_dir env" "ct_ProjectID t1" "ct_PreReviewAssigneeID t1" k s0] restored_rows(1) [OF that]
      by (auto simp: restored_assignee_def split: option.splits prod.splits if_splits)
    show ?thesis
    proof (cases "changed \<and> get_status s (ct_StatusID t1) \<noteq> None \<and> get_status s old_id \<noteq> None")
      case False
      then show ?thesis
        using e unfolding prepareTransitionAssigneeRoute_def None by (auto split: option.splits if_splits)
    next
      case True
      then obtain x old where st: "get_status s (ct_StatusID t1) = Some x" "get_status s old_id = Some old" "changed" by blast
      obtain o1 s2 where o: "applyOnEnterAssignee env t1 x s = (o1, s2)" by fastforce
      have b: "ms_Board s2 = ms_Board s" by (rule on_enter_board(1) [OF o])
      have "(r1, s1) = (Inr t1, s2) \<or> (\<exists>y. (r1, s1) = (Inr y, s2)) \<or> (\<exists>k. restored_assignee env t1 k s2 = (r1, s1))"
        using e st(3) q [OF st(3,1)] unfolding prepareTransitionAssigneeRoute_def None option.case st prod.case o
        by (auto split: option.splits if_splits)
      then show ?thesis using res b by fastforce
    qed
  qed
  then show "ms_Board s' = ms_Board s" "r = Inl e \<Longrightarrow> no_conflict (Some e)" using s1 r by auto
qed


lemma update_statuses: "UpdateTransition now x tr b = (r, b') \<Longrightarrow> co_Statuses b' = co_Statuses b"
  by (auto simp: UpdateTransition_def Let_def update_tasks_def split: if_splits option.splits)

lemma write_statuses:
  assumes "write_move env i old t v1 changed s = (r, s')"
  shows "co_Statuses (ms_Board s') = co_Statuses (ms_Board s)"
proof -
  define tr where "tr = move_transition i v1 changed (auto_released s t changed)"
  obtain x b where w: "UpdateTransition (mo_db_now env) (t\<lparr>ct_UpdatedAt := mo_now env\<rparr>) tr (ms_Board s) = (x, b)" by fastforce
  have posted: "co_Statuses (ms_Board (postAssigneeChangeComment env u a c s0)) = co_Statuses (ms_Board s0)" for u a c s0
    by (simp add: postAssigneeChangeComment_def create_comment_def touch_task_def)
  have "s' = s \<or> s' = s\<lparr>ms_Board := b\<rparr> \<or> (\<exists>u a c. s' = postAssigneeChangeComment env u a c (s\<lparr>ms_Board := b\<rparr>))"
    using assms w unfolding write_move_def Let_def tr_def by (auto split: if_splits option.splits sum.splits)
  then show ?thesis using update_statuses [OF w] posted by auto
qed

lemma once_statuses:
  assumes g: "versioned u (fst g)" "versioned u (snd g)" and m: "moveTaskOnce rules env g u i s = (r, s')"
  shows "co_Statuses (ms_Board s') = co_Statuses (ms_Board s)"
proof (cases "task_GetByID s u")
  case None
  then show ?thesis using m by (simp add: moveTaskOnce_def)
next
  case (Some t)
  have g1: "co_Statuses (ms_Board (fst g s)) = co_Statuses (ms_Board s)" and
    g2: "co_Statuses (ms_Board (snd g s2)) = co_Statuses (ms_Board s2)" for s2
    using g by (simp_all add: versioned_def)
  from m Some show ?thesis
  proof (rule once_cases, goal_cases)
    case (4 t1 v1 changed s1 t2 s2 k k1)
    then show ?case using write_statuses [OF 4(4)] g1 g2 by (simp add: rows_def)
  qed (auto simp: rows_def g1)
qed

text \<open>A write without preconditions, under the version its row has, goes through.\<close>

lemma implicit_write:
  assumes "implicit_caller i" and "task_GetByID s (ct_ID t) = Some row" "ct_Version row = v1"
  shows "fst (write_move env i old t v1 changed s) = None"
proof -
  define tr where "tr = move_transition i v1 changed (auto_released s t changed)"
  have i: "\<not> has_preconditions i" "mi_Reaper i = None" "mi_Source i \<noteq> ''auto_transition''"
    "mi_ExpectedStatusID i = None" "mi_ExpectedUpdatedAt i = None" "mi_ExpectedAssigneeID i = None"
    using assms(1) by (simp_all add: implicit_caller_def has_preconditions_def)
  have "sql_true (transition_guard now b tr row)" for now b
    by (simp add: transition_guard_def tr_def move_transition_def i assms(3) sql_true_def sql_and_def sql_or_def)
  then obtain r b where "UpdateTransition (mo_db_now env) (t\<lparr>ct_UpdatedAt := mo_now env\<rparr>) tr (ms_Board s) = (Inr r, b)"
    using assms(2) by (simp add: UpdateTransition_def Let_def task_GetByID_def) (simp add: tr_def move_transition_def i)
  then show ?thesis
    by (simp add: write_move_def Let_def tr_def i)
qed

lemma conflict_cases: "no_conflict e \<Longrightarrow> \<not> is_conflict e"
  by (auto simp: is_conflict_def no_conflict_def split: option.splits move_error.splits transition_error.splits)

lemma idle_gates_version:
  assumes "move_gates rules env t n (ct_Version t) x s = (Inr (v1, adv), s')" and "cu_Category x \<noteq> ''done''"
    and "task_GetByID s (ct_ID t) = Some t0" "ct_Version t0 = ct_Version t"
    and sel: "ct_StatusID t = ct_StatusID t0" "ct_UpdatedAt t = ct_UpdatedAt t0" "ct_AssigneeID t = ct_AssigneeID t0"
  shows "\<exists>row. task_GetByID s' (ct_ID t) = Some row \<and> ct_Version row = v1"
  using assms(1)
proof (rule admitted, goal_cases)
  case (1 mode diag w s1)
  have s': "s' = s1" using 1(7) quiet_done [OF assms(2)] by simp
  have row: "task_GetByID s1 (ct_ID t) = Some ((bump ^^ w) t0)"
    using gate_rows [OF 1(2)] assms(3) by (simp add: rows_def)
  have "v1 = ct_Version t + int w"
    using 1(4) row same_columns_sel [OF bumps_columns [of w t0]]
    by (auto simp: rebaseVersionAfterChildWrite_def bumps_version assms(4) sel)
  then show ?case using row s' by (simp add: bumps_version assms(4))
qed


lemma judge_target:
  assumes "judge_move rules env i t n s = (Inr (t1, v1, changed), s1)" and "changed"
  shows "mi_StatusID i = Some (ct_StatusID t1)"
  using assms by (auto simp: judge_move_def entered_def dest!: status_id split: option.splits if_splits prod.splits sum.splits)

lemma judge_error_no_conflict:
  assumes "judge_move rules env i t n s = (Inl e, s1)"
    and "\<And>x q. mi_StatusID i = Some q \<Longrightarrow> get_status s q = Some x \<Longrightarrow> cu_Category x \<noteq> ''done''"
  shows "no_conflict (Some e)"
  using assms gates_no_conflict
  by (fastforce simp: judge_move_def split: option.splits if_splits prod.splits sum.splits)

lemma judge_idle_version:
  assumes j: "judge_move rules env i t n s = (Inr (t1, v1, changed), s1)" and t: "task_GetByID s (ct_ID t) = Some t"
    and c: "\<And>x q. mi_StatusID i = Some q \<Longrightarrow> get_status s q = Some x \<Longrightarrow> cu_Category x \<noteq> ''done''"
  shows "\<exists>row. task_GetByID s1 (ct_ID t) = Some row \<and> ct_Version row = v1"
proof (cases "\<exists>q. mi_StatusID i = Some q \<and> q \<noteq> ct_StatusID t")
  case True
  then obtain q where q: "mi_StatusID i = Some q" "q \<noteq> ct_StatusID t" by blast
  from judged_change [OF j q] obtain x adv where x: "get_status s q = Some x" and
    mg: "move_gates rules env (with_alarm i t) n (ct_Version (with_alarm i t)) x s = (Inr (v1, adv), s1)"
    by (metis with_alarm_sel(2))
  have sel: "ct_StatusID (with_alarm i t) = ct_StatusID t" "ct_UpdatedAt (with_alarm i t) = ct_UpdatedAt t"
    "ct_AssigneeID (with_alarm i t) = ct_AssigneeID t" by (simp_all add: with_alarm_def)
  show ?thesis
    using idle_gates_version [OF mg c [OF q(1) x] _ _ sel] t by simp
next
  case False
  then have "s1 = s" "v1 = ct_Version t"
    using j by (auto simp: judge_move_def split: option.splits if_splits)
  then show ?thesis using t by simp
qed

lemma idle_attempt_no_conflict:
  assumes i: "implicit_caller i" and m: "moveTaskOnce rules env (id, id) u i s = (r, s')"
    and c: "\<And>x q. mi_StatusID i = Some q \<Longrightarrow> get_status s q = Some x \<Longrightarrow> cu_Category x \<notin> {''review'', ''done''}"
  shows "\<not> is_conflict r"
proof (cases "task_GetByID s u")
  case None
  then show ?thesis using m by (auto simp: moveTaskOnce_def is_conflict_def)
next
  case (Some t)
  have u: "ct_ID t = u" using Some GetByID_in unfolding task_GetByID_def by blast
  have pre: "preconditions_hold i t"
    using i by (simp add: implicit_caller_def has_preconditions_def preconditions_hold_def expects_def)
  have done_free: "cu_Category x \<noteq> ''done''" if "mi_StatusID i = Some q" "get_status s q = Some x" for x q
    using c [OF that] by simp
  from m Some show ?thesis
  proof (rule once_cases, goal_cases)
    case 1
    then have "explicit_assignee_refusal env t i = r" using pre by blast
    then show ?case
      using assignee_no_conflict(1) by (intro conflict_cases) (auto simp: explicit_assignee_refusal_def split: option.splits)
  next
    case (2 k e)
    then have "no_conflict (Some e)" using done_free by (intro judge_error_no_conflict) auto
    then show ?case using 2 conflict_cases by simp
  next
    case (3 t1 v1 changed s1 k k1 e)
    have "no_conflict (Some e)"
    proof (rule quiet_prepare(2) [OF 3(2) _ refl], goal_cases)
      case (1 x)
      then have "mi_StatusID i = Some (ct_StatusID t1)" "get_status s (ct_StatusID t1) = Some x"
        using judge_target [OF 3(1) [unfolded fst_conv id_apply]] rows_status [OF 3(4)] by simp_all
      then show ?case using c by auto
    qed
    then show ?case using 3 conflict_cases by simp
  next
    case (4 t1 v1 changed s1 t2 s2 k k1)
    have "ms_Board s2 = ms_Board s1"
    proof (rule quiet_prepare(1) [OF 4(3)], goal_cases)
      case (1 x)
      then have "mi_StatusID i = Some (ct_StatusID t1)" "get_status s (ct_StatusID t1) = Some x"
        using judge_target [OF 4(2) [unfolded fst_conv id_apply]] rows_status [OF 4(6)] by simp_all
      then show ?case using c by auto
    qed
    moreover obtain row where "task_GetByID s1 u = Some row" "ct_Version row = v1"
      using judge_idle_version [OF 4(2) [unfolded fst_conv id_apply]] Some u done_free by auto
    ultimately have "fst (write_move env i t t2 v1 changed s2) = None"
      using 4(5) by (intro implicit_write [OF i]) (auto simp: task_GetByID_def)
    then show ?case using 4(4) by (simp add: is_conflict_def)
  qed
qed

text \<open>C17. A caller that states no precondition is not turned away by the writes of others: a move to a status other than review and
  done never ends in a conflict when one attempt, the last, runs undisturbed. Three attempts absorb two disturbances.
\<close>

theorem implicit_move_never_conflicts:
  assumes i: "implicit_caller i" and last: "gaps 2 = (id, id)"
    and g: "\<And>k. versioned u (fst (gaps k)) \<and> versioned u (snd (gaps k))"
    and c: "\<And>x q. mi_StatusID i = Some q \<Longrightarrow> get_status s q = Some x \<Longrightarrow> cu_Category x \<notin> {''review'', ''done''}"
  shows "\<not> is_conflict (fst (MoveTask rules env gaps u i s))"
proof -
  define once where "once k = moveTaskOnce rules env (gaps k) u i" for k
  have "\<not> is_conflict (fst (move_attempts once n k s1))"
    if "k + n = 2" "co_Statuses (ms_Board s1) = co_Statuses (ms_Board s)" for n k s1
    using that
  proof (induction n arbitrary: k s1)
    case 0
    then have gk: "gaps k = (id, id)" using last by simp
    have st: "get_status s1 q = get_status s q" for q using 0 by (simp add: get_status_def status_GetByID_def)
    show ?case
      unfolding move_attempts.simps once_def gk
      by (rule idle_attempt_no_conflict [OF i prod.collapse [symmetric]]) (rule c, assumption, simp add: st)
  next
    case (Suc n)
    obtain r s2 where o: "once k s1 = (r, s2)" by fastforce
    have "co_Statuses (ms_Board s2) = co_Statuses (ms_Board s1)"
      using once_statuses g o unfolding once_def by blast
    then show ?case using Suc by (simp add: o)
  qed
  from this [of 0 2 s] show ?thesis
    using i unfolding MoveTask_def once_def by simp
qed

end
