(* ===== verification/Move_Assignee.thy ===== *)
theory Move_Assignee
  imports Move_Safety
begin

text \<open>
  What a move promises about its assignee and about the evidence it asks for: nobody outside the project's workspace is assigned,
  a review that was handed over comes back to its author, work is done only with proof, and the proof of an author is confirmed.
\<close>

section \<open>Assignees stay in the workspace\<close>

definition assignable :: "directory \<Rightarrow> uuid \<Rightarrow> uuid \<Rightarrow> string \<Rightarrow> bool" where
  "assignable d project u kind \<longleftrightarrow>
     (\<exists>ws. project_workspace d project = Some ws
       \<and> (kind = ''agent'' \<and> (\<exists>a. agent_GetByID d u = Some a \<and> \<not> acceptsFromRefusesAll (ag_AcceptsFrom a)
             \<and> (ag_WorkspaceID a = ws \<or> (\<exists>g. grant_GetByAgentAndWorkspace d u ws = Some g \<and> \<not> gr_Revoked g)))
          \<or> kind = ''user'' \<and> IsWorkspaceMember d ws u))"

lemma assignee_refusal_iff:
  assumes "u \<noteq> uuid_Nil"
  shows "assignee_refusal d project (Some u) kind = None \<longleftrightarrow> assignable d project u kind"
proof -
  have 1: "assertAssigneeIsTyped (Some u) kind = None \<longleftrightarrow> kind = ''agent'' \<or> kind = ''user''"
    using assms by (auto simp: assertAssigneeIsTyped_def)
  have 2: "agent_refusal d ws u = None \<longleftrightarrow>
      (\<exists>a. agent_GetByID d u = Some a \<and> (ag_WorkspaceID a = ws \<or> (\<exists>g. grant_GetByAgentAndWorkspace d u ws = Some g \<and> \<not> gr_Revoked g)))" for ws
    by (auto simp: agent_refusal_def split: option.splits)
  have 3: "assertAssigneeInProjectWorkspace d project (Some u) ''agent'' = None \<longleftrightarrow> (\<exists>ws. project_workspace d project = Some ws \<and> agent_refusal d ws u = None)"
    "assertAssigneeInProjectWorkspace d project (Some u) ''user'' = None \<longleftrightarrow> (\<exists>ws. project_workspace d project = Some ws \<and> IsWorkspaceMember d ws u)"
    using assms by (auto simp: assertAssigneeInProjectWorkspace_def split: option.splits)
  have 4: "assertAssigneeAcceptsAssignments d (Some u) ''user'' = None"
    "assertAssigneeAcceptsAssignments d (Some u) ''agent'' = None \<longleftrightarrow> (\<forall>a. agent_GetByID d u = Some a \<longrightarrow> \<not> acceptsFromRefusesAll (ag_AcceptsFrom a))"
    using assms by (auto simp: assertAssigneeAcceptsAssignments_def split: option.splits)
  have all: "assignee_refusal d project (Some u) kind = None \<longleftrightarrow> assertAssigneeIsTyped (Some u) kind = None
      \<and> assertAssigneeInProjectWorkspace d project (Some u) kind = None \<and> assertAssigneeAcceptsAssignments d (Some u) kind = None"
    unfolding assignee_refusal_def by (simp del: first_refusal.simps)
  consider "kind = ''agent''" | "kind = ''user''" | "kind \<noteq> ''agent''" "kind \<noteq> ''user''" by blast
  then show ?thesis
  proof cases
    case 1
    show ?thesis unfolding all unfolding assignable_def 1 3(1) 4(2) 2 by (auto simp: assertAssigneeIsTyped_def)
  next
    case 2
    show ?thesis unfolding all unfolding assignable_def 2 3(2) 4(1) by (auto simp: assertAssigneeIsTyped_def)
  next
    case 3
    then show ?thesis unfolding all unfolding assignable_def 1 by simp
  qed
qed

text \<open>Whoever is assigned is enrolled in the project, when the directory knows them.\<close>

definition enrolled :: "directory \<Rightarrow> uuid \<Rightarrow> uuid \<Rightarrow> string \<Rightarrow> move_store \<Rightarrow> bool" where
  "enrolled d project u kind s \<longleftrightarrow>
     (if kind = ''agent'' then (project, u, True) \<in> set (ms_Members s)
      else user_GetByID d u = None \<or> (project, u, False) \<in> set (ms_Members s))"

lemma ensured:
  assumes "ensureAssigneeProjectMember d project (Some u) kind s = (None, s')" "u \<noteq> uuid_Nil"
  shows "assignable d project u kind" and "enrolled d project u kind s'"
proof -
  have r: "assignee_refusal d project (Some u) kind = None"
    using assms(1) by (cases "assignee_refusal d project (Some u) kind") (auto simp: ensureAssigneeProjectMember_def)
  show a: "assignable d project u kind" using r assignee_refusal_iff [OF assms(2)] by blast
  have s': "s' = (if kind = ''agent'' then ensureAgentProjectMember d project u s
                 else if kind = ''user'' then ensureUserProjectMember d project u s else s)"
    using assms(1) r by (simp add: ensureAssigneeProjectMember_def)
  from a consider "kind = ''agent''" "agent_GetByID d u \<noteq> None" | "kind = ''user''" by (auto simp: assignable_def)
  then show "enrolled d project u kind s'"
    using assms(2) by cases (auto simp: s' enrolled_def ensureAgentProjectMember_def ensureUserProjectMember_def enroll_def)
qed

definition reassigned_well :: "directory \<Rightarrow> checkout_task \<Rightarrow> checkout_task \<Rightarrow> move_store \<Rightarrow> bool" where
  "reassigned_well d t t2 s \<longleftrightarrow>
     (\<forall>u. ct_AssigneeID t2 = Some u \<and> u \<noteq> uuid_Nil \<and> (ct_AssigneeID t2 \<noteq> ct_AssigneeID t \<or> ct_AssigneeType t2 \<noteq> ct_AssigneeType t) \<longrightarrow>
        assignable d (ct_ProjectID t) u (ct_AssigneeType t2) \<and> enrolled d (ct_ProjectID t) u (ct_AssigneeType t2) s)"

lemma reassigned_well_same: "ct_AssigneeID t2 = ct_AssigneeID t \<Longrightarrow> ct_AssigneeType t2 = ct_AssigneeType t \<Longrightarrow> reassigned_well d t t2 s"
  by (simp add: reassigned_well_def)

lemma reassigned_well_ensured:
  assumes "ensureAssigneeProjectMember d (ct_ProjectID t) a kind s = (None, s')"
    and "ct_AssigneeID t2 = a" "ct_AssigneeType t2 = kind"
  shows "reassigned_well d t t2 s'"
  using ensured assms by (auto simp: reassigned_well_def)

lemma on_enter_well:
  assumes "applyOnEnterAssignee env t x s = (Some t2, s')"
  shows "reassigned_well (mo_dir env) t t2 s'"
proof -
  obtain target where target: "on_enter_target (mo_dir env) (ct_ProjectID t) (cu_Name x) = Some target"
    using assms by (cases "on_enter_target (mo_dir env) (ct_ProjectID t) (cu_Name x)") (auto simp: applyOnEnterAssignee_def)
  show ?thesis
  proof (cases "t2 = t")
    case False
    then obtain u kind where u: "resolveOnEnterTarget env (ct_ProjectID t) target = Some (u, kind)"
      using assms target by (cases "resolveOnEnterTarget env (ct_ProjectID t) target") (auto simp: applyOnEnterAssignee_def)
    then have "ensureAssigneeProjectMember (mo_dir env) (ct_ProjectID t) (Some u) kind s = (None, s')"
      "t2 = assign (Some u) kind (if cu_Category x = ''review'' then stash_assignee t else t)"
      using assms target False by (auto simp: applyOnEnterAssignee_def split: if_splits prod.splits option.splits)
    then show ?thesis by (intro reassigned_well_ensured) (simp_all add: assign_def)
  qed (simp add: reassigned_well_same)
qed

lemma review_well:
  assumes "review_assignee env t old s = (Inr t2, s')"
  shows "reassigned_well (mo_dir env) t t2 s'"
proof (cases "t2 = t")
  case False
  obtain a s1 where a: "resolveReviewTarget env t old s = (a, s1)" by fastforce
  then obtain u where u: "a = Some u" using assms False by (cases a) (auto simp: review_assignee_def)
  then have "ensureAssigneeProjectMember (mo_dir env) (ct_ProjectID t) (Some u) ''agent'' s1 = (None, s')"
    "t2 = assign (Some u) ''agent'' (stash_assignee t)"
    using assms a False by (auto simp: review_assignee_def split: if_splits prod.splits option.splits)
  then show ?thesis by (intro reassigned_well_ensured) (simp_all add: assign_def)
qed (simp add: reassigned_well_same)

lemma restored_well:
  assumes "restored_assignee env t kind s = (Inr t2, s')"
  shows "reassigned_well (mo_dir env) t t2 s'"
proof (cases "t2 = t")
  case False
  then have "ensureAssigneeProjectMember (mo_dir env) (ct_ProjectID t) (ct_PreReviewAssigneeID t) kind s = (None, s')"
    "ct_AssigneeID t2 = ct_PreReviewAssigneeID t" "ct_AssigneeType t2 = kind"
    using assms by (auto simp: restored_assignee_def assign_def split: if_splits prod.splits option.splits)
  then show ?thesis by (rule reassigned_well_ensured)
qed (simp add: reassigned_well_same)

text \<open>The ways an assignee is computed, one for each branch of the route.\<close>

lemma route_cases:
  assumes "prepareTransitionAssigneeRoute env t old_id wanted kind changed s = (Inr t2, s')"
  obtains k where "wanted \<noteq> None" "k = resolveAssigneeType (mo_dir env) wanted kind"
      "ensureAssigneeProjectMember (mo_dir env) (ct_ProjectID t) wanted k s = (None, s')" "t2 = assign wanted k t"
  | "wanted = None" "t2 = t"
  | x where "wanted = None" "get_status s (ct_StatusID t) = Some x" "applyOnEnterAssignee env t x s = (Some t2, s')"
  | x old s1 where "wanted = None" "get_status s (ct_StatusID t) = Some x" "get_status s old_id = Some old" "cu_Category x = ''review''"
      "applyOnEnterAssignee env t x s = (None, s1)" "review_assignee env t old s1 = (Inr t2, s')"
  | x old s1 k where "wanted = None" "get_status s (ct_StatusID t) = Some x" "get_status s old_id = Some old"
      "cu_Category old = ''review''" "cu_Category x \<in> {''todo'', ''in_progress''}" "ct_PreReviewRestore t" "ct_PreReviewAssigneeType t = Some k"
      "applyOnEnterAssignee env t x s = (None, s1)" "restored_assignee env t k s1 = (Inr t2, s')"
proof (cases wanted)
  case (Some u)
  obtain e s1 where e: "ensureAssigneeProjectMember (mo_dir env) (ct_ProjectID t) wanted (resolveAssigneeType (mo_dir env) wanted kind) s = (e, s1)"
    by fastforce
  then have "e = None" "s' = s1" "t2 = assign wanted (resolveAssigneeType (mo_dir env) wanted kind) t"
    using assms unfolding prepareTransitionAssigneeRoute_def Let_def Some by (auto split: option.splits)
  then show thesis using that(1) e Some by simp
next
  case None
  show thesis
  proof (cases "t2 = t")
    case True
    then show thesis using that(2) None by simp
  next
    case False
    have "changed"
      by (rule ccontr) (use assms None False in \<open>simp add: prepareTransitionAssigneeRoute_def\<close>)
    obtain x where x: "get_status s (ct_StatusID t) = Some x"
      using assms None \<open>changed\<close> by (cases "get_status s (ct_StatusID t)") (auto simp: prepareTransitionAssigneeRoute_def)
    obtain old where old: "get_status s old_id = Some old"
      using assms None \<open>changed\<close> x False by (cases "get_status s old_id") (auto simp: prepareTransitionAssigneeRoute_def)
    obtain a s1 where a: "applyOnEnterAssignee env t x s = (a, s1)" by fastforce
    note eq = assms [unfolded prepareTransitionAssigneeRoute_def None option.case x old prod.case a]
    show thesis
    proof (cases a)
      case (Some t1)
      then show thesis using that(3) eq \<open>changed\<close> None x a by simp
    next
      case n: None
      show thesis
      proof (cases "cu_Category x = ''review''")
        case True
        then have "review_assignee env t old s1 = (Inr t2, s')" using eq \<open>changed\<close> n by simp
        then show thesis using that(4) None x old True a n by blast
      next
        case nr: False
        obtain k where k: "ct_PreReviewAssigneeType t = Some k"
          using eq \<open>changed\<close> n nr False by (cases "ct_PreReviewAssigneeType t") auto
        then have c: "cu_Category old = ''review'' \<and> cu_Category x \<in> {''todo'', ''in_progress''} \<and> ct_PreReviewRestore t"
          using eq \<open>changed\<close> n nr False by (auto split: if_splits)
        then have "restored_assignee env t k s1 = (Inr t2, s')" using eq \<open>changed\<close> n nr k by simp
        then show thesis using that(5) None x old c k a n by blast
      qed
    qed
  qed
qed

lemma prepare_route:
  assumes "prepareTransitionAssignee env t old_id wanted kind changed s = (Inr t2, s')"
  obtains t1 t3 where "t1 = (if changed \<and> entering_review s old_id (ct_StatusID t) then t\<lparr>ct_PreReviewRestore := False\<rparr> else t)"
    "prepareTransitionAssigneeRoute env t1 old_id wanted kind changed s = (Inr t3, s')"
    "t2 = (if \<not> (changed \<and> entering_review s old_id (ct_StatusID t)) \<or> ct_PreReviewRestore t3 \<or> ct_AssigneeID t = None then t3
           else t3\<lparr>ct_PreReviewAssigneeID := ct_AssigneeID t, ct_PreReviewAssigneeType := Some (ct_AssigneeType t)\<rparr>)"
proof -
  define t1 where "t1 = (if changed \<and> entering_review s old_id (ct_StatusID t) then t\<lparr>ct_PreReviewRestore := False\<rparr> else t)"
  obtain r s1 where e: "prepareTransitionAssigneeRoute env t1 old_id wanted kind changed s = (r, s1)" by fastforce
  then obtain t3 where "r = Inr t3" "s1 = s'"
    "t2 = (if \<not> (changed \<and> entering_review s old_id (ct_StatusID t)) \<or> ct_PreReviewRestore t3 \<or> ct_AssigneeID t = None then t3
           else t3\<lparr>ct_PreReviewAssigneeID := ct_AssigneeID t, ct_PreReviewAssigneeType := Some (ct_AssigneeType t)\<rparr>)"
    using assms unfolding prepareTransitionAssignee_def Let_def t1_def [symmetric] e by (auto split: sum.splits if_splits)
  then show thesis using that t1_def e by blast
qed

text \<open>C9. Whoever a move newly assigns, by the caller's wish, by the status' rule, as reviewer, as project lead or restored after the
  review, belongs to the workspace of the task's project: an agent at home there or with a live grant that accepts assignments, or
  a member; and is enrolled in the project.
\<close>

theorem assignee_in_workspace:
  assumes "prepareTransitionAssignee env t old_id wanted kind changed s = (Inr t2, s')"
    and "ct_AssigneeID t2 = Some u" "u \<noteq> uuid_Nil" "ct_AssigneeID t2 \<noteq> ct_AssigneeID t \<or> ct_AssigneeType t2 \<noteq> ct_AssigneeType t"
  shows "assignable (mo_dir env) (ct_ProjectID t) u (ct_AssigneeType t2) \<and> enrolled (mo_dir env) (ct_ProjectID t) u (ct_AssigneeType t2) s'"
proof -
  obtain t1 t3 where
    t1: "t1 = (if changed \<and> entering_review s old_id (ct_StatusID t) then t\<lparr>ct_PreReviewRestore := False\<rparr> else t)" and
    r: "prepareTransitionAssigneeRoute env t1 old_id wanted kind changed s = (Inr t3, s')" and
    t2_def: "t2 = (if \<not> (changed \<and> entering_review s old_id (ct_StatusID t)) \<or> ct_PreReviewRestore t3 \<or> ct_AssigneeID t = None then t3
           else t3\<lparr>ct_PreReviewAssigneeID := ct_AssigneeID t, ct_PreReviewAssigneeType := Some (ct_AssigneeType t)\<rparr>)"
    by (rule prepare_route [OF assms(1)])
  have t2: "ct_AssigneeID t2 = ct_AssigneeID t3" "ct_AssigneeType t2 = ct_AssigneeType t3" by (simp_all add: t2_def)
  have same: "ct_AssigneeID t1 = ct_AssigneeID t" "ct_AssigneeType t1 = ct_AssigneeType t" "ct_ProjectID t1 = ct_ProjectID t"
    by (simp_all add: t1)
  from r have "reassigned_well (mo_dir env) t1 t3 s'"
  proof (rule route_cases, goal_cases)
    case (1 k)
    then show ?case by (intro reassigned_well_ensured) (simp_all add: assign_def)
  next
    case 2
    then show ?case by (simp add: reassigned_well_same)
  next
    case (3 x)
    then show ?case using on_enter_well by blast
  next
    case (4 x old s1)
    then show ?case using review_well by blast
  next
    case (5 x old s1 k)
    then show ?case using restored_well by blast
  qed
  then show ?thesis
    using assms(2-4) unfolding reassigned_well_def t2 same by blast
qed


section \<open>Into review and back\<close>

lemma on_enter_stash:
  assumes "applyOnEnterAssignee env t x s = (Some t2, s')" and "cu_Category x = ''review''" "\<not> ct_PreReviewRestore t"
  shows "if ct_AssigneeID t2 = ct_AssigneeID t then t2 = t
    else ct_PreReviewRestore t2 \<and> ct_PreReviewAssigneeID t2 = ct_AssigneeID t \<and> ct_PreReviewAssigneeType t2 = Some (ct_AssigneeType t)"
  using assms
  by (auto simp: applyOnEnterAssignee_def assign_def stash_assignee_def split: option.splits prod.splits if_splits)

lemma review_stash:
  assumes "review_assignee env t old s = (Inr t2, s')" and "\<not> ct_PreReviewRestore t"
  shows "if ct_AssigneeID t2 = ct_AssigneeID t then t2 = t
    else ct_PreReviewRestore t2 \<and> ct_PreReviewAssigneeID t2 = ct_AssigneeID t \<and> ct_PreReviewAssigneeType t2 = Some (ct_AssigneeType t)"
  using assms
  by (auto simp: review_assignee_def assign_def stash_assignee_def split: option.splits prod.splits if_splits)

text \<open>On the way in, a task that the rules hand to somebody else stashes its assignee and says that he is to be restored; any other
  way in says that nobody is.\<close>

lemma stashed:
  assumes "prepareTransitionAssignee env t old_id wanted kind True s = (Inr t2, s')" and "entering_review s old_id (ct_StatusID t)"
  shows "if wanted = None \<and> ct_AssigneeID t2 \<noteq> ct_AssigneeID t
    then ct_PreReviewRestore t2 \<and> ct_PreReviewAssigneeID t2 = ct_AssigneeID t \<and> ct_PreReviewAssigneeType t2 = Some (ct_AssigneeType t)
    else \<not> ct_PreReviewRestore t2"
proof -
  define t1 where "t1 = t\<lparr>ct_PreReviewRestore := False\<rparr>"
  obtain t1' t3 where t1': "t1' = (if True \<and> entering_review s old_id (ct_StatusID t) then t\<lparr>ct_PreReviewRestore := False\<rparr> else t)" and
    r: "prepareTransitionAssigneeRoute env t1' old_id wanted kind True s = (Inr t3, s')" and
    t2: "t2 = (if \<not> (True \<and> entering_review s old_id (ct_StatusID t)) \<or> ct_PreReviewRestore t3 \<or> ct_AssigneeID t = None then t3
           else t3\<lparr>ct_PreReviewAssigneeID := ct_AssigneeID t, ct_PreReviewAssigneeType := Some (ct_AssigneeType t)\<rparr>)"
    by (rule prepare_route [OF assms(1)])
  have t1: "t1' = t1" "\<not> ct_PreReviewRestore t1" "ct_AssigneeID t1 = ct_AssigneeID t" "ct_AssigneeType t1 = ct_AssigneeType t"
    "ct_StatusID t1 = ct_StatusID t"
    using t1' assms(2) by (simp_all add: t1_def)
  have review: "cu_Category x = ''review''" if "get_status s (ct_StatusID t1) = Some x" for x
    using assms(2) that by (auto simp: entering_review_def t1(5) split: option.splits)
  have "if wanted = None \<and> ct_AssigneeID t3 \<noteq> ct_AssigneeID t
    then ct_PreReviewRestore t3 \<and> ct_PreReviewAssigneeID t3 = ct_AssigneeID t \<and> ct_PreReviewAssigneeType t3 = Some (ct_AssigneeType t)
    else \<not> ct_PreReviewRestore t3"
    using r unfolding t1(1)
  proof (rule route_cases, goal_cases)
    case (3 x)
    show ?case using on_enter_stash [OF 3(3) review [OF 3(2)] t1(2)] 3(1) t1 by (auto split: if_splits)
  next
    case (4 x old s1)
    show ?case using review_stash [OF 4(6) t1(2)] 4(1) t1 by (auto split: if_splits)
  qed (use t1 in \<open>simp_all add: assign_def\<close>)
  then show ?thesis by (auto simp: t2 assms(2) split: if_splits)
qed

lemma restored_assignee_ok:
  assumes "\<And>u. ct_PreReviewAssigneeID t = Some u \<Longrightarrow> assignee_refusal (mo_dir env) (ct_ProjectID t) (Some u) k = None"
  shows "\<exists>s'. restored_assignee env t k s = (Inr ((assign (ct_PreReviewAssigneeID t) k t)\<lparr>ct_PreReviewAssigneeID := None,
     ct_PreReviewAssigneeType := None, ct_PreReviewRestore := False\<rparr>), s')"
proof -
  define a where "a = ct_PreReviewAssigneeID t"
  have 1: "assertAssigneeInProjectWorkspace (mo_dir env) (ct_ProjectID t) a k = None"
    using assms unfolding a_def assignee_refusal_def
    by (cases "ct_PreReviewAssigneeID t") (simp add: assertAssigneeInProjectWorkspace_def, simp del: first_refusal.simps)
  obtain e s1 where e: "ensureAssigneeProjectMember (mo_dir env) (ct_ProjectID t) a k s = (e, s1)" by fastforce
  have "e = (if a = None then None else assignee_refusal (mo_dir env) (ct_ProjectID t) a k)"
    using ensure_answer [of "mo_dir env" "ct_ProjectID t" a k s] by (simp add: e)
  then have "e = None"
    using assms by (cases a) (simp_all add: a_def)
  then show ?thesis
    unfolding restored_assignee_def a_def [symmetric] using 1 e by simp
qed

text \<open>C18. A review that hands a task over is undone by the way back. If entering review changed the assignee without the move naming
  one, then bouncing the task to a todo or in-progress status without a rule of its own gives it back to the assignee and type it
  had before the review and clears the stash, as long as that assignee may still be assigned, and touches nothing else of it; if
  the move into review named the assignee, or review left the assignee alone, the bounce changes nothing.
\<close>

theorem review_bounce:
  assumes enter: "prepareTransitionAssignee env t old_id wanted kind True s = (Inr t2, s1)" "entering_review s old_id (ct_StatusID t)"
    and bounce: "get_status s2 back_id = Some bk" "cu_Category bk \<in> {''todo'', ''in_progress''}"
      "get_status s2 (ct_StatusID t) = Some rv" "cu_Category rv = ''review''"
      "on_enter_target (mo_dir env) (ct_ProjectID t) (cu_Name bk) = None"
    and may: "\<And>u. ct_AssigneeID t = Some u \<Longrightarrow> assignee_refusal (mo_dir env) (ct_ProjectID t) (Some u) (ct_AssigneeType t) = None"
    and t3: "t3 = t2\<lparr>ct_StatusID := back_id\<rparr>" "ct_ProjectID t2 = ct_ProjectID t"
  shows "\<exists>t4 s3. prepareTransitionAssignee env t3 (ct_StatusID t) None kind' True s2 = (Inr t4, s3)
    \<and> t4 = (if wanted = None \<and> ct_AssigneeID t2 \<noteq> ct_AssigneeID t
            then t3\<lparr>ct_AssigneeID := ct_AssigneeID t, ct_AssigneeType := ct_AssigneeType t,
                    ct_PreReviewAssigneeID := None, ct_PreReviewAssigneeType := None, ct_PreReviewRestore := False\<rparr>
            else t3)"
proof -
  have leaving: "\<not> entering_review s2 (ct_StatusID t) (ct_StatusID t3)"
    using bounce by (auto simp: entering_review_def t3)
  have prep: "prepareTransitionAssignee env t3 (ct_StatusID t) None kind' True s2 = (Inr t4, s3)"
    if "prepareTransitionAssigneeRoute env t3 (ct_StatusID t) None kind' True s2 = (Inr t4, s3)" for t4 s3
    unfolding prepareTransitionAssignee_def Let_def using leaving that by simp
  have enter_none: "applyOnEnterAssignee env t3 bk s2 = (None, s2)"
    using bounce(5) by (simp add: applyOnEnterAssignee_def t3)
  have st: "get_status s2 (ct_StatusID t3) = Some bk" "cu_Category bk \<noteq> ''review''" using bounce by (auto simp: t3)
  show ?thesis
  proof (cases "wanted = None \<and> ct_AssigneeID t2 \<noteq> ct_AssigneeID t")
    case False
    have "\<not> ct_PreReviewRestore t2" using stashed [OF enter] False by (simp split: if_splits)
    then have "prepareTransitionAssigneeRoute env t3 (ct_StatusID t) None kind' True s2 = (Inr t3, s2)"
      unfolding prepareTransitionAssigneeRoute_def using st bounce(3) enter_none by (simp add: t3 split: option.split)
    then show ?thesis using prep False by auto
  next
    case True
    have stash: "ct_PreReviewRestore t2" "ct_PreReviewAssigneeID t3 = ct_AssigneeID t" "ct_PreReviewAssigneeType t3 = Some (ct_AssigneeType t)"
      using stashed [OF enter] True by (simp_all add: t3)
    obtain s3 where "restored_assignee env t3 (ct_AssigneeType t) s2 = (Inr ((assign (ct_PreReviewAssigneeID t3) (ct_AssigneeType t) t3)
        \<lparr>ct_PreReviewAssigneeID := None, ct_PreReviewAssigneeType := None, ct_PreReviewRestore := False\<rparr>), s3)"
      using restored_assignee_ok [of t3 env "ct_AssigneeType t" s2] may stash(2) t3 by auto
    then have "prepareTransitionAssigneeRoute env t3 (ct_StatusID t) None kind' True s2 =
        (Inr ((assign (ct_PreReviewAssigneeID t3) (ct_AssigneeType t) t3)
        \<lparr>ct_PreReviewAssigneeID := None, ct_PreReviewAssigneeType := None, ct_PreReviewRestore := False\<rparr>), s3)"
      unfolding prepareTransitionAssigneeRoute_def using st bounce(2-4) enter_none stash(1,3)
      by (simp add: t3)
    from prep [OF this] show ?thesis unfolding if_P [OF True] by (simp add: assign_def stash(2))
  qed
qed

section \<open>Done with proof\<close>

definition settled :: "move_env \<Rightarrow> uuid \<Rightarrow> VCSLink \<Rightarrow> bool" where
  "settled env ws l \<longleftrightarrow> unsettled l \<longrightarrow> isPRMergedLive env l ws = Some True"

lemma heal_comments: "ms_Comments (healVCSLinkStatus env l s) = ms_Comments s"
  by (simp add: healVCSLinkStatus_def upsert_link_def split: list.split)

lemma check_links_result:
  "check_links env ws ls needs s = (e, n, s1) \<Longrightarrow>
   ms_Comments s1 = ms_Comments s \<and> (e = None \<longleftrightarrow> (\<forall>l\<in>set ls. settled env ws l)) \<and> (e = None \<longrightarrow> (n \<longleftrightarrow> needs \<and> (\<forall>l\<in>set ls. IsRelatesTo l)))"
proof (induction ls arbitrary: needs s)
  case (Cons l ls)
  show ?case
  proof (cases "settled env ws l")
    case True
    define s0 where "s0 = (if unsettled l then healVCSLinkStatus env l s else s)"
    have "check_links env ws ls (needs \<and> IsRelatesTo l) s0 = (e, n, s1)"
      using Cons.prems True by (auto simp: Let_def s0_def settled_def)
    from Cons.IH [OF this] True show ?thesis by (auto simp: s0_def heal_comments)
  next
    case False
    then have "unsettled l" "isPRMergedLive env l ws \<noteq> Some True" by (auto simp: settled_def)
    then have "e \<noteq> None" "s1 = s"
      using Cons.prems by (auto simp: Let_def split: option.splits bool.splits)
    then show ?thesis using False by auto
  qed
qed auto

text \<open>C16. The evidence gate admits a move to done by a user or an agent exactly when every pull request of the task's own work is
  settled (merged or closed as recorded, or merged by what the provider says now; links to somebody else's work are not asked), and
  something shows the work: a link of its own, an artifact, or a comment.
\<close>

theorem done_has_evidence:
  assumes "mo_actor_type env \<noteq> ''system''"
  shows "fst (done_gate env t (counts_of s (ct_ID t)) ''done'' s) = None \<longleftrightarrow>
    (\<forall>l\<in>set (list_links s (ct_ID t)). settled env (resolveProjectWorkspace (mo_dir env) (ct_ProjectID t)) l)
    \<and> ((\<exists>l\<in>set (list_links s (ct_ID t)). \<not> IsRelatesTo l) \<or> ArtifactCount s (ct_ID t) > 0 \<or> HasAnyComment s (ct_ID t))"
proof -
  define ws where "ws = resolveProjectWorkspace (mo_dir env) (ct_ProjectID t)"
  obtain e n s1 where c: "check_links env ws (list_links s (ct_ID t)) True s = (e, n, s1)" by (metis prod_cases3)
  note res = check_links_result [OF c]
  have none: "list_links s (ct_ID t) = []" if "VCSLinkCount s (ct_ID t) = 0"
    using that by (simp add: VCSLinkCount_def list_links_def ListByTask_def)
  have talk: "HasAnyComment s1 (ct_ID t) = HasAnyComment s (ct_ID t)" using res by (simp add: HasAnyComment_def)
  show ?thesis
  proof (cases "VCSLinkCount s (ct_ID t) = 0")
    case True
    then show ?thesis
      using assms none [OF True] by (auto simp: done_gate_def counts_of_def refuse_if_def)
  next
    case False
    then have "fst (done_gate env t (counts_of s (ct_ID t)) ''done'' s) =
        (case e of Some x \<Rightarrow> Some x
         | None \<Rightarrow> refuse_if (n \<and> ArtifactCount s (ct_ID t) = 0 \<and> \<not> HasAnyComment s1 (ct_ID t)) (DoneEvidence None))"
      using assms c by (simp add: done_gate_def counts_of_def ws_def split: option.split)
    then show ?thesis
      using res unfolding ws_def [symmetric] by (cases e) (auto simp: talk)
  qed
qed

section \<open>The author's proof\<close>

text \<open>C7. Where a rule lets only the author with proof of delivery through, nobody else passes, and the author passes on facts that are
  true now: the card has a delivery link, every delivery link is merged, shipped and green, and for each of them on GitHub, GitHub
  said so in this request: the pull request is merged at that head and all its checks passed.
\<close>

theorem ship_gate_confirmed:
  assumes ids: "distinct (map vl_ID (ms_Links s))"
    and cfg: "GetProjectWorkflowRules (mo_dir env) (ct_ProjectID t) = Some cfg"
    and old: "get_status s old_id = Some old" and rule: "map_of (wf_Transitions cfg) (cu_Slug old) = Some tr"
    and only: "ActorsFor tr (cu_Slug x) = [''author_if_merged_shipped'']"
    and actor: "mo_actor_type env \<in> {''user'', ''agent''}"
    and gate: "applyTransitionGate env t old_id x s = ((mode, None, diag), w, s1)"
  shows "taskAuthorID t = Some (mo_actor env) \<and> (\<exists>links. sync_links env t s = (links, w, s1)
    \<and> (\<exists>l\<in>set links. delivery_link l) \<and> (\<forall>l\<in>set links. delivery_link l \<longrightarrow> IsMergedShippedGreen l)
    \<and> (\<forall>l\<in>set links. githubLinkIsDelivery l \<longrightarrow>
        (\<exists>a head checks. dr_GitHub (mo_dir env) (resolveProjectWorkspace (mo_dir env) (ct_ProjectID t)) = Some a
          \<and> ga_Pull a (vl_URL l) = Some (True, head) \<and> HeadSHA l = TrimSpace head
          \<and> GetCheckRunsSummary a (vl_URL l) head = Some checks \<and> cs_Total checks > 0 \<and> cs_Status checks = ''success'')))"
proof -
  obtain links w1 s2 where sync: "sync_links env t s = (links, w1, s2)" by (metis prod_cases3)
  have "wf_Transitions cfg \<noteq> []" using rule by auto
  moreover have "needs_links cfg (cu_Slug old) (cu_Slug x)" by (simp add: needs_links_def rule only hasActorPattern_def)
  ultimately have g: "evaluateTransitionGate (cu_Slug old) (cu_Slug x) (move_actor env) t links cfg = (mode, None, diag)" "w1 = w" "s2 = s1"
    using gate sync by (simp_all add: applyTransitionGate_def cfg old)
  have act: "ta_Type (move_actor env) = mo_actor_type env" "ta_ID (move_actor env) = mo_actor env" by (simp_all add: move_actor_def)
  have "isTransitionActorAllowed (move_actor env) t links [''author_if_merged_shipped'']"
    using g(1) actor rule only \<open>wf_Transitions cfg \<noteq> []\<close>
    by (auto simp: evaluateTransitionGate_def Let_def act split: if_splits)
  then have a: "same_actor (move_actor env) (taskAuthorID t)" "mergedShippedEvidence links"
    using actor by (auto simp: isTransitionActorAllowed_def pattern_allows_def act)
  have green: "\<forall>l\<in>set links. delivery_link l \<longrightarrow> IsMergedShippedGreen l" "\<exists>l\<in>set links. delivery_link l"
    using a(2) by (auto simp: mergedShippedEvidence_def Let_def list_all_iff filter_empty_conv)
  define api where "api = dr_GitHub (mo_dir env) (resolveProjectWorkspace (mo_dir env) (ct_ProjectID t))"
  obtain table where out: "syncGitHubEvidenceWrote api (ct_ID t) (list_links s (ct_ID t)) (ms_Links s) = (links, w, table)"
    using sync g(2) by (auto simp: sync_links_def api_def split: prod.splits)
  have conf: "\<exists>a head checks. api = Some a \<and> ga_Pull a (vl_URL l) = Some (True, head) \<and> HeadSHA l = TrimSpace head
      \<and> GetCheckRunsSummary a (vl_URL l) head = Some checks \<and> cs_Total checks > 0 \<and> cs_Status checks = ''success''"
    if "l \<in> set links" "githubLinkIsDelivery l" for l
  proof (rule green_is_confirmed [OF ids list_links_def out that])
    have "delivery_link l" using that(2) by (simp add: githubLinkIsDelivery_def delivery_link_def)
    then show "IsMergedShippedGreen l" using green(1) that(1) by blast
  qed
  show ?thesis
    using a(1) sync g(2,3) green conf unfolding same_actor_def act api_def by blast
qed

end
