(* ===== verification/Move_Samples.thy ===== *)
theory Move_Samples
  imports Move_Assignee
begin

text \<open>
  A small project on which the properties of a move are applied: a builder and a reviewer, four statuses, a task in progress with
  a comment. The reviewer of the rule is a parameter: one that exists, and one that does not.
\<close>

definition sample_agent :: "uuid \<Rightarrow> string \<Rightarrow> agent_row" where
  "sample_agent u slug = \<lparr>ag_ID = u, ag_WorkspaceID = 9, ag_Slug = slug, ag_AcceptsFrom = ListAccepts [''*''], ag_Deleted = False\<rparr>"

definition sample_workflow :: "string \<Rightarrow> WorkflowRulesConfig" where
  "sample_workflow reviewer =
     empty_workflow\<lparr>wf_Transitions := [(''Doing'', \<lparr>tr_Allowed = [], tr_AllowedActors = [], tr_AllowedActorsByTarget = [], tr_SetReviewer = reviewer\<rparr>)]\<rparr>"

definition sample_directory :: "string \<Rightarrow> directory" where
  "sample_directory reviewer =
     \<lparr>dr_Projects = [(1, 9)], dr_Agents = [sample_agent 21 ''bob'', sample_agent 22 ''rita''], dr_Grants = [], dr_Users = [],
      dr_WsMembers = [(9, 7)], dr_Owners = [], dr_Workflow = [(1, Some (sample_workflow reviewer))], dr_WsAssignment = [],
      dr_ProjAssignment = [], dr_DodGates = [], dr_GitHub = (\<lambda>_. None), dr_Merged = (\<lambda>_ _ _. None)\<rparr>"

definition sample_mover :: "string \<Rightarrow> move_env" where
  "sample_mover reviewer =
     \<lparr>mo_now = 100, mo_db_now = 100, mo_actor = 21, mo_actor_type = ''agent'', mo_fresh = (\<lambda>n. 1000 + of_nat n), mo_note = (\<lambda>r. r),
      mo_change_note = (\<lambda>_ _. ''assignee''), mo_parse_uuid = (\<lambda>_. None), mo_uuid_text = (\<lambda>_. ''id''), mo_same_url = (=),
      mo_dir = sample_directory reviewer\<rparr>"

definition sample_status :: "uuid \<Rightarrow> string \<Rightarrow> string \<Rightarrow> string \<Rightarrow> checkout_status" where
  "sample_status u name slug category = \<lparr>cu_ID = u, cu_ProjectID = 1, cu_Name = name, cu_Slug = slug, cu_Category = category\<rparr>"

definition moved_card :: checkout_task where
  "moved_card = \<lparr>ct_ID = 5, ct_ProjectID = 1, ct_StatusID = 32, ct_Deleted = False, ct_Version = 3, ct_UpdatedAt = 50,
     ct_CompletedAt = None, ct_StatusChangedAt = None, ct_AssigneeID = Some 21, ct_AssigneeType = ''agent'', ct_AssignedBy = '''',
     ct_PreReviewAssigneeID = None, ct_PreReviewAssigneeType = None, ct_PreReviewRestore = False, ct_DueDate = None, ct_Labels = [],
     ct_DelegationLevel = ''full'', ct_HumanGate = False, ct_IsShipped = False, ct_StageStatusID = None, ct_ParentTaskID = None,
     ct_CreatedBy = 7, ct_CreatedByType = ''user'', ct_ReviewerID = None, ct_GateAuthor = None, ct_GateAuthorType = None,
     ct_HumanGateClass = '''', ct_DodChecks = [],
     ct_Lease = \<lparr>cl_Holder = None, cl_Token = None, cl_ExpiresAt = None, cl_AcquiredAt = None, cl_SessionID = None, cl_RequestID = None, cl_Generation = 0\<rparr>\<rparr>"

definition sample_talk :: comment_row where
  "sample_talk = \<lparr>cm_ID = 900, cm_TaskID = 5, cm_AuthorID = 21, cm_AuthorType = ''agent'', cm_Body = ''ready'', cm_IsInternal = False,
     cm_Informational = False, cm_HandoffParam = '''', cm_CreatedAt = 60\<rparr>"

definition moved_board :: move_store where
  "moved_board =
     \<lparr>ms_Board = \<lparr>co_Tasks = [moved_card],
        co_Statuses = [sample_status 31 ''Todo'' ''todo'' ''todo'', sample_status 32 ''Doing'' ''doing'' ''in_progress'',
                       sample_status 33 ''Review'' ''review'' ''review'', sample_status 34 ''Done'' ''done'' ''done''],
        co_Rules = [], co_Waits = [], co_Activity = [(5, 60)], co_Agents = [], co_Log = []\<rparr>,
      ms_Comments = [sample_talk], ms_Links = [], ms_Artifacts = [], ms_Members = []\<rparr>"

definition sample_move :: "uuid \<Rightarrow> MoveTaskInput" where
  "sample_move q =
     \<lparr>mi_StatusID = Some q, mi_AssigneeID = None, mi_AssigneeType = '''', mi_ExpectedVersion = None, mi_ExpectedStatusID = None,
      mi_ExpectedUpdatedAt = None, mi_ExpectedAssigneeID = None, mi_Source = ''api'', mi_Reaper = None, mi_AlarmDue = None,
      mi_AlarmLabels = [], mi_CheckoutStage = False\<rparr>"

lemma sample_row: "task_GetByID moved_board 5 = Some moved_card"
  by (simp add: task_GetByID_def checkout_GetByID_def moved_board_def moved_card_def)

lemma sample_statuses:
  "get_status moved_board 31 = Some (sample_status 31 ''Todo'' ''todo'' ''todo'')"
  "get_status moved_board 32 = Some (sample_status 32 ''Doing'' ''doing'' ''in_progress'')"
  "get_status moved_board 33 = Some (sample_status 33 ''Review'' ''review'' ''review'')"
  "get_status moved_board 34 = Some (sample_status 34 ''Done'' ''done'' ''done'')"
  by (simp_all add: get_status_def status_GetByID_def moved_board_def sample_status_def)

lemma idle_versioned: "versioned u id"
  by (simp add: versioned_def)

lemma sample_cfg: "GetProjectWorkflowRules (sample_directory r) 1 = Some (sample_workflow r)"
  by (simp add: GetProjectWorkflowRules_def sample_directory_def)

lemma sample_on_enter: "on_enter_target (sample_directory r) 1 name = None"
  by (simp add: on_enter_target_def sample_cfg sample_workflow_def empty_workflow_def go_get_def)

text \<open>Moves to todo and to review are admitted.\<close>

lemma sample_status_sel [simp]:
  "cu_ID (sample_status u name slug c) = u" "cu_ProjectID (sample_status u name slug c) = 1" "cu_Name (sample_status u name slug c) = name"
  "cu_Slug (sample_status u name slug c) = slug" "cu_Category (sample_status u name slug c) = c"
  by (simp_all add: sample_status_def)

lemma moved_card_sel [simp]:
  "ct_ID moved_card = 5" "ct_ProjectID moved_card = 1" "ct_StatusID moved_card = 32" "ct_Version moved_card = 3"
  "ct_AssigneeID moved_card = Some 21" "ct_AssigneeType moved_card = ''agent''" "\<not> ct_HumanGate moved_card" "\<not> ct_IsShipped moved_card"
  "ct_DelegationLevel moved_card = ''full''" "ct_CreatedBy moved_card = 7" "ct_PreReviewAssigneeType moved_card = None"
  "ct_PreReviewAssigneeID moved_card = None" "\<not> ct_PreReviewRestore moved_card" "ct_CompletedAt moved_card = None"
  by (simp_all add: moved_card_def)

lemma sample_mover_sel [simp]:
  "mo_dir (sample_mover r) = sample_directory r" "mo_actor (sample_mover r) = 21" "mo_actor_type (sample_mover r) = ''agent''"
  "mo_parse_uuid (sample_mover r) = (\<lambda>_. None)"
  by (simp_all add: sample_mover_def)

lemma sample_rules: "rules_gate [] env s t c = None"
  by (simp add: rules_gate_def evaluateRulesForMove_def Evaluate_def resolveInheritance_def repo_GetEffective_def List.map_filter_def
    split: option.split)

lemma sample_gates:
  assumes "c \<in> {''todo'', ''review''}"
  shows "move_gates [] (sample_mover r) moved_card n 3 (sample_status u name slug c) moved_board = (Inr (3, None), moved_board)"
proof -
  have row: "row_gates (sample_mover r) moved_card c = None"
    using assms by (auto simp: row_gates_def supervised_gate_def human_gate_def shipped_gate_def park_gate_def isBacklogCategory_def)
  have cfg: "wf_Transitions (sample_workflow r) \<noteq> []" "map_of (wf_Transitions (sample_workflow r)) ''doing'' = None"
    by (simp_all add: sample_workflow_def empty_workflow_def)
  have gate: "applyTransitionGate (sample_mover r) moved_card 32 (sample_status u name slug c) moved_board
    = ((gate_mode (sample_workflow r), None, None), 0, moved_board)"
    using cfg by (simp add: applyTransitionGate_def sample_cfg sample_statuses needs_links_def evaluateTransitionGate_def Let_def)
  have talk: "HasAnyComment moved_board 5" by (simp add: HasAnyComment_def moved_board_def sample_talk_def)
  have "midPipelineConfig (sample_directory r) 1 = None"
    by (simp add: midPipelineConfig_def sample_cfg sample_workflow_def empty_workflow_def)
  then have review: "review_gate (sample_mover r) moved_board moved_card n c = None"
    using talk by (simp add: review_gate_def passesReviewEvidenceGate_def gatherReviewEvidence_def ReviewStrict_def hasLooseEvidence_def Let_def)
  show ?thesis
    using assms by (auto simp: move_gates_def Let_def gate row sample_rules review gate_refusal_def triage_gate_def done_gate_def dod_gate_def)
qed

lemma sample_judged:
  assumes "get_status moved_board q = Some (sample_status q name slug c)" "c \<in> {''todo'', ''review''}" "q \<noteq> 32"
  shows "judge_move [] (sample_mover r) (sample_move q) moved_card n moved_board
    = (Inr (entered (sample_mover r) (sample_status q name slug c) moved_card, 3, True), moved_board)"
  using sample_gates [OF assms(2)] assms(1,3) by (simp add: judge_move_def sample_move_def with_alarm_def)

lemma sample_back: "fst (moveTaskOnce [] (sample_mover r) (id, id) 5 (sample_move 31) moved_board) = None"
proof -
  define t1 where "t1 = entered (sample_mover r) (sample_status 31 ''Todo'' ''todo'' ''todo'') moved_card"
  have t1: "ct_ID t1 = 5" "ct_StatusID t1 = 31" "ct_ProjectID t1 = 1" "ct_PreReviewAssigneeType t1 = None"
    by (simp_all add: t1_def entered_def)
  have prep: "prepareTransitionAssignee (sample_mover r) t1 32 None '''' True moved_board = (Inr t1, moved_board)"
    by (simp add: prepareTransitionAssignee_def prepareTransitionAssigneeRoute_def entering_review_def t1 sample_statuses
      applyOnEnterAssignee_def sample_on_enter)
  have imp: "implicit_caller (sample_move 31)" by (simp add: implicit_caller_def has_preconditions_def sample_move_def)
  have "fst (write_move (sample_mover r) (sample_move 31) moved_card t1 3 True moved_board) = None"
    by (rule implicit_write [OF imp, of _ _ moved_card]) (simp_all add: t1 sample_row)
  then show ?thesis
    using sample_judged [OF sample_statuses(1), of r] prep
    by (simp add: moveTaskOnce_def sample_row preconditions_hold_def expects_def explicit_assignee_refusal_def t1_def [symmetric])
      (simp add: sample_move_def)
qed


section \<open>The properties at work\<close>

theorem move_respects_gates_witness:
  "\<exists>s' x. moveTaskOnce [] (sample_mover ''rita'') (id, id) 5 (sample_move 31) moved_board = (None, s')
     \<and> map_option ct_StatusID (task_GetByID s' 5) = Some 31 \<and> get_status s' 31 = Some x"
proof -
  obtain s' where s': "moveTaskOnce [] (sample_mover ''rita'') (id, id) 5 (sample_move 31) moved_board = (None, s')"
    using sample_back [of "''rita''"] by (metis prod.collapse)
  have v: "versioned 5 (fst (id, id))" "versioned 5 (snd (id, id))" by (simp_all add: idle_versioned)
  have i: "mi_StatusID (sample_move 31) = Some 31" "31 \<noteq> ct_StatusID moved_card" by (simp_all add: sample_move_def)
  show ?thesis
    using move_respects_gates [OF v s' sample_row i] s' by auto
qed

theorem refused_move_keeps_row_witness:
  "\<exists>s' r. moveTaskOnce [] (sample_mover ''rita'') (id, id) 5 (sample_move 99) moved_board = (Some (MoveRefused (NotFound ''TaskStatus'')), s')
     \<and> task_GetByID s' 5 = Some r \<and> r = moved_card\<lparr>ct_Version := ct_Version r\<rparr>"
proof -
  have none: "get_status moved_board 99 = None" by (simp add: get_status_def status_GetByID_def moved_board_def)
  obtain s' where s': "moveTaskOnce [] (sample_mover ''rita'') (id, id) 5 (sample_move 99) moved_board = (Some (MoveRefused (NotFound ''TaskStatus'')), s')"
    by (simp add: moveTaskOnce_def sample_row preconditions_hold_def expects_def explicit_assignee_refusal_def judge_move_def sample_move_def none)
  have "ct_StageStatusID moved_card = None" by (simp add: moved_card_def)
  then have same: "moved_card = moved_card\<lparr>ct_Version := ct_Version moved_card\<rparr>"
    "moved_card\<lparr>ct_Version := v, ct_StageStatusID := None\<rparr> = moved_card\<lparr>ct_Version := v\<rparr>" for v
    by (cases moved_card, simp)+
  obtain r where r: "task_GetByID s' 5 = Some r" "r = moved_card \<or> r = moved_card\<lparr>ct_Version := ct_Version r, ct_StageStatusID := None\<rparr>"
    using refused_move_keeps_row [OF s' sample_row] \<open>ct_StageStatusID moved_card = None\<close> by auto
  then have "r = moved_card\<lparr>ct_Version := ct_Version r\<rparr>" using same by metis
  with r(1) s' show ?thesis by blast
qed

lemma ghost_unknown: "resolveSetReviewer (sample_mover ''ghost'') 1 ''ghost'' = Inl ReviewerUnknown"
  by (simp add: resolveSetReviewer_def agent_named_def project_workspace_def sample_directory_def slug_agent_def agent_GetBySlug_def
    sample_agent_def ListActiveByWorkspace_def)

lemma sample_reviewer: "r \<noteq> '''' \<Longrightarrow> set_reviewer (sample_workflow r) ''Doing'' = Some r"
  by (simp add: set_reviewer_def sample_workflow_def)

theorem unresolved_reviewer_blocks_review_witness:
  "fst (moveTaskOnce [] (sample_mover ''ghost'') (id, id) 5 (sample_move 33) moved_board) \<noteq> None"
  by (rule unresolved_reviewer_blocks_review [where x = "sample_status 33 ''Review'' ''review'' ''review''" and q = 33 and t = moved_card
      and old = "sample_status 32 ''Doing'' ''doing'' ''in_progress''" and cfg = "sample_workflow ''ghost''" and reviewer = "''ghost''"
      and err = ReviewerUnknown])
    (simp_all add: idle_versioned sample_row sample_statuses sample_reviewer ghost_unknown sample_cfg sample_on_enter, simp_all add: sample_move_def)

text \<open>A neighbour that writes a comment-like child row in each of the first two attempts.\<close>

definition disturb :: "move_store \<Rightarrow> move_store" where
  "disturb s = s\<lparr>ms_Board := touch_task 5 (ms_Board s)\<rparr>"

lemma disturb_versioned: "versioned 5 disturb"
proof -
  have "rows 5 1 s (disturb s)" for s
    using rows_touch [of 5 1 s "ms_Links s"] by (simp add: disturb_def)
  then show ?thesis
    by (auto simp: versioned_def rows_def bumps_version bump_version)
qed

theorem implicit_move_never_conflicts_witness:
  "\<not> is_conflict (fst (MoveTask [] (sample_mover ''rita'') (\<lambda>k. if k < 2 then (id, disturb) else (id, id)) 5 (sample_move 31) moved_board))"
  by (rule implicit_move_never_conflicts)
    (auto simp: implicit_caller_def has_preconditions_def sample_move_def idle_versioned disturb_versioned sample_statuses)

text \<open>Into review the task goes to the reviewer, and back to the builder.\<close>

definition reviewed :: checkout_task where
  "reviewed = entered (sample_mover ''rita'') (sample_status 33 ''Review'' ''review'' ''review'') moved_card"

definition handed :: checkout_task where
  "handed = assign (Some 22) ''agent'' (stash_assignee (reviewed\<lparr>ct_PreReviewRestore := False\<rparr>))"

lemma reviewed_sel [simp]:
  "ct_ID reviewed = 5" "ct_ProjectID reviewed = 1" "ct_StatusID reviewed = 33" "ct_AssigneeID reviewed = Some 21"
  "ct_AssigneeType reviewed = ''agent''" "\<not> ct_PreReviewRestore reviewed"
  by (simp_all add: reviewed_def entered_def)

lemma sample_agents:
  "assertAssigneeInProjectWorkspace (sample_directory r) 1 (Some 22) ''agent'' = None"
  "assignee_refusal (sample_directory r) 1 (Some 21) ''agent'' = None" "assignee_refusal (sample_directory r) 1 (Some 22) ''agent'' = None"
  by (simp_all add: assertAssigneeInProjectWorkspace_def assignee_refusal_def assertAssigneeIsTyped_def assertAssigneeAcceptsAssignments_def
    project_workspace_def sample_directory_def agent_refusal_def agent_GetByID_def sample_agent_def)

lemma rita_found: "resolveSetReviewer (sample_mover ''rita'') 1 ''rita'' = Inr 22"
  by (simp add: resolveSetReviewer_def agent_named_def project_workspace_def sample_directory_def slug_agent_def agent_GetBySlug_def
    sample_agent_def)

lemma sample_entering: "entering_review moved_board 32 33"
  by (simp add: entering_review_def sample_statuses)

lemma sample_handed: "\<exists>s'. prepareTransitionAssignee (sample_mover ''rita'') reviewed 32 None '''' True moved_board = (Inr handed, s')"
proof -
  define t where "t = reviewed\<lparr>ct_PreReviewRestore := False\<rparr>"
  have t: "ct_ProjectID t = 1" "ct_StatusID t = 33" "ct_AssigneeID t = Some 21" by (simp_all add: t_def)
  obtain s' where e: "ensureAssigneeProjectMember (sample_directory ''rita'') 1 (Some 22) ''agent'' moved_board = (None, s')"
    using sample_agents(3) [of "''rita''"] by (simp add: ensureAssigneeProjectMember_def)
  have "prepareTransitionAssigneeRoute (sample_mover ''rita'') t 32 None '''' True moved_board = (Inr handed, s')"
    by (simp add: prepareTransitionAssigneeRoute_def t sample_statuses applyOnEnterAssignee_def sample_on_enter review_assignee_def
      resolveReviewTarget_def sample_cfg sample_reviewer rita_found sample_agents e handed_def t_def [symmetric])
  moreover have "ct_PreReviewRestore handed" by (simp add: handed_def assign_def stash_assignee_def)
  ultimately show ?thesis
    by (simp add: prepareTransitionAssignee_def Let_def sample_entering t_def)
qed

theorem assignee_in_workspace_witness: "assignable (sample_directory ''rita'') 1 22 ''agent''"
proof -
  obtain s' where s': "prepareTransitionAssignee (sample_mover ''rita'') reviewed 32 None '''' True moved_board = (Inr handed, s')"
    using sample_handed by blast
  show ?thesis
    using assignee_in_workspace [OF s', of 22] by (simp add: handed_def assign_def)
qed

theorem review_bounce_witness:
  "\<exists>t4 s3. prepareTransitionAssignee (sample_mover ''rita'') (handed\<lparr>ct_StatusID := 32\<rparr>) 33 None '''' True moved_board = (Inr t4, s3)
     \<and> t4 = handed\<lparr>ct_StatusID := 32, ct_AssigneeID := Some 21, ct_AssigneeType := ''agent'', ct_PreReviewAssigneeID := None,
                  ct_PreReviewAssigneeType := None, ct_PreReviewRestore := False\<rparr>"
proof -
  obtain s' where s': "prepareTransitionAssignee (sample_mover ''rita'') reviewed 32 None '''' True moved_board = (Inr handed, s')"
    using sample_handed by blast
  have h: "ct_AssigneeID handed \<noteq> ct_AssigneeID reviewed" "ct_ProjectID handed = 1" by (simp_all add: handed_def assign_def stash_assignee_def)
  have "\<exists>t4 s3. prepareTransitionAssignee (sample_mover ''rita'') (handed\<lparr>ct_StatusID := 32\<rparr>) (ct_StatusID reviewed) None '''' True moved_board = (Inr t4, s3)
    \<and> t4 = (if None = (None :: uuid option) \<and> ct_AssigneeID handed \<noteq> ct_AssigneeID reviewed
            then (handed\<lparr>ct_StatusID := 32\<rparr>)\<lparr>ct_AssigneeID := ct_AssigneeID reviewed, ct_AssigneeType := ct_AssigneeType reviewed,
                    ct_PreReviewAssigneeID := None, ct_PreReviewAssigneeType := None, ct_PreReviewRestore := False\<rparr>
            else handed\<lparr>ct_StatusID := 32\<rparr>)"
    by (rule review_bounce [OF s' _ sample_statuses(2), where rv = "sample_status 33 ''Review'' ''review'' ''review''"])
      (simp_all add: sample_entering sample_statuses sample_on_enter sample_agents h)
  then show ?thesis using h(1) by simp
qed

theorem done_has_evidence_witness:
  "fst (done_gate (sample_mover ''rita'') moved_card (counts_of moved_board 5) ''done'' moved_board) = None"
proof -
  have "list_links moved_board 5 = []" by (simp add: list_links_def ListByTask_def moved_board_def)
  moreover have "HasAnyComment moved_board 5" by (simp add: HasAnyComment_def moved_board_def sample_talk_def)
  ultimately show ?thesis using done_has_evidence [where env = "sample_mover ''rita''" and s = moved_board and t = moved_card] by simp
qed

text \<open>The author of a card with the merged pull request of \<open>Vcs_Evidence\<close> closes it.\<close>

definition ship_rule :: TransitionRule where
  "ship_rule = \<lparr>tr_Allowed = [], tr_AllowedActors = [''author_if_merged_shipped''], tr_AllowedActorsByTarget = [], tr_SetReviewer = ''''\<rparr>"

definition ship_mover :: move_env where
  "ship_mover = (sample_mover ''rita'')\<lparr>mo_dir := (sample_directory ''rita'')\<lparr>dr_GitHub := (\<lambda>_. Some sample_github),
     dr_Workflow := [(1, Some (empty_workflow\<lparr>wf_Transitions := [(''doing'', ship_rule)]\<rparr>))]\<rparr>\<rparr>"

definition ship_board :: move_store where
  "ship_board = moved_board\<lparr>ms_Links := [sample_pr]\<rparr>"

definition shipped_card :: checkout_task where
  "shipped_card = moved_card\<lparr>ct_ID := 1\<rparr>"

theorem ship_gate_confirmed_witness:
  "\<exists>mode diag s1. applyTransitionGate ship_mover shipped_card 32 (sample_status 34 ''Done'' ''done'' ''done'') ship_board = ((mode, None, diag), 2, s1)
     \<and> taskAuthorID shipped_card = Some (mo_actor ship_mover)"
proof -
  define cfg where "cfg = empty_workflow\<lparr>wf_Transitions := [(''doing'', ship_rule)]\<rparr>"
  have cfg: "GetProjectWorkflowRules (mo_dir ship_mover) (ct_ProjectID shipped_card) = Some cfg"
    by (simp add: GetProjectWorkflowRules_def ship_mover_def shipped_card_def cfg_def)
  have old: "get_status ship_board 32 = Some (sample_status 32 ''Doing'' ''doing'' ''in_progress'')"
    using sample_statuses(2) by (simp add: ship_board_def get_status_def)
  have rule: "map_of (wf_Transitions cfg) ''doing'' = Some ship_rule" "ActorsFor ship_rule ''done'' = [''author_if_merged_shipped'']"
    by (simp_all add: cfg_def ActorsFor_def ship_rule_def)
  have api: "dr_GitHub (mo_dir ship_mover) w = Some sample_github" for w by (simp add: ship_mover_def)
  have card: "ct_ID shipped_card = 1" "taskAuthorID shipped_card = Some 21" by (simp_all add: shipped_card_def taskAuthorID_def)
  have links: "list_links ship_board 1 = [sample_pr]" "ms_Links ship_board = [sample_pr]"
    by (simp_all add: list_links_def ListByTask_def ship_board_def sample_pr_def)
  obtain s1 where sync: "sync_links ship_mover shipped_card ship_board = ([sample_synced], 2, s1)"
    unfolding sync_links_def api card links sample_sync by simp
  have del: "delivery_link sample_synced" "IsMergedShippedGreen sample_synced"
    by (simp_all add: delivery_link_def green_iff sample_synced_def sample_pr_def sample_link_simps)
  have "mergedShippedEvidence [sample_synced]" using del by (simp add: mergedShippedEvidence_def)
  then have "isTransitionActorAllowed (move_actor ship_mover) shipped_card [sample_synced] [''author_if_merged_shipped'']"
    by (simp add: isTransitionActorAllowed_def pattern_allows_def move_actor_def ship_mover_def same_actor_def card)
  moreover have "wf_Transitions cfg \<noteq> []" using rule by auto
  moreover have "ta_Type (move_actor ship_mover) = ''agent''" by (simp add: move_actor_def ship_mover_def)
  moreover have "tr_Allowed ship_rule = []" by (simp add: ship_rule_def)
  ultimately have "applyTransitionGate ship_mover shipped_card 32 (sample_status 34 ''Done'' ''done'' ''done'') ship_board
      = ((gate_mode cfg, None, None), 2, s1)"
    by (simp add: applyTransitionGate_def cfg old sync needs_links_def rule hasActorPattern_def evaluateTransitionGate_def)
  moreover have "distinct (map vl_ID (ms_Links ship_board))" by (simp add: links)
  ultimately show ?thesis
    using ship_gate_confirmed [OF _ cfg old, of ship_rule "sample_status 34 ''Done'' ''done'' ''done''"] rule
    by (fastforce simp: ship_mover_def)
qed

end
