(* ===== verification/Spec2Isabelle.thy ===== *)
theory Spec2Isabelle
  imports Runtime_Preview Runtime_Reservation Execution_Properties Dependency_Invariant Dependency_Graph Runtime_State Move_Samples
begin

text \<open>
  The verification development of evc-mesh, a task board for people and AI agents: Go services over PostgreSQL. A task is
  checked out by an agent under a lease, tasks wait on each other through dependencies, and the runtime part decides which
  runner profile may work for an agent, reserves its capacity and records what it reports.

  \<^bold>\<open>Theories and the code they model.\<close>

  \<^item> \<open>Prelude\<close>: identifiers as \<open>128 word\<close>, instants as nanoseconds, Go maps as association lists, parts of Go's
    \<open>strings\<close> and \<open>time\<close>, SQL's three-valued logic, and the locale \<open>state_machine\<close> (reachable states, runs, invariants)
    that every component with a state interprets.
  \<^item> \<open>Api_Error\<close>: \<open>pkg/apierror/apierror.go\<close>, the refusals as values.
  \<^item> \<open>Runtime_Catalog\<close>: \<open>internal/domain/runtime.go\<close>, the catalog of controllers, accounts, quota pools, profiles and
    bindings: \<open>ValidateReferences\<close>, \<open>ResolvePool\<close>, \<open>DesiredFor\<close>.
  \<^item> \<open>Runtime_Preview\<close>: \<open>internal/domain/runtime_preview.go\<close>, the routing of a task to a profile: groups, the walk over
    quota edges, review independence, the declared compromise.
  \<^item> \<open>Runtime_Admission\<close>, \<open>Runtime_Reservation\<close>: the rows of \<open>internal/repository/postgres/runtime_repo.go\<close> that decide who
    may act, and \<open>runtime_reservation_repo.go\<close> over them: acquire, consume, renew, release, expire.
  \<^item> \<open>Runtime_Execution\<close>, \<open>Execution_Properties\<close>: \<open>internal/domain/runtime_execution.go\<close> and the write side of
    \<open>runtime_execution_repo.go\<close>: boots, numbered reports, the stored state of each attempt, freshness.
  \<^item> \<open>Dependency_Condition\<close>, \<open>Dependency_Store\<close>, \<open>Completion_Graph\<close>, \<open>Task_Dependency\<close>, \<open>Dependency_Invariant\<close>: the
    release rule of \<open>internal/domain/task.go\<close> and its SQL twin, the repository \<open>task_dependency_repo.go\<close>, the triggers of
    \<open>migrations/20261007004_completion_graph_guard.sql\<close>, and \<open>internal/service/task_dependency_service.go\<close>.
  \<^item> \<open>Task_Checkout\<close>, \<open>Checkout_Lease\<close>: the lease columns of a task, \<open>checkout_generation.go\<close>, the sweep and heartbeat of
    \<open>task_repo.go\<close>, the guarded status write of \<open>task_transition.go\<close>, and the checkout operations of \<open>task_service.go\<close>.
  \<^item> \<open>Cycle_Components\<close>, \<open>Graph_Read\<close>, \<open>Dependency_Graph\<close>: the dependency graph view. Tarjan's search of
    \<open>internal/domain/dependency_graph_cycles.go\<close>; the queries of \<open>dependency_graph_repo.go\<close> with the actor's membership; the
    projection \<open>internal/service/dependency_graph.go\<close> onto pages, and the handler \<open>DependencyGraph\<close> that parses the request.
  \<^item> \<open>Go_Json\<close>, \<open>Runtime_Json\<close>: JSON trees, what \<open>encoding/json\<close> and \<open>jsonb\<close> do to them, the locale \<open>json_codec\<close> of a type that
    comes back from its encoding, and its interpretations for the structs of the runtime state.
  \<^item> \<open>Runtime_State\<close>: what is happening with a card: \<open>internal/domain/runtime_state.go\<close>, \<open>operational_constraint.go\<close>, their
    write path through the task service and repository, the list filter, and \<open>internal/handler/runtime_state_handler.go\<close>.
  \<^item> \<open>Go_Strings\<close>, \<open>Vcs_Evidence\<close>: what a pull-request link proves (\<open>internal/domain/vcs_link.go\<close>), and the synchronisation with
    GitHub that runs before it is judged (\<open>internal/service/vcs_github_evidence.go\<close>, \<open>internal/integration/github/client.go\<close>).
  \<^item> \<open>Move_Store\<close>: the configuration and the principals a move reads (\<open>internal/domain/rules_config.go\<close>, \<open>rules_service.go\<close>),
    and the comments, links and members beside the board, with the version trigger of \<open>migrations/20261007002_task_version.sql\<close>.
  \<^item> \<open>Governance_Rules\<close>: \<open>internal/service/rule_service.go\<close>, \<open>rule_evaluators.go\<close> and \<open>rule_repo.go\<close>.
  \<^item> \<open>Workflow_Gate\<close>, \<open>Assignee_Route\<close>, \<open>Task_Move\<close>: \<open>MoveTask\<close> of \<open>internal/service/task_service.go\<close>: its gates
    (\<open>workflow_transition_gate.go\<close>, \<open>review_evidence.go\<close>, \<open>triage_entry.go\<close>, \<open>park_alarm.go\<close>), the assignee it computes
    (\<open>task_assignee_workspace.go\<close>), and the attempts around the guarded write of \<open>Task_Checkout\<close>.
  \<^item> \<open>Move_Safety\<close>, \<open>Move_Assignee\<close>, \<open>Move_Samples\<close>: what is proved of a move, and a concrete board on which it applies.

  \<^bold>\<open>How state and operations correspond.\<close> A table is a list of row records, a store record holds the tables a component
  writes, and a record of the other rows (\<open>world\<close>, \<open>exec_env\<close>, \<open>dep_env\<close>, \<open>checkout_env\<close>) holds what an operation only
  reads: clocks, fresh identifiers, rows of other tables. An operation is a function from the request and the store to a
  result and a store; a raised error is a value and leaves the store of the code's rollback. A transaction that locks its
  row first is one step, so an interleaving of requests is a list of steps. The dependency service without the triggers takes no lock:
  there a list of steps is a sequence of requests served one after another. Library code that the repository calls (JSON
  decoding of a stored catalog, SHA-256, the stored precision of a time) is an argument. Database failures are not modelled, refusals of a value are where a property depends on them: of the JSON of a runtime state and of a
  rule's row. A move is not one step: it reads, judges and writes, and what other requests do in between is an argument, a pair of functions on
  the store (\<open>gap\<close>), of which the theorems assume only that a changed row has a new version.

  \<^bold>\<open>What the lemmas show.\<close>

  \<^item> Catalog: validation accepts exactly the well-formed catalogs, resolution does not depend on map order, a controller sees
    exactly its slice.
  \<^item> Preview: what is selected is launchable, strict review is independent, a compromise is declared only when forced, the
    search ends and its trace is bounded.
  \<^item> Reservations: exclusive occupancy and capacity along every run, a reservation ends only by time or by proof, states only
    move forward, keys and consumes are idempotent, acquire admits only under a live grant.
  \<^item> Executions: stored states never go back over any run, reports stay inside the admitted scope although checks are cached,
    finished attempts stay finished, replays are harmless, freshness only degrades.
  \<^item> Dependencies: every run of requests keeps the edges sound and the completion graph acyclic, the three cycle searches
    decide reachability, the SQL release rule equals the Go rule, deleting an edge undoes its creation, refusals change nothing.
  \<^item> Checkout: every request implements an abstract lease, generations fence along every run, a live lease ends only by right,
    and a granted checkout is exactly what it says.
  \<^item> Graph view: the search finds exactly the cycles in any map order, an actor's answer does not depend on what is hidden from
    it, the pages of an overview partition the project, a focus view is small, closed and honest about being complete, and the
    endpoint always answers.
  \<^item> Runtime state: the validator accepts exactly the well-formed states, what is written comes back from the column's JSON,
    the SQL filter finds exactly the cards of a kind, and live blockers are always shown without betraying hidden ones.
  \<^item> Governance rules: the rules in force are exactly the most specific enabled ones, stored rules fit their scope, and the
    validation refuses no named rule that the table takes.
  \<^item> Moving a task: a committed move leaves a row that passes the gates whatever runs in between, a refused one changes no
    column but the version, the retries absorb interference, assignees belong to the workspace, a review's handover is undone by the way back, the evidence
    gates are exact, and an unresolvable reviewer blocks every move into review.

  \<^bold>\<open>Bounds.\<close> Searches that the code ends by a visited set are total functions here: \<open>dfs\<close>, the parent walk and the
  trigger's breadth-first search have termination proofs by the number of unvisited nodes, \<open>walk\<close> of the preview by the
  quota edges not yet taken. The depth of \<open>visit\<close> is bounded by the number of nodes, which the search never exceeds:
  \<open>visit_spec\<close> carries the count of unvisited nodes. Page arithmetic wraps at 64 bits. \<open>MoveTask\<close> makes three attempts, as the code does. No fuel limits a result.

  \<^bold>\<open>Not modelled.\<close> The HTTP handlers (but \<open>DependencyGraph\<close> and those of the runtime state) and middleware, the web client, the command line tools and packages, notifications,
  authentication and OAuth, memory, comments, documents, integrations and the event bus: they call the components above or
  are input and output. Of the tasks: creation, listing, the position, \<open>finish_task\<close>, the arming
  of human gates, recurring schedules, and what follows the commit of a move (journal, notifications, automatic transitions). Of executions: the read side. Of the runtime state: the typed outcome command,
  which also writes it, and the spelling of JSON. Of the migrations: all but the triggers of the completion graph
  and of the task row.
\<close>

end
